(* ===== verification/Prelude.thy ===== *)
theory Prelude
  imports Main "HOL-Library.Word"
begin

text \<open>
  Shared vocabulary of the development: the C integer types as words, the byte
  encoding of a 32-bit integer in memory (little endian, the host order of the
  supported targets), and the generic facts on lists, words and pages that the
  component theories share.
\<close>

unbundle bit_operations_syntax

type_synonym u8 = "8 word"
type_synonym u16 = "16 word"
type_synonym u32 = "32 word"
type_synonym u64 = "64 word"
type_synonym byte = "8 word"

section \<open>Outcomes\<close>

text \<open>
  How a C function that may not come back ends: with a result, with the end of the process
  (\<open>err\<close>, \<open>errx\<close>, a failed \<open>assert\<close>; the string says which), with an access to an object that
  does not exist, or never.
\<close>

datatype 'a outcome = Returned 'a | Exited string | Crashed string | Diverged

primrec obind :: "'a outcome \<Rightarrow> ('a \<Rightarrow> 'b outcome) \<Rightarrow> 'b outcome" where
  "obind (Returned x) f = f x"
| "obind (Exited e) f = Exited e"
| "obind (Crashed e) f = Crashed e"
| "obind Diverged f = Diverged"

lemma obind_Returned_iff:
  "obind m f = Returned y \<longleftrightarrow> (\<exists>x. m = Returned x \<and> f x = Returned y)"
  by (cases m) simp_all

lemma obind_assoc: "obind (obind m f) g = obind m (\<lambda>x. obind (f x) g)"
  by (cases m) simp_all

section \<open>Words as numbers\<close>

lemma unat_u16_less: "unat (w :: u16) < 2 ^ 16"
  using unsigned_less [of w] by simp

lemma unat_u32_less: "unat (w :: u32) < 2 ^ 32"
  using unsigned_less [of w] by simp

lemma unat_u64_less: "unat (w :: u64) < 2 ^ 64"
  using unsigned_less [of w] by simp

lemma unat_ucast_u32_u64 [simp]: "unat (ucast (w :: u32) :: u64) = unat w"
  using unat_u32_less [of w] by (simp add: unsigned_ucast_eq take_bit_nat_eq_self_iff)

text \<open>Sums and products of 32-bit values do not wrap at 64 bits.\<close>

lemma unat_mult_u32_u32:
  "unat ((ucast (a :: u32) :: u64) * ucast (b :: u32)) = unat a * unat b"
proof -
  have "unat a * unat b \<le> (2 ^ 32 - 1) * (2 ^ 32 - 1)"
    using unat_u32_less [of a] unat_u32_less [of b] by (intro mult_mono) simp_all
  then show ?thesis
    by (subst unat_mult_lem [THEN iffD1]) simp_all
qed

lemma unat_add_u32_u32:
  "unat ((ucast (a :: u32) :: u64) + ucast (b :: u32)) = unat a + unat b"
  using unat_u32_less [of a] unat_u32_less [of b]
  by (subst unat_add_lem [THEN iffD1]) simp_all

section \<open>Little-endian integers\<close>

definition le32 :: "u32 \<Rightarrow> byte list" where
  "le32 w = [ucast w, ucast (drop_bit 8 w), ucast (drop_bit 16 w), ucast (drop_bit 24 w)]"

definition le16 :: "u16 \<Rightarrow> byte list" where
  "le16 w = [ucast w, ucast (drop_bit 8 w)]"

lemma length_le16 [simp]: "length (le16 w) = 2"
  by (simp add: le16_def)

definition un_le16 :: "byte list \<Rightarrow> u16" where
  "un_le16 bs = ucast (bs ! 0) OR push_bit 8 (ucast (bs ! 1))"

lemma un_le16_le16 [simp]: "un_le16 (le16 w @ bs) = w"
proof (rule bit_word_eqI)
  fix n assume "n < LENGTH(16)"
  then have n: "n < 16" by simp
  consider "n < 8" | "8 \<le> n" by linarith
  then show "bit (un_le16 (le16 w @ bs)) n = bit w n"
    using n by cases (auto simp: un_le16_def le16_def bit_simps)
qed

text \<open>The integer in the first four bytes of a list.\<close>

definition un_le32 :: "byte list \<Rightarrow> u32" where
  "un_le32 bs =
     ucast (bs ! 0) OR push_bit 8 (ucast (bs ! 1)) OR push_bit 16 (ucast (bs ! 2)) OR
     push_bit 24 (ucast (bs ! 3))"

lemma length_le32 [simp]: "length (le32 w) = 4"
  by (simp add: le32_def)

lemma un_le32_le32 [simp]: "un_le32 (le32 w @ bs) = w"
proof (rule bit_word_eqI)
  fix n assume "n < LENGTH(32)"
  then have n: "n < 32" by simp
  consider "n < 8" | "8 \<le> n" "n < 16" | "16 \<le> n" "n < 24" | "24 \<le> n"
    by linarith
  then show "bit (un_le32 (le32 w @ bs)) n = bit w n"
    using n by cases (auto simp: un_le32_def le32_def bit_simps)
qed

lemma un_le32_le32_self [simp]: "un_le32 (le32 w) = w"
  using un_le32_le32 [of w "[]"] by simp

section \<open>Replacing a part of a list\<close>

definition overwrite :: "nat \<Rightarrow> 'a list \<Rightarrow> 'a list \<Rightarrow> 'a list" where
  "overwrite k bs old = take k old @ bs @ drop (k + length bs) old"

lemma length_overwrite [simp]: "k + length bs \<le> length old \<Longrightarrow> length (overwrite k bs old) = length old"
  by (simp add: overwrite_def)

lemma overwrite_Nil [simp]: "overwrite k [] old = old"
  by (simp add: overwrite_def)

lemma overwrite_append:
  "k + length (bs @ cs) \<le> length old \<Longrightarrow>
   overwrite (k + length bs) cs (overwrite k bs old) = overwrite k (bs @ cs) old"
  by (simp add: overwrite_def ac_simps)

lemma nth_overwrite:
  "k + length bs \<le> length old \<Longrightarrow> j < length old \<Longrightarrow>
   overwrite k bs old ! j = (if k \<le> j \<and> j < k + length bs then bs ! (j - k) else old ! j)"
  by (auto simp: overwrite_def nth_append not_less)

lemma overwrite_middle:
  "k + length bs \<le> length ys \<Longrightarrow>
   overwrite (length xs + k) bs (xs @ ys @ zs) = xs @ overwrite k bs ys @ zs"
  by (simp add: overwrite_def)

lemma nth_update: "j < length xs \<Longrightarrow> xs[i := x] ! j = (if i = j then x else xs ! j)"
  by (cases "i = j") simp_all

section \<open>Byte sinks\<close>

text \<open>
  The interface of a sender: a \<open>send\<close> that, while the sink is ready, reports success, leaves the
  sink ready and appends the buffer to every output stream.
\<close>

locale byte_sink =
  fixes send :: "'s \<Rightarrow> byte list \<Rightarrow> int \<times> 's"
    and ready :: "'s \<Rightarrow> bool"
    and out :: "'s \<Rightarrow> byte list list"
  assumes send_ready: "ready s \<Longrightarrow> fst (send s bs) = 0 \<and> ready (snd (send s bs)) \<and>
    out (snd (send s bs)) = map (\<lambda>old. old @ bs) (out s)"
begin

lemma send_ok:
  "ready s \<Longrightarrow> \<exists>s'. send s bs = (0, s') \<and> ready s' \<and> out s' = map (\<lambda>old. old @ bs) (out s)"
  using send_ready [of s bs] by (cases "send s bs") auto

lemma send_list:
  "ready s \<Longrightarrow> ready (foldl (\<lambda>s bs. snd (send s bs)) s bss) \<and>
     out (foldl (\<lambda>s bs. snd (send s bs)) s bss) = map (\<lambda>old. old @ concat bss) (out s)"
proof (induction bss arbitrary: s)
  case (Cons bs bss)
  then show ?case
    using send_ready [of s bs] by simp
qed simp

end

end
