(* ===== verification/Iov.thy ===== *)
theory Iov
  imports Prelude
begin

text \<open>
  Host memory, scatter/gather lists (\<open>src/rvgpu-proxy/gpu/rvgpu-iov.c\<close>) and the mapping of guest
  pages (\<open>src/rvgpu-proxy/gpu/rvgpu-map-guest.c\<close>).  Memory is a function from 64-bit addresses to
  bytes; an address that is mapped to nothing is outside the model (every access of the theorems
  goes through a region that a caller mapped).
\<close>

section \<open>Memory\<close>

type_synonym addr = u64
type_synonym hmem = "addr \<Rightarrow> byte"

abbreviation (input) NULL :: addr where "NULL \<equiv> 0"

text \<open>\<open>n\<close> bytes from address \<open>a\<close>, and \<open>memcpy\<close> of a byte list to address \<open>a\<close>.\<close>

definition mem_read :: "hmem \<Rightarrow> addr \<Rightarrow> nat \<Rightarrow> byte list" where
  "mem_read m a n = map (\<lambda>i. m (a + of_nat i)) [0..<n]"

definition mem_write :: "hmem \<Rightarrow> addr \<Rightarrow> byte list \<Rightarrow> hmem" where
  "mem_write m a bs = (\<lambda>x. if unat (x - a) < length bs then bs ! unat (x - a) else m x)"

lemma length_mem_read [simp]: "length (mem_read m a n) = n"
  by (simp add: mem_read_def)

lemma mem_read_0 [simp]: "mem_read m a 0 = []"
  by (simp add: mem_read_def)

lemma nth_mem_read [simp]: "i < n \<Longrightarrow> mem_read m a n ! i = m (a + of_nat i)"
  by (simp add: mem_read_def)

lemma mem_read_add:
  "mem_read m a (n + k) = mem_read m a n @ mem_read m (a + of_nat n) k"
proof (rule nth_equalityI)
  fix i assume "i < length (mem_read m a (n + k))"
  then have "i < n + k" by simp
  then show "mem_read m a (n + k) ! i = (mem_read m a n @ mem_read m (a + of_nat n) k) ! i"
    by (cases "i < n") (simp_all add: nth_append of_nat_diff)
qed simp

lemma take_mem_read [simp]: "take k (mem_read m a n) = mem_read m a (min k n)"
  by (rule nth_equalityI) simp_all

lemma drop_mem_read [simp]: "drop k (mem_read m a n) = mem_read m (a + of_nat k) (n - k)"
  by (rule nth_equalityI) (simp_all add: add.assoc)

lemma mem_write_Nil [simp]: "mem_write m a [] = m"
  by (simp add: mem_write_def)

lemma mem_read_write_same:
  assumes "length bs \<le> 2 ^ 64"
  shows "mem_read (mem_write m a bs) a (length bs) = bs"
proof (rule nth_equalityI)
  fix i assume "i < length (mem_read (mem_write m a bs) a (length bs))"
  then have "i < length bs"
    by simp
  moreover from this assms have "unat (of_nat i :: u64) = i"
    by (simp add: unat_of_nat take_bit_nat_eq_self_iff)
  ultimately show "mem_read (mem_write m a bs) a (length bs) ! i = bs ! i"
    by (simp add: mem_read_def mem_write_def)
qed simp

text \<open>The bytes of an address range, and a read that a write elsewhere does not disturb.\<close>

definition region :: "addr \<Rightarrow> nat \<Rightarrow> addr set" where
  "region a n = {x. unat (x - a) < n}"

lemma region_add: "i < n \<Longrightarrow> i < 2 ^ 64 \<Longrightarrow> a + of_nat i \<in> region a n"
  by (simp add: region_def unat_of_nat take_bit_nat_eq_self_iff)

lemma region_mono: "n \<le> k \<Longrightarrow> region a n \<subseteq> region a k"
  by (auto simp: region_def)

lemma mem_read_write_other:
  assumes "region a n \<inter> region b (length bs) = {}" and "n \<le> 2 ^ 64"
  shows "mem_read (mem_write m b bs) a n = mem_read m a n"
proof -
  have "mem_write m b bs (a + of_nat i) = m (a + of_nat i)" if "i < n" for i
    using assms region_add [OF that, of a] that
    by (auto simp: mem_write_def region_def disjoint_iff)
  then show ?thesis
    by (simp add: mem_read_def)
qed

section \<open>Scatter/gather lists\<close>

record iovec =
  iov_base :: addr
  iov_len :: u64

text \<open>
  \<open>copy_from_iov\<close> with its running count \<open>ret\<close>: the bytes it copies (the new prefix of the
  destination buffer) and the count it returns.
\<close>

fun copy_from_loop :: "hmem \<Rightarrow> iovec list \<Rightarrow> u64 \<Rightarrow> u64 \<Rightarrow> byte list \<times> u64" where
  "copy_from_loop m [] len ret = ([], ret)"
| "copy_from_loop m (v # vs) len ret =
     (if iov_len v < len - ret
      then (let (bs, r) = copy_from_loop m vs len (ret + iov_len v)
            in (mem_read m (iov_base v) (unat (iov_len v)) @ bs, r))
      else (mem_read m (iov_base v) (unat (len - ret)), ret + (len - ret)))"

definition copy_from_iov :: "hmem \<Rightarrow> iovec list \<Rightarrow> u64 \<Rightarrow> byte list \<times> u64" where
  "copy_from_iov m iov len = copy_from_loop m iov len 0"

text \<open>\<open>copy_to_iov\<close>: the memory after the copy of the buffer's first \<open>len\<close> bytes, and the count.\<close>

fun copy_to_loop :: "hmem \<Rightarrow> iovec list \<Rightarrow> byte list \<Rightarrow> u64 \<Rightarrow> u64 \<Rightarrow> hmem \<times> u64" where
  "copy_to_loop m [] buffer len ret = (m, ret)"
| "copy_to_loop m (v # vs) buffer len ret =
     (if iov_len v < len - ret
      then copy_to_loop
             (mem_write m (iov_base v) (take (unat (iov_len v)) (drop (unat ret) buffer)))
             vs buffer len (ret + iov_len v)
      else (mem_write m (iov_base v) (take (unat (len - ret)) (drop (unat ret) buffer)),
            ret + (len - ret)))"

definition copy_to_iov :: "hmem \<Rightarrow> iovec list \<Rightarrow> byte list \<Rightarrow> u64 \<Rightarrow> hmem \<times> u64" where
  "copy_to_iov m iov buffer len = copy_to_loop m iov buffer len 0"

fun iov_size :: "iovec list \<Rightarrow> u64" where
  "iov_size [] = 0"
| "iov_size (v # vs) = iov_len v + iov_size vs"

text \<open>What a list of regions denotes: its bytes in order, and how many there are.\<close>

definition iov_bytes :: "hmem \<Rightarrow> iovec list \<Rightarrow> byte list" where
  "iov_bytes m vs = concat (map (\<lambda>v. mem_read m (iov_base v) (unat (iov_len v))) vs)"

definition iov_total :: "iovec list \<Rightarrow> nat" where
  "iov_total vs = (\<Sum>v\<leftarrow>vs. unat (iov_len v))"

lemma iov_bytes_simps [simp]:
  "iov_bytes m [] = []"
  "iov_bytes m (v # vs) = mem_read m (iov_base v) (unat (iov_len v)) @ iov_bytes m vs"
  by (simp_all add: iov_bytes_def)

lemma iov_total_simps [simp]:
  "iov_total [] = 0"
  "iov_total (v # vs) = unat (iov_len v) + iov_total vs"
  by (simp_all add: iov_total_def)

lemma length_iov_bytes [simp]: "length (iov_bytes m vs) = iov_total vs"
  by (induction vs) simp_all

lemma iov_size_total: "unat (iov_size vs) = iov_total vs mod 2 ^ 64"
  by (induction vs) (simp_all add: unat_word_ariths mod_simps)

lemma copy_from_loop_spec:
  "ret \<le> len \<Longrightarrow> copy_from_loop m vs len ret = (bs, r) \<Longrightarrow>
     bs = take (unat len - unat ret) (iov_bytes m vs) \<and>
     unat r = min (unat len) (unat ret + iov_total vs)"
proof (induction vs arbitrary: ret bs r)
  case (Cons v vs)
  have d: "unat (len - ret) = unat len - unat ret"
    using Cons.prems(1) by (simp add: unat_sub word_le_nat_alt)
  show ?case
  proof (cases "iov_len v < len - ret")
    case True
    then have lt: "unat (iov_len v) < unat len - unat ret"
      by (simp add: word_less_nat_alt d)
    have s: "unat (ret + iov_len v) = unat ret + unat (iov_len v)"
      using lt unat_u64_less [of len] by (subst unat_add_lem [THEN iffD1]) simp_all
    obtain bs' where rec: "copy_from_loop m vs len (ret + iov_len v) = (bs', r)"
      "bs = mem_read m (iov_base v) (unat (iov_len v)) @ bs'"
      using Cons.prems(2) True by (auto split: prod.splits)
    have "ret + iov_len v \<le> len"
      using lt s by (simp add: word_le_nat_alt)
    from Cons.IH [OF this rec(1)] show ?thesis
      using rec(2) lt s by (simp add: min_def)
  next
    case False
    then show ?thesis
      using Cons.prems d by (auto simp: word_less_nat_alt not_less word_le_nat_alt)
  qed
qed (auto simp: word_le_nat_alt)

text \<open>The regions of a list, and lists whose regions do not overlap.\<close>

definition iov_region :: "iovec \<Rightarrow> addr set" where
  "iov_region v = region (iov_base v) (unat (iov_len v))"

definition iov_disjoint :: "iovec list \<Rightarrow> bool" where
  "iov_disjoint vs = sorted_wrt (\<lambda>v w. iov_region v \<inter> iov_region w = {}) vs"

lemma mem_write_outside: "x \<notin> region a (length bs) \<Longrightarrow> mem_write m a bs x = m x"
  by (simp add: mem_write_def region_def)

lemma copy_to_loop_outside:
  "copy_to_loop m vs buffer len ret = (m', r) \<Longrightarrow> x \<notin> \<Union> (iov_region ` set vs) \<Longrightarrow> m' x = m x"
proof (induction m vs buffer len ret rule: copy_to_loop.induct)
  case (2 m v vs buffer len ret)
  have w: "mem_write m (iov_base v) (take k bs) x = m x" if "k \<le> unat (iov_len v)" for k bs
    using 2(3) that by (intro mem_write_outside) (auto simp: iov_region_def region_def)
  show ?case
    using 2 w by (auto simp: not_less word_le_nat_alt split: if_splits)
qed simp

lemma mem_read_cong:
  assumes "\<And>x. x \<in> region a n \<Longrightarrow> m x = m' x" and "n \<le> 2 ^ 64"
  shows "mem_read m a n = mem_read m' a n"
  using assms by (intro nth_equalityI) (simp_all add: region_add)

lemma copy_to_loop_spec:
  "iov_disjoint vs \<Longrightarrow> ret \<le> len \<Longrightarrow> length buffer = unat len \<Longrightarrow>
   copy_to_loop m vs buffer len ret = (m', r) \<Longrightarrow>
     take (unat len - unat ret) (iov_bytes m' vs) = take (iov_total vs) (drop (unat ret) buffer) \<and>
     unat r = min (unat len) (unat ret + iov_total vs)"
proof (induction vs arbitrary: m ret)
  case (Cons v vs)
  have d: "unat (len - ret) = unat len - unat ret"
    using Cons.prems(2) by (simp add: unat_sub word_le_nat_alt)
  have dis: "iov_disjoint vs" "iov_region v \<inter> \<Union> (iov_region ` set vs) = {}"
    using Cons.prems(1) by (auto simp: iov_disjoint_def)
  let ?n = "unat (iov_len v)"
  show ?case
  proof (cases "iov_len v < len - ret")
    case True
    then have lt: "?n < unat len - unat ret"
      by (simp add: word_less_nat_alt d)
    have s: "unat (ret + iov_len v) = unat ret + ?n"
      using lt unat_u64_less [of len] by (subst unat_add_lem [THEN iffD1]) simp_all
    define bs where "bs = take ?n (drop (unat ret) buffer)"
    define m1 where "m1 = mem_write m (iov_base v) bs"
    have lbs: "length bs = ?n"
      using lt Cons.prems(3) by (simp add: bs_def)
    have rec: "copy_to_loop m1 vs buffer len (ret + iov_len v) = (m', r)"
      using Cons.prems(4) True by (simp add: m1_def bs_def)
    have "ret + iov_len v \<le> len"
      using lt s by (simp add: word_le_nat_alt)
    note IH = Cons.IH [OF dis(1) this Cons.prems(3) rec]
    have "mem_read m' (iov_base v) ?n = mem_read m1 (iov_base v) ?n"
      using copy_to_loop_outside [OF rec] dis(2) unat_u64_less [of "iov_len v"]
      by (intro mem_read_cong) (auto simp: iov_region_def)
    also have "\<dots> = bs"
      unfolding m1_def using mem_read_write_same [of bs m "iov_base v"] lbs
        unat_u64_less [of "iov_len v"] by simp
    finally have r: "mem_read m' (iov_base v) ?n = bs" .
    have "take (iov_total (v # vs)) (drop (unat ret) buffer) =
        bs @ take (iov_total vs) (drop (unat ret + ?n) buffer)"
      unfolding iov_total_simps take_add bs_def drop_drop by (simp only: add.commute)
    then show ?thesis
      using IH lt s r lbs by (simp add: min_def)
  next
    case False
    then have ge: "unat len - unat ret \<le> ?n"
      by (simp add: word_less_nat_alt d not_less)
    define bs where "bs = take (unat len - unat ret) (drop (unat ret) buffer)"
    have m': "m' = mem_write m (iov_base v) bs" and r: "r = len"
      using Cons.prems(4) False d by (auto simp: bs_def)
    have "length bs = unat len - unat ret"
      using Cons.prems(3) by (simp add: bs_def)
    then have "mem_read m' (iov_base v) (unat len - unat ret) = bs"
      unfolding m' using mem_read_write_same [of bs m "iov_base v"] unat_u64_less [of len] by simp
    then show ?thesis
      using ge r Cons.prems(2,3) by (simp add: bs_def word_le_nat_alt)
  qed
qed (auto simp: word_le_nat_alt)

lemma copy_to_loop_count:
  "ret \<le> len \<Longrightarrow> unat (snd (copy_to_loop m vs buffer len ret)) = min (unat len) (unat ret + iov_total vs)"
proof (induction vs arbitrary: m ret)
  case (Cons v vs)
  have d: "unat (len - ret) = unat len - unat ret"
    using Cons.prems by (simp add: unat_sub word_le_nat_alt)
  show ?case
  proof (cases "iov_len v < len - ret")
    case True
    then have lt: "unat (iov_len v) < unat len - unat ret"
      by (simp add: word_less_nat_alt d)
    have s: "unat (ret + iov_len v) = unat ret + unat (iov_len v)"
      using lt unat_u64_less [of len] by (subst unat_add_lem [THEN iffD1]) simp_all
    then have "ret + iov_len v \<le> len"
      using lt by (simp add: word_le_nat_alt)
    with Cons.IH True s show ?thesis
      by (simp add: add.assoc)
  next
    case False
    then show ?thesis
      using Cons.prems d by (simp add: word_less_nat_alt not_less word_le_nat_alt)
  qed
qed (simp add: word_le_nat_alt)

lemma copy_to_iov_count:
  "unat (snd (copy_to_iov m vs buffer len)) = min (unat len) (iov_total vs)"
  by (simp add: copy_to_iov_def copy_to_loop_count)

text \<open>
  Gathering a request is reading its regions in order: \<open>copy_from_iov\<close> copies the first
  \<open>len\<close> bytes of the concatenated regions and returns their number, whatever the split into
  regions (empty ones and a last partial one included).
\<close>

theorem copy_from_iov_bytes:
  "fst (copy_from_iov m vs len) = take (unat len) (iov_bytes m vs) \<and>
   unat (snd (copy_from_iov m vs len)) = min (unat len) (iov_total vs)"
  using copy_from_loop_spec [of 0 len m vs]
  by (cases "copy_from_loop m vs len 0") (simp add: copy_from_iov_def)

text \<open>
  Scattering a response over disjoint regions and gathering them again gives the response
  back, cut to the space there is; nothing outside the regions changes.
\<close>

theorem copy_to_from_iov:
  assumes "iov_disjoint vs" and "length buffer = unat len"
    and "copy_to_iov m vs buffer len = (m', r)"
  shows "fst (copy_from_iov m' vs len) = take (iov_total vs) buffer \<and>
    unat r = min (unat len) (iov_total vs) \<and>
    (\<forall>x. x \<in> \<Union> (iov_region ` set vs) \<or> m' x = m x)"
  using copy_to_loop_spec [of vs 0 len buffer m m' r] copy_to_loop_outside [of m vs buffer len 0 m' r]
    copy_from_loop_spec [of 0 len m' vs] assms
  by (cases "copy_from_loop m' vs len 0") (auto simp: copy_to_iov_def copy_from_iov_def)

lemma copy_to_from_iov_witness:
  "fst (copy_from_iov (fst (copy_to_iov (\<lambda>_. 0) [\<lparr> iov_base = 64, iov_len = 2 \<rparr>,
       \<lparr> iov_base = 16, iov_len = 2 \<rparr>] [1, 2, 3] 3))
     [\<lparr> iov_base = 64, iov_len = 2 \<rparr>, \<lparr> iov_base = 16, iov_len = 2 \<rparr>] 3) = [1, 2, 3]"
proof -
  let ?vs = "[\<lparr> iov_base = 64, iov_len = 2 \<rparr>, \<lparr> iov_base = 16, iov_len = 2 \<rparr>]"
  have "region 64 2 \<inter> region 16 2 = ({} :: addr set)"
  proof -
    have False if "unat (x - 64) < 2" "unat (x - 16) < 2" for x :: addr
    proof -
      have "x - 16 = (x - 64) + 48" by simp
      moreover have "unat ((x - 64) + 48) = unat (x - 64) + 48"
        using that(1) by (subst unat_add_lem [THEN iffD1]) simp_all
      ultimately show False using that(2) by simp
    qed
    then show ?thesis by (auto simp: region_def)
  qed
  then have "iov_disjoint ?vs"
    by (simp add: iov_disjoint_def iov_region_def)
  from copy_to_from_iov [OF this, of "[1, 2, 3]" 3 "\<lambda>_. 0"] show ?thesis
    by (cases "copy_to_iov (\<lambda>_. 0) ?vs [1, 2, 3] 3") simp
qed

section \<open>Mapping guest pages\<close>

definition align_to_page_down :: "u64 \<Rightarrow> u64" where
  "align_to_page_down a = a AND NOT 4095"

definition align_to_page_up :: "u64 \<Rightarrow> u64" where
  "align_to_page_up a = align_to_page_down (a + 4095)"

text \<open>The protections of a mapping.\<close>

datatype prot = PROT_READ | PROT_READ_WRITE

text \<open>
  \<open>mmap\<close> of the guest device: length, protection and file offset to the address of the new
  mapping, \<open>None\<close> for \<open>MAP_FAILED\<close>.
\<close>

type_synonym mmap = "u64 \<Rightarrow> prot \<Rightarrow> u64 \<Rightarrow> addr option"

definition map_guest :: "mmap \<Rightarrow> u64 \<Rightarrow> prot \<Rightarrow> u64 \<Rightarrow> addr" where
  "map_guest mmap gpa prot len =
     (let realpa = align_to_page_down gpa;
          realsize = align_to_page_up (gpa + len) - realpa
      in case mmap realsize prot realpa of
           None \<Rightarrow> NULL
         | Some ret \<Rightarrow> ret + (gpa - realpa))"

text \<open>The arguments \<open>unmap_guest\<close> gives to \<open>munmap\<close>.\<close>

definition unmap_guest :: "addr \<Rightarrow> u64 \<Rightarrow> addr \<times> u64" where
  "unmap_guest addr len =
     (let realpa = align_to_page_down addr
      in (realpa, align_to_page_up (addr + len) - realpa))"

lemma align_to_page_down_minus: "align_to_page_down a = a - take_bit 12 a"
proof -
  have "a AND NOT (mask 12) = push_bit 12 (drop_bit 12 a)"
    by (auto simp: bit_eq_iff bit_simps)
  also have "\<dots> = a - take_bit 12 a"
    using bits_ident [of 12 a] by (simp add: algebra_simps)
  finally show ?thesis
    by (simp add: align_to_page_down_def mask_eq_exp_minus_1)
qed

lemma take_bit_page_offset: "take_bit 12 (a - take_bit 12 a) = (0 :: u64)"
  by transfer (simp add: take_bit_diff [symmetric, of 12 _ "take_bit 12 _"] take_bit_diff)

lemma take_bit_page_add:
  "take_bit 12 (a :: u64) = 0 \<Longrightarrow> take_bit 12 (a + x) = take_bit 12 x"
proof -
  assume a: "take_bit 12 a = 0"
  have "take_bit 12 (a + x) = take_bit 12 (take_bit 12 a + take_bit 12 x)"
    by transfer (simp add: take_bit_add)
  with a show ?thesis
    by simp
qed

lemma align_to_page_down_add:
  "take_bit 12 a = 0 \<Longrightarrow> align_to_page_down (a + x) = a + align_to_page_down x"
  by (simp add: align_to_page_down_minus take_bit_page_add)

lemma align_to_page_up_add:
  "take_bit 12 a = 0 \<Longrightarrow> align_to_page_up (a + x) = a + align_to_page_up x"
  using align_to_page_down_add [of a "x + 4095"] by (simp add: align_to_page_up_def add.assoc)

text \<open>
  \<open>unmap_guest\<close> releases exactly the mapping that \<open>map_guest\<close> made: when the kernel returns
  a page-aligned address, the pointer handed out leads \<open>munmap\<close> to the same start and length,
  for every guest address and size (also when the sums wrap at 2^64).
\<close>

theorem unmap_guest_map_guest:
  assumes "mmap (align_to_page_up (gpa + len) - align_to_page_down gpa) prot
      (align_to_page_down gpa) = Some ret"
    and "ret AND 4095 = 0"
  shows "unmap_guest (map_guest mmap gpa prot len) len =
    (ret, align_to_page_up (gpa + len) - align_to_page_down gpa)"
proof -
  define off where "off = take_bit 12 gpa"
  define pa where "pa = align_to_page_down gpa"
  have ret: "take_bit 12 ret = 0"
    using assms(2) by (simp add: take_bit_eq_mask mask_eq_exp_minus_1)
  have pa: "take_bit 12 pa = 0" "gpa = pa + off"
    by (simp_all add: pa_def off_def align_to_page_down_minus take_bit_page_offset)
  have off: "align_to_page_down off = 0"
    by (simp add: align_to_page_down_minus off_def)
  have "gpa - align_to_page_down gpa = off"
    by (simp add: off_def align_to_page_down_minus)
  then have map: "map_guest mmap gpa prot len = ret + off"
    using assms(1) by (simp add: map_guest_def Let_def)
  have "align_to_page_up (gpa + len) = pa + align_to_page_up (off + len)"
    using align_to_page_up_add [OF pa(1), of "off + len"] pa(2) by (simp add: add.assoc)
  then have sz: "align_to_page_up (gpa + len) - align_to_page_down gpa = align_to_page_up (off + len)"
    by (simp add: pa_def)
  show ?thesis
    unfolding sz map
    using align_to_page_down_add [OF ret, of off] align_to_page_up_add [OF ret, of "off + len"] off
    by (simp add: unmap_guest_def Let_def add.assoc)
qed

lemma unmap_guest_map_guest_witness:
  "unmap_guest (map_guest (\<lambda>_ _ off. Some (0x7F0000000000 + off)) 0x12345 PROT_READ 0x2000) 0x2000 =
    (0x7F0000012000, align_to_page_up (0x12345 + 0x2000) - align_to_page_down 0x12345)"
  by (rule unmap_guest_map_guest) (simp_all add: align_to_page_down_def)

end
