(* ===== verification/Vqueue.thy ===== *)
theory Vqueue
  imports Iov
begin

text \<open>
  The device side of a virtqueue (\<open>src/rvgpu-proxy/gpu/rvgpu-vqueue.c\<close>): taking the next request
  off the available ring by walking its descriptor chain, and answering it through the used ring.
  The rings are the ones the guest shares; the model sees one snapshot of what the guest wrote.
  Requests are reference-counted heap objects, so the state keeps a map from request handles to
  live requests; allocation succeeds.
\<close>

section \<open>Rings and requests\<close>

record vring_desc =
  d_addr :: u64
  d_len :: u32
  d_flags :: u16
  d_next :: u16

abbreviation (input) VRING_DESC_F_NEXT :: u16 where "VRING_DESC_F_NEXT \<equiv> 1"
abbreviation (input) VRING_DESC_F_WRITE :: u16 where "VRING_DESC_F_WRITE \<equiv> 2"

record vring =
  vr_num :: u32
  vr_desc :: "nat \<Rightarrow> vring_desc"
  avail_idx :: u16
  avail_ring :: "nat \<Rightarrow> u16"
  used_idx :: u16
  used_ring :: "nat \<Rightarrow> u32 \<times> u32"

record vqueue =
  vr :: vring
  last_avail_idx :: u16

abbreviation (input) VQUEUE_REQUEST_IOVEC_LEN :: nat where "VQUEUE_REQUEST_IOVEC_LEN \<equiv> 1024"

record vqueue_request =
  req_r :: "iovec list"
  req_w :: "iovec list"
  req_idx :: u16
  req_q :: nat
  req_mapped :: bool
  req_refcount :: u32

text \<open>
  The state the queue operations work on: memory, the queues, the live requests by handle, the
  next fresh handle, and the calls of \<open>munmap\<close> made so far.  The device extends this record.
\<close>

record vq_state =
  vs_mem :: hmem
  vs_queues :: "vqueue list"
  vs_reqs :: "nat \<Rightarrow> vqueue_request option"
  vs_next :: nat
  vs_munmaps :: "(addr \<times> u64) list"

definition vqueue_are_requests_available :: "vqueue \<Rightarrow> bool" where
  "vqueue_are_requests_available q = (last_avail_idx q \<noteq> avail_idx (vr q))"

section \<open>Operations\<close>

definition vqueue_init_request :: "vqueue_request" where
  "vqueue_init_request =
     \<lparr> req_r = [], req_w = [], req_idx = 0, req_q = 0, req_mapped = False, req_refcount = 1 \<rparr>"

definition vqueue_request_ref :: "'a vq_state_scheme \<Rightarrow> nat \<Rightarrow> 'a vq_state_scheme outcome" where
  "vqueue_request_ref s i =
     (case vs_reqs s i of
        None \<Rightarrow> Crashed ''request''
      | Some req \<Rightarrow>
          Returned (s\<lparr>vs_reqs := (vs_reqs s)(i \<mapsto> req\<lparr>req_refcount := req_refcount req + 1\<rparr>)\<rparr>))"

definition vqueue_request_unref :: "'a vq_state_scheme \<Rightarrow> nat \<Rightarrow> 'a vq_state_scheme outcome" where
  "vqueue_request_unref s i =
     (case vs_reqs s i of
        None \<Rightarrow> Crashed ''request''
      | Some req \<Rightarrow>
          (let req' = req\<lparr>req_refcount := req_refcount req - 1\<rparr> in
           if req_refcount req' > 0 then Returned (s\<lparr>vs_reqs := (vs_reqs s)(i \<mapsto> req')\<rparr>)
           else if req_mapped req' then Exited ''assert(!req->mapped)''
           else Returned (s\<lparr>vs_reqs := (vs_reqs s)(i := None)\<rparr>)))"

text \<open>One descriptor: its direction and the mapping made for it.\<close>

definition desc_writable :: "vring_desc \<Rightarrow> bool" where
  "desc_writable d = (d_flags d AND VRING_DESC_F_WRITE \<noteq> 0)"

definition desc_has_next :: "vring_desc \<Rightarrow> bool" where
  "desc_has_next d = (d_flags d AND VRING_DESC_F_NEXT \<noteq> 0)"

definition desc_iov :: "mmap \<Rightarrow> vring_desc \<Rightarrow> iovec" where
  "desc_iov mmap d =
     \<lparr> iov_base = map_guest mmap (d_addr d) (if desc_writable d then PROT_READ_WRITE else PROT_READ)
                    (ucast (d_len d)),
       iov_len = ucast (d_len d) \<rparr>"

definition ring_desc :: "vring \<Rightarrow> u16 \<Rightarrow> vring_desc" where
  "ring_desc v didx = vr_desc v (unat didx mod unat (vr_num v))"

text \<open>
  The walk of \<open>vqueue_get_request\<close> along the chain.  A descriptor whose mapping fails is skipped;
  the walk stops after the last descriptor or when one of the two arrays is full.  \<open>None\<close> is a
  walk that never ends.
\<close>

partial_function (option) chain_loop ::
  "mmap \<Rightarrow> vring \<Rightarrow> u16 \<Rightarrow> iovec list \<Rightarrow> iovec list \<Rightarrow> (iovec list \<times> iovec list) option" where
  "chain_loop mmap v didx r w =
     (let d = ring_desc v didx;
          iov = desc_iov mmap d;
          mapped = (iov_base iov \<noteq> NULL);
          r' = (if mapped \<and> \<not> desc_writable d then r @ [iov] else r);
          w' = (if mapped \<and> desc_writable d then w @ [iov] else w);
          n = length (if desc_writable d then w' else r')
      in if mapped \<and> n \<ge> VQUEUE_REQUEST_IOVEC_LEN then Some (r', w')
         else if desc_has_next d then chain_loop mmap v (d_next d) r' w'
         else Some (r', w'))"

definition vqueue_get_request ::
  "mmap \<Rightarrow> 'a vq_state_scheme \<Rightarrow> nat \<Rightarrow> (nat \<times> 'a vq_state_scheme) outcome" where
  "vqueue_get_request mmap s qi =
     (let q = vs_queues s ! qi in
      if \<not> vqueue_are_requests_available q then Exited ''assert(vqueue_are_requests_available(q))''
      else
        let head = avail_ring (vr q) (unat (last_avail_idx q) mod unat (vr_num (vr q)))
        in case chain_loop mmap (vr q) head [] [] of
             None \<Rightarrow> Diverged
           | Some (r, w) \<Rightarrow>
               let req = vqueue_init_request
                     \<lparr>req_idx := head, req_r := r, req_w := w, req_q := qi, req_mapped := True\<rparr>;
                   i = vs_next s
               in Returned (i, s\<lparr>vs_reqs := (vs_reqs s)(i \<mapsto> req), vs_next := i + 1,
                    vs_queues := (vs_queues s)[qi := q\<lparr>last_avail_idx := last_avail_idx q + 1\<rparr>]\<rparr>))"

definition unmap_iovs :: "iovec list \<Rightarrow> (addr \<times> u64) list" where
  "unmap_iovs vs = map (\<lambda>v. unmap_guest (iov_base v) (iov_len v)) vs"

text \<open>The used ring after one more element: the element's \<open>len\<close> and \<open>id\<close>, then the index.\<close>

definition push_used :: "vring \<Rightarrow> u32 \<Rightarrow> u32 \<Rightarrow> vring" where
  "push_used v i n =
     v\<lparr>used_ring := (used_ring v)(unat (used_idx v) mod unat (vr_num v) := (i, n)),
       used_idx := used_idx v + 1\<rparr>"

definition vqueue_send_response ::
  "'a vq_state_scheme \<Rightarrow> nat \<Rightarrow> byte list \<Rightarrow> 'a vq_state_scheme outcome" where
  "vqueue_send_response s i resp =
     (case vs_reqs s i of
        None \<Rightarrow> Crashed ''request''
      | Some req \<Rightarrow>
          (let (m', n) = copy_to_iov (vs_mem s) (req_w req) resp (of_nat (length resp));
               q = vs_queues s ! req_q req;
               q' = q\<lparr>vr := push_used (vr q) (ucast (req_idx req)) (ucast n)\<rparr>
           in vqueue_request_unref
                (s\<lparr>vs_mem := m',
                   vs_munmaps := vs_munmaps s @ unmap_iovs (req_r req) @ unmap_iovs (req_w req),
                   vs_reqs := (vs_reqs s)(i \<mapsto> req\<lparr>req_mapped := False\<rparr>),
                   vs_queues := (vs_queues s)[req_q req := q']\<rparr>) i))"

section \<open>The chain walk\<close>

text \<open>The descriptors of a chain that ends, in the order the guest linked them.\<close>

inductive desc_chain :: "vring \<Rightarrow> u16 \<Rightarrow> vring_desc list \<Rightarrow> bool" where
  chain_end: "\<not> desc_has_next (ring_desc v i) \<Longrightarrow> desc_chain v i [ring_desc v i]"
| chain_link: "desc_has_next (ring_desc v i) \<Longrightarrow> desc_chain v (d_next (ring_desc v i)) ds \<Longrightarrow>
    desc_chain v i (ring_desc v i # ds)"

definition desc_mapped :: "mmap \<Rightarrow> vring_desc \<Rightarrow> bool" where
  "desc_mapped mmap d = (iov_base (desc_iov mmap d) \<noteq> NULL)"

definition chain_reads :: "mmap \<Rightarrow> vring_desc list \<Rightarrow> iovec list" where
  "chain_reads mmap ds = map (desc_iov mmap) (filter (\<lambda>d. desc_mapped mmap d \<and> \<not> desc_writable d) ds)"

definition chain_writes :: "mmap \<Rightarrow> vring_desc list \<Rightarrow> iovec list" where
  "chain_writes mmap ds = map (desc_iov mmap) (filter (\<lambda>d. desc_mapped mmap d \<and> desc_writable d) ds)"

lemma chain_loop_complete:
  "desc_chain v i ds \<Longrightarrow>
   length r + length (chain_reads mmap ds) < VQUEUE_REQUEST_IOVEC_LEN \<Longrightarrow>
   length w + length (chain_writes mmap ds) < VQUEUE_REQUEST_IOVEC_LEN \<Longrightarrow>
   chain_loop mmap v i r w = Some (r @ chain_reads mmap ds, w @ chain_writes mmap ds)"
proof (induction arbitrary: r w rule: desc_chain.induct)
  case (chain_end v i)
  then show ?case
    by (subst chain_loop.simps)
      (auto simp: Let_def chain_reads_def chain_writes_def desc_mapped_def)
next
  case (chain_link v i ds)
  let ?d = "ring_desc v i"
  define r' where "r' = (if desc_mapped mmap ?d \<and> \<not> desc_writable ?d then r @ [desc_iov mmap ?d] else r)"
  define w' where "w' = (if desc_mapped mmap ?d \<and> desc_writable ?d then w @ [desc_iov mmap ?d] else w)"
  have "chain_loop mmap v (d_next ?d) r' w' =
      Some (r' @ chain_reads mmap ds, w' @ chain_writes mmap ds)"
    using chain_link.prems
    by (intro chain_link.IH) (auto simp: r'_def w'_def chain_reads_def chain_writes_def)
  moreover have "chain_loop mmap v i r w = chain_loop mmap v (d_next ?d) r' w'"
    using chain_link.prems chain_link.hyps(1)
    by (subst chain_loop.simps)
      (auto simp: Let_def r'_def w'_def desc_mapped_def chain_reads_def chain_writes_def)
  ultimately show ?case
    by (auto simp: r'_def w'_def chain_reads_def chain_writes_def)
qed

lemmas chain_loop_induct = chain_loop.raw_induct [rotated, consumes 1, case_names step]

lemma chain_loop_bounds:
  "chain_loop mmap v i r w = Some y \<Longrightarrow>
   length r < VQUEUE_REQUEST_IOVEC_LEN \<Longrightarrow> length w < VQUEUE_REQUEST_IOVEC_LEN \<Longrightarrow>
   length (fst y) \<le> VQUEUE_REQUEST_IOVEC_LEN \<and> length (snd y) \<le> VQUEUE_REQUEST_IOVEC_LEN"
proof (induct rule: chain_loop_induct)
  case (step f mmap v i r w y)
  from step(2-4) show ?case
    by (auto simp: Let_def not_le split: if_splits dest!: step(1))
qed

text \<open>
  A chain whose buffers all map ends: every step adds an element to one of the two arrays, and
  the walk stops when one of them is full.
\<close>

lemma chain_loop_ends:
  assumes "\<And>d. desc_mapped mmap d"
    and "length r < VQUEUE_REQUEST_IOVEC_LEN" "length w < VQUEUE_REQUEST_IOVEC_LEN"
  shows "\<exists>y. chain_loop mmap v i r w = Some y"
  using assms(2,3)
proof (induction "2 * VQUEUE_REQUEST_IOVEC_LEN - (length r + length w)" arbitrary: i r w
    rule: less_induct)
  case less
  let ?d = "ring_desc v i"
  let ?r = "if desc_writable ?d then r else r @ [desc_iov mmap ?d]"
  let ?w = "if desc_writable ?d then w @ [desc_iov mmap ?d] else w"
  have m: "iov_base (desc_iov mmap ?d) \<noteq> NULL"
    using assms(1) by (simp add: desc_mapped_def)
  show ?case
  proof (cases "VQUEUE_REQUEST_IOVEC_LEN \<le> length (if desc_writable ?d then ?w else ?r) \<or>
      \<not> desc_has_next ?d")
    case True
    then show ?thesis
      using m by (subst chain_loop.simps) (auto simp: Let_def)
  next
    case False
    then have "\<exists>y. chain_loop mmap v (d_next ?d) ?r ?w = Some y"
      using less.prems by (intro less.hyps) (auto simp: not_le)
    with False show ?thesis
      using m by (subst chain_loop.simps) (auto simp: Let_def not_le)
  qed
qed

text \<open>
  A descriptor that links to itself and whose buffer cannot be mapped keeps the walk going
  forever: nothing counts the skipped descriptors.
\<close>

lemma chain_loop_diverges:
  assumes "ring_desc v (d_next (ring_desc v i)) = ring_desc v i"
    and "desc_has_next (ring_desc v i)" and "\<not> desc_mapped mmap (ring_desc v i)"
  shows "chain_loop mmap v i r w = None"
proof -
  have "False" if "chain_loop mmap v i r w = Some y" for y
    using that assms
  proof (induct rule: chain_loop_induct)
    case (step f mmap v i r w y)
    let ?d = "ring_desc v i"
    have "f mmap v (d_next ?d) r w = Some y"
      using step(2,4,5) by (simp add: Let_def desc_mapped_def)
    from step(1) [OF this] step(3-5) show ?case
      by simp
  qed
  then show ?thesis
    by (cases "chain_loop mmap v i r w") auto
qed

section \<open>Requests\<close>

text \<open>The head descriptor of the next available request.\<close>

definition next_head :: "vqueue \<Rightarrow> u16" where
  "next_head q = avail_ring (vr q) (unat (last_avail_idx q) mod unat (vr_num (vr q)))"

lemma vqueue_get_request_ReturnedE:
  assumes "vqueue_get_request mmap s qi = Returned (i, s')"
  obtains r w where
    "vqueue_are_requests_available (vs_queues s ! qi)"
    "chain_loop mmap (vr (vs_queues s ! qi)) (next_head (vs_queues s ! qi)) [] [] = Some (r, w)"
    "i = vs_next s"
    "s' = s\<lparr>vs_reqs := (vs_reqs s)(vs_next s \<mapsto>
           \<lparr> req_r = r, req_w = w, req_idx = next_head (vs_queues s ! qi), req_q = qi,
             req_mapped = True, req_refcount = 1 \<rparr>),
         vs_next := vs_next s + 1,
         vs_queues := (vs_queues s)
           [qi := (vs_queues s ! qi)\<lparr>last_avail_idx := last_avail_idx (vs_queues s ! qi) + 1\<rparr>]\<rparr>"
  using assms
  by (auto simp: vqueue_get_request_def Let_def vqueue_init_request_def next_head_def
      split: if_splits option.splits)

lemma vqueue_get_request_returns:
  assumes "vqueue_are_requests_available (vs_queues s ! qi)" and "\<And>d. desc_mapped mmap d"
  shows "\<exists>i s'. vqueue_get_request mmap s qi = Returned (i, s')"
  using assms chain_loop_ends [OF assms(2), of "[]" "[]" "vr (vs_queues s ! qi)"
      "next_head (vs_queues s ! qi)"]
  by (auto simp: vqueue_get_request_def Let_def next_head_def)

text \<open>Answering a request that nobody else holds: the answered state, written out.\<close>

definition answered :: "'a vq_state_scheme \<Rightarrow> nat \<Rightarrow> vqueue_request \<Rightarrow> byte list \<Rightarrow> 'a vq_state_scheme" where
  "answered s i req resp =
     (let (m', n) = copy_to_iov (vs_mem s) (req_w req) resp (of_nat (length resp));
          q = vs_queues s ! req_q req
      in s\<lparr>vs_mem := m',
           vs_munmaps := vs_munmaps s @ unmap_iovs (req_r req) @ unmap_iovs (req_w req),
           vs_reqs := (vs_reqs s)(i := None),
           vs_queues := (vs_queues s)
             [req_q req := q\<lparr>vr := push_used (vr q) (ucast (req_idx req)) (ucast n)\<rparr>]\<rparr>)"

lemma vqueue_send_response_sole:
  "vs_reqs s i = Some req \<Longrightarrow> req_refcount req = 1 \<Longrightarrow>
   vqueue_send_response s i resp = Returned (answered s i req resp)"
  by (simp add: vqueue_send_response_def vqueue_request_unref_def answered_def Let_def
      split: prod.splits)

text \<open>
  The walk never stores past the end of the two arrays of a request: at most
  \<open>VQUEUE_REQUEST_IOVEC_LEN\<close> buffers to read and as many to write come back, whatever chain
  (cyclic, or with lying lengths) the guest built.
\<close>

theorem vqueue_get_request_bounds:
  assumes "vqueue_get_request mmap s qi = Returned (i, s')"
  shows "\<exists>req. vs_reqs s' i = Some req \<and> length (req_r req) \<le> VQUEUE_REQUEST_IOVEC_LEN \<and>
    length (req_w req) \<le> VQUEUE_REQUEST_IOVEC_LEN"
  using assms
  by (elim vqueue_get_request_ReturnedE) (auto dest: chain_loop_bounds)

text \<open>A one-entry control queue, for the concrete evaluations.\<close>

definition demo_desc :: vring_desc where
  "demo_desc = \<lparr> d_addr = 0x3010, d_len = 4, d_flags = 2, d_next = 0 \<rparr>"

definition demo_vring :: vring where
  "demo_vring = \<lparr> vr_num = 4, vr_desc = (\<lambda>_. demo_desc), avail_idx = 1, avail_ring = (\<lambda>_. 0),
     used_idx = 0, used_ring = (\<lambda>_. (0, 0)) \<rparr>"

definition demo_state :: vq_state where
  "demo_state = \<lparr> vs_mem = (\<lambda>_. 0), vs_queues = [\<lparr> vr = demo_vring, last_avail_idx = 0 \<rparr>],
     vs_reqs = (\<lambda>_. None), vs_next = 0, vs_munmaps = [] \<rparr>"

definition demo_mmap :: mmap where
  "demo_mmap n p off = Some (0x7F0000000000 + off)"

definition demo_request :: vqueue_request where
  "demo_request = \<lparr> req_r = [], req_w = [\<lparr> iov_base = 0x7F0000003010, iov_len = 4 \<rparr>], req_idx = 0,
     req_q = 0, req_mapped = True, req_refcount = 1 \<rparr>"

lemma demo_walk: "chain_loop demo_mmap demo_vring 0 [] [] = Some ([], req_w demo_request)"
  by (subst chain_loop.simps)
    (simp add: Let_def ring_desc_def demo_vring_def demo_desc_def desc_iov_def desc_writable_def
      desc_has_next_def map_guest_def demo_mmap_def align_to_page_down_def demo_request_def)

lemma demo_get_request:
  "vqueue_get_request demo_mmap demo_state 0 =
     Returned (0, demo_state\<lparr>vs_reqs := [0 \<mapsto> demo_request], vs_next := 1,
       vs_queues := [\<lparr> vr = demo_vring, last_avail_idx = 1 \<rparr>]\<rparr>)"
  using demo_walk
  by (simp add: vqueue_get_request_def demo_state_def vqueue_are_requests_available_def
      Let_def vqueue_init_request_def demo_request_def demo_vring_def)

lemma vqueue_get_request_bounds_witness:
  "\<exists>req. vs_reqs (demo_state\<lparr>vs_reqs := [0 \<mapsto> demo_request], vs_next := 1,
       vs_queues := [\<lparr> vr = demo_vring, last_avail_idx = 1 \<rparr>]\<rparr>) 0 = Some req \<and>
     length (req_r req) \<le> VQUEUE_REQUEST_IOVEC_LEN \<and> length (req_w req) \<le> VQUEUE_REQUEST_IOVEC_LEN"
  by (rule vqueue_get_request_bounds [OF demo_get_request])

text \<open>
  Taking a request and answering it: the answer always succeeds, frees the request (the
  heap is as before), unmaps every buffer of the chain once, reports in the used ring the head of
  the chain and the number of bytes written, which is the response cut to the writable space,
  and moves both indices of the queue by one.
\<close>

theorem request_answered:
  assumes "vqueue_get_request mmap s qi = Returned (i, s1)"
    and "qi < length (vs_queues s)" and "vs_reqs s (vs_next s) = None"
    and "length resp < 2 ^ 32"
  shows "\<exists>s2 req n. vs_reqs s1 i = Some req \<and>
    vqueue_send_response s1 i resp = Returned s2 \<and>
    vs_reqs s2 = vs_reqs s \<and>
    vs_munmaps s2 = vs_munmaps s @ unmap_iovs (req_r req @ req_w req) \<and>
    vs_queues s2 = (vs_queues s)[qi :=
      (vs_queues s ! qi)
        \<lparr>last_avail_idx := last_avail_idx (vs_queues s ! qi) + 1,
         vr := push_used (vr (vs_queues s ! qi)) (ucast (next_head (vs_queues s ! qi))) n\<rparr>] \<and>
    unat n = min (length resp) (iov_total (req_w req))"
  using assms(1)
proof (rule vqueue_get_request_ReturnedE)
  fix r w
  let ?q = "vs_queues s ! qi"
  let ?req = "\<lparr> req_r = r, req_w = w, req_idx = next_head ?q, req_q = qi, req_mapped = True,
    req_refcount = 1 \<rparr> :: vqueue_request"
  assume i: "i = vs_next s" and s1: "s1 = s\<lparr>vs_reqs := (vs_reqs s)(vs_next s \<mapsto> ?req),
         vs_next := vs_next s + 1,
         vs_queues := (vs_queues s)[qi := ?q\<lparr>last_avail_idx := last_avail_idx ?q + 1\<rparr>]\<rparr>"
  obtain m' n where c: "copy_to_iov (vs_mem s1) w resp (of_nat (length resp)) = (m', n)"
    by fastforce
  have "unat n = min (unat (of_nat (length resp) :: u64)) (iov_total w)"
    using copy_to_iov_count [of "vs_mem s1" w resp "of_nat (length resp)"] c by simp
  then have n: "unat n = min (length resp) (iov_total w)"
    using assms(4) by (simp add: unat_of_nat take_bit_nat_eq_self_iff)
  then have "unat (ucast n :: u32) = min (length resp) (iov_total w)"
    using assms(4) by (simp add: unsigned_ucast_eq take_bit_nat_eq_self_iff min_def)
  moreover have "(vs_reqs s)(vs_next s := None) = vs_reqs s"
    using assms(3) by (simp add: fun_upd_idem)
  moreover have "vs_reqs s1 i = Some ?req"
    by (simp add: s1 i)
  moreover from this have "vqueue_send_response s1 i resp = Returned (answered s1 i ?req resp)"
    by (rule vqueue_send_response_sole) simp
  ultimately show ?thesis
    using c assms(2)
    by (intro exI [of _ "answered s1 i ?req resp"] exI [of _ ?req] exI [of _ "ucast n"])
      (simp add: answered_def s1 i unmap_iovs_def)
qed

lemma request_answered_witness:
  "\<exists>s2 req n. vs_reqs (demo_state\<lparr>vs_reqs := [0 \<mapsto> demo_request], vs_next := 1,
       vs_queues := [\<lparr> vr = demo_vring, last_avail_idx = 1 \<rparr>]\<rparr>) 0 = Some req \<and>
    vqueue_send_response (demo_state\<lparr>vs_reqs := [0 \<mapsto> demo_request], vs_next := 1,
       vs_queues := [\<lparr> vr = demo_vring, last_avail_idx = 1 \<rparr>]\<rparr>) 0 [1, 2, 3, 4, 5, 6] = Returned s2 \<and>
    vs_reqs s2 = vs_reqs demo_state \<and>
    vs_munmaps s2 = vs_munmaps demo_state @ unmap_iovs (req_r req @ req_w req) \<and>
    vs_queues s2 = (vs_queues demo_state)[0 :=
      (vs_queues demo_state ! 0)
        \<lparr>last_avail_idx := last_avail_idx (vs_queues demo_state ! 0) + 1,
         vr := push_used (vr (vs_queues demo_state ! 0)) (ucast (next_head (vs_queues demo_state ! 0))) n\<rparr>] \<and>
    unat n = min (length [1, 2, 3, 4, 5, 6 :: byte]) (iov_total (req_w req))"
  by (rule request_answered [OF demo_get_request]) (simp_all add: demo_state_def)

text \<open>
  A request carries exactly the guest's chain: when the chain ends within the capacity of the
  arrays, \<open>vqueue_get_request\<close> returns its device-readable buffers and its device-writable
  buffers, each in chain order, leaving out only those whose mapping failed.
\<close>

theorem vqueue_get_request_chain:
  assumes "desc_chain (vr (vs_queues s ! qi)) (next_head (vs_queues s ! qi)) ds"
    and "length ds < VQUEUE_REQUEST_IOVEC_LEN"
    and "vqueue_are_requests_available (vs_queues s ! qi)"
  shows "\<exists>s' req. vqueue_get_request mmap s qi = Returned (vs_next s, s') \<and>
    vs_reqs s' (vs_next s) = Some req \<and>
    req_r req = chain_reads mmap ds \<and> req_w req = chain_writes mmap ds"
proof -
  have "chain_loop mmap (vr (vs_queues s ! qi)) (next_head (vs_queues s ! qi)) [] [] =
      Some ([] @ chain_reads mmap ds, [] @ chain_writes mmap ds)"
    using assms(1,2)
    by (intro chain_loop_complete)
      (simp_all add: chain_reads_def chain_writes_def le_less_trans [OF length_filter_le])
  then show ?thesis
    using assms(3) by (simp add: vqueue_get_request_def Let_def next_head_def)
qed

lemma vqueue_get_request_chain_witness:
  "\<exists>s' req. vqueue_get_request demo_mmap demo_state 0 = Returned (vs_next demo_state, s') \<and>
    vs_reqs s' (vs_next demo_state) = Some req \<and>
    req_r req = chain_reads demo_mmap [demo_desc] \<and> req_w req = chain_writes demo_mmap [demo_desc]"
proof (rule vqueue_get_request_chain)
  have "ring_desc demo_vring 0 = demo_desc"
    by (simp add: ring_desc_def demo_vring_def)
  moreover have "\<not> desc_has_next demo_desc"
    by (simp add: desc_has_next_def demo_desc_def)
  ultimately have "desc_chain demo_vring 0 [demo_desc]"
    using chain_end [of demo_vring 0] by simp
  then show "desc_chain (vr (vs_queues demo_state ! 0)) (next_head (vs_queues demo_state ! 0)) [demo_desc]"
    by (simp add: demo_state_def next_head_def demo_vring_def)
qed (simp_all add: demo_state_def vqueue_are_requests_available_def demo_vring_def)

text \<open>
  The walk can hang the proxy: a request whose head descriptor links to itself and whose
  buffer the kernel refuses to map makes \<open>vqueue_get_request\<close> loop forever, since only mapped
  descriptors count towards the limit.
\<close>

theorem vqueue_get_request_diverges:
  assumes "vqueue_are_requests_available (vs_queues s ! qi)"
    and "ring_desc (vr (vs_queues s ! qi)) (next_head (vs_queues s ! qi)) = d"
    and "ring_desc (vr (vs_queues s ! qi)) (d_next d) = d"
    and "desc_has_next d" and "\<not> desc_mapped mmap d"
  shows "vqueue_get_request mmap s qi = Diverged"
  using assms chain_loop_diverges [of "vr (vs_queues s ! qi)" "next_head (vs_queues s ! qi)" mmap]
  by (simp add: vqueue_get_request_def Let_def next_head_def)

lemma vqueue_get_request_diverges_witness:
  "vqueue_get_request (\<lambda>_ _ _. None)
     (demo_state\<lparr>vs_queues := [\<lparr> vr = demo_vring\<lparr>vr_desc := (\<lambda>_. demo_desc\<lparr>d_flags := 1\<rparr>)\<rparr>,
        last_avail_idx = 0 \<rparr>]\<rparr>) 0 = Diverged"
  by (rule vqueue_get_request_diverges [where d = "demo_desc\<lparr>d_flags := 1\<rparr>"])
    (simp_all add: demo_state_def demo_vring_def vqueue_are_requests_available_def ring_desc_def
      desc_has_next_def desc_mapped_def desc_iov_def map_guest_def Let_def)

end
