(* ===== verification/Rvgpu_Ctx.thy ===== *)
theory Rvgpu_Ctx
  imports Iov
begin

text \<open>
  The connection library's context (\<open>src/librvgpu/rvgpu.c\<close>, \<open>include/librvgpu/rvgpu.h\<close>): one
  scanout per remote host, each with a pipe pair per stream (COMMAND, RESOURCE) towards the TCP
  thread, and the operations the proxy calls through the plugin table.  What a \<open>write\<close> or
  \<open>read\<close> on a pipe does is scripted by a list of results, one per call; when a write script is
  used up the kernel takes everything at once.
\<close>

section \<open>State\<close>

datatype pipe_type = COMMAND | RESOURCE

datatype reset_state = GPU_RESET_NONE | GPU_RESET_TRUE | GPU_RESET_INITIATED

text \<open>Results of \<open>write\<close>: a number of bytes taken (at most those offered), \<open>EAGAIN\<close>, another errno.\<close>

datatype write_result = Wrote nat | Write_again | Write_error int

text \<open>
  Results of \<open>read\<close>: the bytes that arrived together (a shorter read leaves the rest), \<open>EAGAIN\<close>,
  another error.  The end of the list is the end of the stream.
\<close>

datatype read_result = Chunk "byte list" | Read_again | Read_error

record rvgpu_scanout =
  activated :: bool
  snd_pipe :: "pipe_type \<Rightarrow> byte list"
  rcv_pipe :: "pipe_type \<Rightarrow> read_result list"

record rvgpu_res_info =
  ri_target :: u32
  ri_format :: u32
  ri_width :: u32
  ri_height :: u32
  ri_depth :: u32
  ri_array_size :: u32
  ri_last_level :: u32
  ri_flags :: u32
  ri_bpp :: u32

text \<open>A resource; \<open>None\<close> is the \<open>NULL\<close> backing, and \<open>nbacking\<close> is the length of the list.\<close>

record rvgpu_res =
  resid :: u32
  backing :: "iovec list option"
  res_info :: rvgpu_res_info

record rvgpu_res_transfer =
  tr_x :: u32
  tr_y :: u32
  tr_z :: u32
  tr_w :: u32
  tr_h :: u32
  tr_d :: u32
  tr_level :: u32
  tr_stride :: u32
  tr_layer_stride :: u32
  tr_offset :: u64

text \<open>
  \<open>struct ctx_priv\<close>: the scanout array, the counters of initialised scanouts and of hosts per
  stream, the context lock, the reset state, the resource list, and the script of the writes.
\<close>

record ctx_priv =
  sc :: "rvgpu_scanout list"
  inited_scanout_num :: nat
  cmd_count :: nat
  res_count :: nat
  lock_held :: bool
  frontend_reset :: reset_state
  reslist :: "rvgpu_res list"
  ctx_writes :: "write_result list"

abbreviation (input) EBUSY :: int where "EBUSY \<equiv> 16"

section \<open>Sending\<close>

text \<open>
  The write loop of one host: what is left to send, and the pipe so far.  The result is 0 or the
  errno, the rest of the script and the pipe.
\<close>

fun write_loop :: "write_result list \<Rightarrow> byte list \<Rightarrow> byte list \<Rightarrow> int \<times> write_result list \<times> byte list" where
  "write_loop ws [] out = (0, ws, out)"
| "write_loop [] bs out = (0, [], out @ bs)"
| "write_loop (Wrote n # ws) bs out = write_loop ws (drop n bs) (out @ take n bs)"
| "write_loop (Write_again # ws) bs out = write_loop ws bs out"
| "write_loop (Write_error e # ws) bs out = (e, ws, out)"

fun send_hosts ::
  "write_result list \<Rightarrow> byte list \<Rightarrow> rvgpu_scanout list \<Rightarrow> int \<times> write_result list \<times> rvgpu_scanout list" where
  "send_hosts ws bs [] = (0, ws, [])"
| "send_hosts ws bs (s # ss) =
     (if \<not> activated s then (- EBUSY, ws, s # ss)
      else (case write_loop ws bs (snd_pipe s COMMAND) of
        (e, ws', out) \<Rightarrow>
          (let s' = s\<lparr>snd_pipe := (snd_pipe s)(COMMAND := out)\<rparr> in
           if e \<noteq> 0 then (e, ws', s' # ss)
           else (case send_hosts ws' bs ss of (e', ws'', ss') \<Rightarrow> (e', ws'', s' # ss')))))"

definition rvgpu_ctx_send :: "ctx_priv \<Rightarrow> byte list \<Rightarrow> int \<times> ctx_priv" where
  "rvgpu_ctx_send c bs =
     (case send_hosts (ctx_writes c) bs (take (cmd_count c) (sc c)) of
        (e, ws, ss) \<Rightarrow> (e, c\<lparr>sc := ss @ drop (cmd_count c) (sc c), ctx_writes := ws\<rparr>))"

text \<open>\<open>rvgpu_send\<close>: one \<open>write\<close> to one host's stream; \<open>EAGAIN\<close> counts as success.\<close>

fun write_once :: "write_result list \<Rightarrow> byte list \<Rightarrow> byte list \<Rightarrow> int \<times> write_result list \<times> byte list" where
  "write_once [] bs out = (int (length bs), [], out @ bs)"
| "write_once (Wrote n # ws) bs out = (int (min n (length bs)), ws, out @ take n bs)"
| "write_once (Write_again # ws) bs out = (int (length bs), ws, out)"
| "write_once (Write_error e # ws) bs out = (- 1, ws, out)"

definition rvgpu_send ::
  "write_result list \<Rightarrow> rvgpu_scanout \<Rightarrow> pipe_type \<Rightarrow> byte list \<Rightarrow>
     int \<times> write_result list \<times> rvgpu_scanout" where
  "rvgpu_send ws s p bs =
     (if \<not> activated s then (- EBUSY, ws, s)
      else (case write_once ws bs (snd_pipe s p) of
        (rc, ws', out) \<Rightarrow> (rc, ws', s\<lparr>snd_pipe := (snd_pipe s)(p := out)\<rparr>)))"

section \<open>Receiving\<close>

text \<open>\<open>rvgpu_recv_all\<close>: read until all bytes are there; \<open>None\<close> is -1 (closed or failed).\<close>

fun recv_all_loop :: "read_result list \<Rightarrow> nat \<Rightarrow> byte list option \<times> read_result list" where
  "recv_all_loop rs 0 = (Some [], rs)"
| "recv_all_loop [] (Suc n) = (None, [])"
| "recv_all_loop (Chunk bs # rs) (Suc n) =
     (if bs = [] then (None, rs)
      else if Suc n < length bs then (Some (take (Suc n) bs), Chunk (drop (Suc n) bs) # rs)
      else (case recv_all_loop rs (Suc n - length bs) of (r, rs') \<Rightarrow> (map_option ((@) bs) r, rs')))"
| "recv_all_loop (Read_again # rs) (Suc n) = recv_all_loop rs (Suc n)"
| "recv_all_loop (Read_error # rs) (Suc n) = (None, rs)"

definition rvgpu_recv_all ::
  "rvgpu_scanout \<Rightarrow> pipe_type \<Rightarrow> nat \<Rightarrow> (int + byte list) \<times> rvgpu_scanout" where
  "rvgpu_recv_all s p n =
     (if \<not> activated s then (Inl (- EBUSY), s)
      else (case recv_all_loop (rcv_pipe s p) n of
        (r, rs) \<Rightarrow> (case r of None \<Rightarrow> Inl (- 1) | Some bs \<Rightarrow> Inr bs, s\<lparr>rcv_pipe := (rcv_pipe s)(p := rs)\<rparr>)))"

text \<open>\<open>rvgpu_recv\<close>: one \<open>read\<close>.\<close>

fun read_once :: "read_result list \<Rightarrow> nat \<Rightarrow> (int + byte list) \<times> read_result list" where
  "read_once [] n = (Inr [], [])"
| "read_once (Chunk bs # rs) n =
     (Inr (take n bs), if n < length bs then Chunk (drop n bs) # rs else rs)"
| "read_once (Read_again # rs) n = (Inl (- 1), rs)"
| "read_once (Read_error # rs) n = (Inl (- 1), rs)"

definition rvgpu_recv ::
  "rvgpu_scanout \<Rightarrow> pipe_type \<Rightarrow> nat \<Rightarrow> (int + byte list) \<times> rvgpu_scanout" where
  "rvgpu_recv s p n =
     (if \<not> activated s then (Inl (- EBUSY), s)
      else (case read_once (rcv_pipe s p) n of
        (r, rs) \<Rightarrow> (r, s\<lparr>rcv_pipe := (rcv_pipe s)(p := rs)\<rparr>)))"

section \<open>Contexts and scanouts\<close>

definition rvgpu_ctx_init :: "write_result list \<Rightarrow> ctx_priv" where
  "rvgpu_ctx_init ws =
     \<lparr> sc = [], inited_scanout_num = 0, cmd_count = 0, res_count = 0, lock_held = False,
       frontend_reset = GPU_RESET_NONE, reslist = [], ctx_writes = ws \<rparr>"

definition empty_scanout :: rvgpu_scanout where
  "empty_scanout = \<lparr> activated = False, snd_pipe = (\<lambda>_. []), rcv_pipe = (\<lambda>_. []) \<rparr>"

text \<open>
  \<open>rvgpu_init\<close>; the flag says whether \<open>init_communic_pipes\<close> could create the pipes.  The scanout
  is stored in the array before anything can fail, and the failing path leaves with the context
  lock held.  \<open>init_tcp_scanout\<close> adds one host to each stream.
\<close>

definition init_tcp_scanout :: "ctx_priv \<Rightarrow> ctx_priv" where
  "init_tcp_scanout c = c\<lparr>cmd_count := cmd_count c + 1, res_count := res_count c + 1\<rparr>"

definition rvgpu_init :: "bool \<Rightarrow> ctx_priv \<Rightarrow> int \<times> ctx_priv" where
  "rvgpu_init pipes_ok c =
     (let n = inited_scanout_num c;
          c1 = c\<lparr>sc := take n (sc c) @ [empty_scanout], lock_held := True\<rparr>
      in if \<not> pipes_ok then (- 1, c1)
         else
           let c2 = init_tcp_scanout c1
           in (0, c2\<lparr>sc := (sc c2)[n := (sc c2 ! n)\<lparr>activated := True\<rparr>],
                   inited_scanout_num := n + 1, lock_held := False\<rparr>))"

definition rvgpu_frontend_reset_state :: "ctx_priv \<Rightarrow> reset_state \<Rightarrow> ctx_priv" where
  "rvgpu_frontend_reset_state c st = c\<lparr>frontend_reset := st\<rparr>"

section \<open>Properties of sending\<close>

lemma write_loop_prefix:
  "write_loop ws bs out = (e, ws', out') \<Longrightarrow> Write_error 0 \<notin> set ws \<Longrightarrow>
     (\<exists>k. out' = out @ take k bs) \<and> (e = 0 \<longrightarrow> out' = out @ bs) \<and> Write_error 0 \<notin> set ws'"
proof (induction ws bs out arbitrary: e ws' out' rule: write_loop.induct)
  case (3 n ws b bs out)
  let ?bs = "b # bs"
  from 3 obtain k where k: "out' = (out @ take n ?bs) @ take k (drop n ?bs)"
    "e = 0 \<longrightarrow> out' = (out @ take n ?bs) @ drop n ?bs" "Write_error 0 \<notin> set ws'"
    by fastforce
  have "take n ?bs @ take k (drop n ?bs) = take (n + k) ?bs"
    by (simp only: take_add)
  with k show ?case
    by (metis append.assoc append_take_drop_id)
next
  case (5 e ws b bs out)
  then show ?case by (auto intro: exI [of _ 0])
next
  case (2 v va out)
  then show ?case by (auto intro: exI [of _ "Suc (length va)"])
qed auto

text \<open>The streams of the hosts, as the TCP thread will forward them.\<close>

definition ctx_out :: "ctx_priv \<Rightarrow> byte list list" where
  "ctx_out c = map (\<lambda>s. snd_pipe s COMMAND) (take (cmd_count c) (sc c))"

definition benign_write :: "write_result \<Rightarrow> bool" where
  "benign_write w = (case w of Write_error e \<Rightarrow> False | _ \<Rightarrow> True)"

definition ctx_ready :: "ctx_priv \<Rightarrow> bool" where
  "ctx_ready c =
     (list_all activated (take (cmd_count c) (sc c)) \<and> list_all benign_write (ctx_writes c))"

lemma write_loop_benign:
  "list_all benign_write ws \<Longrightarrow>
     \<exists>ws'. write_loop ws bs out = (0, ws', out @ bs) \<and> list_all benign_write ws'"
  by (induction ws bs out rule: write_loop.induct) (auto simp: benign_write_def)

lemma send_hosts_benign:
  "list_all benign_write ws \<Longrightarrow> list_all activated ss \<Longrightarrow>
     \<exists>ws' ss'. send_hosts ws bs ss = (0, ws', ss') \<and> list_all benign_write ws' \<and>
       list_all activated ss' \<and> length ss' = length ss \<and>
       map (\<lambda>s. snd_pipe s COMMAND) ss' = map (\<lambda>s. snd_pipe s COMMAND @ bs) ss"
proof (induction ws bs ss rule: send_hosts.induct)
  case (2 ws bs s ss)
  obtain ws' where w: "write_loop ws bs (snd_pipe s COMMAND) = (0, ws', snd_pipe s COMMAND @ bs)"
    "list_all benign_write ws'"
    using write_loop_benign [OF 2(2)] by blast
  with 2(1) [OF _ w(1) [symmetric] refl refl] 2(3) show ?case
    by fastforce
qed simp

lemma take_replaced_prefix:
  "length ss = length (take n xs) \<Longrightarrow> take n (ss @ drop n xs) = ss"
  by (cases "n \<le> length xs") simp_all

lemma rvgpu_ctx_send_ready:
  assumes "ctx_ready c"
  shows "fst (rvgpu_ctx_send c bs) = 0 \<and> ctx_ready (snd (rvgpu_ctx_send c bs)) \<and>
    ctx_out (snd (rvgpu_ctx_send c bs)) = map (\<lambda>out. out @ bs) (ctx_out c)"
proof -
  obtain ws ss where s: "send_hosts (ctx_writes c) bs (take (cmd_count c) (sc c)) = (0, ws, ss)"
    "list_all benign_write ws" "list_all activated ss"
    "length ss = length (take (cmd_count c) (sc c))"
    "map (\<lambda>s. snd_pipe s COMMAND) ss = map (\<lambda>s. snd_pipe s COMMAND @ bs) (take (cmd_count c) (sc c))"
    using send_hosts_benign [of "ctx_writes c" "take (cmd_count c) (sc c)" bs] assms
    unfolding ctx_ready_def by blast
  then have "take (cmd_count c) (ss @ drop (cmd_count c) (sc c)) = ss"
    by (intro take_replaced_prefix)
  with s show ?thesis
    by (simp add: rvgpu_ctx_send_def ctx_ready_def ctx_out_def o_def del: take_append)
qed

interpretation ctx: byte_sink rvgpu_ctx_send ctx_ready ctx_out
  by unfold_locales (rule rvgpu_ctx_send_ready)

lemma send_hosts_prefix:
  "send_hosts ws bs ss = (e, ws', ss') \<Longrightarrow> Write_error 0 \<notin> set ws \<Longrightarrow>
     list_all2 (\<lambda>s s'. \<exists>k. snd_pipe s' COMMAND = snd_pipe s COMMAND @ take k bs) ss ss' \<and>
     (e = 0 \<longrightarrow> map (\<lambda>s. snd_pipe s COMMAND) ss' = map (\<lambda>s. snd_pipe s COMMAND @ bs) ss)"
proof (induction ws bs ss arbitrary: e ws' ss' rule: send_hosts.induct)
  case (2 ws bs s ss)
  have rfl: "list_all2 (\<lambda>s s'. \<exists>k. snd_pipe s' COMMAND = snd_pipe s COMMAND @ take k bs) xs xs" for xs
    by (rule list_all2_refl) (auto intro: exI [of _ 0])
  obtain e1 ws1 out1 where w: "write_loop ws bs (snd_pipe s COMMAND) = (e1, ws1, out1)"
    by (metis prod_cases3)
  note p = write_loop_prefix [OF w 2(3)]
  show ?case
  proof (cases "activated s \<and> e1 = 0")
    case False
    with 2(2) w p rfl show ?thesis
      by (auto split: if_splits intro: exI [of _ 0])
  next
    case True
    obtain e2 ws2 ss2 where r: "send_hosts ws1 bs ss = (e2, ws2, ss2)"
      by (metis prod_cases3)
    have "Write_error 0 \<notin> set ws1"
      using p by simp
    with 2(1) [OF _ w [symmetric] refl refl _ r] True p
    have "list_all2 (\<lambda>s s'. \<exists>k. snd_pipe s' COMMAND = snd_pipe s COMMAND @ take k bs) ss ss2 \<and>
     (e2 = 0 \<longrightarrow> map (\<lambda>s. snd_pipe s COMMAND) ss2 = map (\<lambda>s. snd_pipe s COMMAND @ bs) ss)"
      by simp
    with 2(2) True w r p show ?thesis
      by (auto intro: exI [of _ "length bs"])
  qed
qed simp

text \<open>
  \<open>rvgpu_ctx_send\<close> never reorders or invents bytes: whatever the kernel does, the stream of
  every host is extended by a prefix of the buffer, and when the call returns 0 every host got
  the whole buffer, so the hosts stay in step.
\<close>

theorem rvgpu_ctx_send_streams:
  assumes "rvgpu_ctx_send c bs = (rc, c')" and "Write_error 0 \<notin> set (ctx_writes c)"
  shows "list_all2 (\<lambda>out out'. \<exists>k. out' = out @ take k bs) (ctx_out c) (ctx_out c') \<and>
    (rc = 0 \<longrightarrow> ctx_out c' = map (\<lambda>out. out @ bs) (ctx_out c))"
proof -
  obtain ws ss where s: "send_hosts (ctx_writes c) bs (take (cmd_count c) (sc c)) = (rc, ws, ss)"
    and c': "c' = c\<lparr>sc := ss @ drop (cmd_count c) (sc c), ctx_writes := ws\<rparr>"
    using assms(1) by (auto simp: rvgpu_ctx_send_def split: prod.splits)
  note p = send_hosts_prefix [OF s assms(2)]
  then have "length ss = length (take (cmd_count c) (sc c))"
    by (auto dest: list_all2_lengthD)
  then have "take (cmd_count c) (ss @ drop (cmd_count c) (sc c)) = ss"
    by (intro take_replaced_prefix)
  then have "ctx_out c' = map (\<lambda>s. snd_pipe s COMMAND) ss"
    by (simp add: ctx_out_def c' del: take_append)
  with p show ?thesis
    by (simp add: ctx_out_def list_all2_map1 list_all2_map2)
qed

definition demo_ctx :: "write_result list \<Rightarrow> ctx_priv" where
  "demo_ctx ws = snd (rvgpu_init True (snd (rvgpu_init True (rvgpu_ctx_init ws))))"

lemma demo_ctx_hosts:
  "cmd_count (demo_ctx ws) = 2" "ctx_writes (demo_ctx ws) = ws" "reslist (demo_ctx ws) = []"
  "sc (demo_ctx ws) = [empty_scanout\<lparr>activated := True\<rparr>, empty_scanout\<lparr>activated := True\<rparr>]"
  by (simp_all add: demo_ctx_def rvgpu_init_def rvgpu_ctx_init_def init_tcp_scanout_def Let_def)

lemma demo_ctx_ready: "ctx_ready (demo_ctx [])" "ctx_out (demo_ctx ws) = [[], []]"
  by (simp_all add: ctx_ready_def ctx_out_def demo_ctx_hosts empty_scanout_def)

lemma rvgpu_ctx_send_streams_witness:
  "list_all2 (\<lambda>out out'. \<exists>k. out' = out @ take k [1, 2, 3]) (ctx_out (demo_ctx [Wrote 2, Write_error 32]))
     (ctx_out (snd (rvgpu_ctx_send (demo_ctx [Wrote 2, Write_error 32]) [1, 2, 3]))) \<and>
   fst (rvgpu_ctx_send (demo_ctx [Wrote 2, Write_error 32]) [1, 2, 3]) = 32 \<and>
   ctx_out (snd (rvgpu_ctx_send (demo_ctx [Wrote 2, Write_error 32]) [1, 2, 3])) = [[1, 2], []]"
proof -
  let ?r = "rvgpu_ctx_send (demo_ctx [Wrote 2, Write_error 32]) [1, 2, 3]"
  have "?r = (fst ?r, snd ?r)"
    by simp
  from rvgpu_ctx_send_streams [OF this] show ?thesis
    by (simp add: demo_ctx_hosts rvgpu_ctx_send_def ctx_out_def empty_scanout_def)
qed

section \<open>Properties of receiving\<close>

text \<open>The bytes a reader can still get before the stream ends or fails.\<close>

fun stream_bytes :: "read_result list \<Rightarrow> byte list" where
  "stream_bytes [] = []"
| "stream_bytes (Chunk bs # rs) = (if bs = [] then [] else bs @ stream_bytes rs)"
| "stream_bytes (Read_again # rs) = stream_bytes rs"
| "stream_bytes (Read_error # rs) = []"

lemma recv_all_loop_spec:
  "recv_all_loop rs n = (r, rs') \<Longrightarrow>
     (case r of Some bs \<Rightarrow> bs = take n (stream_bytes rs) \<and> n \<le> length (stream_bytes rs) \<and>
          stream_bytes rs' = drop n (stream_bytes rs)
        | None \<Rightarrow> length (stream_bytes rs) < n)"
proof (induction rs n arbitrary: r rs' rule: recv_all_loop.induct)
  case (3 bs rs n)
  consider "bs = []" | "bs \<noteq> []" "Suc n < length bs" | "bs \<noteq> []" "\<not> Suc n < length bs"
    by blast
  then show ?case
  proof cases
    case 1
    with 3(2) show ?thesis by auto
  next
    case 2
    with 3(2) have "r = Some (take (Suc n) bs)" "rs' = Chunk (drop (Suc n) bs) # rs"
      by (auto split: if_splits)
    with 2 show ?thesis by simp
  next
    case False: 3
    obtain r1 rs1 where rec: "recv_all_loop rs (Suc n - length bs) = (r1, rs1)"
      by fastforce
    with 3 False show ?thesis
      by (cases r1) auto
  qed
qed (auto split: option.splits)

text \<open>
  \<open>rvgpu_recv_all\<close> delivers the stream in order, whatever the sizes of the reads: it returns
  exactly the next \<open>n\<close> bytes and leaves the rest of the stream, or fails because fewer than \<open>n\<close>
  bytes come before the connection closes or breaks.
\<close>

theorem rvgpu_recv_all_stream:
  assumes "activated s" and "rvgpu_recv_all s p n = (r, s')"
  shows "(case r of
      Inr bs \<Rightarrow> bs = take n (stream_bytes (rcv_pipe s p)) \<and> length bs = n \<and>
        stream_bytes (rcv_pipe s' p) = drop n (stream_bytes (rcv_pipe s p))
    | Inl e \<Rightarrow> e = - 1 \<and> length (stream_bytes (rcv_pipe s p)) < n)"
  using assms recv_all_loop_spec [of "rcv_pipe s p" n]
  by (cases "recv_all_loop (rcv_pipe s p) n")
    (auto simp: rvgpu_recv_all_def split: option.splits)

lemma rvgpu_recv_all_stream_witness:
  "fst (rvgpu_recv_all (empty_scanout\<lparr>activated := True,
       rcv_pipe := (\<lambda>_. [Chunk [1, 2], Read_again, Chunk [3, 4]])\<rparr>) RESOURCE 3) = Inr [1, 2, 3]"
proof -
  let ?s = "empty_scanout\<lparr>activated := True,
    rcv_pipe := (\<lambda>_. [Chunk [1, 2], Read_again, Chunk [3, 4]])\<rparr>"
  obtain r s' where r: "rvgpu_recv_all ?s RESOURCE 3 = (r, s')"
    by fastforce
  have "activated ?s" by simp
  from rvgpu_recv_all_stream [OF this r] have "r = Inr [1, 2, 3]"
    by (cases r) simp_all
  then show ?thesis
    by (simp only: r fst_conv)
qed

section \<open>Initialisation\<close>

text \<open>
  When the pipes of a scanout cannot be created, \<open>rvgpu_init\<close> returns with the context lock held
  and with the scanout stored in the array.
\<close>

lemma rvgpu_init_leaks_lock:
  "fst (rvgpu_init False c) = - 1 \<and> lock_held (snd (rvgpu_init False c))"
  by (simp add: rvgpu_init_def Let_def)

end
