(* ===== verification/Virgl_Format.thy ===== *)
theory Virgl_Format
  imports Prelude
begin

text \<open>
  The virgl pixel formats of \<open>include/librvgpu/rvgpu-virgl-format.h\<close>: the
  enumerators of \<open>enum virgl_formats\<close> with their values, the two switches over them
  (\<open>get_virgl_format_string\<close> and \<open>get_format_bpp\<close>) and the texture targets.  A format travels
  through the program as a 32-bit integer, so the enumerators are 32-bit words; a switch is a
  table from the case labels to the returned value, with the default of the source.
\<close>

section \<open>The enumerators\<close>

abbreviation (input) VIRGL_FORMAT_NONE :: u32 where "VIRGL_FORMAT_NONE \<equiv> 0"
abbreviation (input) VIRGL_FORMAT_B8G8R8A8_UNORM :: u32 where "VIRGL_FORMAT_B8G8R8A8_UNORM \<equiv> 1"
abbreviation (input) VIRGL_FORMAT_B8G8R8X8_UNORM :: u32 where "VIRGL_FORMAT_B8G8R8X8_UNORM \<equiv> 2"
abbreviation (input) VIRGL_FORMAT_A8R8G8B8_UNORM :: u32 where "VIRGL_FORMAT_A8R8G8B8_UNORM \<equiv> 3"
abbreviation (input) VIRGL_FORMAT_X8R8G8B8_UNORM :: u32 where "VIRGL_FORMAT_X8R8G8B8_UNORM \<equiv> 4"
abbreviation (input) VIRGL_FORMAT_B5G5R5A1_UNORM :: u32 where "VIRGL_FORMAT_B5G5R5A1_UNORM \<equiv> 5"
abbreviation (input) VIRGL_FORMAT_B4G4R4A4_UNORM :: u32 where "VIRGL_FORMAT_B4G4R4A4_UNORM \<equiv> 6"
abbreviation (input) VIRGL_FORMAT_B5G6R5_UNORM :: u32 where "VIRGL_FORMAT_B5G6R5_UNORM \<equiv> 7"
abbreviation (input) VIRGL_FORMAT_R10G10B10A2_UNORM :: u32 where "VIRGL_FORMAT_R10G10B10A2_UNORM \<equiv> 8"
abbreviation (input) VIRGL_FORMAT_L8_UNORM :: u32 where "VIRGL_FORMAT_L8_UNORM \<equiv> 9"
abbreviation (input) VIRGL_FORMAT_A8_UNORM :: u32 where "VIRGL_FORMAT_A8_UNORM \<equiv> 10"
abbreviation (input) VIRGL_FORMAT_I8_UNORM :: u32 where "VIRGL_FORMAT_I8_UNORM \<equiv> 11"
abbreviation (input) VIRGL_FORMAT_L8A8_UNORM :: u32 where "VIRGL_FORMAT_L8A8_UNORM \<equiv> 12"
abbreviation (input) VIRGL_FORMAT_L16_UNORM :: u32 where "VIRGL_FORMAT_L16_UNORM \<equiv> 13"
abbreviation (input) VIRGL_FORMAT_UYVY :: u32 where "VIRGL_FORMAT_UYVY \<equiv> 14"
abbreviation (input) VIRGL_FORMAT_YUYV :: u32 where "VIRGL_FORMAT_YUYV \<equiv> 15"
abbreviation (input) VIRGL_FORMAT_Z16_UNORM :: u32 where "VIRGL_FORMAT_Z16_UNORM \<equiv> 16"
abbreviation (input) VIRGL_FORMAT_Z32_UNORM :: u32 where "VIRGL_FORMAT_Z32_UNORM \<equiv> 17"
abbreviation (input) VIRGL_FORMAT_Z32_FLOAT :: u32 where "VIRGL_FORMAT_Z32_FLOAT \<equiv> 18"
abbreviation (input) VIRGL_FORMAT_Z24_UNORM_S8_UINT :: u32 where "VIRGL_FORMAT_Z24_UNORM_S8_UINT \<equiv> 19"
abbreviation (input) VIRGL_FORMAT_S8_UINT_Z24_UNORM :: u32 where "VIRGL_FORMAT_S8_UINT_Z24_UNORM \<equiv> 20"
abbreviation (input) VIRGL_FORMAT_Z24X8_UNORM :: u32 where "VIRGL_FORMAT_Z24X8_UNORM \<equiv> 21"
abbreviation (input) VIRGL_FORMAT_X8Z24_UNORM :: u32 where "VIRGL_FORMAT_X8Z24_UNORM \<equiv> 22"
abbreviation (input) VIRGL_FORMAT_S8_UINT :: u32 where "VIRGL_FORMAT_S8_UINT \<equiv> 23"
abbreviation (input) VIRGL_FORMAT_R64_FLOAT :: u32 where "VIRGL_FORMAT_R64_FLOAT \<equiv> 24"
abbreviation (input) VIRGL_FORMAT_R64G64_FLOAT :: u32 where "VIRGL_FORMAT_R64G64_FLOAT \<equiv> 25"
abbreviation (input) VIRGL_FORMAT_R64G64B64_FLOAT :: u32 where "VIRGL_FORMAT_R64G64B64_FLOAT \<equiv> 26"
abbreviation (input) VIRGL_FORMAT_R64G64B64A64_FLOAT :: u32 where "VIRGL_FORMAT_R64G64B64A64_FLOAT \<equiv> 27"
abbreviation (input) VIRGL_FORMAT_R32_FLOAT :: u32 where "VIRGL_FORMAT_R32_FLOAT \<equiv> 28"
abbreviation (input) VIRGL_FORMAT_R32G32_FLOAT :: u32 where "VIRGL_FORMAT_R32G32_FLOAT \<equiv> 29"
abbreviation (input) VIRGL_FORMAT_R32G32B32_FLOAT :: u32 where "VIRGL_FORMAT_R32G32B32_FLOAT \<equiv> 30"
abbreviation (input) VIRGL_FORMAT_R32G32B32A32_FLOAT :: u32 where "VIRGL_FORMAT_R32G32B32A32_FLOAT \<equiv> 31"
abbreviation (input) VIRGL_FORMAT_R32_UNORM :: u32 where "VIRGL_FORMAT_R32_UNORM \<equiv> 32"
abbreviation (input) VIRGL_FORMAT_R32G32_UNORM :: u32 where "VIRGL_FORMAT_R32G32_UNORM \<equiv> 33"
abbreviation (input) VIRGL_FORMAT_R32G32B32_UNORM :: u32 where "VIRGL_FORMAT_R32G32B32_UNORM \<equiv> 34"
abbreviation (input) VIRGL_FORMAT_R32G32B32A32_UNORM :: u32 where "VIRGL_FORMAT_R32G32B32A32_UNORM \<equiv> 35"
abbreviation (input) VIRGL_FORMAT_R32_USCALED :: u32 where "VIRGL_FORMAT_R32_USCALED \<equiv> 36"
abbreviation (input) VIRGL_FORMAT_R32G32_USCALED :: u32 where "VIRGL_FORMAT_R32G32_USCALED \<equiv> 37"
abbreviation (input) VIRGL_FORMAT_R32G32B32_USCALED :: u32 where "VIRGL_FORMAT_R32G32B32_USCALED \<equiv> 38"
abbreviation (input) VIRGL_FORMAT_R32G32B32A32_USCALED :: u32 where "VIRGL_FORMAT_R32G32B32A32_USCALED \<equiv> 39"
abbreviation (input) VIRGL_FORMAT_R32_SNORM :: u32 where "VIRGL_FORMAT_R32_SNORM \<equiv> 40"
abbreviation (input) VIRGL_FORMAT_R32G32_SNORM :: u32 where "VIRGL_FORMAT_R32G32_SNORM \<equiv> 41"
abbreviation (input) VIRGL_FORMAT_R32G32B32_SNORM :: u32 where "VIRGL_FORMAT_R32G32B32_SNORM \<equiv> 42"
abbreviation (input) VIRGL_FORMAT_R32G32B32A32_SNORM :: u32 where "VIRGL_FORMAT_R32G32B32A32_SNORM \<equiv> 43"
abbreviation (input) VIRGL_FORMAT_R32_SSCALED :: u32 where "VIRGL_FORMAT_R32_SSCALED \<equiv> 44"
abbreviation (input) VIRGL_FORMAT_R32G32_SSCALED :: u32 where "VIRGL_FORMAT_R32G32_SSCALED \<equiv> 45"
abbreviation (input) VIRGL_FORMAT_R32G32B32_SSCALED :: u32 where "VIRGL_FORMAT_R32G32B32_SSCALED \<equiv> 46"
abbreviation (input) VIRGL_FORMAT_R32G32B32A32_SSCALED :: u32 where "VIRGL_FORMAT_R32G32B32A32_SSCALED \<equiv> 47"
abbreviation (input) VIRGL_FORMAT_R16_UNORM :: u32 where "VIRGL_FORMAT_R16_UNORM \<equiv> 48"
abbreviation (input) VIRGL_FORMAT_R16G16_UNORM :: u32 where "VIRGL_FORMAT_R16G16_UNORM \<equiv> 49"
abbreviation (input) VIRGL_FORMAT_R16G16B16_UNORM :: u32 where "VIRGL_FORMAT_R16G16B16_UNORM \<equiv> 50"
abbreviation (input) VIRGL_FORMAT_R16G16B16A16_UNORM :: u32 where "VIRGL_FORMAT_R16G16B16A16_UNORM \<equiv> 51"
abbreviation (input) VIRGL_FORMAT_R16_USCALED :: u32 where "VIRGL_FORMAT_R16_USCALED \<equiv> 52"
abbreviation (input) VIRGL_FORMAT_R16G16_USCALED :: u32 where "VIRGL_FORMAT_R16G16_USCALED \<equiv> 53"
abbreviation (input) VIRGL_FORMAT_R16G16B16_USCALED :: u32 where "VIRGL_FORMAT_R16G16B16_USCALED \<equiv> 54"
abbreviation (input) VIRGL_FORMAT_R16G16B16A16_USCALED :: u32 where "VIRGL_FORMAT_R16G16B16A16_USCALED \<equiv> 55"
abbreviation (input) VIRGL_FORMAT_R16_SNORM :: u32 where "VIRGL_FORMAT_R16_SNORM \<equiv> 56"
abbreviation (input) VIRGL_FORMAT_R16G16_SNORM :: u32 where "VIRGL_FORMAT_R16G16_SNORM \<equiv> 57"
abbreviation (input) VIRGL_FORMAT_R16G16B16_SNORM :: u32 where "VIRGL_FORMAT_R16G16B16_SNORM \<equiv> 58"
abbreviation (input) VIRGL_FORMAT_R16G16B16A16_SNORM :: u32 where "VIRGL_FORMAT_R16G16B16A16_SNORM \<equiv> 59"
abbreviation (input) VIRGL_FORMAT_R16_SSCALED :: u32 where "VIRGL_FORMAT_R16_SSCALED \<equiv> 60"
abbreviation (input) VIRGL_FORMAT_R16G16_SSCALED :: u32 where "VIRGL_FORMAT_R16G16_SSCALED \<equiv> 61"
abbreviation (input) VIRGL_FORMAT_R16G16B16_SSCALED :: u32 where "VIRGL_FORMAT_R16G16B16_SSCALED \<equiv> 62"
abbreviation (input) VIRGL_FORMAT_R16G16B16A16_SSCALED :: u32 where "VIRGL_FORMAT_R16G16B16A16_SSCALED \<equiv> 63"
abbreviation (input) VIRGL_FORMAT_R8_UNORM :: u32 where "VIRGL_FORMAT_R8_UNORM \<equiv> 64"
abbreviation (input) VIRGL_FORMAT_R8G8_UNORM :: u32 where "VIRGL_FORMAT_R8G8_UNORM \<equiv> 65"
abbreviation (input) VIRGL_FORMAT_R8G8B8_UNORM :: u32 where "VIRGL_FORMAT_R8G8B8_UNORM \<equiv> 66"
abbreviation (input) VIRGL_FORMAT_R8G8B8A8_UNORM :: u32 where "VIRGL_FORMAT_R8G8B8A8_UNORM \<equiv> 67"
abbreviation (input) VIRGL_FORMAT_X8B8G8R8_UNORM :: u32 where "VIRGL_FORMAT_X8B8G8R8_UNORM \<equiv> 68"
abbreviation (input) VIRGL_FORMAT_R8_USCALED :: u32 where "VIRGL_FORMAT_R8_USCALED \<equiv> 69"
abbreviation (input) VIRGL_FORMAT_R8G8_USCALED :: u32 where "VIRGL_FORMAT_R8G8_USCALED \<equiv> 70"
abbreviation (input) VIRGL_FORMAT_R8G8B8_USCALED :: u32 where "VIRGL_FORMAT_R8G8B8_USCALED \<equiv> 71"
abbreviation (input) VIRGL_FORMAT_R8G8B8A8_USCALED :: u32 where "VIRGL_FORMAT_R8G8B8A8_USCALED \<equiv> 72"
abbreviation (input) VIRGL_FORMAT_R8_SNORM :: u32 where "VIRGL_FORMAT_R8_SNORM \<equiv> 74"
abbreviation (input) VIRGL_FORMAT_R8G8_SNORM :: u32 where "VIRGL_FORMAT_R8G8_SNORM \<equiv> 75"
abbreviation (input) VIRGL_FORMAT_R8G8B8_SNORM :: u32 where "VIRGL_FORMAT_R8G8B8_SNORM \<equiv> 76"
abbreviation (input) VIRGL_FORMAT_R8G8B8A8_SNORM :: u32 where "VIRGL_FORMAT_R8G8B8A8_SNORM \<equiv> 77"
abbreviation (input) VIRGL_FORMAT_R8_SSCALED :: u32 where "VIRGL_FORMAT_R8_SSCALED \<equiv> 82"
abbreviation (input) VIRGL_FORMAT_R8G8_SSCALED :: u32 where "VIRGL_FORMAT_R8G8_SSCALED \<equiv> 83"
abbreviation (input) VIRGL_FORMAT_R8G8B8_SSCALED :: u32 where "VIRGL_FORMAT_R8G8B8_SSCALED \<equiv> 84"
abbreviation (input) VIRGL_FORMAT_R8G8B8A8_SSCALED :: u32 where "VIRGL_FORMAT_R8G8B8A8_SSCALED \<equiv> 85"
abbreviation (input) VIRGL_FORMAT_R32_FIXED :: u32 where "VIRGL_FORMAT_R32_FIXED \<equiv> 87"
abbreviation (input) VIRGL_FORMAT_R32G32_FIXED :: u32 where "VIRGL_FORMAT_R32G32_FIXED \<equiv> 88"
abbreviation (input) VIRGL_FORMAT_R32G32B32_FIXED :: u32 where "VIRGL_FORMAT_R32G32B32_FIXED \<equiv> 89"
abbreviation (input) VIRGL_FORMAT_R32G32B32A32_FIXED :: u32 where "VIRGL_FORMAT_R32G32B32A32_FIXED \<equiv> 90"
abbreviation (input) VIRGL_FORMAT_R16_FLOAT :: u32 where "VIRGL_FORMAT_R16_FLOAT \<equiv> 91"
abbreviation (input) VIRGL_FORMAT_R16G16_FLOAT :: u32 where "VIRGL_FORMAT_R16G16_FLOAT \<equiv> 92"
abbreviation (input) VIRGL_FORMAT_R16G16B16_FLOAT :: u32 where "VIRGL_FORMAT_R16G16B16_FLOAT \<equiv> 93"
abbreviation (input) VIRGL_FORMAT_R16G16B16A16_FLOAT :: u32 where "VIRGL_FORMAT_R16G16B16A16_FLOAT \<equiv> 94"
abbreviation (input) VIRGL_FORMAT_L8_SRGB :: u32 where "VIRGL_FORMAT_L8_SRGB \<equiv> 95"
abbreviation (input) VIRGL_FORMAT_L8A8_SRGB :: u32 where "VIRGL_FORMAT_L8A8_SRGB \<equiv> 96"
abbreviation (input) VIRGL_FORMAT_R8G8B8_SRGB :: u32 where "VIRGL_FORMAT_R8G8B8_SRGB \<equiv> 97"
abbreviation (input) VIRGL_FORMAT_A8B8G8R8_SRGB :: u32 where "VIRGL_FORMAT_A8B8G8R8_SRGB \<equiv> 98"
abbreviation (input) VIRGL_FORMAT_X8B8G8R8_SRGB :: u32 where "VIRGL_FORMAT_X8B8G8R8_SRGB \<equiv> 99"
abbreviation (input) VIRGL_FORMAT_B8G8R8A8_SRGB :: u32 where "VIRGL_FORMAT_B8G8R8A8_SRGB \<equiv> 100"
abbreviation (input) VIRGL_FORMAT_B8G8R8X8_SRGB :: u32 where "VIRGL_FORMAT_B8G8R8X8_SRGB \<equiv> 101"
abbreviation (input) VIRGL_FORMAT_A8R8G8B8_SRGB :: u32 where "VIRGL_FORMAT_A8R8G8B8_SRGB \<equiv> 102"
abbreviation (input) VIRGL_FORMAT_X8R8G8B8_SRGB :: u32 where "VIRGL_FORMAT_X8R8G8B8_SRGB \<equiv> 103"
abbreviation (input) VIRGL_FORMAT_R8G8B8A8_SRGB :: u32 where "VIRGL_FORMAT_R8G8B8A8_SRGB \<equiv> 104"
abbreviation (input) VIRGL_FORMAT_DXT1_RGB :: u32 where "VIRGL_FORMAT_DXT1_RGB \<equiv> 105"
abbreviation (input) VIRGL_FORMAT_DXT1_RGBA :: u32 where "VIRGL_FORMAT_DXT1_RGBA \<equiv> 106"
abbreviation (input) VIRGL_FORMAT_DXT3_RGBA :: u32 where "VIRGL_FORMAT_DXT3_RGBA \<equiv> 107"
abbreviation (input) VIRGL_FORMAT_DXT5_RGBA :: u32 where "VIRGL_FORMAT_DXT5_RGBA \<equiv> 108"
abbreviation (input) VIRGL_FORMAT_DXT1_SRGB :: u32 where "VIRGL_FORMAT_DXT1_SRGB \<equiv> 109"
abbreviation (input) VIRGL_FORMAT_DXT1_SRGBA :: u32 where "VIRGL_FORMAT_DXT1_SRGBA \<equiv> 110"
abbreviation (input) VIRGL_FORMAT_DXT3_SRGBA :: u32 where "VIRGL_FORMAT_DXT3_SRGBA \<equiv> 111"
abbreviation (input) VIRGL_FORMAT_DXT5_SRGBA :: u32 where "VIRGL_FORMAT_DXT5_SRGBA \<equiv> 112"
abbreviation (input) VIRGL_FORMAT_RGTC1_UNORM :: u32 where "VIRGL_FORMAT_RGTC1_UNORM \<equiv> 113"
abbreviation (input) VIRGL_FORMAT_RGTC1_SNORM :: u32 where "VIRGL_FORMAT_RGTC1_SNORM \<equiv> 114"
abbreviation (input) VIRGL_FORMAT_RGTC2_UNORM :: u32 where "VIRGL_FORMAT_RGTC2_UNORM \<equiv> 115"
abbreviation (input) VIRGL_FORMAT_RGTC2_SNORM :: u32 where "VIRGL_FORMAT_RGTC2_SNORM \<equiv> 116"
abbreviation (input) VIRGL_FORMAT_R8G8_B8G8_UNORM :: u32 where "VIRGL_FORMAT_R8G8_B8G8_UNORM \<equiv> 117"
abbreviation (input) VIRGL_FORMAT_G8R8_G8B8_UNORM :: u32 where "VIRGL_FORMAT_G8R8_G8B8_UNORM \<equiv> 118"
abbreviation (input) VIRGL_FORMAT_R8SG8SB8UX8U_NORM :: u32 where "VIRGL_FORMAT_R8SG8SB8UX8U_NORM \<equiv> 119"
abbreviation (input) VIRGL_FORMAT_R5SG5SB6U_NORM :: u32 where "VIRGL_FORMAT_R5SG5SB6U_NORM \<equiv> 120"
abbreviation (input) VIRGL_FORMAT_A8B8G8R8_UNORM :: u32 where "VIRGL_FORMAT_A8B8G8R8_UNORM \<equiv> 121"
abbreviation (input) VIRGL_FORMAT_B5G5R5X1_UNORM :: u32 where "VIRGL_FORMAT_B5G5R5X1_UNORM \<equiv> 122"
abbreviation (input) VIRGL_FORMAT_R10G10B10A2_USCALED :: u32 where "VIRGL_FORMAT_R10G10B10A2_USCALED \<equiv> 123"
abbreviation (input) VIRGL_FORMAT_R11G11B10_FLOAT :: u32 where "VIRGL_FORMAT_R11G11B10_FLOAT \<equiv> 124"
abbreviation (input) VIRGL_FORMAT_R9G9B9E5_FLOAT :: u32 where "VIRGL_FORMAT_R9G9B9E5_FLOAT \<equiv> 125"
abbreviation (input) VIRGL_FORMAT_Z32_FLOAT_S8X24_UINT :: u32 where "VIRGL_FORMAT_Z32_FLOAT_S8X24_UINT \<equiv> 126"
abbreviation (input) VIRGL_FORMAT_R1_UNORM :: u32 where "VIRGL_FORMAT_R1_UNORM \<equiv> 127"
abbreviation (input) VIRGL_FORMAT_R10G10B10X2_USCALED :: u32 where "VIRGL_FORMAT_R10G10B10X2_USCALED \<equiv> 128"
abbreviation (input) VIRGL_FORMAT_R10G10B10X2_SNORM :: u32 where "VIRGL_FORMAT_R10G10B10X2_SNORM \<equiv> 129"
abbreviation (input) VIRGL_FORMAT_L4A4_UNORM :: u32 where "VIRGL_FORMAT_L4A4_UNORM \<equiv> 130"
abbreviation (input) VIRGL_FORMAT_B10G10R10A2_UNORM :: u32 where "VIRGL_FORMAT_B10G10R10A2_UNORM \<equiv> 131"
abbreviation (input) VIRGL_FORMAT_R10SG10SB10SA2U_NORM :: u32 where "VIRGL_FORMAT_R10SG10SB10SA2U_NORM \<equiv> 132"
abbreviation (input) VIRGL_FORMAT_R8G8Bx_SNORM :: u32 where "VIRGL_FORMAT_R8G8Bx_SNORM \<equiv> 133"
abbreviation (input) VIRGL_FORMAT_R8G8B8X8_UNORM :: u32 where "VIRGL_FORMAT_R8G8B8X8_UNORM \<equiv> 134"
abbreviation (input) VIRGL_FORMAT_B4G4R4X4_UNORM :: u32 where "VIRGL_FORMAT_B4G4R4X4_UNORM \<equiv> 135"
abbreviation (input) VIRGL_FORMAT_X24S8_UINT :: u32 where "VIRGL_FORMAT_X24S8_UINT \<equiv> 136"
abbreviation (input) VIRGL_FORMAT_S8X24_UINT :: u32 where "VIRGL_FORMAT_S8X24_UINT \<equiv> 137"
abbreviation (input) VIRGL_FORMAT_X32_S8X24_UINT :: u32 where "VIRGL_FORMAT_X32_S8X24_UINT \<equiv> 138"
abbreviation (input) VIRGL_FORMAT_B2G3R3_UNORM :: u32 where "VIRGL_FORMAT_B2G3R3_UNORM \<equiv> 139"
abbreviation (input) VIRGL_FORMAT_L16A16_UNORM :: u32 where "VIRGL_FORMAT_L16A16_UNORM \<equiv> 140"
abbreviation (input) VIRGL_FORMAT_A16_UNORM :: u32 where "VIRGL_FORMAT_A16_UNORM \<equiv> 141"
abbreviation (input) VIRGL_FORMAT_I16_UNORM :: u32 where "VIRGL_FORMAT_I16_UNORM \<equiv> 142"
abbreviation (input) VIRGL_FORMAT_LATC1_UNORM :: u32 where "VIRGL_FORMAT_LATC1_UNORM \<equiv> 143"
abbreviation (input) VIRGL_FORMAT_LATC1_SNORM :: u32 where "VIRGL_FORMAT_LATC1_SNORM \<equiv> 144"
abbreviation (input) VIRGL_FORMAT_LATC2_UNORM :: u32 where "VIRGL_FORMAT_LATC2_UNORM \<equiv> 145"
abbreviation (input) VIRGL_FORMAT_LATC2_SNORM :: u32 where "VIRGL_FORMAT_LATC2_SNORM \<equiv> 146"
abbreviation (input) VIRGL_FORMAT_A8_SNORM :: u32 where "VIRGL_FORMAT_A8_SNORM \<equiv> 147"
abbreviation (input) VIRGL_FORMAT_L8_SNORM :: u32 where "VIRGL_FORMAT_L8_SNORM \<equiv> 148"
abbreviation (input) VIRGL_FORMAT_L8A8_SNORM :: u32 where "VIRGL_FORMAT_L8A8_SNORM \<equiv> 149"
abbreviation (input) VIRGL_FORMAT_I8_SNORM :: u32 where "VIRGL_FORMAT_I8_SNORM \<equiv> 150"
abbreviation (input) VIRGL_FORMAT_A16_SNORM :: u32 where "VIRGL_FORMAT_A16_SNORM \<equiv> 151"
abbreviation (input) VIRGL_FORMAT_L16_SNORM :: u32 where "VIRGL_FORMAT_L16_SNORM \<equiv> 152"
abbreviation (input) VIRGL_FORMAT_L16A16_SNORM :: u32 where "VIRGL_FORMAT_L16A16_SNORM \<equiv> 153"
abbreviation (input) VIRGL_FORMAT_I16_SNORM :: u32 where "VIRGL_FORMAT_I16_SNORM \<equiv> 154"
abbreviation (input) VIRGL_FORMAT_A16_FLOAT :: u32 where "VIRGL_FORMAT_A16_FLOAT \<equiv> 155"
abbreviation (input) VIRGL_FORMAT_L16_FLOAT :: u32 where "VIRGL_FORMAT_L16_FLOAT \<equiv> 156"
abbreviation (input) VIRGL_FORMAT_L16A16_FLOAT :: u32 where "VIRGL_FORMAT_L16A16_FLOAT \<equiv> 157"
abbreviation (input) VIRGL_FORMAT_I16_FLOAT :: u32 where "VIRGL_FORMAT_I16_FLOAT \<equiv> 158"
abbreviation (input) VIRGL_FORMAT_A32_FLOAT :: u32 where "VIRGL_FORMAT_A32_FLOAT \<equiv> 159"
abbreviation (input) VIRGL_FORMAT_L32_FLOAT :: u32 where "VIRGL_FORMAT_L32_FLOAT \<equiv> 160"
abbreviation (input) VIRGL_FORMAT_L32A32_FLOAT :: u32 where "VIRGL_FORMAT_L32A32_FLOAT \<equiv> 161"
abbreviation (input) VIRGL_FORMAT_I32_FLOAT :: u32 where "VIRGL_FORMAT_I32_FLOAT \<equiv> 162"
abbreviation (input) VIRGL_FORMAT_YV12 :: u32 where "VIRGL_FORMAT_YV12 \<equiv> 163"
abbreviation (input) VIRGL_FORMAT_YV16 :: u32 where "VIRGL_FORMAT_YV16 \<equiv> 164"
abbreviation (input) VIRGL_FORMAT_IYUV :: u32 where "VIRGL_FORMAT_IYUV \<equiv> 165"
abbreviation (input) VIRGL_FORMAT_NV12 :: u32 where "VIRGL_FORMAT_NV12 \<equiv> 166"
abbreviation (input) VIRGL_FORMAT_NV21 :: u32 where "VIRGL_FORMAT_NV21 \<equiv> 167"
abbreviation (input) VIRGL_FORMAT_A4R4_UNORM :: u32 where "VIRGL_FORMAT_A4R4_UNORM \<equiv> 168"
abbreviation (input) VIRGL_FORMAT_R4A4_UNORM :: u32 where "VIRGL_FORMAT_R4A4_UNORM \<equiv> 169"
abbreviation (input) VIRGL_FORMAT_R8A8_UNORM :: u32 where "VIRGL_FORMAT_R8A8_UNORM \<equiv> 170"
abbreviation (input) VIRGL_FORMAT_A8R8_UNORM :: u32 where "VIRGL_FORMAT_A8R8_UNORM \<equiv> 171"
abbreviation (input) VIRGL_FORMAT_R10G10B10A2_SSCALED :: u32 where "VIRGL_FORMAT_R10G10B10A2_SSCALED \<equiv> 172"
abbreviation (input) VIRGL_FORMAT_R10G10B10A2_SNORM :: u32 where "VIRGL_FORMAT_R10G10B10A2_SNORM \<equiv> 173"
abbreviation (input) VIRGL_FORMAT_B10G10R10A2_USCALED :: u32 where "VIRGL_FORMAT_B10G10R10A2_USCALED \<equiv> 174"
abbreviation (input) VIRGL_FORMAT_B10G10R10A2_SSCALED :: u32 where "VIRGL_FORMAT_B10G10R10A2_SSCALED \<equiv> 175"
abbreviation (input) VIRGL_FORMAT_B10G10R10A2_SNORM :: u32 where "VIRGL_FORMAT_B10G10R10A2_SNORM \<equiv> 176"
abbreviation (input) VIRGL_FORMAT_R8_UINT :: u32 where "VIRGL_FORMAT_R8_UINT \<equiv> 177"
abbreviation (input) VIRGL_FORMAT_R8G8_UINT :: u32 where "VIRGL_FORMAT_R8G8_UINT \<equiv> 178"
abbreviation (input) VIRGL_FORMAT_R8G8B8_UINT :: u32 where "VIRGL_FORMAT_R8G8B8_UINT \<equiv> 179"
abbreviation (input) VIRGL_FORMAT_R8G8B8A8_UINT :: u32 where "VIRGL_FORMAT_R8G8B8A8_UINT \<equiv> 180"
abbreviation (input) VIRGL_FORMAT_R8_SINT :: u32 where "VIRGL_FORMAT_R8_SINT \<equiv> 181"
abbreviation (input) VIRGL_FORMAT_R8G8_SINT :: u32 where "VIRGL_FORMAT_R8G8_SINT \<equiv> 182"
abbreviation (input) VIRGL_FORMAT_R8G8B8_SINT :: u32 where "VIRGL_FORMAT_R8G8B8_SINT \<equiv> 183"
abbreviation (input) VIRGL_FORMAT_R8G8B8A8_SINT :: u32 where "VIRGL_FORMAT_R8G8B8A8_SINT \<equiv> 184"
abbreviation (input) VIRGL_FORMAT_R16_UINT :: u32 where "VIRGL_FORMAT_R16_UINT \<equiv> 185"
abbreviation (input) VIRGL_FORMAT_R16G16_UINT :: u32 where "VIRGL_FORMAT_R16G16_UINT \<equiv> 186"
abbreviation (input) VIRGL_FORMAT_R16G16B16_UINT :: u32 where "VIRGL_FORMAT_R16G16B16_UINT \<equiv> 187"
abbreviation (input) VIRGL_FORMAT_R16G16B16A16_UINT :: u32 where "VIRGL_FORMAT_R16G16B16A16_UINT \<equiv> 188"
abbreviation (input) VIRGL_FORMAT_R16_SINT :: u32 where "VIRGL_FORMAT_R16_SINT \<equiv> 189"
abbreviation (input) VIRGL_FORMAT_R16G16_SINT :: u32 where "VIRGL_FORMAT_R16G16_SINT \<equiv> 190"
abbreviation (input) VIRGL_FORMAT_R16G16B16_SINT :: u32 where "VIRGL_FORMAT_R16G16B16_SINT \<equiv> 191"
abbreviation (input) VIRGL_FORMAT_R16G16B16A16_SINT :: u32 where "VIRGL_FORMAT_R16G16B16A16_SINT \<equiv> 192"
abbreviation (input) VIRGL_FORMAT_R32_UINT :: u32 where "VIRGL_FORMAT_R32_UINT \<equiv> 193"
abbreviation (input) VIRGL_FORMAT_R32G32_UINT :: u32 where "VIRGL_FORMAT_R32G32_UINT \<equiv> 194"
abbreviation (input) VIRGL_FORMAT_R32G32B32_UINT :: u32 where "VIRGL_FORMAT_R32G32B32_UINT \<equiv> 195"
abbreviation (input) VIRGL_FORMAT_R32G32B32A32_UINT :: u32 where "VIRGL_FORMAT_R32G32B32A32_UINT \<equiv> 196"
abbreviation (input) VIRGL_FORMAT_R32_SINT :: u32 where "VIRGL_FORMAT_R32_SINT \<equiv> 197"
abbreviation (input) VIRGL_FORMAT_R32G32_SINT :: u32 where "VIRGL_FORMAT_R32G32_SINT \<equiv> 198"
abbreviation (input) VIRGL_FORMAT_R32G32B32_SINT :: u32 where "VIRGL_FORMAT_R32G32B32_SINT \<equiv> 199"
abbreviation (input) VIRGL_FORMAT_R32G32B32A32_SINT :: u32 where "VIRGL_FORMAT_R32G32B32A32_SINT \<equiv> 200"
abbreviation (input) VIRGL_FORMAT_A8_UINT :: u32 where "VIRGL_FORMAT_A8_UINT \<equiv> 201"
abbreviation (input) VIRGL_FORMAT_I8_UINT :: u32 where "VIRGL_FORMAT_I8_UINT \<equiv> 202"
abbreviation (input) VIRGL_FORMAT_L8_UINT :: u32 where "VIRGL_FORMAT_L8_UINT \<equiv> 203"
abbreviation (input) VIRGL_FORMAT_L8A8_UINT :: u32 where "VIRGL_FORMAT_L8A8_UINT \<equiv> 204"
abbreviation (input) VIRGL_FORMAT_A8_SINT :: u32 where "VIRGL_FORMAT_A8_SINT \<equiv> 205"
abbreviation (input) VIRGL_FORMAT_I8_SINT :: u32 where "VIRGL_FORMAT_I8_SINT \<equiv> 206"
abbreviation (input) VIRGL_FORMAT_L8_SINT :: u32 where "VIRGL_FORMAT_L8_SINT \<equiv> 207"
abbreviation (input) VIRGL_FORMAT_L8A8_SINT :: u32 where "VIRGL_FORMAT_L8A8_SINT \<equiv> 208"
abbreviation (input) VIRGL_FORMAT_A16_UINT :: u32 where "VIRGL_FORMAT_A16_UINT \<equiv> 209"
abbreviation (input) VIRGL_FORMAT_I16_UINT :: u32 where "VIRGL_FORMAT_I16_UINT \<equiv> 210"
abbreviation (input) VIRGL_FORMAT_L16_UINT :: u32 where "VIRGL_FORMAT_L16_UINT \<equiv> 211"
abbreviation (input) VIRGL_FORMAT_L16A16_UINT :: u32 where "VIRGL_FORMAT_L16A16_UINT \<equiv> 212"
abbreviation (input) VIRGL_FORMAT_A16_SINT :: u32 where "VIRGL_FORMAT_A16_SINT \<equiv> 213"
abbreviation (input) VIRGL_FORMAT_I16_SINT :: u32 where "VIRGL_FORMAT_I16_SINT \<equiv> 214"
abbreviation (input) VIRGL_FORMAT_L16_SINT :: u32 where "VIRGL_FORMAT_L16_SINT \<equiv> 215"
abbreviation (input) VIRGL_FORMAT_L16A16_SINT :: u32 where "VIRGL_FORMAT_L16A16_SINT \<equiv> 216"
abbreviation (input) VIRGL_FORMAT_A32_UINT :: u32 where "VIRGL_FORMAT_A32_UINT \<equiv> 217"
abbreviation (input) VIRGL_FORMAT_I32_UINT :: u32 where "VIRGL_FORMAT_I32_UINT \<equiv> 218"
abbreviation (input) VIRGL_FORMAT_L32_UINT :: u32 where "VIRGL_FORMAT_L32_UINT \<equiv> 219"
abbreviation (input) VIRGL_FORMAT_L32A32_UINT :: u32 where "VIRGL_FORMAT_L32A32_UINT \<equiv> 220"
abbreviation (input) VIRGL_FORMAT_A32_SINT :: u32 where "VIRGL_FORMAT_A32_SINT \<equiv> 221"
abbreviation (input) VIRGL_FORMAT_I32_SINT :: u32 where "VIRGL_FORMAT_I32_SINT \<equiv> 222"
abbreviation (input) VIRGL_FORMAT_L32_SINT :: u32 where "VIRGL_FORMAT_L32_SINT \<equiv> 223"
abbreviation (input) VIRGL_FORMAT_L32A32_SINT :: u32 where "VIRGL_FORMAT_L32A32_SINT \<equiv> 224"
abbreviation (input) VIRGL_FORMAT_B10G10R10A2_UINT :: u32 where "VIRGL_FORMAT_B10G10R10A2_UINT \<equiv> 225"
abbreviation (input) VIRGL_FORMAT_ETC1_RGB8 :: u32 where "VIRGL_FORMAT_ETC1_RGB8 \<equiv> 226"
abbreviation (input) VIRGL_FORMAT_R8G8_R8B8_UNORM :: u32 where "VIRGL_FORMAT_R8G8_R8B8_UNORM \<equiv> 227"
abbreviation (input) VIRGL_FORMAT_G8R8_B8R8_UNORM :: u32 where "VIRGL_FORMAT_G8R8_B8R8_UNORM \<equiv> 228"
abbreviation (input) VIRGL_FORMAT_R8G8B8X8_SNORM :: u32 where "VIRGL_FORMAT_R8G8B8X8_SNORM \<equiv> 229"
abbreviation (input) VIRGL_FORMAT_R8G8B8X8_SRGB :: u32 where "VIRGL_FORMAT_R8G8B8X8_SRGB \<equiv> 230"
abbreviation (input) VIRGL_FORMAT_R8G8B8X8_UINT :: u32 where "VIRGL_FORMAT_R8G8B8X8_UINT \<equiv> 231"
abbreviation (input) VIRGL_FORMAT_R8G8B8X8_SINT :: u32 where "VIRGL_FORMAT_R8G8B8X8_SINT \<equiv> 232"
abbreviation (input) VIRGL_FORMAT_B10G10R10X2_UNORM :: u32 where "VIRGL_FORMAT_B10G10R10X2_UNORM \<equiv> 233"
abbreviation (input) VIRGL_FORMAT_R16G16B16X16_UNORM :: u32 where "VIRGL_FORMAT_R16G16B16X16_UNORM \<equiv> 234"
abbreviation (input) VIRGL_FORMAT_R16G16B16X16_SNORM :: u32 where "VIRGL_FORMAT_R16G16B16X16_SNORM \<equiv> 235"
abbreviation (input) VIRGL_FORMAT_R16G16B16X16_FLOAT :: u32 where "VIRGL_FORMAT_R16G16B16X16_FLOAT \<equiv> 236"
abbreviation (input) VIRGL_FORMAT_R16G16B16X16_UINT :: u32 where "VIRGL_FORMAT_R16G16B16X16_UINT \<equiv> 237"
abbreviation (input) VIRGL_FORMAT_R16G16B16X16_SINT :: u32 where "VIRGL_FORMAT_R16G16B16X16_SINT \<equiv> 238"
abbreviation (input) VIRGL_FORMAT_R32G32B32X32_FLOAT :: u32 where "VIRGL_FORMAT_R32G32B32X32_FLOAT \<equiv> 239"
abbreviation (input) VIRGL_FORMAT_R32G32B32X32_UINT :: u32 where "VIRGL_FORMAT_R32G32B32X32_UINT \<equiv> 240"
abbreviation (input) VIRGL_FORMAT_R32G32B32X32_SINT :: u32 where "VIRGL_FORMAT_R32G32B32X32_SINT \<equiv> 241"
abbreviation (input) VIRGL_FORMAT_R8A8_SNORM :: u32 where "VIRGL_FORMAT_R8A8_SNORM \<equiv> 242"
abbreviation (input) VIRGL_FORMAT_R16A16_UNORM :: u32 where "VIRGL_FORMAT_R16A16_UNORM \<equiv> 243"
abbreviation (input) VIRGL_FORMAT_R16A16_SNORM :: u32 where "VIRGL_FORMAT_R16A16_SNORM \<equiv> 244"
abbreviation (input) VIRGL_FORMAT_R16A16_FLOAT :: u32 where "VIRGL_FORMAT_R16A16_FLOAT \<equiv> 245"
abbreviation (input) VIRGL_FORMAT_R32A32_FLOAT :: u32 where "VIRGL_FORMAT_R32A32_FLOAT \<equiv> 246"
abbreviation (input) VIRGL_FORMAT_R8A8_UINT :: u32 where "VIRGL_FORMAT_R8A8_UINT \<equiv> 247"
abbreviation (input) VIRGL_FORMAT_R8A8_SINT :: u32 where "VIRGL_FORMAT_R8A8_SINT \<equiv> 248"
abbreviation (input) VIRGL_FORMAT_R16A16_UINT :: u32 where "VIRGL_FORMAT_R16A16_UINT \<equiv> 249"
abbreviation (input) VIRGL_FORMAT_R16A16_SINT :: u32 where "VIRGL_FORMAT_R16A16_SINT \<equiv> 250"
abbreviation (input) VIRGL_FORMAT_R32A32_UINT :: u32 where "VIRGL_FORMAT_R32A32_UINT \<equiv> 251"
abbreviation (input) VIRGL_FORMAT_R32A32_SINT :: u32 where "VIRGL_FORMAT_R32A32_SINT \<equiv> 252"
abbreviation (input) VIRGL_FORMAT_R10G10B10A2_UINT :: u32 where "VIRGL_FORMAT_R10G10B10A2_UINT \<equiv> 253"
abbreviation (input) VIRGL_FORMAT_B5G6R5_SRGB :: u32 where "VIRGL_FORMAT_B5G6R5_SRGB \<equiv> 254"
abbreviation (input) VIRGL_FORMAT_BPTC_RGBA_UNORM :: u32 where "VIRGL_FORMAT_BPTC_RGBA_UNORM \<equiv> 255"
abbreviation (input) VIRGL_FORMAT_BPTC_SRGBA :: u32 where "VIRGL_FORMAT_BPTC_SRGBA \<equiv> 256"
abbreviation (input) VIRGL_FORMAT_BPTC_RGB_FLOAT :: u32 where "VIRGL_FORMAT_BPTC_RGB_FLOAT \<equiv> 257"
abbreviation (input) VIRGL_FORMAT_BPTC_RGB_UFLOAT :: u32 where "VIRGL_FORMAT_BPTC_RGB_UFLOAT \<equiv> 258"
abbreviation (input) VIRGL_FORMAT_A16L16_UNORM :: u32 where "VIRGL_FORMAT_A16L16_UNORM \<equiv> 262"
abbreviation (input) VIRGL_FORMAT_G8R8_UNORM :: u32 where "VIRGL_FORMAT_G8R8_UNORM \<equiv> 263"
abbreviation (input) VIRGL_FORMAT_G8R8_SNORM :: u32 where "VIRGL_FORMAT_G8R8_SNORM \<equiv> 264"
abbreviation (input) VIRGL_FORMAT_G16R16_UNORM :: u32 where "VIRGL_FORMAT_G16R16_UNORM \<equiv> 265"
abbreviation (input) VIRGL_FORMAT_G16R16_SNORM :: u32 where "VIRGL_FORMAT_G16R16_SNORM \<equiv> 266"
abbreviation (input) VIRGL_FORMAT_A8B8G8R8_SNORM :: u32 where "VIRGL_FORMAT_A8B8G8R8_SNORM \<equiv> 267"
abbreviation (input) VIRGL_FORMAT_A8L8_UNORM :: u32 where "VIRGL_FORMAT_A8L8_UNORM \<equiv> 259"
abbreviation (input) VIRGL_FORMAT_A8L8_SNORM :: u32 where "VIRGL_FORMAT_A8L8_SNORM \<equiv> 260"
abbreviation (input) VIRGL_FORMAT_A8L8_SRGB :: u32 where "VIRGL_FORMAT_A8L8_SRGB \<equiv> 261"
abbreviation (input) VIRGL_FORMAT_X8B8G8R8_SNORM :: u32 where "VIRGL_FORMAT_X8B8G8R8_SNORM \<equiv> 268"
abbreviation (input) VIRGL_FORMAT_ETC2_RGB8 :: u32 where "VIRGL_FORMAT_ETC2_RGB8 \<equiv> 269"
abbreviation (input) VIRGL_FORMAT_ETC2_SRGB8 :: u32 where "VIRGL_FORMAT_ETC2_SRGB8 \<equiv> 270"
abbreviation (input) VIRGL_FORMAT_ETC2_RGB8A1 :: u32 where "VIRGL_FORMAT_ETC2_RGB8A1 \<equiv> 271"
abbreviation (input) VIRGL_FORMAT_ETC2_SRGB8A1 :: u32 where "VIRGL_FORMAT_ETC2_SRGB8A1 \<equiv> 272"
abbreviation (input) VIRGL_FORMAT_ETC2_RGBA8 :: u32 where "VIRGL_FORMAT_ETC2_RGBA8 \<equiv> 273"
abbreviation (input) VIRGL_FORMAT_ETC2_SRGBA8 :: u32 where "VIRGL_FORMAT_ETC2_SRGBA8 \<equiv> 274"
abbreviation (input) VIRGL_FORMAT_ETC2_R11_UNORM :: u32 where "VIRGL_FORMAT_ETC2_R11_UNORM \<equiv> 275"
abbreviation (input) VIRGL_FORMAT_ETC2_R11_SNORM :: u32 where "VIRGL_FORMAT_ETC2_R11_SNORM \<equiv> 276"
abbreviation (input) VIRGL_FORMAT_ETC2_RG11_UNORM :: u32 where "VIRGL_FORMAT_ETC2_RG11_UNORM \<equiv> 277"
abbreviation (input) VIRGL_FORMAT_ETC2_RG11_SNORM :: u32 where "VIRGL_FORMAT_ETC2_RG11_SNORM \<equiv> 278"
abbreviation (input) VIRGL_FORMAT_ASTC_4x4 :: u32 where "VIRGL_FORMAT_ASTC_4x4 \<equiv> 279"
abbreviation (input) VIRGL_FORMAT_ASTC_5x4 :: u32 where "VIRGL_FORMAT_ASTC_5x4 \<equiv> 280"
abbreviation (input) VIRGL_FORMAT_ASTC_5x5 :: u32 where "VIRGL_FORMAT_ASTC_5x5 \<equiv> 281"
abbreviation (input) VIRGL_FORMAT_ASTC_6x5 :: u32 where "VIRGL_FORMAT_ASTC_6x5 \<equiv> 282"
abbreviation (input) VIRGL_FORMAT_ASTC_6x6 :: u32 where "VIRGL_FORMAT_ASTC_6x6 \<equiv> 283"
abbreviation (input) VIRGL_FORMAT_ASTC_8x5 :: u32 where "VIRGL_FORMAT_ASTC_8x5 \<equiv> 284"
abbreviation (input) VIRGL_FORMAT_ASTC_8x6 :: u32 where "VIRGL_FORMAT_ASTC_8x6 \<equiv> 285"
abbreviation (input) VIRGL_FORMAT_ASTC_8x8 :: u32 where "VIRGL_FORMAT_ASTC_8x8 \<equiv> 286"
abbreviation (input) VIRGL_FORMAT_ASTC_10x5 :: u32 where "VIRGL_FORMAT_ASTC_10x5 \<equiv> 287"
abbreviation (input) VIRGL_FORMAT_ASTC_10x6 :: u32 where "VIRGL_FORMAT_ASTC_10x6 \<equiv> 288"
abbreviation (input) VIRGL_FORMAT_ASTC_10x8 :: u32 where "VIRGL_FORMAT_ASTC_10x8 \<equiv> 289"
abbreviation (input) VIRGL_FORMAT_ASTC_10x10 :: u32 where "VIRGL_FORMAT_ASTC_10x10 \<equiv> 290"
abbreviation (input) VIRGL_FORMAT_ASTC_12x10 :: u32 where "VIRGL_FORMAT_ASTC_12x10 \<equiv> 291"
abbreviation (input) VIRGL_FORMAT_ASTC_12x12 :: u32 where "VIRGL_FORMAT_ASTC_12x12 \<equiv> 292"
abbreviation (input) VIRGL_FORMAT_ASTC_4x4_SRGB :: u32 where "VIRGL_FORMAT_ASTC_4x4_SRGB \<equiv> 293"
abbreviation (input) VIRGL_FORMAT_ASTC_5x4_SRGB :: u32 where "VIRGL_FORMAT_ASTC_5x4_SRGB \<equiv> 294"
abbreviation (input) VIRGL_FORMAT_ASTC_5x5_SRGB :: u32 where "VIRGL_FORMAT_ASTC_5x5_SRGB \<equiv> 295"
abbreviation (input) VIRGL_FORMAT_ASTC_6x5_SRGB :: u32 where "VIRGL_FORMAT_ASTC_6x5_SRGB \<equiv> 296"
abbreviation (input) VIRGL_FORMAT_ASTC_6x6_SRGB :: u32 where "VIRGL_FORMAT_ASTC_6x6_SRGB \<equiv> 297"
abbreviation (input) VIRGL_FORMAT_ASTC_8x5_SRGB :: u32 where "VIRGL_FORMAT_ASTC_8x5_SRGB \<equiv> 298"
abbreviation (input) VIRGL_FORMAT_ASTC_8x6_SRGB :: u32 where "VIRGL_FORMAT_ASTC_8x6_SRGB \<equiv> 299"
abbreviation (input) VIRGL_FORMAT_ASTC_8x8_SRGB :: u32 where "VIRGL_FORMAT_ASTC_8x8_SRGB \<equiv> 300"
abbreviation (input) VIRGL_FORMAT_ASTC_10x5_SRGB :: u32 where "VIRGL_FORMAT_ASTC_10x5_SRGB \<equiv> 301"
abbreviation (input) VIRGL_FORMAT_ASTC_10x6_SRGB :: u32 where "VIRGL_FORMAT_ASTC_10x6_SRGB \<equiv> 302"
abbreviation (input) VIRGL_FORMAT_ASTC_10x8_SRGB :: u32 where "VIRGL_FORMAT_ASTC_10x8_SRGB \<equiv> 303"
abbreviation (input) VIRGL_FORMAT_ASTC_10x10_SRGB :: u32 where "VIRGL_FORMAT_ASTC_10x10_SRGB \<equiv> 304"
abbreviation (input) VIRGL_FORMAT_ASTC_12x10_SRGB :: u32 where "VIRGL_FORMAT_ASTC_12x10_SRGB \<equiv> 305"
abbreviation (input) VIRGL_FORMAT_ASTC_12x12_SRGB :: u32 where "VIRGL_FORMAT_ASTC_12x12_SRGB \<equiv> 306"
abbreviation (input) VIRGL_FORMAT_R10G10B10X2_UNORM :: u32 where "VIRGL_FORMAT_R10G10B10X2_UNORM \<equiv> 308"
abbreviation (input) VIRGL_FORMAT_A4B4G4R4_UNORM :: u32 where "VIRGL_FORMAT_A4B4G4R4_UNORM \<equiv> 311"
abbreviation (input) VIRGL_FORMAT_R8_SRGB :: u32 where "VIRGL_FORMAT_R8_SRGB \<equiv> 312"
abbreviation (input) VIRGL_FORMAT_R8G8_SRGB :: u32 where "VIRGL_FORMAT_R8G8_SRGB \<equiv> 313"
abbreviation (input) VIRGL_FORMAT_P010 :: u32 where "VIRGL_FORMAT_P010 \<equiv> 314"

text \<open>\<open>enum virgl_formats\<close>: every enumerator with its name, in source order.\<close>

definition virgl_formats_1 :: "(string \<times> u32) list" where
  "virgl_formats_1 = [
     (''VIRGL_FORMAT_NONE'', VIRGL_FORMAT_NONE),
     (''VIRGL_FORMAT_B8G8R8A8_UNORM'', VIRGL_FORMAT_B8G8R8A8_UNORM),
     (''VIRGL_FORMAT_B8G8R8X8_UNORM'', VIRGL_FORMAT_B8G8R8X8_UNORM),
     (''VIRGL_FORMAT_A8R8G8B8_UNORM'', VIRGL_FORMAT_A8R8G8B8_UNORM),
     (''VIRGL_FORMAT_X8R8G8B8_UNORM'', VIRGL_FORMAT_X8R8G8B8_UNORM),
     (''VIRGL_FORMAT_B5G5R5A1_UNORM'', VIRGL_FORMAT_B5G5R5A1_UNORM),
     (''VIRGL_FORMAT_B4G4R4A4_UNORM'', VIRGL_FORMAT_B4G4R4A4_UNORM),
     (''VIRGL_FORMAT_B5G6R5_UNORM'', VIRGL_FORMAT_B5G6R5_UNORM),
     (''VIRGL_FORMAT_R10G10B10A2_UNORM'', VIRGL_FORMAT_R10G10B10A2_UNORM),
     (''VIRGL_FORMAT_L8_UNORM'', VIRGL_FORMAT_L8_UNORM),
     (''VIRGL_FORMAT_A8_UNORM'', VIRGL_FORMAT_A8_UNORM),
     (''VIRGL_FORMAT_I8_UNORM'', VIRGL_FORMAT_I8_UNORM),
     (''VIRGL_FORMAT_L8A8_UNORM'', VIRGL_FORMAT_L8A8_UNORM),
     (''VIRGL_FORMAT_L16_UNORM'', VIRGL_FORMAT_L16_UNORM),
     (''VIRGL_FORMAT_UYVY'', VIRGL_FORMAT_UYVY),
     (''VIRGL_FORMAT_YUYV'', VIRGL_FORMAT_YUYV),
     (''VIRGL_FORMAT_Z16_UNORM'', VIRGL_FORMAT_Z16_UNORM),
     (''VIRGL_FORMAT_Z32_UNORM'', VIRGL_FORMAT_Z32_UNORM),
     (''VIRGL_FORMAT_Z32_FLOAT'', VIRGL_FORMAT_Z32_FLOAT),
     (''VIRGL_FORMAT_Z24_UNORM_S8_UINT'', VIRGL_FORMAT_Z24_UNORM_S8_UINT),
     (''VIRGL_FORMAT_S8_UINT_Z24_UNORM'', VIRGL_FORMAT_S8_UINT_Z24_UNORM),
     (''VIRGL_FORMAT_Z24X8_UNORM'', VIRGL_FORMAT_Z24X8_UNORM),
     (''VIRGL_FORMAT_X8Z24_UNORM'', VIRGL_FORMAT_X8Z24_UNORM),
     (''VIRGL_FORMAT_S8_UINT'', VIRGL_FORMAT_S8_UINT),
     (''VIRGL_FORMAT_R64_FLOAT'', VIRGL_FORMAT_R64_FLOAT),
     (''VIRGL_FORMAT_R64G64_FLOAT'', VIRGL_FORMAT_R64G64_FLOAT),
     (''VIRGL_FORMAT_R64G64B64_FLOAT'', VIRGL_FORMAT_R64G64B64_FLOAT),
     (''VIRGL_FORMAT_R64G64B64A64_FLOAT'', VIRGL_FORMAT_R64G64B64A64_FLOAT),
     (''VIRGL_FORMAT_R32_FLOAT'', VIRGL_FORMAT_R32_FLOAT),
     (''VIRGL_FORMAT_R32G32_FLOAT'', VIRGL_FORMAT_R32G32_FLOAT),
     (''VIRGL_FORMAT_R32G32B32_FLOAT'', VIRGL_FORMAT_R32G32B32_FLOAT),
     (''VIRGL_FORMAT_R32G32B32A32_FLOAT'', VIRGL_FORMAT_R32G32B32A32_FLOAT),
     (''VIRGL_FORMAT_R32_UNORM'', VIRGL_FORMAT_R32_UNORM),
     (''VIRGL_FORMAT_R32G32_UNORM'', VIRGL_FORMAT_R32G32_UNORM),
     (''VIRGL_FORMAT_R32G32B32_UNORM'', VIRGL_FORMAT_R32G32B32_UNORM),
     (''VIRGL_FORMAT_R32G32B32A32_UNORM'', VIRGL_FORMAT_R32G32B32A32_UNORM),
     (''VIRGL_FORMAT_R32_USCALED'', VIRGL_FORMAT_R32_USCALED),
     (''VIRGL_FORMAT_R32G32_USCALED'', VIRGL_FORMAT_R32G32_USCALED),
     (''VIRGL_FORMAT_R32G32B32_USCALED'', VIRGL_FORMAT_R32G32B32_USCALED),
     (''VIRGL_FORMAT_R32G32B32A32_USCALED'', VIRGL_FORMAT_R32G32B32A32_USCALED),
     (''VIRGL_FORMAT_R32_SNORM'', VIRGL_FORMAT_R32_SNORM),
     (''VIRGL_FORMAT_R32G32_SNORM'', VIRGL_FORMAT_R32G32_SNORM),
     (''VIRGL_FORMAT_R32G32B32_SNORM'', VIRGL_FORMAT_R32G32B32_SNORM),
     (''VIRGL_FORMAT_R32G32B32A32_SNORM'', VIRGL_FORMAT_R32G32B32A32_SNORM),
     (''VIRGL_FORMAT_R32_SSCALED'', VIRGL_FORMAT_R32_SSCALED),
     (''VIRGL_FORMAT_R32G32_SSCALED'', VIRGL_FORMAT_R32G32_SSCALED),
     (''VIRGL_FORMAT_R32G32B32_SSCALED'', VIRGL_FORMAT_R32G32B32_SSCALED),
     (''VIRGL_FORMAT_R32G32B32A32_SSCALED'', VIRGL_FORMAT_R32G32B32A32_SSCALED),
     (''VIRGL_FORMAT_R16_UNORM'', VIRGL_FORMAT_R16_UNORM),
     (''VIRGL_FORMAT_R16G16_UNORM'', VIRGL_FORMAT_R16G16_UNORM),
     (''VIRGL_FORMAT_R16G16B16_UNORM'', VIRGL_FORMAT_R16G16B16_UNORM),
     (''VIRGL_FORMAT_R16G16B16A16_UNORM'', VIRGL_FORMAT_R16G16B16A16_UNORM),
     (''VIRGL_FORMAT_R16_USCALED'', VIRGL_FORMAT_R16_USCALED),
     (''VIRGL_FORMAT_R16G16_USCALED'', VIRGL_FORMAT_R16G16_USCALED),
     (''VIRGL_FORMAT_R16G16B16_USCALED'', VIRGL_FORMAT_R16G16B16_USCALED),
     (''VIRGL_FORMAT_R16G16B16A16_USCALED'', VIRGL_FORMAT_R16G16B16A16_USCALED),
     (''VIRGL_FORMAT_R16_SNORM'', VIRGL_FORMAT_R16_SNORM),
     (''VIRGL_FORMAT_R16G16_SNORM'', VIRGL_FORMAT_R16G16_SNORM),
     (''VIRGL_FORMAT_R16G16B16_SNORM'', VIRGL_FORMAT_R16G16B16_SNORM),
     (''VIRGL_FORMAT_R16G16B16A16_SNORM'', VIRGL_FORMAT_R16G16B16A16_SNORM),
     (''VIRGL_FORMAT_R16_SSCALED'', VIRGL_FORMAT_R16_SSCALED),
     (''VIRGL_FORMAT_R16G16_SSCALED'', VIRGL_FORMAT_R16G16_SSCALED),
     (''VIRGL_FORMAT_R16G16B16_SSCALED'', VIRGL_FORMAT_R16G16B16_SSCALED),
     (''VIRGL_FORMAT_R16G16B16A16_SSCALED'', VIRGL_FORMAT_R16G16B16A16_SSCALED),
     (''VIRGL_FORMAT_R8_UNORM'', VIRGL_FORMAT_R8_UNORM),
     (''VIRGL_FORMAT_R8G8_UNORM'', VIRGL_FORMAT_R8G8_UNORM),
     (''VIRGL_FORMAT_R8G8B8_UNORM'', VIRGL_FORMAT_R8G8B8_UNORM),
     (''VIRGL_FORMAT_R8G8B8A8_UNORM'', VIRGL_FORMAT_R8G8B8A8_UNORM),
     (''VIRGL_FORMAT_X8B8G8R8_UNORM'', VIRGL_FORMAT_X8B8G8R8_UNORM),
     (''VIRGL_FORMAT_R8_USCALED'', VIRGL_FORMAT_R8_USCALED),
     (''VIRGL_FORMAT_R8G8_USCALED'', VIRGL_FORMAT_R8G8_USCALED),
     (''VIRGL_FORMAT_R8G8B8_USCALED'', VIRGL_FORMAT_R8G8B8_USCALED),
     (''VIRGL_FORMAT_R8G8B8A8_USCALED'', VIRGL_FORMAT_R8G8B8A8_USCALED),
     (''VIRGL_FORMAT_R8_SNORM'', VIRGL_FORMAT_R8_SNORM),
     (''VIRGL_FORMAT_R8G8_SNORM'', VIRGL_FORMAT_R8G8_SNORM),
     (''VIRGL_FORMAT_R8G8B8_SNORM'', VIRGL_FORMAT_R8G8B8_SNORM),
     (''VIRGL_FORMAT_R8G8B8A8_SNORM'', VIRGL_FORMAT_R8G8B8A8_SNORM),
     (''VIRGL_FORMAT_R8_SSCALED'', VIRGL_FORMAT_R8_SSCALED),
     (''VIRGL_FORMAT_R8G8_SSCALED'', VIRGL_FORMAT_R8G8_SSCALED),
     (''VIRGL_FORMAT_R8G8B8_SSCALED'', VIRGL_FORMAT_R8G8B8_SSCALED),
     (''VIRGL_FORMAT_R8G8B8A8_SSCALED'', VIRGL_FORMAT_R8G8B8A8_SSCALED),
     (''VIRGL_FORMAT_R32_FIXED'', VIRGL_FORMAT_R32_FIXED),
     (''VIRGL_FORMAT_R32G32_FIXED'', VIRGL_FORMAT_R32G32_FIXED),
     (''VIRGL_FORMAT_R32G32B32_FIXED'', VIRGL_FORMAT_R32G32B32_FIXED),
     (''VIRGL_FORMAT_R32G32B32A32_FIXED'', VIRGL_FORMAT_R32G32B32A32_FIXED),
     (''VIRGL_FORMAT_R16_FLOAT'', VIRGL_FORMAT_R16_FLOAT),
     (''VIRGL_FORMAT_R16G16_FLOAT'', VIRGL_FORMAT_R16G16_FLOAT),
     (''VIRGL_FORMAT_R16G16B16_FLOAT'', VIRGL_FORMAT_R16G16B16_FLOAT),
     (''VIRGL_FORMAT_R16G16B16A16_FLOAT'', VIRGL_FORMAT_R16G16B16A16_FLOAT),
     (''VIRGL_FORMAT_L8_SRGB'', VIRGL_FORMAT_L8_SRGB),
     (''VIRGL_FORMAT_L8A8_SRGB'', VIRGL_FORMAT_L8A8_SRGB),
     (''VIRGL_FORMAT_R8G8B8_SRGB'', VIRGL_FORMAT_R8G8B8_SRGB),
     (''VIRGL_FORMAT_A8B8G8R8_SRGB'', VIRGL_FORMAT_A8B8G8R8_SRGB),
     (''VIRGL_FORMAT_X8B8G8R8_SRGB'', VIRGL_FORMAT_X8B8G8R8_SRGB),
     (''VIRGL_FORMAT_B8G8R8A8_SRGB'', VIRGL_FORMAT_B8G8R8A8_SRGB),
     (''VIRGL_FORMAT_B8G8R8X8_SRGB'', VIRGL_FORMAT_B8G8R8X8_SRGB),
     (''VIRGL_FORMAT_A8R8G8B8_SRGB'', VIRGL_FORMAT_A8R8G8B8_SRGB),
     (''VIRGL_FORMAT_X8R8G8B8_SRGB'', VIRGL_FORMAT_X8R8G8B8_SRGB),
     (''VIRGL_FORMAT_R8G8B8A8_SRGB'', VIRGL_FORMAT_R8G8B8A8_SRGB),
     (''VIRGL_FORMAT_DXT1_RGB'', VIRGL_FORMAT_DXT1_RGB),
     (''VIRGL_FORMAT_DXT1_RGBA'', VIRGL_FORMAT_DXT1_RGBA),
     (''VIRGL_FORMAT_DXT3_RGBA'', VIRGL_FORMAT_DXT3_RGBA),
     (''VIRGL_FORMAT_DXT5_RGBA'', VIRGL_FORMAT_DXT5_RGBA),
     (''VIRGL_FORMAT_DXT1_SRGB'', VIRGL_FORMAT_DXT1_SRGB),
     (''VIRGL_FORMAT_DXT1_SRGBA'', VIRGL_FORMAT_DXT1_SRGBA),
     (''VIRGL_FORMAT_DXT3_SRGBA'', VIRGL_FORMAT_DXT3_SRGBA),
     (''VIRGL_FORMAT_DXT5_SRGBA'', VIRGL_FORMAT_DXT5_SRGBA),
     (''VIRGL_FORMAT_RGTC1_UNORM'', VIRGL_FORMAT_RGTC1_UNORM),
     (''VIRGL_FORMAT_RGTC1_SNORM'', VIRGL_FORMAT_RGTC1_SNORM),
     (''VIRGL_FORMAT_RGTC2_UNORM'', VIRGL_FORMAT_RGTC2_UNORM),
     (''VIRGL_FORMAT_RGTC2_SNORM'', VIRGL_FORMAT_RGTC2_SNORM),
     (''VIRGL_FORMAT_R8G8_B8G8_UNORM'', VIRGL_FORMAT_R8G8_B8G8_UNORM),
     (''VIRGL_FORMAT_G8R8_G8B8_UNORM'', VIRGL_FORMAT_G8R8_G8B8_UNORM),
     (''VIRGL_FORMAT_R8SG8SB8UX8U_NORM'', VIRGL_FORMAT_R8SG8SB8UX8U_NORM),
     (''VIRGL_FORMAT_R5SG5SB6U_NORM'', VIRGL_FORMAT_R5SG5SB6U_NORM),
     (''VIRGL_FORMAT_A8B8G8R8_UNORM'', VIRGL_FORMAT_A8B8G8R8_UNORM),
     (''VIRGL_FORMAT_B5G5R5X1_UNORM'', VIRGL_FORMAT_B5G5R5X1_UNORM),
     (''VIRGL_FORMAT_R10G10B10A2_USCALED'', VIRGL_FORMAT_R10G10B10A2_USCALED),
     (''VIRGL_FORMAT_R11G11B10_FLOAT'', VIRGL_FORMAT_R11G11B10_FLOAT),
     (''VIRGL_FORMAT_R9G9B9E5_FLOAT'', VIRGL_FORMAT_R9G9B9E5_FLOAT),
     (''VIRGL_FORMAT_Z32_FLOAT_S8X24_UINT'', VIRGL_FORMAT_Z32_FLOAT_S8X24_UINT),
     (''VIRGL_FORMAT_R1_UNORM'', VIRGL_FORMAT_R1_UNORM),
     (''VIRGL_FORMAT_R10G10B10X2_USCALED'', VIRGL_FORMAT_R10G10B10X2_USCALED),
     (''VIRGL_FORMAT_R10G10B10X2_SNORM'', VIRGL_FORMAT_R10G10B10X2_SNORM),
     (''VIRGL_FORMAT_L4A4_UNORM'', VIRGL_FORMAT_L4A4_UNORM)]"

definition virgl_formats_2 :: "(string \<times> u32) list" where
  "virgl_formats_2 = [
     (''VIRGL_FORMAT_B10G10R10A2_UNORM'', VIRGL_FORMAT_B10G10R10A2_UNORM),
     (''VIRGL_FORMAT_R10SG10SB10SA2U_NORM'', VIRGL_FORMAT_R10SG10SB10SA2U_NORM),
     (''VIRGL_FORMAT_R8G8Bx_SNORM'', VIRGL_FORMAT_R8G8Bx_SNORM),
     (''VIRGL_FORMAT_R8G8B8X8_UNORM'', VIRGL_FORMAT_R8G8B8X8_UNORM),
     (''VIRGL_FORMAT_B4G4R4X4_UNORM'', VIRGL_FORMAT_B4G4R4X4_UNORM),
     (''VIRGL_FORMAT_X24S8_UINT'', VIRGL_FORMAT_X24S8_UINT),
     (''VIRGL_FORMAT_S8X24_UINT'', VIRGL_FORMAT_S8X24_UINT),
     (''VIRGL_FORMAT_X32_S8X24_UINT'', VIRGL_FORMAT_X32_S8X24_UINT),
     (''VIRGL_FORMAT_B2G3R3_UNORM'', VIRGL_FORMAT_B2G3R3_UNORM),
     (''VIRGL_FORMAT_L16A16_UNORM'', VIRGL_FORMAT_L16A16_UNORM),
     (''VIRGL_FORMAT_A16_UNORM'', VIRGL_FORMAT_A16_UNORM),
     (''VIRGL_FORMAT_I16_UNORM'', VIRGL_FORMAT_I16_UNORM),
     (''VIRGL_FORMAT_LATC1_UNORM'', VIRGL_FORMAT_LATC1_UNORM),
     (''VIRGL_FORMAT_LATC1_SNORM'', VIRGL_FORMAT_LATC1_SNORM),
     (''VIRGL_FORMAT_LATC2_UNORM'', VIRGL_FORMAT_LATC2_UNORM),
     (''VIRGL_FORMAT_LATC2_SNORM'', VIRGL_FORMAT_LATC2_SNORM),
     (''VIRGL_FORMAT_A8_SNORM'', VIRGL_FORMAT_A8_SNORM),
     (''VIRGL_FORMAT_L8_SNORM'', VIRGL_FORMAT_L8_SNORM),
     (''VIRGL_FORMAT_L8A8_SNORM'', VIRGL_FORMAT_L8A8_SNORM),
     (''VIRGL_FORMAT_I8_SNORM'', VIRGL_FORMAT_I8_SNORM),
     (''VIRGL_FORMAT_A16_SNORM'', VIRGL_FORMAT_A16_SNORM),
     (''VIRGL_FORMAT_L16_SNORM'', VIRGL_FORMAT_L16_SNORM),
     (''VIRGL_FORMAT_L16A16_SNORM'', VIRGL_FORMAT_L16A16_SNORM),
     (''VIRGL_FORMAT_I16_SNORM'', VIRGL_FORMAT_I16_SNORM),
     (''VIRGL_FORMAT_A16_FLOAT'', VIRGL_FORMAT_A16_FLOAT),
     (''VIRGL_FORMAT_L16_FLOAT'', VIRGL_FORMAT_L16_FLOAT),
     (''VIRGL_FORMAT_L16A16_FLOAT'', VIRGL_FORMAT_L16A16_FLOAT),
     (''VIRGL_FORMAT_I16_FLOAT'', VIRGL_FORMAT_I16_FLOAT),
     (''VIRGL_FORMAT_A32_FLOAT'', VIRGL_FORMAT_A32_FLOAT),
     (''VIRGL_FORMAT_L32_FLOAT'', VIRGL_FORMAT_L32_FLOAT),
     (''VIRGL_FORMAT_L32A32_FLOAT'', VIRGL_FORMAT_L32A32_FLOAT),
     (''VIRGL_FORMAT_I32_FLOAT'', VIRGL_FORMAT_I32_FLOAT),
     (''VIRGL_FORMAT_YV12'', VIRGL_FORMAT_YV12),
     (''VIRGL_FORMAT_YV16'', VIRGL_FORMAT_YV16),
     (''VIRGL_FORMAT_IYUV'', VIRGL_FORMAT_IYUV),
     (''VIRGL_FORMAT_NV12'', VIRGL_FORMAT_NV12),
     (''VIRGL_FORMAT_NV21'', VIRGL_FORMAT_NV21),
     (''VIRGL_FORMAT_A4R4_UNORM'', VIRGL_FORMAT_A4R4_UNORM),
     (''VIRGL_FORMAT_R4A4_UNORM'', VIRGL_FORMAT_R4A4_UNORM),
     (''VIRGL_FORMAT_R8A8_UNORM'', VIRGL_FORMAT_R8A8_UNORM),
     (''VIRGL_FORMAT_A8R8_UNORM'', VIRGL_FORMAT_A8R8_UNORM),
     (''VIRGL_FORMAT_R10G10B10A2_SSCALED'', VIRGL_FORMAT_R10G10B10A2_SSCALED),
     (''VIRGL_FORMAT_R10G10B10A2_SNORM'', VIRGL_FORMAT_R10G10B10A2_SNORM),
     (''VIRGL_FORMAT_B10G10R10A2_USCALED'', VIRGL_FORMAT_B10G10R10A2_USCALED),
     (''VIRGL_FORMAT_B10G10R10A2_SSCALED'', VIRGL_FORMAT_B10G10R10A2_SSCALED),
     (''VIRGL_FORMAT_B10G10R10A2_SNORM'', VIRGL_FORMAT_B10G10R10A2_SNORM),
     (''VIRGL_FORMAT_R8_UINT'', VIRGL_FORMAT_R8_UINT),
     (''VIRGL_FORMAT_R8G8_UINT'', VIRGL_FORMAT_R8G8_UINT),
     (''VIRGL_FORMAT_R8G8B8_UINT'', VIRGL_FORMAT_R8G8B8_UINT),
     (''VIRGL_FORMAT_R8G8B8A8_UINT'', VIRGL_FORMAT_R8G8B8A8_UINT),
     (''VIRGL_FORMAT_R8_SINT'', VIRGL_FORMAT_R8_SINT),
     (''VIRGL_FORMAT_R8G8_SINT'', VIRGL_FORMAT_R8G8_SINT),
     (''VIRGL_FORMAT_R8G8B8_SINT'', VIRGL_FORMAT_R8G8B8_SINT),
     (''VIRGL_FORMAT_R8G8B8A8_SINT'', VIRGL_FORMAT_R8G8B8A8_SINT),
     (''VIRGL_FORMAT_R16_UINT'', VIRGL_FORMAT_R16_UINT),
     (''VIRGL_FORMAT_R16G16_UINT'', VIRGL_FORMAT_R16G16_UINT),
     (''VIRGL_FORMAT_R16G16B16_UINT'', VIRGL_FORMAT_R16G16B16_UINT),
     (''VIRGL_FORMAT_R16G16B16A16_UINT'', VIRGL_FORMAT_R16G16B16A16_UINT),
     (''VIRGL_FORMAT_R16_SINT'', VIRGL_FORMAT_R16_SINT),
     (''VIRGL_FORMAT_R16G16_SINT'', VIRGL_FORMAT_R16G16_SINT),
     (''VIRGL_FORMAT_R16G16B16_SINT'', VIRGL_FORMAT_R16G16B16_SINT),
     (''VIRGL_FORMAT_R16G16B16A16_SINT'', VIRGL_FORMAT_R16G16B16A16_SINT),
     (''VIRGL_FORMAT_R32_UINT'', VIRGL_FORMAT_R32_UINT),
     (''VIRGL_FORMAT_R32G32_UINT'', VIRGL_FORMAT_R32G32_UINT),
     (''VIRGL_FORMAT_R32G32B32_UINT'', VIRGL_FORMAT_R32G32B32_UINT),
     (''VIRGL_FORMAT_R32G32B32A32_UINT'', VIRGL_FORMAT_R32G32B32A32_UINT),
     (''VIRGL_FORMAT_R32_SINT'', VIRGL_FORMAT_R32_SINT),
     (''VIRGL_FORMAT_R32G32_SINT'', VIRGL_FORMAT_R32G32_SINT),
     (''VIRGL_FORMAT_R32G32B32_SINT'', VIRGL_FORMAT_R32G32B32_SINT),
     (''VIRGL_FORMAT_R32G32B32A32_SINT'', VIRGL_FORMAT_R32G32B32A32_SINT),
     (''VIRGL_FORMAT_A8_UINT'', VIRGL_FORMAT_A8_UINT),
     (''VIRGL_FORMAT_I8_UINT'', VIRGL_FORMAT_I8_UINT),
     (''VIRGL_FORMAT_L8_UINT'', VIRGL_FORMAT_L8_UINT),
     (''VIRGL_FORMAT_L8A8_UINT'', VIRGL_FORMAT_L8A8_UINT),
     (''VIRGL_FORMAT_A8_SINT'', VIRGL_FORMAT_A8_SINT),
     (''VIRGL_FORMAT_I8_SINT'', VIRGL_FORMAT_I8_SINT),
     (''VIRGL_FORMAT_L8_SINT'', VIRGL_FORMAT_L8_SINT),
     (''VIRGL_FORMAT_L8A8_SINT'', VIRGL_FORMAT_L8A8_SINT),
     (''VIRGL_FORMAT_A16_UINT'', VIRGL_FORMAT_A16_UINT),
     (''VIRGL_FORMAT_I16_UINT'', VIRGL_FORMAT_I16_UINT),
     (''VIRGL_FORMAT_L16_UINT'', VIRGL_FORMAT_L16_UINT),
     (''VIRGL_FORMAT_L16A16_UINT'', VIRGL_FORMAT_L16A16_UINT),
     (''VIRGL_FORMAT_A16_SINT'', VIRGL_FORMAT_A16_SINT),
     (''VIRGL_FORMAT_I16_SINT'', VIRGL_FORMAT_I16_SINT),
     (''VIRGL_FORMAT_L16_SINT'', VIRGL_FORMAT_L16_SINT),
     (''VIRGL_FORMAT_L16A16_SINT'', VIRGL_FORMAT_L16A16_SINT),
     (''VIRGL_FORMAT_A32_UINT'', VIRGL_FORMAT_A32_UINT),
     (''VIRGL_FORMAT_I32_UINT'', VIRGL_FORMAT_I32_UINT),
     (''VIRGL_FORMAT_L32_UINT'', VIRGL_FORMAT_L32_UINT),
     (''VIRGL_FORMAT_L32A32_UINT'', VIRGL_FORMAT_L32A32_UINT),
     (''VIRGL_FORMAT_A32_SINT'', VIRGL_FORMAT_A32_SINT),
     (''VIRGL_FORMAT_I32_SINT'', VIRGL_FORMAT_I32_SINT),
     (''VIRGL_FORMAT_L32_SINT'', VIRGL_FORMAT_L32_SINT),
     (''VIRGL_FORMAT_L32A32_SINT'', VIRGL_FORMAT_L32A32_SINT),
     (''VIRGL_FORMAT_B10G10R10A2_UINT'', VIRGL_FORMAT_B10G10R10A2_UINT),
     (''VIRGL_FORMAT_ETC1_RGB8'', VIRGL_FORMAT_ETC1_RGB8),
     (''VIRGL_FORMAT_R8G8_R8B8_UNORM'', VIRGL_FORMAT_R8G8_R8B8_UNORM),
     (''VIRGL_FORMAT_G8R8_B8R8_UNORM'', VIRGL_FORMAT_G8R8_B8R8_UNORM),
     (''VIRGL_FORMAT_R8G8B8X8_SNORM'', VIRGL_FORMAT_R8G8B8X8_SNORM),
     (''VIRGL_FORMAT_R8G8B8X8_SRGB'', VIRGL_FORMAT_R8G8B8X8_SRGB),
     (''VIRGL_FORMAT_R8G8B8X8_UINT'', VIRGL_FORMAT_R8G8B8X8_UINT),
     (''VIRGL_FORMAT_R8G8B8X8_SINT'', VIRGL_FORMAT_R8G8B8X8_SINT),
     (''VIRGL_FORMAT_B10G10R10X2_UNORM'', VIRGL_FORMAT_B10G10R10X2_UNORM),
     (''VIRGL_FORMAT_R16G16B16X16_UNORM'', VIRGL_FORMAT_R16G16B16X16_UNORM),
     (''VIRGL_FORMAT_R16G16B16X16_SNORM'', VIRGL_FORMAT_R16G16B16X16_SNORM),
     (''VIRGL_FORMAT_R16G16B16X16_FLOAT'', VIRGL_FORMAT_R16G16B16X16_FLOAT),
     (''VIRGL_FORMAT_R16G16B16X16_UINT'', VIRGL_FORMAT_R16G16B16X16_UINT),
     (''VIRGL_FORMAT_R16G16B16X16_SINT'', VIRGL_FORMAT_R16G16B16X16_SINT),
     (''VIRGL_FORMAT_R32G32B32X32_FLOAT'', VIRGL_FORMAT_R32G32B32X32_FLOAT),
     (''VIRGL_FORMAT_R32G32B32X32_UINT'', VIRGL_FORMAT_R32G32B32X32_UINT),
     (''VIRGL_FORMAT_R32G32B32X32_SINT'', VIRGL_FORMAT_R32G32B32X32_SINT),
     (''VIRGL_FORMAT_R8A8_SNORM'', VIRGL_FORMAT_R8A8_SNORM),
     (''VIRGL_FORMAT_R16A16_UNORM'', VIRGL_FORMAT_R16A16_UNORM),
     (''VIRGL_FORMAT_R16A16_SNORM'', VIRGL_FORMAT_R16A16_SNORM),
     (''VIRGL_FORMAT_R16A16_FLOAT'', VIRGL_FORMAT_R16A16_FLOAT),
     (''VIRGL_FORMAT_R32A32_FLOAT'', VIRGL_FORMAT_R32A32_FLOAT),
     (''VIRGL_FORMAT_R8A8_UINT'', VIRGL_FORMAT_R8A8_UINT),
     (''VIRGL_FORMAT_R8A8_SINT'', VIRGL_FORMAT_R8A8_SINT),
     (''VIRGL_FORMAT_R16A16_UINT'', VIRGL_FORMAT_R16A16_UINT),
     (''VIRGL_FORMAT_R16A16_SINT'', VIRGL_FORMAT_R16A16_SINT),
     (''VIRGL_FORMAT_R32A32_UINT'', VIRGL_FORMAT_R32A32_UINT),
     (''VIRGL_FORMAT_R32A32_SINT'', VIRGL_FORMAT_R32A32_SINT),
     (''VIRGL_FORMAT_R10G10B10A2_UINT'', VIRGL_FORMAT_R10G10B10A2_UINT),
     (''VIRGL_FORMAT_B5G6R5_SRGB'', VIRGL_FORMAT_B5G6R5_SRGB),
     (''VIRGL_FORMAT_BPTC_RGBA_UNORM'', VIRGL_FORMAT_BPTC_RGBA_UNORM)]"

definition virgl_formats_3 :: "(string \<times> u32) list" where
  "virgl_formats_3 = [
     (''VIRGL_FORMAT_BPTC_SRGBA'', VIRGL_FORMAT_BPTC_SRGBA),
     (''VIRGL_FORMAT_BPTC_RGB_FLOAT'', VIRGL_FORMAT_BPTC_RGB_FLOAT),
     (''VIRGL_FORMAT_BPTC_RGB_UFLOAT'', VIRGL_FORMAT_BPTC_RGB_UFLOAT),
     (''VIRGL_FORMAT_A16L16_UNORM'', VIRGL_FORMAT_A16L16_UNORM),
     (''VIRGL_FORMAT_G8R8_UNORM'', VIRGL_FORMAT_G8R8_UNORM),
     (''VIRGL_FORMAT_G8R8_SNORM'', VIRGL_FORMAT_G8R8_SNORM),
     (''VIRGL_FORMAT_G16R16_UNORM'', VIRGL_FORMAT_G16R16_UNORM),
     (''VIRGL_FORMAT_G16R16_SNORM'', VIRGL_FORMAT_G16R16_SNORM),
     (''VIRGL_FORMAT_A8B8G8R8_SNORM'', VIRGL_FORMAT_A8B8G8R8_SNORM),
     (''VIRGL_FORMAT_A8L8_UNORM'', VIRGL_FORMAT_A8L8_UNORM),
     (''VIRGL_FORMAT_A8L8_SNORM'', VIRGL_FORMAT_A8L8_SNORM),
     (''VIRGL_FORMAT_A8L8_SRGB'', VIRGL_FORMAT_A8L8_SRGB),
     (''VIRGL_FORMAT_X8B8G8R8_SNORM'', VIRGL_FORMAT_X8B8G8R8_SNORM),
     (''VIRGL_FORMAT_ETC2_RGB8'', VIRGL_FORMAT_ETC2_RGB8),
     (''VIRGL_FORMAT_ETC2_SRGB8'', VIRGL_FORMAT_ETC2_SRGB8),
     (''VIRGL_FORMAT_ETC2_RGB8A1'', VIRGL_FORMAT_ETC2_RGB8A1),
     (''VIRGL_FORMAT_ETC2_SRGB8A1'', VIRGL_FORMAT_ETC2_SRGB8A1),
     (''VIRGL_FORMAT_ETC2_RGBA8'', VIRGL_FORMAT_ETC2_RGBA8),
     (''VIRGL_FORMAT_ETC2_SRGBA8'', VIRGL_FORMAT_ETC2_SRGBA8),
     (''VIRGL_FORMAT_ETC2_R11_UNORM'', VIRGL_FORMAT_ETC2_R11_UNORM),
     (''VIRGL_FORMAT_ETC2_R11_SNORM'', VIRGL_FORMAT_ETC2_R11_SNORM),
     (''VIRGL_FORMAT_ETC2_RG11_UNORM'', VIRGL_FORMAT_ETC2_RG11_UNORM),
     (''VIRGL_FORMAT_ETC2_RG11_SNORM'', VIRGL_FORMAT_ETC2_RG11_SNORM),
     (''VIRGL_FORMAT_ASTC_4x4'', VIRGL_FORMAT_ASTC_4x4),
     (''VIRGL_FORMAT_ASTC_5x4'', VIRGL_FORMAT_ASTC_5x4),
     (''VIRGL_FORMAT_ASTC_5x5'', VIRGL_FORMAT_ASTC_5x5),
     (''VIRGL_FORMAT_ASTC_6x5'', VIRGL_FORMAT_ASTC_6x5),
     (''VIRGL_FORMAT_ASTC_6x6'', VIRGL_FORMAT_ASTC_6x6),
     (''VIRGL_FORMAT_ASTC_8x5'', VIRGL_FORMAT_ASTC_8x5),
     (''VIRGL_FORMAT_ASTC_8x6'', VIRGL_FORMAT_ASTC_8x6),
     (''VIRGL_FORMAT_ASTC_8x8'', VIRGL_FORMAT_ASTC_8x8),
     (''VIRGL_FORMAT_ASTC_10x5'', VIRGL_FORMAT_ASTC_10x5),
     (''VIRGL_FORMAT_ASTC_10x6'', VIRGL_FORMAT_ASTC_10x6),
     (''VIRGL_FORMAT_ASTC_10x8'', VIRGL_FORMAT_ASTC_10x8),
     (''VIRGL_FORMAT_ASTC_10x10'', VIRGL_FORMAT_ASTC_10x10),
     (''VIRGL_FORMAT_ASTC_12x10'', VIRGL_FORMAT_ASTC_12x10),
     (''VIRGL_FORMAT_ASTC_12x12'', VIRGL_FORMAT_ASTC_12x12),
     (''VIRGL_FORMAT_ASTC_4x4_SRGB'', VIRGL_FORMAT_ASTC_4x4_SRGB),
     (''VIRGL_FORMAT_ASTC_5x4_SRGB'', VIRGL_FORMAT_ASTC_5x4_SRGB),
     (''VIRGL_FORMAT_ASTC_5x5_SRGB'', VIRGL_FORMAT_ASTC_5x5_SRGB),
     (''VIRGL_FORMAT_ASTC_6x5_SRGB'', VIRGL_FORMAT_ASTC_6x5_SRGB),
     (''VIRGL_FORMAT_ASTC_6x6_SRGB'', VIRGL_FORMAT_ASTC_6x6_SRGB),
     (''VIRGL_FORMAT_ASTC_8x5_SRGB'', VIRGL_FORMAT_ASTC_8x5_SRGB),
     (''VIRGL_FORMAT_ASTC_8x6_SRGB'', VIRGL_FORMAT_ASTC_8x6_SRGB),
     (''VIRGL_FORMAT_ASTC_8x8_SRGB'', VIRGL_FORMAT_ASTC_8x8_SRGB),
     (''VIRGL_FORMAT_ASTC_10x5_SRGB'', VIRGL_FORMAT_ASTC_10x5_SRGB),
     (''VIRGL_FORMAT_ASTC_10x6_SRGB'', VIRGL_FORMAT_ASTC_10x6_SRGB),
     (''VIRGL_FORMAT_ASTC_10x8_SRGB'', VIRGL_FORMAT_ASTC_10x8_SRGB),
     (''VIRGL_FORMAT_ASTC_10x10_SRGB'', VIRGL_FORMAT_ASTC_10x10_SRGB),
     (''VIRGL_FORMAT_ASTC_12x10_SRGB'', VIRGL_FORMAT_ASTC_12x10_SRGB),
     (''VIRGL_FORMAT_ASTC_12x12_SRGB'', VIRGL_FORMAT_ASTC_12x12_SRGB),
     (''VIRGL_FORMAT_R10G10B10X2_UNORM'', VIRGL_FORMAT_R10G10B10X2_UNORM),
     (''VIRGL_FORMAT_A4B4G4R4_UNORM'', VIRGL_FORMAT_A4B4G4R4_UNORM),
     (''VIRGL_FORMAT_R8_SRGB'', VIRGL_FORMAT_R8_SRGB),
     (''VIRGL_FORMAT_R8G8_SRGB'', VIRGL_FORMAT_R8G8_SRGB),
     (''VIRGL_FORMAT_P010'', VIRGL_FORMAT_P010)]"

definition virgl_formats :: "(string \<times> u32) list" where
  "virgl_formats = virgl_formats_1 @ virgl_formats_2 @ virgl_formats_3"

section \<open>The format names\<close>

text \<open>The cases of \<open>get_virgl_format_string\<close>: label and returned string.\<close>

definition format_string_cases_1 :: "(u32 \<times> string) list" where
  "format_string_cases_1 = [
     (VIRGL_FORMAT_NONE, ''VIRGL_FORMAT_NONE''),
     (VIRGL_FORMAT_B8G8R8A8_UNORM, ''VIRGL_FORMAT_B8G8R8A8_UNORM''),
     (VIRGL_FORMAT_B8G8R8X8_UNORM, ''VIRGL_FORMAT_B8G8R8X8_UNORM''),
     (VIRGL_FORMAT_A8R8G8B8_UNORM, ''VIRGL_FORMAT_A8R8G8B8_UNORM''),
     (VIRGL_FORMAT_X8R8G8B8_UNORM, ''VIRGL_FORMAT_X8R8G8B8_UNORM''),
     (VIRGL_FORMAT_B5G5R5A1_UNORM, ''VIRGL_FORMAT_B5G5R5A1_UNORM''),
     (VIRGL_FORMAT_B4G4R4A4_UNORM, ''VIRGL_FORMAT_B4G4R4A4_UNORM''),
     (VIRGL_FORMAT_B5G6R5_UNORM, ''VIRGL_FORMAT_B5G6R5_UNORM''),
     (VIRGL_FORMAT_R10G10B10A2_UNORM, ''VIRGL_FORMAT_R10G10B10A2_UNORM''),
     (VIRGL_FORMAT_L8_UNORM, ''VIRGL_FORMAT_L8_UNORM''),
     (VIRGL_FORMAT_A8_UNORM, ''VIRGL_FORMAT_A8_UNORM''),
     (VIRGL_FORMAT_I8_UNORM, ''VIRGL_FORMAT_I8_UNORM''),
     (VIRGL_FORMAT_L8A8_UNORM, ''VIRGL_FORMAT_L8A8_UNORM''),
     (VIRGL_FORMAT_L16_UNORM, ''VIRGL_FORMAT_L16_UNORM''),
     (VIRGL_FORMAT_UYVY, ''VIRGL_FORMAT_UYVY''),
     (VIRGL_FORMAT_YUYV, ''VIRGL_FORMAT_YUYV''),
     (VIRGL_FORMAT_Z16_UNORM, ''VIRGL_FORMAT_Z16_UNORM''),
     (VIRGL_FORMAT_Z32_UNORM, ''VIRGL_FORMAT_Z32_UNORM''),
     (VIRGL_FORMAT_Z32_FLOAT, ''VIRGL_FORMAT_Z32_FLOAT''),
     (VIRGL_FORMAT_Z24_UNORM_S8_UINT, ''VIRGL_FORMAT_Z24_UNORM_S8_UINT''),
     (VIRGL_FORMAT_S8_UINT_Z24_UNORM, ''VIRGL_FORMAT_S8_UINT_Z24_UNORM''),
     (VIRGL_FORMAT_Z24X8_UNORM, ''VIRGL_FORMAT_Z24X8_UNORM''),
     (VIRGL_FORMAT_X8Z24_UNORM, ''VIRGL_FORMAT_X8Z24_UNORM''),
     (VIRGL_FORMAT_S8_UINT, ''VIRGL_FORMAT_S8_UINT''),
     (VIRGL_FORMAT_R64_FLOAT, ''VIRGL_FORMAT_R64_FLOAT''),
     (VIRGL_FORMAT_R64G64_FLOAT, ''VIRGL_FORMAT_R64G64_FLOAT''),
     (VIRGL_FORMAT_R64G64B64_FLOAT, ''VIRGL_FORMAT_R64G64B64_FLOAT''),
     (VIRGL_FORMAT_R64G64B64A64_FLOAT, ''VIRGL_FORMAT_R64G64B64A64_FLOAT''),
     (VIRGL_FORMAT_R32_FLOAT, ''VIRGL_FORMAT_R32_FLOAT''),
     (VIRGL_FORMAT_R32G32_FLOAT, ''VIRGL_FORMAT_R32G32_FLOAT''),
     (VIRGL_FORMAT_R32G32B32_FLOAT, ''VIRGL_FORMAT_R32G32B32_FLOAT''),
     (VIRGL_FORMAT_R32G32B32A32_FLOAT, ''VIRGL_FORMAT_R32G32B32A32_FLOAT''),
     (VIRGL_FORMAT_R32_UNORM, ''VIRGL_FORMAT_R32_UNORM''),
     (VIRGL_FORMAT_R32G32_UNORM, ''VIRGL_FORMAT_R32G32_UNORM''),
     (VIRGL_FORMAT_R32G32B32_UNORM, ''VIRGL_FORMAT_R32G32B32_UNORM''),
     (VIRGL_FORMAT_R32G32B32A32_UNORM, ''VIRGL_FORMAT_R32G32B32A32_UNORM''),
     (VIRGL_FORMAT_R32_USCALED, ''VIRGL_FORMAT_R32_USCALED''),
     (VIRGL_FORMAT_R32G32_USCALED, ''VIRGL_FORMAT_R32G32_USCALED''),
     (VIRGL_FORMAT_R32G32B32_USCALED, ''VIRGL_FORMAT_R32G32B32_USCALED''),
     (VIRGL_FORMAT_R32G32B32A32_USCALED, ''VIRGL_FORMAT_R32G32B32A32_USCALED''),
     (VIRGL_FORMAT_R32_SNORM, ''VIRGL_FORMAT_R32_SNORM''),
     (VIRGL_FORMAT_R32G32_SNORM, ''VIRGL_FORMAT_R32G32_SNORM''),
     (VIRGL_FORMAT_R32G32B32_SNORM, ''VIRGL_FORMAT_R32G32B32_SNORM''),
     (VIRGL_FORMAT_R32G32B32A32_SNORM, ''VIRGL_FORMAT_R32G32B32A32_SNORM''),
     (VIRGL_FORMAT_R32_SSCALED, ''VIRGL_FORMAT_R32_SSCALED''),
     (VIRGL_FORMAT_R32G32_SSCALED, ''VIRGL_FORMAT_R32G32_SSCALED''),
     (VIRGL_FORMAT_R32G32B32_SSCALED, ''VIRGL_FORMAT_R32G32B32_SSCALED''),
     (VIRGL_FORMAT_R32G32B32A32_SSCALED, ''VIRGL_FORMAT_R32G32B32A32_SSCALED''),
     (VIRGL_FORMAT_R16_UNORM, ''VIRGL_FORMAT_R16_UNORM''),
     (VIRGL_FORMAT_R16G16_UNORM, ''VIRGL_FORMAT_R16G16_UNORM''),
     (VIRGL_FORMAT_R16G16B16_UNORM, ''VIRGL_FORMAT_R16G16B16_UNORM''),
     (VIRGL_FORMAT_R16G16B16A16_UNORM, ''VIRGL_FORMAT_R16G16B16A16_UNORM''),
     (VIRGL_FORMAT_R16_USCALED, ''VIRGL_FORMAT_R16_USCALED''),
     (VIRGL_FORMAT_R16G16_USCALED, ''VIRGL_FORMAT_R16G16_USCALED''),
     (VIRGL_FORMAT_R16G16B16_USCALED, ''VIRGL_FORMAT_R16G16B16_USCALED''),
     (VIRGL_FORMAT_R16G16B16A16_USCALED, ''VIRGL_FORMAT_R16G16B16A16_USCALED''),
     (VIRGL_FORMAT_R16_SNORM, ''VIRGL_FORMAT_R16_SNORM''),
     (VIRGL_FORMAT_R16G16_SNORM, ''VIRGL_FORMAT_R16G16_SNORM''),
     (VIRGL_FORMAT_R16G16B16_SNORM, ''VIRGL_FORMAT_R16G16B16_SNORM''),
     (VIRGL_FORMAT_R16G16B16A16_SNORM, ''VIRGL_FORMAT_R16G16B16A16_SNORM''),
     (VIRGL_FORMAT_R16_SSCALED, ''VIRGL_FORMAT_R16_SSCALED''),
     (VIRGL_FORMAT_R16G16_SSCALED, ''VIRGL_FORMAT_R16G16_SSCALED''),
     (VIRGL_FORMAT_R16G16B16_SSCALED, ''VIRGL_FORMAT_R16G16B16_SSCALED''),
     (VIRGL_FORMAT_R16G16B16A16_SSCALED, ''VIRGL_FORMAT_R16G16B16A16_SSCALED''),
     (VIRGL_FORMAT_R8_UNORM, ''VIRGL_FORMAT_R8_UNORM''),
     (VIRGL_FORMAT_R8G8_UNORM, ''VIRGL_FORMAT_R8G8_UNORM''),
     (VIRGL_FORMAT_R8G8B8_UNORM, ''VIRGL_FORMAT_R8G8B8_UNORM''),
     (VIRGL_FORMAT_R8G8B8A8_UNORM, ''VIRGL_FORMAT_R8G8B8A8_UNORM''),
     (VIRGL_FORMAT_X8B8G8R8_UNORM, ''VIRGL_FORMAT_X8B8G8R8_UNORM''),
     (VIRGL_FORMAT_R8_USCALED, ''VIRGL_FORMAT_R8_USCALED''),
     (VIRGL_FORMAT_R8G8_USCALED, ''VIRGL_FORMAT_R8G8_USCALED''),
     (VIRGL_FORMAT_R8G8B8_USCALED, ''VIRGL_FORMAT_R8G8B8_USCALED''),
     (VIRGL_FORMAT_R8G8B8A8_USCALED, ''VIRGL_FORMAT_R8G8B8A8_USCALED'')]"

definition format_string_cases_2 :: "(u32 \<times> string) list" where
  "format_string_cases_2 = [
     (VIRGL_FORMAT_R8_SNORM, ''VIRGL_FORMAT_R8_SNORM''),
     (VIRGL_FORMAT_R8G8_SNORM, ''VIRGL_FORMAT_R8G8_SNORM''),
     (VIRGL_FORMAT_R8G8B8_SNORM, ''VIRGL_FORMAT_R8G8B8_SNORM''),
     (VIRGL_FORMAT_R8G8B8A8_SNORM, ''VIRGL_FORMAT_R8G8B8A8_SNORM''),
     (VIRGL_FORMAT_R8_SSCALED, ''VIRGL_FORMAT_R8_SSCALED''),
     (VIRGL_FORMAT_R8G8_SSCALED, ''VIRGL_FORMAT_R8G8_SSCALED''),
     (VIRGL_FORMAT_R8G8B8_SSCALED, ''VIRGL_FORMAT_R8G8B8_SSCALED''),
     (VIRGL_FORMAT_R8G8B8A8_SSCALED, ''VIRGL_FORMAT_R8G8B8A8_SSCALED''),
     (VIRGL_FORMAT_R32_FIXED, ''VIRGL_FORMAT_R32_FIXED''),
     (VIRGL_FORMAT_R32G32_FIXED, ''VIRGL_FORMAT_R32G32_FIXED''),
     (VIRGL_FORMAT_R32G32B32_FIXED, ''VIRGL_FORMAT_R32G32B32_FIXED''),
     (VIRGL_FORMAT_R32G32B32A32_FIXED, ''VIRGL_FORMAT_R32G32B32A32_FIXED''),
     (VIRGL_FORMAT_R16_FLOAT, ''VIRGL_FORMAT_R16_FLOAT''),
     (VIRGL_FORMAT_R16G16_FLOAT, ''VIRGL_FORMAT_R16G16_FLOAT''),
     (VIRGL_FORMAT_R16G16B16_FLOAT, ''VIRGL_FORMAT_R16G16B16_FLOAT''),
     (VIRGL_FORMAT_R16G16B16A16_FLOAT, ''VIRGL_FORMAT_R16G16B16A16_FLOAT''),
     (VIRGL_FORMAT_L8_SRGB, ''VIRGL_FORMAT_L8_SRGB''),
     (VIRGL_FORMAT_L8A8_SRGB, ''VIRGL_FORMAT_L8A8_SRGB''),
     (VIRGL_FORMAT_R8G8B8_SRGB, ''VIRGL_FORMAT_R8G8B8_SRGB''),
     (VIRGL_FORMAT_A8B8G8R8_SRGB, ''VIRGL_FORMAT_A8B8G8R8_SRGB''),
     (VIRGL_FORMAT_X8B8G8R8_SRGB, ''VIRGL_FORMAT_X8B8G8R8_SRGB''),
     (VIRGL_FORMAT_B8G8R8A8_SRGB, ''VIRGL_FORMAT_B8G8R8A8_SRGB''),
     (VIRGL_FORMAT_B8G8R8X8_SRGB, ''VIRGL_FORMAT_B8G8R8X8_SRGB''),
     (VIRGL_FORMAT_A8R8G8B8_SRGB, ''VIRGL_FORMAT_A8R8G8B8_SRGB''),
     (VIRGL_FORMAT_X8R8G8B8_SRGB, ''VIRGL_FORMAT_X8R8G8B8_SRGB''),
     (VIRGL_FORMAT_R8G8B8A8_SRGB, ''VIRGL_FORMAT_R8G8B8A8_SRGB''),
     (VIRGL_FORMAT_DXT1_RGB, ''VIRGL_FORMAT_DXT1_RGB''),
     (VIRGL_FORMAT_DXT1_RGBA, ''VIRGL_FORMAT_DXT1_RGBA''),
     (VIRGL_FORMAT_DXT3_RGBA, ''VIRGL_FORMAT_DXT3_RGBA''),
     (VIRGL_FORMAT_DXT5_RGBA, ''VIRGL_FORMAT_DXT5_RGBA''),
     (VIRGL_FORMAT_DXT1_SRGB, ''VIRGL_FORMAT_DXT1_SRGB''),
     (VIRGL_FORMAT_DXT1_SRGBA, ''VIRGL_FORMAT_DXT1_SRGBA''),
     (VIRGL_FORMAT_DXT3_SRGBA, ''VIRGL_FORMAT_DXT3_SRGBA''),
     (VIRGL_FORMAT_DXT5_SRGBA, ''VIRGL_FORMAT_DXT5_SRGBA''),
     (VIRGL_FORMAT_RGTC1_UNORM, ''VIRGL_FORMAT_RGTC1_UNORM''),
     (VIRGL_FORMAT_RGTC1_SNORM, ''VIRGL_FORMAT_RGTC1_SNORM''),
     (VIRGL_FORMAT_RGTC2_UNORM, ''VIRGL_FORMAT_RGTC2_UNORM''),
     (VIRGL_FORMAT_RGTC2_SNORM, ''VIRGL_FORMAT_RGTC2_SNORM''),
     (VIRGL_FORMAT_R8G8_B8G8_UNORM, ''VIRGL_FORMAT_R8G8_B8G8_UNORM''),
     (VIRGL_FORMAT_G8R8_G8B8_UNORM, ''VIRGL_FORMAT_G8R8_G8B8_UNORM''),
     (VIRGL_FORMAT_R8SG8SB8UX8U_NORM, ''VIRGL_FORMAT_R8SG8SB8UX8U_NORM''),
     (VIRGL_FORMAT_R5SG5SB6U_NORM, ''VIRGL_FORMAT_R5SG5SB6U_NORM''),
     (VIRGL_FORMAT_A8B8G8R8_UNORM, ''VIRGL_FORMAT_A8B8G8R8_UNORM''),
     (VIRGL_FORMAT_B5G5R5X1_UNORM, ''VIRGL_FORMAT_B5G5R5X1_UNORM''),
     (VIRGL_FORMAT_R10G10B10A2_USCALED, ''VIRGL_FORMAT_R10G10B10A2_USCALED''),
     (VIRGL_FORMAT_R11G11B10_FLOAT, ''VIRGL_FORMAT_R11G11B10_FLOAT''),
     (VIRGL_FORMAT_R9G9B9E5_FLOAT, ''VIRGL_FORMAT_R9G9B9E5_FLOAT''),
     (VIRGL_FORMAT_Z32_FLOAT_S8X24_UINT, ''VIRGL_FORMAT_Z32_FLOAT_S8X24_UINT''),
     (VIRGL_FORMAT_R1_UNORM, ''VIRGL_FORMAT_R1_UNORM''),
     (VIRGL_FORMAT_R10G10B10X2_USCALED, ''VIRGL_FORMAT_R10G10B10X2_USCALED''),
     (VIRGL_FORMAT_R10G10B10X2_SNORM, ''VIRGL_FORMAT_R10G10B10X2_SNORM''),
     (VIRGL_FORMAT_L4A4_UNORM, ''VIRGL_FORMAT_L4A4_UNORM''),
     (VIRGL_FORMAT_B10G10R10A2_UNORM, ''VIRGL_FORMAT_B10G10R10A2_UNORM''),
     (VIRGL_FORMAT_R10SG10SB10SA2U_NORM, ''VIRGL_FORMAT_R10SG10SB10SA2U_NORM''),
     (VIRGL_FORMAT_R8G8Bx_SNORM, ''VIRGL_FORMAT_R8G8Bx_SNORM''),
     (VIRGL_FORMAT_R8G8B8X8_UNORM, ''VIRGL_FORMAT_R8G8B8X8_UNORM''),
     (VIRGL_FORMAT_B4G4R4X4_UNORM, ''VIRGL_FORMAT_B4G4R4X4_UNORM''),
     (VIRGL_FORMAT_X24S8_UINT, ''VIRGL_FORMAT_X24S8_UINT''),
     (VIRGL_FORMAT_S8X24_UINT, ''VIRGL_FORMAT_S8X24_UINT''),
     (VIRGL_FORMAT_X32_S8X24_UINT, ''VIRGL_FORMAT_X32_S8X24_UINT''),
     (VIRGL_FORMAT_B2G3R3_UNORM, ''VIRGL_FORMAT_B2G3R3_UNORM''),
     (VIRGL_FORMAT_L16A16_UNORM, ''VIRGL_FORMAT_L16A16_UNORM''),
     (VIRGL_FORMAT_A16_UNORM, ''VIRGL_FORMAT_A16_UNORM''),
     (VIRGL_FORMAT_I16_UNORM, ''VIRGL_FORMAT_I16_UNORM''),
     (VIRGL_FORMAT_LATC1_UNORM, ''VIRGL_FORMAT_LATC1_UNORM''),
     (VIRGL_FORMAT_LATC1_SNORM, ''VIRGL_FORMAT_LATC1_SNORM''),
     (VIRGL_FORMAT_LATC2_UNORM, ''VIRGL_FORMAT_LATC2_UNORM''),
     (VIRGL_FORMAT_LATC2_SNORM, ''VIRGL_FORMAT_LATC2_SNORM''),
     (VIRGL_FORMAT_A8_SNORM, ''VIRGL_FORMAT_A8_SNORM''),
     (VIRGL_FORMAT_L8_SNORM, ''VIRGL_FORMAT_L8_SNORM''),
     (VIRGL_FORMAT_L8A8_SNORM, ''VIRGL_FORMAT_L8A8_SNORM''),
     (VIRGL_FORMAT_I8_SNORM, ''VIRGL_FORMAT_I8_SNORM''),
     (VIRGL_FORMAT_A16_SNORM, ''VIRGL_FORMAT_A16_SNORM''),
     (VIRGL_FORMAT_L16_SNORM, ''VIRGL_FORMAT_L16_SNORM'')]"

definition format_string_cases_3 :: "(u32 \<times> string) list" where
  "format_string_cases_3 = [
     (VIRGL_FORMAT_L16A16_SNORM, ''VIRGL_FORMAT_L16A16_SNORM''),
     (VIRGL_FORMAT_I16_SNORM, ''VIRGL_FORMAT_I16_SNORM''),
     (VIRGL_FORMAT_A16_FLOAT, ''VIRGL_FORMAT_A16_FLOAT''),
     (VIRGL_FORMAT_L16_FLOAT, ''VIRGL_FORMAT_L16_FLOAT''),
     (VIRGL_FORMAT_L16A16_FLOAT, ''VIRGL_FORMAT_L16A16_FLOAT''),
     (VIRGL_FORMAT_I16_FLOAT, ''VIRGL_FORMAT_I16_FLOAT''),
     (VIRGL_FORMAT_A32_FLOAT, ''VIRGL_FORMAT_A32_FLOAT''),
     (VIRGL_FORMAT_L32_FLOAT, ''VIRGL_FORMAT_L32_FLOAT''),
     (VIRGL_FORMAT_L32A32_FLOAT, ''VIRGL_FORMAT_L32A32_FLOAT''),
     (VIRGL_FORMAT_I32_FLOAT, ''VIRGL_FORMAT_I32_FLOAT''),
     (VIRGL_FORMAT_YV12, ''VIRGL_FORMAT_YV12''),
     (VIRGL_FORMAT_YV16, ''VIRGL_FORMAT_YV16''),
     (VIRGL_FORMAT_IYUV, ''VIRGL_FORMAT_IYUV''),
     (VIRGL_FORMAT_NV12, ''VIRGL_FORMAT_NV12''),
     (VIRGL_FORMAT_NV21, ''VIRGL_FORMAT_NV21''),
     (VIRGL_FORMAT_A4R4_UNORM, ''VIRGL_FORMAT_A4R4_UNORM''),
     (VIRGL_FORMAT_R4A4_UNORM, ''VIRGL_FORMAT_R4A4_UNORM''),
     (VIRGL_FORMAT_R8A8_UNORM, ''VIRGL_FORMAT_R8A8_UNORM''),
     (VIRGL_FORMAT_A8R8_UNORM, ''VIRGL_FORMAT_A8R8_UNORM''),
     (VIRGL_FORMAT_R10G10B10A2_SSCALED, ''VIRGL_FORMAT_R10G10B10A2_SSCALED''),
     (VIRGL_FORMAT_R10G10B10A2_SNORM, ''VIRGL_FORMAT_R10G10B10A2_SNORM''),
     (VIRGL_FORMAT_B10G10R10A2_USCALED, ''VIRGL_FORMAT_B10G10R10A2_USCALED''),
     (VIRGL_FORMAT_B10G10R10A2_SSCALED, ''VIRGL_FORMAT_B10G10R10A2_SSCALED''),
     (VIRGL_FORMAT_B10G10R10A2_SNORM, ''VIRGL_FORMAT_B10G10R10A2_SNORM''),
     (VIRGL_FORMAT_R8_UINT, ''VIRGL_FORMAT_R8_UINT''),
     (VIRGL_FORMAT_R8G8_UINT, ''VIRGL_FORMAT_R8G8_UINT''),
     (VIRGL_FORMAT_R8G8B8_UINT, ''VIRGL_FORMAT_R8G8B8_UINT''),
     (VIRGL_FORMAT_R8G8B8A8_UINT, ''VIRGL_FORMAT_R8G8B8A8_UINT''),
     (VIRGL_FORMAT_R8_SINT, ''VIRGL_FORMAT_R8_SINT''),
     (VIRGL_FORMAT_R8G8_SINT, ''VIRGL_FORMAT_R8G8_SINT''),
     (VIRGL_FORMAT_R8G8B8_SINT, ''VIRGL_FORMAT_R8G8B8_SINT''),
     (VIRGL_FORMAT_R8G8B8A8_SINT, ''VIRGL_FORMAT_R8G8B8A8_SINT''),
     (VIRGL_FORMAT_R16_UINT, ''VIRGL_FORMAT_R16_UINT''),
     (VIRGL_FORMAT_R16G16_UINT, ''VIRGL_FORMAT_R16G16_UINT''),
     (VIRGL_FORMAT_R16G16B16_UINT, ''VIRGL_FORMAT_R16G16B16_UINT''),
     (VIRGL_FORMAT_R16G16B16A16_UINT, ''VIRGL_FORMAT_R16G16B16A16_UINT''),
     (VIRGL_FORMAT_R16_SINT, ''VIRGL_FORMAT_R16_SINT''),
     (VIRGL_FORMAT_R16G16_SINT, ''VIRGL_FORMAT_R16G16_SINT''),
     (VIRGL_FORMAT_R16G16B16_SINT, ''VIRGL_FORMAT_R16G16B16_SINT''),
     (VIRGL_FORMAT_R16G16B16A16_SINT, ''VIRGL_FORMAT_R16G16B16A16_SINT''),
     (VIRGL_FORMAT_R32_UINT, ''VIRGL_FORMAT_R32_UINT''),
     (VIRGL_FORMAT_R32G32_UINT, ''VIRGL_FORMAT_R32G32_UINT''),
     (VIRGL_FORMAT_R32G32B32_UINT, ''VIRGL_FORMAT_R32G32B32_UINT''),
     (VIRGL_FORMAT_R32G32B32A32_UINT, ''VIRGL_FORMAT_R32G32B32A32_UINT''),
     (VIRGL_FORMAT_R32_SINT, ''VIRGL_FORMAT_R32_SINT''),
     (VIRGL_FORMAT_R32G32_SINT, ''VIRGL_FORMAT_R32G32_SINT''),
     (VIRGL_FORMAT_R32G32B32_SINT, ''VIRGL_FORMAT_R32G32B32_SINT''),
     (VIRGL_FORMAT_R32G32B32A32_SINT, ''VIRGL_FORMAT_R32G32B32A32_SINT''),
     (VIRGL_FORMAT_A8_UINT, ''VIRGL_FORMAT_A8_UINT''),
     (VIRGL_FORMAT_I8_UINT, ''VIRGL_FORMAT_I8_UINT''),
     (VIRGL_FORMAT_L8_UINT, ''VIRGL_FORMAT_L8_UINT''),
     (VIRGL_FORMAT_L8A8_UINT, ''VIRGL_FORMAT_L8A8_UINT''),
     (VIRGL_FORMAT_A8_SINT, ''VIRGL_FORMAT_A8_SINT''),
     (VIRGL_FORMAT_I8_SINT, ''VIRGL_FORMAT_I8_SINT''),
     (VIRGL_FORMAT_L8_SINT, ''VIRGL_FORMAT_L8_SINT''),
     (VIRGL_FORMAT_L8A8_SINT, ''VIRGL_FORMAT_L8A8_SINT''),
     (VIRGL_FORMAT_A16_UINT, ''VIRGL_FORMAT_A16_UINT''),
     (VIRGL_FORMAT_I16_UINT, ''VIRGL_FORMAT_I16_UINT''),
     (VIRGL_FORMAT_L16_UINT, ''VIRGL_FORMAT_L16_UINT''),
     (VIRGL_FORMAT_L16A16_UINT, ''VIRGL_FORMAT_L16A16_UINT''),
     (VIRGL_FORMAT_A16_SINT, ''VIRGL_FORMAT_A16_SINT''),
     (VIRGL_FORMAT_I16_SINT, ''VIRGL_FORMAT_I16_SINT''),
     (VIRGL_FORMAT_L16_SINT, ''VIRGL_FORMAT_L16_SINT''),
     (VIRGL_FORMAT_L16A16_SINT, ''VIRGL_FORMAT_L16A16_SINT''),
     (VIRGL_FORMAT_A32_UINT, ''VIRGL_FORMAT_A32_UINT''),
     (VIRGL_FORMAT_I32_UINT, ''VIRGL_FORMAT_I32_UINT''),
     (VIRGL_FORMAT_L32_UINT, ''VIRGL_FORMAT_L32_UINT''),
     (VIRGL_FORMAT_L32A32_UINT, ''VIRGL_FORMAT_L32A32_UINT''),
     (VIRGL_FORMAT_A32_SINT, ''VIRGL_FORMAT_A32_SINT''),
     (VIRGL_FORMAT_I32_SINT, ''VIRGL_FORMAT_I32_SINT''),
     (VIRGL_FORMAT_L32_SINT, ''VIRGL_FORMAT_L32_SINT''),
     (VIRGL_FORMAT_L32A32_SINT, ''VIRGL_FORMAT_L32A32_SINT''),
     (VIRGL_FORMAT_B10G10R10A2_UINT, ''VIRGL_FORMAT_B10G10R10A2_UINT''),
     (VIRGL_FORMAT_ETC1_RGB8, ''VIRGL_FORMAT_ETC1_RGB8'')]"

definition format_string_cases_4 :: "(u32 \<times> string) list" where
  "format_string_cases_4 = [
     (VIRGL_FORMAT_R8G8_R8B8_UNORM, ''VIRGL_FORMAT_R8G8_R8B8_UNORM''),
     (VIRGL_FORMAT_G8R8_B8R8_UNORM, ''VIRGL_FORMAT_G8R8_B8R8_UNORM''),
     (VIRGL_FORMAT_R8G8B8X8_SNORM, ''VIRGL_FORMAT_R8G8B8X8_SNORM''),
     (VIRGL_FORMAT_R8G8B8X8_SRGB, ''VIRGL_FORMAT_R8G8B8X8_SRGB''),
     (VIRGL_FORMAT_R8G8B8X8_UINT, ''VIRGL_FORMAT_R8G8B8X8_UINT''),
     (VIRGL_FORMAT_R8G8B8X8_SINT, ''VIRGL_FORMAT_R8G8B8X8_SINT''),
     (VIRGL_FORMAT_B10G10R10X2_UNORM, ''VIRGL_FORMAT_B10G10R10X2_UNORM''),
     (VIRGL_FORMAT_R16G16B16X16_UNORM, ''VIRGL_FORMAT_R16G16B16X16_UNORM''),
     (VIRGL_FORMAT_R16G16B16X16_SNORM, ''VIRGL_FORMAT_R16G16B16X16_SNORM''),
     (VIRGL_FORMAT_R16G16B16X16_FLOAT, ''VIRGL_FORMAT_R16G16B16X16_FLOAT''),
     (VIRGL_FORMAT_R16G16B16X16_UINT, ''VIRGL_FORMAT_R16G16B16X16_UINT''),
     (VIRGL_FORMAT_R16G16B16X16_SINT, ''VIRGL_FORMAT_R16G16B16X16_SINT''),
     (VIRGL_FORMAT_R32G32B32X32_FLOAT, ''VIRGL_FORMAT_R32G32B32X32_FLOAT''),
     (VIRGL_FORMAT_R32G32B32X32_UINT, ''VIRGL_FORMAT_R32G32B32X32_UINT''),
     (VIRGL_FORMAT_R32G32B32X32_SINT, ''VIRGL_FORMAT_R32G32B32X32_SINT''),
     (VIRGL_FORMAT_R8A8_SNORM, ''VIRGL_FORMAT_R8A8_SNORM''),
     (VIRGL_FORMAT_R16A16_UNORM, ''VIRGL_FORMAT_R16A16_UNORM''),
     (VIRGL_FORMAT_R16A16_SNORM, ''VIRGL_FORMAT_R16A16_SNORM''),
     (VIRGL_FORMAT_R16A16_FLOAT, ''VIRGL_FORMAT_R16A16_FLOAT''),
     (VIRGL_FORMAT_R32A32_FLOAT, ''VIRGL_FORMAT_R32A32_FLOAT''),
     (VIRGL_FORMAT_R8A8_UINT, ''VIRGL_FORMAT_R8A8_UINT''),
     (VIRGL_FORMAT_R8A8_SINT, ''VIRGL_FORMAT_R8A8_SINT''),
     (VIRGL_FORMAT_R16A16_UINT, ''VIRGL_FORMAT_R16A16_UINT''),
     (VIRGL_FORMAT_R16A16_SINT, ''VIRGL_FORMAT_R16A16_SINT''),
     (VIRGL_FORMAT_R32A32_UINT, ''VIRGL_FORMAT_R32A32_UINT''),
     (VIRGL_FORMAT_R32A32_SINT, ''VIRGL_FORMAT_R32A32_SINT''),
     (VIRGL_FORMAT_R10G10B10A2_UINT, ''VIRGL_FORMAT_R10G10B10A2_UINT''),
     (VIRGL_FORMAT_B5G6R5_SRGB, ''VIRGL_FORMAT_B5G6R5_SRGB''),
     (VIRGL_FORMAT_BPTC_RGBA_UNORM, ''VIRGL_FORMAT_BPTC_RGBA_UNORM''),
     (VIRGL_FORMAT_BPTC_SRGBA, ''VIRGL_FORMAT_BPTC_SRGBA''),
     (VIRGL_FORMAT_BPTC_RGB_FLOAT, ''VIRGL_FORMAT_BPTC_RGB_FLOAT''),
     (VIRGL_FORMAT_BPTC_RGB_UFLOAT, ''VIRGL_FORMAT_BPTC_RGB_UFLOAT''),
     (VIRGL_FORMAT_A8L8_UNORM, ''VIRGL_FORMAT_A8L8_UNORM''),
     (VIRGL_FORMAT_A8L8_SNORM, ''VIRGL_FORMAT_A8L8_SNORM''),
     (VIRGL_FORMAT_A8L8_SRGB, ''VIRGL_FORMAT_A8L8_SRGB''),
     (VIRGL_FORMAT_A16L16_UNORM, ''VIRGL_FORMAT_A16L16_UNORM''),
     (VIRGL_FORMAT_G8R8_UNORM, ''VIRGL_FORMAT_G8R8_UNORM''),
     (VIRGL_FORMAT_G8R8_SNORM, ''VIRGL_FORMAT_G8R8_SNORM''),
     (VIRGL_FORMAT_G16R16_UNORM, ''VIRGL_FORMAT_G16R16_UNORM''),
     (VIRGL_FORMAT_G16R16_SNORM, ''VIRGL_FORMAT_G16R16_SNORM''),
     (VIRGL_FORMAT_A8B8G8R8_SNORM, ''VIRGL_FORMAT_A8B8G8R8_SNORM''),
     (VIRGL_FORMAT_X8B8G8R8_SNORM, ''VIRGL_FORMAT_X8B8G8R8_SNORM''),
     (VIRGL_FORMAT_ETC2_RGB8, ''VIRGL_FORMAT_ETC2_RGB8''),
     (VIRGL_FORMAT_ETC2_SRGB8, ''VIRGL_FORMAT_ETC2_SRGB8''),
     (VIRGL_FORMAT_ETC2_RGB8A1, ''VIRGL_FORMAT_ETC2_RGB8A1''),
     (VIRGL_FORMAT_ETC2_SRGB8A1, ''VIRGL_FORMAT_ETC2_SRGB8A1''),
     (VIRGL_FORMAT_ETC2_RGBA8, ''VIRGL_FORMAT_ETC2_RGBA8''),
     (VIRGL_FORMAT_ETC2_SRGBA8, ''VIRGL_FORMAT_ETC2_SRGBA8''),
     (VIRGL_FORMAT_ETC2_R11_UNORM, ''VIRGL_FORMAT_ETC2_R11_UNORM''),
     (VIRGL_FORMAT_ETC2_R11_SNORM, ''VIRGL_FORMAT_ETC2_R11_SNORM''),
     (VIRGL_FORMAT_ETC2_RG11_UNORM, ''VIRGL_FORMAT_ETC2_RG11_UNORM''),
     (VIRGL_FORMAT_ETC2_RG11_SNORM, ''VIRGL_FORMAT_ETC2_RG11_SNORM''),
     (VIRGL_FORMAT_ASTC_4x4, ''VIRGL_FORMAT_ASTC_4x4''),
     (VIRGL_FORMAT_ASTC_5x4, ''VIRGL_FORMAT_ASTC_5x4''),
     (VIRGL_FORMAT_ASTC_5x5, ''VIRGL_FORMAT_ASTC_5x5''),
     (VIRGL_FORMAT_ASTC_6x5, ''VIRGL_FORMAT_ASTC_6x5''),
     (VIRGL_FORMAT_ASTC_6x6, ''VIRGL_FORMAT_ASTC_6x6''),
     (VIRGL_FORMAT_ASTC_8x5, ''VIRGL_FORMAT_ASTC_8x5''),
     (VIRGL_FORMAT_ASTC_8x6, ''VIRGL_FORMAT_ASTC_8x6''),
     (VIRGL_FORMAT_ASTC_8x8, ''VIRGL_FORMAT_ASTC_8x8''),
     (VIRGL_FORMAT_ASTC_10x5, ''VIRGL_FORMAT_ASTC_10x5''),
     (VIRGL_FORMAT_ASTC_10x6, ''VIRGL_FORMAT_ASTC_10x6''),
     (VIRGL_FORMAT_ASTC_10x8, ''VIRGL_FORMAT_ASTC_10x8''),
     (VIRGL_FORMAT_ASTC_10x10, ''VIRGL_FORMAT_ASTC_10x10''),
     (VIRGL_FORMAT_ASTC_12x10, ''VIRGL_FORMAT_ASTC_12x10''),
     (VIRGL_FORMAT_ASTC_12x12, ''VIRGL_FORMAT_ASTC_12x12''),
     (VIRGL_FORMAT_ASTC_4x4_SRGB, ''VIRGL_FORMAT_ASTC_4x4_SRGB''),
     (VIRGL_FORMAT_ASTC_5x4_SRGB, ''VIRGL_FORMAT_ASTC_5x4_SRGB''),
     (VIRGL_FORMAT_ASTC_5x5_SRGB, ''VIRGL_FORMAT_ASTC_5x5_SRGB''),
     (VIRGL_FORMAT_ASTC_6x5_SRGB, ''VIRGL_FORMAT_ASTC_6x5_SRGB''),
     (VIRGL_FORMAT_ASTC_6x6_SRGB, ''VIRGL_FORMAT_ASTC_6x6_SRGB''),
     (VIRGL_FORMAT_ASTC_8x5_SRGB, ''VIRGL_FORMAT_ASTC_8x5_SRGB''),
     (VIRGL_FORMAT_ASTC_8x6_SRGB, ''VIRGL_FORMAT_ASTC_8x6_SRGB''),
     (VIRGL_FORMAT_ASTC_8x8_SRGB, ''VIRGL_FORMAT_ASTC_8x8_SRGB'')]"

definition format_string_cases_5 :: "(u32 \<times> string) list" where
  "format_string_cases_5 = [
     (VIRGL_FORMAT_ASTC_10x5_SRGB, ''VIRGL_FORMAT_ASTC_10x5_SRGB''),
     (VIRGL_FORMAT_ASTC_10x6_SRGB, ''VIRGL_FORMAT_ASTC_10x6_SRGB''),
     (VIRGL_FORMAT_ASTC_10x8_SRGB, ''VIRGL_FORMAT_ASTC_10x8_SRGB''),
     (VIRGL_FORMAT_ASTC_10x10_SRGB, ''VIRGL_FORMAT_ASTC_10x10_SRGB''),
     (VIRGL_FORMAT_ASTC_12x10_SRGB, ''VIRGL_FORMAT_ASTC_12x10_SRGB''),
     (VIRGL_FORMAT_ASTC_12x12_SRGB, ''VIRGL_FORMAT_ASTC_12x12_SRGB''),
     (VIRGL_FORMAT_R10G10B10X2_UNORM, ''VIRGL_FORMAT_R10G10B10X2_UNORM''),
     (VIRGL_FORMAT_A4B4G4R4_UNORM, ''VIRGL_FORMAT_A4B4G4R4_UNORM''),
     (VIRGL_FORMAT_R8_SRGB, ''VIRGL_FORMAT_R8_SRGB''),
     (VIRGL_FORMAT_R8G8_SRGB, ''VIRGL_FORMAT_R8G8_SRGB''),
     (VIRGL_FORMAT_P010, ''VIRGL_FORMAT_P010'')]"

definition format_string_cases :: "(u32 \<times> string) list" where
  "format_string_cases = format_string_cases_1 @ format_string_cases_2 @ format_string_cases_3 @ format_string_cases_4 @ format_string_cases_5"

definition get_virgl_format_string :: "u32 \<Rightarrow> string" where
  "get_virgl_format_string format =
     (case map_of format_string_cases format of Some s \<Rightarrow> s | None \<Rightarrow> ''Unknown format'')"

section \<open>Bytes per pixel\<close>

text \<open>The cases of \<open>get_format_bpp\<close>, one group of labels per return statement.\<close>

definition format_bpp_groups :: "(u32 list \<times> nat) list" where
  "format_bpp_groups = [
     ([VIRGL_FORMAT_NONE], 0),
     ([VIRGL_FORMAT_B8G8R8A8_UNORM, VIRGL_FORMAT_B8G8R8X8_UNORM,
       VIRGL_FORMAT_A8R8G8B8_UNORM, VIRGL_FORMAT_X8R8G8B8_UNORM,
       VIRGL_FORMAT_R8G8B8A8_UNORM, VIRGL_FORMAT_X8B8G8R8_UNORM,
       VIRGL_FORMAT_A8B8G8R8_SRGB, VIRGL_FORMAT_X8B8G8R8_SRGB,
       VIRGL_FORMAT_B8G8R8A8_SRGB, VIRGL_FORMAT_B8G8R8X8_SRGB,
       VIRGL_FORMAT_A8R8G8B8_SRGB, VIRGL_FORMAT_X8R8G8B8_SRGB,
       VIRGL_FORMAT_R8G8B8A8_SRGB, VIRGL_FORMAT_R8G8B8A8_SINT,
       VIRGL_FORMAT_R8G8B8A8_UINT, VIRGL_FORMAT_A8B8G8R8_UNORM,
       VIRGL_FORMAT_R8G8B8X8_UNORM, VIRGL_FORMAT_R8G8B8X8_SRGB,
       VIRGL_FORMAT_R8G8B8X8_SINT, VIRGL_FORMAT_R8G8B8X8_UINT,
       VIRGL_FORMAT_R32_FLOAT, VIRGL_FORMAT_R32_UNORM,
       VIRGL_FORMAT_R32_USCALED, VIRGL_FORMAT_R32_SNORM,
       VIRGL_FORMAT_R32_SSCALED, VIRGL_FORMAT_R32_FIXED,
       VIRGL_FORMAT_R32_UINT, VIRGL_FORMAT_R32_SINT,
       VIRGL_FORMAT_R10G10B10A2_UNORM, VIRGL_FORMAT_R10G10B10A2_USCALED,
       VIRGL_FORMAT_R10G10B10A2_SSCALED, VIRGL_FORMAT_R10G10B10A2_SNORM,
       VIRGL_FORMAT_R10G10B10A2_UINT, VIRGL_FORMAT_B10G10R10A2_UNORM,
       VIRGL_FORMAT_B10G10R10A2_USCALED, VIRGL_FORMAT_B10G10R10A2_SSCALED,
       VIRGL_FORMAT_B10G10R10A2_SNORM, VIRGL_FORMAT_B10G10R10A2_UINT,
       VIRGL_FORMAT_A8B8G8R8_SNORM, VIRGL_FORMAT_X8B8G8R8_SNORM,
       VIRGL_FORMAT_R10G10B10X2_UNORM, VIRGL_FORMAT_A4B4G4R4_UNORM,
       VIRGL_FORMAT_R11G11B10_FLOAT, VIRGL_FORMAT_R9G9B9E5_FLOAT,
       VIRGL_FORMAT_Z32_UNORM, VIRGL_FORMAT_S8_UINT_Z24_UNORM,
       VIRGL_FORMAT_R8G8B8A8_SNORM, VIRGL_FORMAT_Z24X8_UNORM,
       VIRGL_FORMAT_Z32_FLOAT, VIRGL_FORMAT_L32_FLOAT,
       VIRGL_FORMAT_R8G8B8X8_SNORM, VIRGL_FORMAT_B10G10R10X2_UNORM], 4),
     ([VIRGL_FORMAT_B5G5R5A1_UNORM, VIRGL_FORMAT_B4G4R4A4_UNORM,
       VIRGL_FORMAT_B5G6R5_UNORM, VIRGL_FORMAT_L8A8_UNORM,
       VIRGL_FORMAT_R16_UNORM, VIRGL_FORMAT_R16_USCALED,
       VIRGL_FORMAT_R16_SNORM, VIRGL_FORMAT_R16_SSCALED,
       VIRGL_FORMAT_R16_FLOAT, VIRGL_FORMAT_R16_UINT,
       VIRGL_FORMAT_R16_SINT, VIRGL_FORMAT_L8A8_SRGB,
       VIRGL_FORMAT_R8G8_UNORM, VIRGL_FORMAT_R8G8_USCALED,
       VIRGL_FORMAT_R8G8_SNORM, VIRGL_FORMAT_R8G8_SSCALED,
       VIRGL_FORMAT_R8G8_UINT, VIRGL_FORMAT_R8G8_SINT,
       VIRGL_FORMAT_G8R8_SNORM, VIRGL_FORMAT_G8R8_UNORM,
       VIRGL_FORMAT_A8L8_UNORM, VIRGL_FORMAT_A8L8_SNORM,
       VIRGL_FORMAT_A8L8_SRGB, VIRGL_FORMAT_Z16_UNORM,
       VIRGL_FORMAT_L16_FLOAT], 2),
     ([VIRGL_FORMAT_L8_UNORM, VIRGL_FORMAT_A8_UNORM,
       VIRGL_FORMAT_I8_UNORM, VIRGL_FORMAT_S8_UINT,
       VIRGL_FORMAT_R8_UNORM, VIRGL_FORMAT_R8_USCALED,
       VIRGL_FORMAT_R8_SNORM, VIRGL_FORMAT_R8_SSCALED,
       VIRGL_FORMAT_L8_SRGB, VIRGL_FORMAT_R8_UINT,
       VIRGL_FORMAT_R8_SINT, VIRGL_FORMAT_R8_SRGB], 1),
     ([VIRGL_FORMAT_R64_FLOAT], 8),
     ([VIRGL_FORMAT_R64G64_FLOAT], 16),
     ([VIRGL_FORMAT_R64G64B64_FLOAT], 24),
     ([VIRGL_FORMAT_R64G64B64A64_FLOAT], 32),
     ([VIRGL_FORMAT_R32G32_FLOAT, VIRGL_FORMAT_R32G32_UNORM,
       VIRGL_FORMAT_R32G32_USCALED, VIRGL_FORMAT_R32G32_SNORM,
       VIRGL_FORMAT_R32G32_SSCALED, VIRGL_FORMAT_R32G32_FIXED,
       VIRGL_FORMAT_R32G32_UINT, VIRGL_FORMAT_R32G32_SINT,
       VIRGL_FORMAT_R16G16B16X16_UINT, VIRGL_FORMAT_R16G16B16X16_SINT,
       VIRGL_FORMAT_Z32_FLOAT_S8X24_UINT], 8),
     ([VIRGL_FORMAT_R32G32B32_FLOAT, VIRGL_FORMAT_R32G32B32_UNORM,
       VIRGL_FORMAT_R32G32B32_USCALED, VIRGL_FORMAT_R32G32B32_SNORM,
       VIRGL_FORMAT_R32G32B32_SSCALED, VIRGL_FORMAT_R32G32B32_FIXED,
       VIRGL_FORMAT_R32G32B32_UINT, VIRGL_FORMAT_R32G32B32_SINT], 12),
     ([VIRGL_FORMAT_R32G32B32A32_FLOAT, VIRGL_FORMAT_R32G32B32A32_UNORM,
       VIRGL_FORMAT_R32G32B32A32_USCALED, VIRGL_FORMAT_R32G32B32A32_SNORM,
       VIRGL_FORMAT_R32G32B32A32_SSCALED, VIRGL_FORMAT_R32G32B32A32_FIXED,
       VIRGL_FORMAT_R32G32B32A32_UINT, VIRGL_FORMAT_R32G32B32A32_SINT], 16),
     ([VIRGL_FORMAT_R16G16_UNORM, VIRGL_FORMAT_R16G16_USCALED,
       VIRGL_FORMAT_R16G16_SNORM, VIRGL_FORMAT_R16G16_SSCALED,
       VIRGL_FORMAT_R16G16_FLOAT, VIRGL_FORMAT_R16G16_UINT,
       VIRGL_FORMAT_R16G16_SINT, VIRGL_FORMAT_G16R16_UNORM,
       VIRGL_FORMAT_G16R16_SNORM], 4),
     ([VIRGL_FORMAT_R16G16B16_UNORM, VIRGL_FORMAT_R16G16B16_USCALED,
       VIRGL_FORMAT_R16G16B16_SNORM, VIRGL_FORMAT_R16G16B16_SSCALED,
       VIRGL_FORMAT_R16G16B16_FLOAT, VIRGL_FORMAT_R16G16B16_UINT,
       VIRGL_FORMAT_R16G16B16_SINT], 6),
     ([VIRGL_FORMAT_R16G16B16A16_UNORM, VIRGL_FORMAT_R16G16B16A16_USCALED,
       VIRGL_FORMAT_R16G16B16A16_SNORM, VIRGL_FORMAT_R16G16B16A16_SSCALED,
       VIRGL_FORMAT_R16G16B16A16_FLOAT, VIRGL_FORMAT_R16G16B16A16_UINT,
       VIRGL_FORMAT_R16G16B16A16_SINT, VIRGL_FORMAT_R16G16B16X16_FLOAT], 8)]"

fun find_group :: "(u32 list \<times> nat) list \<Rightarrow> u32 \<Rightarrow> nat option" where
  "find_group [] f = None"
| "find_group ((ls, b) # gs) f = (if f \<in> set ls then Some b else find_group gs f)"

text \<open>The default case (a message on stderr) returns 0.\<close>

definition get_format_bpp :: "u32 \<Rightarrow> nat" where
  "get_format_bpp format =
     (case find_group format_bpp_groups format of Some b \<Rightarrow> b | None \<Rightarrow> 0)"

section \<open>Lemmas on the tables\<close>

text \<open>
  The width in bits that a format's name announces: the sum of the decimal numbers in it, e.g.
  8 + 8 + 8 + 8 for \<open>VIRGL_FORMAT_B8G8R8A8_UNORM\<close>.
\<close>

fun name_bits :: "string \<Rightarrow> nat \<Rightarrow> nat" where
  "name_bits [] n = n"
| "name_bits (c # cs) n =
     (let d = of_char c :: nat in
      if 48 \<le> d \<and> d \<le> 57 then name_bits cs (10 * n + (d - 48)) else n + name_bits cs 0)"

lemmas string_cases_defs =
  format_string_cases_def format_string_cases_1_def format_string_cases_2_def
  format_string_cases_3_def format_string_cases_4_def format_string_cases_5_def

lemmas virgl_formats_defs =
  virgl_formats_def virgl_formats_1_def virgl_formats_2_def virgl_formats_3_def

lemma key_order_step:
  "successively (\<lambda>a b. fst a < fst b) ((k', t) # xs) \<Longrightarrow> k < (k' :: u32) \<Longrightarrow>
    successively (\<lambda>a b. fst a < fst b) ((k, s) # (k', t) # xs)"
  by simp

lemma sorted_cases: "successively (\<lambda>a b. fst a < fst b) format_string_cases"
  unfolding string_cases_defs append.simps
  by (intro key_order_step) simp_all

lemma distinct_cases: "distinct (map fst format_string_cases)"
proof -
  have "transp (\<lambda>(a :: u32 \<times> string) b. fst a < fst b)"
    by (rule transpI) (rule less_trans)
  then have "sorted_wrt (\<lambda>a b. fst a < fst b) format_string_cases"
    using sorted_cases by (simp add: successively_conv_sorted_wrt)
  then have "sorted_wrt (<) (map fst format_string_cases)"
    by (simp only: sorted_wrt_map)
  then show ?thesis
    by (simp add: strict_sorted_iff)
qed

lemma string_of_case: "list_all (\<lambda>(v, s). get_virgl_format_string v = s) format_string_cases"
  using distinct_cases by (auto simp: list_all_iff get_virgl_format_string_def)

lemmas string_facts = string_of_case [unfolded string_cases_defs append.simps list.pred_inject prod.case]

lemma find_group_SomeD: "find_group gs f = Some b \<Longrightarrow> \<exists>ls. (ls, b) \<in> set gs \<and> f \<in> set ls"
  by (induction gs f rule: find_group.induct) (auto split: if_splits)

lemma get_format_bpp_group:
  "get_format_bpp f = b \<Longrightarrow> b \<noteq> 0 \<Longrightarrow> \<exists>ls. (ls, b) \<in> set format_bpp_groups \<and> f \<in> set ls"
  by (auto simp: get_format_bpp_def split: option.splits dest: find_group_SomeD)

lemma group_bits:
  "list_all (\<lambda>(ls, b). list_all (\<lambda>f. f = VIRGL_FORMAT_A4B4G4R4_UNORM \<or>
      name_bits (get_virgl_format_string f) 0 = 8 * b) ls) format_bpp_groups"
  by (simp add: format_bpp_groups_def string_facts)

lemma group_bounds: "list_all (\<lambda>(ls, b). b \<le> 32) format_bpp_groups"
  by (simp add: format_bpp_groups_def)

lemma get_format_bpp_le_32: "get_format_bpp f \<le> 32"
  using get_format_bpp_group [of f] group_bounds
  by (cases "get_format_bpp f = 0") (auto simp: list_all_iff)

section \<open>Properties\<close>

text \<open>
  The name table agrees with the enumeration: for every enumerator of
  \<open>enum virgl_formats\<close>, \<open>get_virgl_format_string\<close> returns exactly its own name, so no label of
  the switch is missing, shadowed or attached to another format's string.
\<close>

theorem get_virgl_format_string_enumerator:
  "list_all (\<lambda>(name, value). get_virgl_format_string value = name) virgl_formats"
  by (simp add: virgl_formats_defs string_facts)

text \<open>
  The pixel size of every format \<open>get_format_bpp\<close> knows is the size its name
  announces, in bytes: the widths of its channels add up to eight times the result.  The one
  exception is \<open>VIRGL_FORMAT_A4B4G4R4_UNORM\<close>, whose four 4-bit channels are 16 bits while the
  switch lists it among the 4-byte formats.
\<close>

theorem get_format_bpp_name_bits:
  "get_format_bpp f = 0 \<or> f = VIRGL_FORMAT_A4B4G4R4_UNORM \<or>
   name_bits (get_virgl_format_string f) 0 = 8 * get_format_bpp f"
  using get_format_bpp_group [of f] group_bits
  by (fastforce simp: list_all_iff)

lemma get_format_bpp_A4B4G4R4:
  "get_format_bpp VIRGL_FORMAT_A4B4G4R4_UNORM = 4 \<and>
   name_bits (get_virgl_format_string VIRGL_FORMAT_A4B4G4R4_UNORM) 0 = 16"
  by (simp add: get_format_bpp_def format_bpp_groups_def string_facts)

end
