(* ===== verification/Rvgpu_Res.thy ===== *)
theory Rvgpu_Res
  imports Rvgpu_Ctx Virgl_Format
begin

text \<open>
  Resources of the proxy (\<open>src/librvgpu/res/rvgpu-res.c\<close>): the table of resources of a context,
  the size of the data a transfer covers, and the patches by which the guest's backing pages are
  sent to every host.
\<close>

section \<open>Format classes\<close>

definition virgl_format_is_yuv :: "u32 \<Rightarrow> bool" where
  "virgl_format_is_yuv format =
     (format \<in> set [VIRGL_FORMAT_NV12, VIRGL_FORMAT_P010, VIRGL_FORMAT_YV12, VIRGL_FORMAT_YV16,
        VIRGL_FORMAT_IYUV, VIRGL_FORMAT_NV21])"

text \<open>The case labels of \<open>virgl_format_is_compressed\<close>.\<close>

definition compressed_formats :: "u32 list" where
  "compressed_formats =
    [VIRGL_FORMAT_DXT1_RGB, VIRGL_FORMAT_DXT1_RGBA, VIRGL_FORMAT_DXT3_RGBA,
     VIRGL_FORMAT_DXT5_RGBA, VIRGL_FORMAT_DXT1_SRGB, VIRGL_FORMAT_DXT1_SRGBA,
     VIRGL_FORMAT_DXT3_SRGBA, VIRGL_FORMAT_DXT5_SRGBA, VIRGL_FORMAT_RGTC1_UNORM,
     VIRGL_FORMAT_RGTC1_SNORM, VIRGL_FORMAT_RGTC2_UNORM, VIRGL_FORMAT_RGTC2_SNORM,
     VIRGL_FORMAT_ETC1_RGB8, VIRGL_FORMAT_ETC2_RGB8, VIRGL_FORMAT_ETC2_SRGB8,
     VIRGL_FORMAT_ETC2_RGB8A1, VIRGL_FORMAT_ETC2_SRGB8A1, VIRGL_FORMAT_ETC2_RGBA8,
     VIRGL_FORMAT_ETC2_SRGBA8, VIRGL_FORMAT_ETC2_R11_UNORM, VIRGL_FORMAT_ETC2_R11_SNORM,
     VIRGL_FORMAT_ETC2_RG11_UNORM, VIRGL_FORMAT_ETC2_RG11_SNORM, VIRGL_FORMAT_ASTC_4x4,
     VIRGL_FORMAT_ASTC_5x4, VIRGL_FORMAT_ASTC_5x5, VIRGL_FORMAT_ASTC_6x5,
     VIRGL_FORMAT_ASTC_6x6, VIRGL_FORMAT_ASTC_8x5, VIRGL_FORMAT_ASTC_8x6,
     VIRGL_FORMAT_ASTC_8x8, VIRGL_FORMAT_ASTC_10x5, VIRGL_FORMAT_ASTC_10x6,
     VIRGL_FORMAT_ASTC_10x8, VIRGL_FORMAT_ASTC_10x10, VIRGL_FORMAT_ASTC_12x10,
     VIRGL_FORMAT_ASTC_12x12, VIRGL_FORMAT_ASTC_4x4_SRGB, VIRGL_FORMAT_ASTC_5x4_SRGB,
     VIRGL_FORMAT_ASTC_5x5_SRGB, VIRGL_FORMAT_ASTC_6x5_SRGB, VIRGL_FORMAT_ASTC_6x6_SRGB,
     VIRGL_FORMAT_ASTC_8x5_SRGB, VIRGL_FORMAT_ASTC_8x6_SRGB, VIRGL_FORMAT_ASTC_8x8_SRGB,
     VIRGL_FORMAT_ASTC_10x5_SRGB, VIRGL_FORMAT_ASTC_10x6_SRGB, VIRGL_FORMAT_ASTC_10x8_SRGB,
     VIRGL_FORMAT_ASTC_10x10_SRGB, VIRGL_FORMAT_ASTC_12x10_SRGB, VIRGL_FORMAT_ASTC_12x12_SRGB]"

definition virgl_format_is_compressed :: "u32 \<Rightarrow> bool" where
  "virgl_format_is_compressed format = (format \<in> set compressed_formats)"

section \<open>Patches\<close>

abbreviation (input) RVGPU_PATCH_RES :: u8 where "RVGPU_PATCH_RES \<equiv> 1"

text \<open>\<open>__IOV_MAX\<close> of the C library.\<close>

definition IOV_MAX :: nat where
  "IOV_MAX = 1024"

text \<open>
  \<open>struct rvgpu_patch\<close> in memory: the type, three bytes of padding (zero here; the C leaves their
  value open and the reader skips them), offset and length in little endian.
\<close>

definition patch_bytes :: "u8 \<Rightarrow> u32 \<Rightarrow> u32 \<Rightarrow> byte list" where
  "patch_bytes ty off len = [ty, 0, 0, 0] @ le32 off @ le32 len"

lemma patch_header:
  "un_le32 (drop 4 (patch_bytes ty off len)) = off" "un_le32 (drop 8 (patch_bytes ty off len)) = len"
  "length (patch_bytes ty off len) = 12"
proof -
  have "drop 8 (patch_bytes ty off len) = drop 4 (drop 4 (patch_bytes ty off len))"
    by simp
  then show "un_le32 (drop 8 (patch_bytes ty off len)) = len"
    unfolding patch_bytes_def by (simp add: le32_def) (simp add: le32_def [symmetric])
qed (simp_all add: patch_bytes_def)

text \<open>\<open>struct patch_data\<close>; \<open>pd_iov\<close> holds the regions after the reserved first one.\<close>

record patch_data =
  pd_type :: u8
  pd_offset :: u32
  pd_len :: u32
  pd_iov :: "iovec list"

definition pd_niov :: "patch_data \<Rightarrow> nat" where
  "pd_niov d = 1 + length (pd_iov d)"

text \<open>Sends of several buffers in turn; a failed one is reported on stderr and the loop goes on.\<close>

definition send_bufs :: "ctx_priv \<Rightarrow> byte list list \<Rightarrow> ctx_priv" where
  "send_bufs c bss = foldl (\<lambda>c bs. snd (rvgpu_ctx_send c bs)) c bss"

definition write_patch :: "hmem \<Rightarrow> ctx_priv \<Rightarrow> patch_data \<Rightarrow> ctx_priv" where
  "write_patch m c d =
     (if pd_niov d = 1 then c
      else send_bufs c (patch_bytes (pd_type d) (pd_offset d) (pd_len d) #
             map (\<lambda>v. mem_read m (iov_base v) (unat (iov_len v))) (pd_iov d)))"

definition init_patch :: "patch_data \<Rightarrow> patch_data" where
  "init_patch d = d\<lparr>pd_iov := []\<rparr>"

definition add_patch ::
  "hmem \<Rightarrow> ctx_priv \<Rightarrow> patch_data \<Rightarrow> u64 \<Rightarrow> addr \<Rightarrow> u64 \<Rightarrow> (ctx_priv \<times> patch_data) outcome" where
  "add_patch m c d offset data len =
     (let (c1, d1) = (if pd_niov d = IOV_MAX then (write_patch m c d, init_patch d) else (c, d)) in
      if \<not> offset < 0xFFFFFFFF then Exited ''assert(offset < UINT32_MAX)''
      else
        let d2 = (if pd_niov d1 = 1
                  then d1\<lparr>pd_offset := ucast offset, pd_len := 0, pd_type := RVGPU_PATCH_RES\<rparr>
                  else d1)
        in Returned (c1, d2\<lparr>pd_iov := pd_iov d2 @ [\<lparr> iov_base = data, iov_len = len \<rparr>],
                           pd_len := pd_len d2 + ucast len\<rparr>))"

fun send_data_loop ::
  "hmem \<Rightarrow> ctx_priv \<Rightarrow> patch_data \<Rightarrow> iovec list \<Rightarrow> u64 \<Rightarrow> u64 \<Rightarrow> u64 \<Rightarrow> (ctx_priv \<times> patch_data) outcome" where
  "send_data_loop m c d [] offset skip len = Returned (c, d)"
| "send_data_loop m c d (v # vs) offset skip len =
     (if len = 0 then Returned (c, d)
      else if skip \<ge> iov_len v
      then send_data_loop m c d vs (offset + iov_len v) (skip - iov_len v) len
      else
        let l = (if iov_len v - skip > len then len else iov_len v - skip)
        in obind (add_patch m c d (offset + skip) (iov_base v + skip) l)
             (\<lambda>(c', d'). send_data_loop m c' d' vs (offset + iov_len v) 0 (len - l)))"

definition gpu_device_send_data ::
  "hmem \<Rightarrow> ctx_priv \<Rightarrow> iovec list \<Rightarrow> u64 \<Rightarrow> u64 \<Rightarrow> ctx_priv outcome" where
  "gpu_device_send_data m c iovs skip len =
     (let d = init_patch \<lparr> pd_type = 0, pd_offset = 0, pd_len = 0, pd_iov = [] \<rparr>
      in obind (send_data_loop m c d iovs 0 skip len) (\<lambda>(c', d'). Returned (write_patch m c' d')))"

section \<open>Sizes\<close>

definition align_up_power_of_2 :: "u32 \<Rightarrow> u32 \<Rightarrow> u32" where
  "align_up_power_of_2 n a = (n + (a - 1)) AND NOT (a - 1)"

definition yuv_data_size :: "u32 \<Rightarrow> u32 \<Rightarrow> u32 \<Rightarrow> u32 \<Rightarrow> u64" where
  "yuv_data_size format width height stride =
     (let bpp = (if format = VIRGL_FORMAT_P010 then 2 else 1);
          y_align = (if format = VIRGL_FORMAT_YV12 then 32 else 16);
          y_stride = (if stride \<noteq> 0 then stride else align_up_power_of_2 width y_align * bpp);
          y_size = y_stride * height;
          uv_height = height div 2;
          uv_planes = (if format = VIRGL_FORMAT_NV12 \<or> format = VIRGL_FORMAT_P010
                       then Some (width, 1)
                       else if format = VIRGL_FORMAT_YV12 then Some (width div 2, 2)
                       else None)
      in case uv_planes of
           None \<Rightarrow> 0
         | Some (uv_width, uv_plane_count) \<Rightarrow>
             let uv_stride = align_up_power_of_2 uv_width 16 * bpp;
                 uv_size = uv_stride * uv_height * uv_plane_count
             in ucast (y_size + uv_size))"

text \<open>
  The cases of \<open>compressed_data_size\<close>: per return statement its labels, the width and the height of
  a block in pixels, and the bytes of a block.
\<close>

definition compressed_blocks :: "(u32 list \<times> u32 \<times> u32 \<times> u32) list" where
  "compressed_blocks =
    [([VIRGL_FORMAT_DXT1_RGB, VIRGL_FORMAT_DXT1_RGBA, VIRGL_FORMAT_DXT1_SRGB,
       VIRGL_FORMAT_DXT1_SRGBA], 4, 4, 8),
     ([VIRGL_FORMAT_DXT3_RGBA, VIRGL_FORMAT_DXT5_RGBA, VIRGL_FORMAT_DXT3_SRGBA,
       VIRGL_FORMAT_DXT5_SRGBA], 4, 4, 16),
     ([VIRGL_FORMAT_RGTC1_UNORM, VIRGL_FORMAT_RGTC1_SNORM], 4, 4, 8),
     ([VIRGL_FORMAT_RGTC2_UNORM, VIRGL_FORMAT_RGTC2_SNORM], 4, 4, 16),
     ([VIRGL_FORMAT_ETC1_RGB8, VIRGL_FORMAT_ETC2_RGB8, VIRGL_FORMAT_ETC2_SRGB8,
       VIRGL_FORMAT_ETC2_RGB8A1, VIRGL_FORMAT_ETC2_SRGB8A1, VIRGL_FORMAT_ETC2_R11_UNORM,
       VIRGL_FORMAT_ETC2_R11_SNORM], 4, 4, 8),
     ([VIRGL_FORMAT_ETC2_RGBA8, VIRGL_FORMAT_ETC2_SRGBA8, VIRGL_FORMAT_ETC2_RG11_UNORM,
       VIRGL_FORMAT_ETC2_RG11_SNORM], 4, 4, 16),
     ([VIRGL_FORMAT_ASTC_4x4, VIRGL_FORMAT_ASTC_4x4_SRGB], 4, 4, 16),
     ([VIRGL_FORMAT_ASTC_5x4, VIRGL_FORMAT_ASTC_5x4_SRGB], 5, 4, 16),
     ([VIRGL_FORMAT_ASTC_5x5, VIRGL_FORMAT_ASTC_5x5_SRGB], 5, 5, 16),
     ([VIRGL_FORMAT_ASTC_6x5, VIRGL_FORMAT_ASTC_6x5_SRGB], 6, 5, 16),
     ([VIRGL_FORMAT_ASTC_6x6, VIRGL_FORMAT_ASTC_6x6_SRGB], 6, 6, 16),
     ([VIRGL_FORMAT_ASTC_8x5, VIRGL_FORMAT_ASTC_8x5_SRGB], 8, 5, 16),
     ([VIRGL_FORMAT_ASTC_8x6, VIRGL_FORMAT_ASTC_8x6_SRGB], 8, 6, 16),
     ([VIRGL_FORMAT_ASTC_8x8, VIRGL_FORMAT_ASTC_8x8_SRGB], 8, 8, 16),
     ([VIRGL_FORMAT_ASTC_10x5, VIRGL_FORMAT_ASTC_10x5_SRGB], 10, 5, 16),
     ([VIRGL_FORMAT_ASTC_10x6, VIRGL_FORMAT_ASTC_10x6_SRGB], 10, 6, 16),
     ([VIRGL_FORMAT_ASTC_10x8, VIRGL_FORMAT_ASTC_10x8_SRGB], 10, 8, 16),
     ([VIRGL_FORMAT_ASTC_10x10, VIRGL_FORMAT_ASTC_10x10_SRGB], 10, 10, 16),
     ([VIRGL_FORMAT_ASTC_12x10, VIRGL_FORMAT_ASTC_12x10_SRGB], 12, 10, 16),
     ([VIRGL_FORMAT_ASTC_12x12, VIRGL_FORMAT_ASTC_12x12_SRGB], 12, 12, 16)]"

fun find_block :: "(u32 list \<times> u32 \<times> u32 \<times> u32) list \<Rightarrow> u32 \<Rightarrow> (u32 \<times> u32 \<times> u32) option" where
  "find_block [] f = None"
| "find_block ((ls, b) # gs) f = (if f \<in> set ls then Some b else find_block gs f)"

definition compressed_data_size :: "u32 \<Rightarrow> u32 \<Rightarrow> u32 \<Rightarrow> u64" where
  "compressed_data_size format width height =
     (case find_block compressed_blocks format of
        None \<Rightarrow> 0
      | Some (bw, bh, bytes) \<Rightarrow>
          ucast ((width + (bw - 1)) div bw * ((height + (bh - 1)) div bh) * bytes))"

text \<open>The size of a transfer to a buffer (target 0), a 2D texture (2) and a 3D texture (3).\<close>

definition buffer_transfer_size :: "rvgpu_res_transfer \<Rightarrow> u64" where
  "buffer_transfer_size t =
     (if tr_stride t > 0
      then if tr_d t > 1 \<and> tr_h t > 1 then ucast (tr_d t * tr_h t * tr_stride t)
           else if tr_h t > 1 then ucast (tr_h t * tr_stride t)
           else if tr_w t > 0 then ucast (tr_stride t)
           else 0
      else if tr_w t > 0 then ucast (tr_w t)
      else 0)"

definition texture_2d_transfer_size :: "rvgpu_res_info \<Rightarrow> rvgpu_res_transfer \<Rightarrow> u64" where
  "texture_2d_transfer_size info t =
     (if virgl_format_is_compressed (ri_format info)
      then compressed_data_size (ri_format info) (tr_w t) (tr_h t)
      else if virgl_format_is_yuv (ri_format info)
      then yuv_data_size (ri_format info) (tr_w t) (tr_h t) (tr_stride t)
      else
        let bpp = of_nat (get_format_bpp (ri_format info));
            stride = (if tr_stride t \<noteq> 0 then tr_stride t else bpp * ri_width info)
        in ucast ((tr_h t - 1) * stride + tr_w t * bpp))"

definition texture_3d_transfer_size :: "rvgpu_res_info \<Rightarrow> rvgpu_res_transfer \<Rightarrow> u64" where
  "texture_3d_transfer_size info t =
     (let bpp = of_nat (get_format_bpp (ri_format info));
          width = drop_bit (unat (tr_level t)) (ri_width info);
          height = drop_bit (unat (tr_level t)) (ri_height info);
          stride = (if tr_stride t \<noteq> 0 then tr_stride t else bpp * width);
          layer_stride = (if tr_layer_stride t \<noteq> 0 then tr_layer_stride t else stride * height)
      in ucast ((tr_h t - 1) * stride + tr_w t * bpp + layer_stride * (tr_d t - 1)))"

abbreviation (input) SIZE_MAX :: u64 where "SIZE_MAX \<equiv> 0xFFFFFFFFFFFFFFFF"

definition res_iovs :: "rvgpu_res \<Rightarrow> iovec list" where
  "res_iovs res = (case backing res of None \<Rightarrow> [] | Some vs \<Rightarrow> vs)"

definition rvgpu_ctx_transfer_to_host ::
  "hmem \<Rightarrow> ctx_priv \<Rightarrow> rvgpu_res_transfer \<Rightarrow> rvgpu_res \<Rightarrow> (int \<times> ctx_priv) outcome" where
  "rvgpu_ctx_transfer_to_host m c t res =
     (let send = gpu_device_send_data m c (res_iovs res) (tr_offset t);
          target = ri_target (res_info res)
      in obind
        (if target = 0
         then let size = buffer_transfer_size t in if size > 0 then send size else Returned c
         else if target = 2 then send (texture_2d_transfer_size (res_info res) t)
         else if target = 3 then send (texture_3d_transfer_size (res_info res) t)
         else send SIZE_MAX)
        (\<lambda>c1. let (rc, c2) = rvgpu_ctx_send c1 (patch_bytes 0 0 0)
               in Returned (if rc \<noteq> 0 then - 1 else 0, c2)))"

section \<open>The resource table\<close>

fun gpu_device_get_res :: "rvgpu_res list \<Rightarrow> u32 \<Rightarrow> rvgpu_res option" where
  "gpu_device_get_res [] i = None"
| "gpu_device_get_res (r # rs) i = (if resid r = i then Some r else gpu_device_get_res rs i)"

definition rvgpu_ctx_res_find :: "ctx_priv \<Rightarrow> u32 \<Rightarrow> rvgpu_res option" where
  "rvgpu_ctx_res_find c i = gpu_device_get_res (reslist c) i"

text \<open>\<open>LIST_REMOVE\<close> of the element found; an unknown id is only reported.\<close>

fun list_remove_res :: "rvgpu_res list \<Rightarrow> u32 \<Rightarrow> rvgpu_res list" where
  "list_remove_res [] i = []"
| "list_remove_res (r # rs) i = (if resid r = i then rs else r # list_remove_res rs i)"

definition rvgpu_ctx_res_destroy :: "ctx_priv \<Rightarrow> u32 \<Rightarrow> ctx_priv" where
  "rvgpu_ctx_res_destroy c i = c\<lparr>reslist := list_remove_res (reslist c) i\<rparr>"

definition rvgpu_ctx_res_create :: "ctx_priv \<Rightarrow> rvgpu_res_info \<Rightarrow> u32 \<Rightarrow> int \<times> ctx_priv" where
  "rvgpu_ctx_res_create c info i =
     (0, c\<lparr>reslist := \<lparr> resid = i, backing = None, res_info = info\<lparr>ri_bpp := 4\<rparr> \<rparr> # reslist c\<rparr>)"

text \<open>A store through the pointer that \<open>rvgpu_ctx_res_find\<close> returned.\<close>

fun list_update_res :: "rvgpu_res list \<Rightarrow> u32 \<Rightarrow> (rvgpu_res \<Rightarrow> rvgpu_res) \<Rightarrow> rvgpu_res list" where
  "list_update_res [] i f = []"
| "list_update_res (r # rs) i f = (if resid r = i then f r # rs else r # list_update_res rs i f)"

definition res_update :: "ctx_priv \<Rightarrow> u32 \<Rightarrow> (rvgpu_res \<Rightarrow> rvgpu_res) \<Rightarrow> ctx_priv" where
  "res_update c i f = c\<lparr>reslist := list_update_res (reslist c) i f\<rparr>"

section \<open>The patch stream of a transfer\<close>

text \<open>A patch as an offset and its bytes, its encoding, and patches that follow one another.\<close>

definition enc_patch :: "nat \<times> byte list \<Rightarrow> byte list" where
  "enc_patch p = patch_bytes RVGPU_PATCH_RES (of_nat (fst p)) (of_nat (length (snd p))) @ snd p"

fun contig :: "nat \<Rightarrow> (nat \<times> byte list) list \<Rightarrow> bool" where
  "contig k [] = True"
| "contig k ((i, bs) # ps) = (i = k \<and> bs \<noteq> [] \<and> contig (k + length bs) ps)"

definition patch_data_bytes :: "(nat \<times> byte list) list \<Rightarrow> byte list" where
  "patch_data_bytes ps = concat (map snd ps)"

lemma patch_data_bytes_simps [simp]:
  "patch_data_bytes [] = []"
  "patch_data_bytes (p # ps) = snd p @ patch_data_bytes ps"
  "patch_data_bytes (ps @ qs) = patch_data_bytes ps @ patch_data_bytes qs"
  by (simp_all add: patch_data_bytes_def)

lemma contig_append:
  "contig k (ps @ qs) \<longleftrightarrow> contig k ps \<and> contig (k + length (patch_data_bytes ps)) qs"
  by (induction k ps rule: contig.induct) (auto simp: add.assoc)

text \<open>The patch that is being collected, and when it is consistent with the walk.\<close>

definition pd_ok :: "patch_data \<Rightarrow> u64 \<Rightarrow> u64 \<Rightarrow> u64 \<Rightarrow> bool" where
  "pd_ok d offset skip len =
     (pd_niov d \<le> IOV_MAX \<and>
      (pd_iov d = [] \<or>
       pd_type d = RVGPU_PATCH_RES \<and> unat (pd_len d) = iov_total (pd_iov d) \<and> 0 < iov_total (pd_iov d) \<and>
       (len = 0 \<or> skip = 0 \<and> unat (pd_offset d) + iov_total (pd_iov d) = unat offset)))"

definition pd_start :: "patch_data \<Rightarrow> u64 \<Rightarrow> u64 \<Rightarrow> nat" where
  "pd_start d offset skip =
     (if pd_iov d = [] then unat offset + unat skip else unat (pd_offset d))"

lemma send_bufs_ready:
  "ctx_ready c \<Longrightarrow> ctx_ready (send_bufs c bss) \<and>
     ctx_out (send_bufs c bss) = map (\<lambda>old. old @ concat bss) (ctx_out c)"
  using ctx.send_list by (simp add: send_bufs_def)

lemma write_patch_ready:
  assumes "ctx_ready c" and "pd_iov d \<noteq> []" and "pd_type d = RVGPU_PATCH_RES"
    and "unat (pd_len d) = iov_total (pd_iov d)"
  shows "ctx_ready (write_patch m c d) \<and> ctx_out (write_patch m c d) =
    map (\<lambda>old. old @ enc_patch (unat (pd_offset d), iov_bytes m (pd_iov d))) (ctx_out c)"
proof -
  have "pd_len d = of_nat (iov_total (pd_iov d))"
    by (simp add: assms(4) [symmetric])
  with assms show ?thesis
    using send_bufs_ready [OF assms(1)]
    by (simp add: write_patch_def pd_niov_def enc_patch_def iov_bytes_def [symmetric] length_iov_bytes)
qed

lemma add_patch_ok:
  assumes ready: "ctx_ready c" and ok: "pd_ok d offset skip len" and len: "len \<noteq> 0"
    and skip: "skip < iov_len v" and l: "l = (if iov_len v - skip > len then len else iov_len v - skip)"
    and total: "unat offset + unat (iov_len v) < 2 ^ 32"
  shows "\<exists>c1 d2 ps. add_patch m c d (offset + skip) (iov_base v + skip) l = Returned (c1, d2) \<and>
    ctx_ready c1 \<and> ctx_out c1 = map (\<lambda>old. old @ concat (map enc_patch ps)) (ctx_out c) \<and>
    pd_iov d2 \<noteq> [] \<and> pd_ok d2 (offset + iov_len v) 0 (len - l) \<and>
    contig (pd_start d offset skip) ps \<and>
    unat (pd_offset d2) = pd_start d offset skip + length (patch_data_bytes ps) \<and>
    patch_data_bytes ps @ iov_bytes m (pd_iov d2) =
      iov_bytes m (pd_iov d) @ mem_read m (iov_base v + skip) (unat l)"
proof -
  have sl: "unat skip < unat (iov_len v)"
    using skip by (simp add: word_less_nat_alt)
  have dl: "unat (iov_len v - skip) = unat (iov_len v) - unat skip"
    using skip by (simp add: unat_sub word_le_nat_alt word_less_nat_alt)
  have ul: "unat l = min (unat len) (unat (iov_len v) - unat skip)"
    by (simp add: l dl word_less_nat_alt min_def)
  have l0: "0 < unat l"
    using ul sl len by (simp add: unat_gt_0)
  have os: "unat (offset + skip) = unat offset + unat skip"
    using sl total by (subst unat_add_lem [THEN iffD1]) simp_all
  have oi: "unat (offset + iov_len v) = unat offset + unat (iov_len v)"
    using total by (subst unat_add_lem [THEN iffD1]) simp_all
  have lt: "offset + skip < 0xFFFFFFFF"
    using os sl total by (simp add: word_less_nat_alt)
  have uo: "unat (ucast (offset + skip) :: u32) = unat offset + unat skip"
    using os sl total by (simp add: unsigned_ucast_eq take_bit_nat_eq_self_iff)
  have ull: "unat (ucast l :: u32) = unat l"
    using ul sl total by (simp add: unsigned_ucast_eq take_bit_nat_eq_self_iff)
  have lz: "len - l = 0 \<or> unat l = unat (iov_len v) - unat skip"
    using ul l dl by (auto split: if_splits)
  let ?v = "\<lparr> iov_base = iov_base v + skip, iov_len = l \<rparr>"
  let ?fresh = "\<lambda>d. d\<lparr>pd_offset := ucast (offset + skip), pd_type := RVGPU_PATCH_RES,
    pd_iov := [?v], pd_len := ucast l\<rparr>"
  have ok_fresh: "pd_ok (?fresh d) (offset + iov_len v) 0 (len - l)" for d
    using lz uo ull oi sl l0 by (auto simp: pd_ok_def pd_niov_def IOV_MAX_def)
  consider (new) "pd_iov d = []"
    | (flush) "pd_iov d \<noteq> []" "pd_niov d = IOV_MAX"
    | (more) "pd_iov d \<noteq> []" "pd_niov d \<noteq> IOV_MAX"
    by blast
  then show ?thesis
  proof cases
    case new
    then have "add_patch m c d (offset + skip) (iov_base v + skip) l = Returned (c, ?fresh d)"
      using lt by (simp add: add_patch_def pd_niov_def IOV_MAX_def)
    moreover have "pd_start d offset skip = unat offset + unat skip"
      using new by (simp add: pd_start_def)
    ultimately show ?thesis
      using ready ok_fresh new uo
      by (intro exI [of _ c] exI [of _ "?fresh d"] exI [of _ "[]"]) simp
  next
    case flush
    let ?p = "(unat (pd_offset d), iov_bytes m (pd_iov d))"
    from flush ok len have o: "pd_type d = RVGPU_PATCH_RES" "unat (pd_len d) = iov_total (pd_iov d)"
      "0 < iov_total (pd_iov d)" "skip = 0" "unat (pd_offset d) + iov_total (pd_iov d) = unat offset"
      by (auto simp: pd_ok_def)
    from flush have "add_patch m c d (offset + skip) (iov_base v + skip) l =
        Returned (write_patch m c d, ?fresh d)"
      using lt by (simp add: add_patch_def init_patch_def pd_niov_def)
    moreover note write_patch_ready [OF ready flush(1) o(1,2), of m]
    moreover have "iov_bytes m (pd_iov d) \<noteq> []"
      using o(3) length_iov_bytes [of m "pd_iov d"] by (metis length_0_conv less_irrefl)
    ultimately show ?thesis
      using ok_fresh uo o flush
      by (intro exI [of _ "write_patch m c d"] exI [of _ "?fresh d"] exI [of _ "[?p]"])
        (simp add: pd_start_def)
  next
    case more
    let ?d = "d\<lparr>pd_iov := pd_iov d @ [?v], pd_len := pd_len d + ucast l\<rparr>"
    from more ok len have o: "pd_type d = RVGPU_PATCH_RES" "unat (pd_len d) = iov_total (pd_iov d)"
      "0 < iov_total (pd_iov d)" "skip = 0" "unat (pd_offset d) + iov_total (pd_iov d) = unat offset"
      "pd_niov d \<le> IOV_MAX"
      by (auto simp: pd_ok_def)
    from more have "add_patch m c d (offset + skip) (iov_base v + skip) l = Returned (c, ?d)"
      using lt by (simp add: add_patch_def pd_niov_def)
    moreover have "unat (pd_len d + ucast l) = iov_total (pd_iov d) + unat l"
      using o(2,5) ul ull total by (subst unat_add_lem [THEN iffD1]) simp_all
    moreover have "pd_niov ?d \<le> IOV_MAX"
      using more(2) o(6) by (simp add: pd_niov_def)
    moreover have "iov_total (pd_iov d @ [?v]) = iov_total (pd_iov d) + unat l"
      by (simp add: iov_total_def)
    moreover have "iov_bytes m (pd_iov d @ [?v]) = iov_bytes m (pd_iov d) @ mem_read m (iov_base v + skip) (unat l)"
      by (simp add: iov_bytes_def)
    ultimately show ?thesis
      using ready o lz oi more
      by (intro exI [of _ c] exI [of _ ?d] exI [of _ "[]"])
        (auto simp: pd_ok_def pd_start_def)
  qed
qed

lemma finish_patch:
  assumes "ctx_ready c" and "pd_ok d offset skip len"
  shows "\<exists>ps. ctx_ready (write_patch m c d) \<and>
    ctx_out (write_patch m c d) = map (\<lambda>old. old @ concat (map enc_patch ps)) (ctx_out c) \<and>
    contig (pd_start d offset skip) ps \<and> patch_data_bytes ps = iov_bytes m (pd_iov d)"
proof (cases "pd_iov d = []")
  case True
  then show ?thesis
    using assms(1) by (intro exI [of _ "[]"]) (simp add: write_patch_def pd_niov_def)
next
  case False
  with assms(2) have o: "pd_type d = RVGPU_PATCH_RES" "unat (pd_len d) = iov_total (pd_iov d)"
    "0 < iov_total (pd_iov d)"
    by (auto simp: pd_ok_def)
  have "iov_bytes m (pd_iov d) \<noteq> []"
    using o(3) length_iov_bytes [of m "pd_iov d"] by (metis length_0_conv less_irrefl)
  with write_patch_ready [OF assms(1) False o(1,2), of m] False show ?thesis
    by (intro exI [of _ "[(unat (pd_offset d), iov_bytes m (pd_iov d))]"]) (simp add: pd_start_def)
qed

lemma send_data_loop_ok:
  "ctx_ready c \<Longrightarrow> pd_ok d offset skip len \<Longrightarrow> unat offset + iov_total vs < 2 ^ 32 \<Longrightarrow>
   \<exists>c' d' ps. send_data_loop m c d vs offset skip len = Returned (c', d') \<and>
     ctx_ready (write_patch m c' d') \<and>
     ctx_out (write_patch m c' d') = map (\<lambda>old. old @ concat (map enc_patch ps)) (ctx_out c) \<and>
     contig (pd_start d offset skip) ps \<and>
     patch_data_bytes ps = iov_bytes m (pd_iov d) @ take (unat len) (drop (unat skip) (iov_bytes m vs))"
proof (induction vs arbitrary: c d offset skip len)
  case Nil
  show ?case
    using finish_patch [OF Nil(1,2)] by simp
next
  case (Cons v vs)
  have oi: "unat (offset + iov_len v) = unat offset + unat (iov_len v)"
    using Cons.prems(3) by (subst unat_add_lem [THEN iffD1]) simp_all
  show ?case
  proof (cases "len = 0")
    case True
    then show ?thesis
      using finish_patch [OF Cons.prems(1,2)] by simp
  next
    case len: False
    show ?thesis
    proof (cases "iov_len v \<le> skip")
      case True
      then have us: "unat (skip - iov_len v) = unat skip - unat (iov_len v)"
        "unat (iov_len v) \<le> unat skip"
        by (simp_all add: unat_sub word_le_nat_alt)
      have ok: "pd_ok d (offset + iov_len v) (skip - iov_len v) len"
        using Cons.prems(2) True len by (auto simp: pd_ok_def)
      have st: "pd_start d (offset + iov_len v) (skip - iov_len v) = pd_start d offset skip"
        using us oi by (simp add: pd_start_def)
      have "unat (offset + iov_len v) + iov_total vs < 2 ^ 32"
        using oi Cons.prems(3) by simp
      from Cons.IH [OF Cons.prems(1) ok this] st us True len show ?thesis
        by simp
    next
      case False
      then have skip: "skip < iov_len v"
        by simp
      define l where "l = (if iov_len v - skip > len then len else iov_len v - skip)"
      have "unat offset + unat (iov_len v) < 2 ^ 32"
        using Cons.prems(3) by simp
      from add_patch_ok [OF Cons.prems(1,2) len skip l_def this, of m]
      obtain c1 d2 ps where a: "add_patch m c d (offset + skip) (iov_base v + skip) l = Returned (c1, d2)"
        "ctx_ready c1" "ctx_out c1 = map (\<lambda>old. old @ concat (map enc_patch ps)) (ctx_out c)"
        "pd_iov d2 \<noteq> []" "pd_ok d2 (offset + iov_len v) 0 (len - l)"
        "contig (pd_start d offset skip) ps"
        "unat (pd_offset d2) = pd_start d offset skip + length (patch_data_bytes ps)"
        "patch_data_bytes ps @ iov_bytes m (pd_iov d2) =
          iov_bytes m (pd_iov d) @ mem_read m (iov_base v + skip) (unat l)"
        by blast
      have "unat (offset + iov_len v) + iov_total vs < 2 ^ 32"
        using oi Cons.prems(3) by simp
      from Cons.IH [OF a(2,5) this]
      obtain c' d' ps' where r: "send_data_loop m c1 d2 vs (offset + iov_len v) 0 (len - l) = Returned (c', d')"
        "ctx_ready (write_patch m c' d')"
        "ctx_out (write_patch m c' d') = map (\<lambda>old. old @ concat (map enc_patch ps')) (ctx_out c1)"
        "contig (pd_start d2 (offset + iov_len v) 0) ps'"
        "patch_data_bytes ps' = iov_bytes m (pd_iov d2) @ take (unat (len - l)) (drop (unat (0 :: u64)) (iov_bytes m vs))"
        by blast
      have sl: "unat skip < unat (iov_len v)"
        using skip by (simp add: word_less_nat_alt)
      have dl: "unat (iov_len v - skip) = unat (iov_len v) - unat skip"
        using skip by (simp add: unat_sub word_le_nat_alt word_less_nat_alt)
      have ul: "unat l = min (unat len) (unat (iov_len v) - unat skip)"
        by (simp add: l_def dl word_less_nat_alt min_def)
      have dll: "unat (len - l) = unat len - unat l"
        using ul by (simp add: unat_sub word_le_nat_alt)
      have "take (unat len) (drop (unat skip) (iov_bytes m (v # vs))) =
          mem_read m (iov_base v + skip) (unat l) @ take (unat (len - l)) (iov_bytes m vs)"
        using sl ul dll by (simp add: min_def)
      with a(8) r(5) have "patch_data_bytes (ps @ ps') = iov_bytes m (pd_iov d) @
          take (unat len) (drop (unat skip) (iov_bytes m (v # vs)))"
        by simp
      moreover have "contig (pd_start d offset skip) (ps @ ps')"
        using a(4,6,7) r(4) by (simp add: contig_append pd_start_def)
      moreover have "send_data_loop m c d (v # vs) offset skip len = Returned (c', d')"
        using len False a(1) r(1) by (simp add: l_def [symmetric])
      ultimately show ?thesis
        using r(2,3) a(3) by (intro exI [of _ c'] exI [of _ d'] exI [of _ "ps @ ps'"]) (simp add: o_def)
    qed
  qed
qed

text \<open>
  Everything \<open>gpu_device_send_data\<close> puts on the wire: patches that follow one another from
  \<open>skip\<close> on, whose data are the bytes of the backing from \<open>skip\<close>, at most \<open>len\<close> of them.
\<close>

lemma gpu_device_send_data_ok:
  assumes "ctx_ready c" and "iov_total vs < 2 ^ 32"
  shows "\<exists>c' ps. gpu_device_send_data m c vs skip len = Returned c' \<and> ctx_ready c' \<and>
    ctx_out c' = map (\<lambda>old. old @ concat (map enc_patch ps)) (ctx_out c) \<and>
    contig (unat skip) ps \<and>
    patch_data_bytes ps = take (unat len) (drop (unat skip) (iov_bytes m vs))"
proof -
  let ?d = "init_patch \<lparr> pd_type = 0, pd_offset = 0, pd_len = 0, pd_iov = [] \<rparr>"
  have "pd_ok ?d 0 skip len"
    by (simp add: pd_ok_def init_patch_def pd_niov_def IOV_MAX_def)
  from send_data_loop_ok [OF assms(1) this, of vs m] assms(2) show ?thesis
    by (fastforce simp: gpu_device_send_data_def pd_start_def init_patch_def)
qed

text \<open>The size of a transfer by the target of the resource.\<close>

definition transfer_len :: "rvgpu_res_info \<Rightarrow> rvgpu_res_transfer \<Rightarrow> u64" where
  "transfer_len info t =
     (if ri_target info = 0 then buffer_transfer_size t
      else if ri_target info = 2 then texture_2d_transfer_size info t
      else if ri_target info = 3 then texture_3d_transfer_size info t
      else SIZE_MAX)"

lemma transfer_stream:
  assumes "ctx_ready c" and "iov_total (res_iovs res) < 2 ^ 32"
  shows "\<exists>c' ps. rvgpu_ctx_transfer_to_host m c t res = Returned (0, c') \<and> ctx_ready c' \<and>
    ctx_out c' = map (\<lambda>old. old @ concat (map enc_patch ps) @ patch_bytes 0 0 0) (ctx_out c) \<and>
    contig (unat (tr_offset t)) ps \<and>
    patch_data_bytes ps = take (unat (transfer_len (res_info res) t))
      (drop (unat (tr_offset t)) (iov_bytes m (res_iovs res)))"
proof -
  let ?len = "transfer_len (res_info res) t"
  obtain c1 ps where s: "gpu_device_send_data m c (res_iovs res) (tr_offset t) ?len = Returned c1"
    "ctx_ready c1" "ctx_out c1 = map (\<lambda>old. old @ concat (map enc_patch ps)) (ctx_out c)"
    "contig (unat (tr_offset t)) ps"
    "patch_data_bytes ps = take (unat ?len) (drop (unat (tr_offset t)) (iov_bytes m (res_iovs res)))"
    using gpu_device_send_data_ok [OF assms] by blast
  obtain c2 where e: "rvgpu_ctx_send c1 (patch_bytes 0 0 0) = (0, c2)" "ctx_ready c2"
    "ctx_out c2 = map (\<lambda>old. old @ patch_bytes 0 0 0) (ctx_out c1)"
    using ctx.send_ok [OF s(2)] by blast
  show ?thesis
  proof (cases "ri_target (res_info res) = 0 \<and> buffer_transfer_size t = 0")
    case True
    obtain c3 where "rvgpu_ctx_send c (patch_bytes 0 0 0) = (0, c3)" "ctx_ready c3"
      "ctx_out c3 = map (\<lambda>old. old @ patch_bytes 0 0 0) (ctx_out c)"
      using ctx.send_ok [OF assms(1)] by blast
    with True show ?thesis
      by (intro exI [of _ c3] exI [of _ "[]"])
        (simp add: rvgpu_ctx_transfer_to_host_def transfer_len_def)
  next
    case False
    then have "rvgpu_ctx_transfer_to_host m c t res = Returned (0, c2)"
      using s(1) e(1) by (auto simp: rvgpu_ctx_transfer_to_host_def transfer_len_def Let_def
          word_gt_0 split: if_splits)
    with s e show ?thesis
      by (intro exI [of _ c2] exI [of _ ps]) (simp add: o_def)
  qed
qed

text \<open>
  C8. A transfer to the hosts sends exactly the guest's data: while the hosts are reachable,
  \<open>rvgpu_ctx_transfer_to_host\<close> returns 0 and extends the stream of every host by patches that
  follow one another from the transfer's offset and carry the bytes of the backing pages in
  order, cut to the size of the transfer, and by the terminating empty patch.
\<close>

theorem rvgpu_ctx_transfer_to_host_stream:
  assumes "ctx_ready c" and "iov_total (res_iovs res) < 2 ^ 32"
  shows "\<exists>c' ps. rvgpu_ctx_transfer_to_host m c t res = Returned (0, c') \<and> ctx_ready c' \<and>
    ctx_out c' = map (\<lambda>old. old @ concat (map enc_patch ps) @ patch_bytes 0 0 0) (ctx_out c) \<and>
    contig (unat (tr_offset t)) ps \<and>
    patch_data_bytes ps = take (unat (transfer_len (res_info res) t))
      (drop (unat (tr_offset t)) (iov_bytes m (res_iovs res)))"
  by (rule transfer_stream [OF assms])

definition demo_res :: rvgpu_res where
  "demo_res = \<lparr> resid = 7, backing = Some [\<lparr> iov_base = 0x1000, iov_len = 4 \<rparr>,
       \<lparr> iov_base = 0x8000, iov_len = 8 \<rparr>],
     res_info = \<lparr> ri_target = 0, ri_format = VIRGL_FORMAT_R8_UNORM, ri_width = 12, ri_height = 1,
       ri_depth = 1, ri_array_size = 1, ri_last_level = 0, ri_flags = 0, ri_bpp = 4 \<rparr> \<rparr>"

definition demo_transfer :: rvgpu_res_transfer where
  "demo_transfer = \<lparr> tr_x = 2, tr_y = 0, tr_z = 0, tr_w = 6, tr_h = 1, tr_d = 1, tr_level = 0,
     tr_stride = 0, tr_layer_stride = 0, tr_offset = 2 \<rparr>"

lemma rvgpu_ctx_transfer_to_host_stream_witness:
  "\<exists>c' ps. rvgpu_ctx_transfer_to_host (\<lambda>a. ucast a) (demo_ctx []) demo_transfer demo_res = Returned (0, c') \<and>
    ctx_ready c' \<and>
    ctx_out c' = map (\<lambda>old. old @ concat (map enc_patch ps) @ patch_bytes 0 0 0) (ctx_out (demo_ctx [])) \<and>
    contig (unat (tr_offset demo_transfer)) ps \<and>
    patch_data_bytes ps = take (unat (transfer_len (res_info demo_res) demo_transfer))
      (drop (unat (tr_offset demo_transfer)) (iov_bytes (\<lambda>a. ucast a) (res_iovs demo_res)))"
  by (rule rvgpu_ctx_transfer_to_host_stream)
    (simp_all add: demo_ctx_ready demo_res_def res_iovs_def)

section \<open>The sizes of compressed and YUV data\<close>

lemma find_block_None: "find_block gs f = None \<longleftrightarrow> (\<forall>(ls, b)\<in>set gs. f \<notin> set ls)"
  by (induction gs f rule: find_block.induct) auto

lemma find_block_Some: "find_block gs f = Some b \<Longrightarrow> \<exists>ls. (ls, b) \<in> set gs"
  by (induction gs f rule: find_block.induct) (auto split: if_splits)

lemma compressed_blocks_shape:
  "(ls, bw, bh, bytes) \<in> set compressed_blocks \<Longrightarrow>
     4 \<le> unat bw \<and> unat bw \<le> 12 \<and> 4 \<le> unat bh \<and> unat bh \<le> 12 \<and> unat bytes \<le> 16"
  by (auto simp: compressed_blocks_def)

text \<open>
  A format that is sent as compressed data is one whose block layout is known:
  \<open>virgl_format_is_compressed\<close> and the switch of \<open>compressed_data_size\<close> name the same formats, so
  the "Unknown compressed format" default is unreachable from a transfer.
\<close>

theorem compressed_formats_have_blocks:
  "virgl_format_is_compressed f = (find_block compressed_blocks f \<noteq> None)"
proof -
  have "set compressed_formats = (\<Union>(ls, b)\<in>set compressed_blocks. set ls)"
    unfolding compressed_formats_def compressed_blocks_def by simp blast
  then show ?thesis
    by (auto simp: virgl_format_is_compressed_def find_block_None)
qed

definition ceil_div :: "nat \<Rightarrow> nat \<Rightarrow> nat" where
  "ceil_div a b = (a + b - 1) div b"

lemma ceil_div_4: "0 < a \<Longrightarrow> 4 \<le> b \<Longrightarrow> 4 * ceil_div a b \<le> a + 3"
proof -
  assume a: "0 < a" and b: "4 \<le> b"
  have "ceil_div a b = (a - 1) div b + 1"
    using a b div_add_self2 [of b "a - 1"] by (simp add: ceil_div_def add.commute)
  moreover have "4 * ((a - 1) div b) \<le> b * ((a - 1) div b)"
    using b by (rule mult_le_mono1)
  moreover have "b * ((a - 1) div b) \<le> a - 1"
    by simp
  ultimately show ?thesis
    using a by linarith
qed

lemma unat_block_count:
  fixes w b :: u32
  assumes "unat w < 2 ^ 29" and "0 < unat b" and "unat b \<le> 12"
  shows "unat ((w + (b - 1)) div b) = ceil_div (unat w) (unat b)"
proof -
  have "unat (b - 1) = unat b - 1"
    using assms(2) by (subst unat_sub) (simp_all add: word_le_nat_alt)
  then have "unat (w + (b - 1)) = unat w + unat b - 1"
    using assms by (subst unat_add_lem [THEN iffD1]) simp_all
  then show ?thesis
    by (simp add: unat_div ceil_div_def)
qed

text \<open>
  The 32-bit arithmetic of \<open>compressed_data_size\<close> is exact for every rectangle whose area is below
  2^29 pixels: it is the number of blocks that cover the rectangle times the bytes of a block.
\<close>

lemma compressed_data_size_exact:
  assumes "0 < unat w" "0 < unat h" "unat h * unat w * 4 < 2 ^ 31"
    and "find_block compressed_blocks f = Some (bw, bh, bytes)"
  shows "unat (compressed_data_size f w h) =
    ceil_div (unat w) (unat bw) * ceil_div (unat h) (unat bh) * unat bytes"
proof -
  have b: "4 \<le> unat bw" "unat bw \<le> 12" "4 \<le> unat bh" "unat bh \<le> 12" "unat bytes \<le> 16"
    using find_block_Some [OF assms(4)] compressed_blocks_shape by blast+
  let ?cw = "ceil_div (unat w) (unat bw)" and ?ch = "ceil_div (unat h) (unat bh)"
  have le: "unat w \<le> unat h * unat w" "unat h \<le> unat h * unat w"
    using assms(1,2) by simp_all
  have area: "unat h * unat w < 536870912"
    using assms(3) by simp
  have wh: "unat w < 2 ^ 29" "unat h < 2 ^ 29"
    using le_less_trans [OF le(1) area] le_less_trans [OF le(2) area] by simp_all
  have "(4 * ?cw) * (4 * ?ch) \<le> (unat w + 3) * (unat h + 3)"
    using ceil_div_4 [OF assms(1) b(1)] ceil_div_4 [OF assms(2) b(3)] by (intro mult_le_mono)
  also have "\<dots> = unat h * unat w + 3 * unat w + 3 * unat h + 9"
    by (simp add: algebra_simps)
  also have "\<dots> < 4294967296"
    using le area by linarith
  finally have 16: "?cw * ?ch * 16 < 2 ^ 32"
    by simp
  have "?cw * ?ch * unat bytes \<le> ?cw * ?ch * 16"
    using b(5) by (rule mult_le_mono2)
  with 16 have bnd: "?cw * ?ch * unat bytes < 2 ^ 32"
    by linarith
  have "?cw * ?ch < 2 ^ 32"
    using 16 by (simp add: mult.commute)
  then have "unat ((w + (bw - 1)) div bw * ((h + (bh - 1)) div bh)) = ?cw * ?ch"
    using unat_block_count [OF wh(1), of bw] unat_block_count [OF wh(2), of bh] b
    by (subst unat_mult_lem [THEN iffD1]) simp_all
  then have "unat ((w + (bw - 1)) div bw * ((h + (bh - 1)) div bh) * bytes) = ?cw * ?ch * unat bytes"
    using bnd by (subst unat_mult_lem [THEN iffD1]) simp_all
  then show ?thesis
    using assms(4) by (simp add: compressed_data_size_def)
qed

text \<open>Three of the formats that count as YUV have no size: nothing of them is ever sent.\<close>

lemma yuv_formats_without_size:
  assumes "f \<in> set [VIRGL_FORMAT_YV16, VIRGL_FORMAT_IYUV, VIRGL_FORMAT_NV21]"
  shows "virgl_format_is_yuv f \<and> yuv_data_size f w h s = 0"
  using assms by (auto simp: virgl_format_is_yuv_def yuv_data_size_def Let_def)

section \<open>The table as an interface\<close>

text \<open>
  What the device relies on when it keeps its resources in the context: lookups after an insertion,
  a removal and a store through the returned pointer, and how a sum over the entries changes.
\<close>

locale res_table =
  fixes find :: "'t \<Rightarrow> 'k \<Rightarrow> 'r option"
    and create :: "'t \<Rightarrow> 'i \<Rightarrow> 'k \<Rightarrow> 't"
    and destroy :: "'t \<Rightarrow> 'k \<Rightarrow> 't"
    and update :: "'t \<Rightarrow> 'k \<Rightarrow> ('r \<Rightarrow> 'r) \<Rightarrow> 't"
    and fresh :: "'i \<Rightarrow> 'k \<Rightarrow> 'r"
    and key :: "'r \<Rightarrow> 'k"
    and inv :: "'t \<Rightarrow> bool"
    and total :: "('r \<Rightarrow> u64) \<Rightarrow> 't \<Rightarrow> u64"
  assumes find_create: "find (create t i k) k' = (if k' = k then Some (fresh i k) else find t k')"
    and find_destroy: "inv t \<Longrightarrow> find (destroy t k) k' = (if k' = k then None else find t k')"
    and find_update: "(\<And>r. key (f r) = key r) \<Longrightarrow>
      find (update t k f) k' = (if k' = k then map_option f (find t k) else find t k')"
    and inv_create: "inv t \<Longrightarrow> find t k = None \<Longrightarrow> inv (create t i k)"
    and inv_destroy: "inv t \<Longrightarrow> inv (destroy t k)"
    and inv_update: "(\<And>r. key (f r) = key r) \<Longrightarrow> inv t \<Longrightarrow> inv (update t k f)"
    and total_create: "total w (create t i k) = w (fresh i k) + total w t"
    and total_destroy: "find t k = Some r \<Longrightarrow> total w (destroy t k) = total w t - w r"
    and total_update: "find t k = Some r \<Longrightarrow> total w (update t k f) = total w t - w r + w (f r)"
begin

lemma create_destroy:
  assumes "inv t" "find t k = None"
  shows "find (destroy (create t i k) k) k' = find t k'"
  using assms find_destroy [OF inv_create [OF assms]] find_create by simp

lemma total_create_destroy:
  assumes "find t k = None"
  shows "total w (destroy (create t i k) k) = total w t"
  using total_destroy [of "create t i k" k "fresh i k" w] find_create total_create by simp

lemma total_update_update:
  assumes "find t k = Some r" and "\<And>r. key (f r) = key r" and "g (f r) = r"
  shows "total w (update (update t k f) k g) = total w t"
  using total_update [OF assms(1), of w f] find_update [OF assms(2), of t k k]
    total_update [of "update t k f" k "f r" w g] assms(1,3) by simp

end

definition reslist_inv :: "ctx_priv \<Rightarrow> bool" where
  "reslist_inv c = distinct (map resid (reslist c))"

definition reslist_total :: "(rvgpu_res \<Rightarrow> u64) \<Rightarrow> ctx_priv \<Rightarrow> u64" where
  "reslist_total w c = sum_list (map w (reslist c))"

definition new_res :: "rvgpu_res_info \<Rightarrow> u32 \<Rightarrow> rvgpu_res" where
  "new_res info i = \<lparr> resid = i, backing = None, res_info = info\<lparr>ri_bpp := 4\<rparr> \<rparr>"

lemma get_res_None_iff: "gpu_device_get_res l i = None \<longleftrightarrow> i \<notin> resid ` set l"
  by (induction l) auto

lemma get_res_resid: "gpu_device_get_res l i = Some r \<Longrightarrow> resid r = i \<and> r \<in> set l"
  by (induction l) (auto split: if_splits)

lemma get_res_remove:
  "distinct (map resid l) \<Longrightarrow>
   gpu_device_get_res (list_remove_res l i) k = (if k = i then None else gpu_device_get_res l k)"
  by (induction l) (auto simp: get_res_None_iff)

lemma set_list_remove_res: "set (list_remove_res l i) \<subseteq> set l"
  by (induction l) auto

lemma distinct_list_remove_res:
  "distinct (map resid l) \<Longrightarrow> distinct (map resid (list_remove_res l i))"
proof (induction l)
  case (Cons r l)
  then show ?case
    using set_list_remove_res [of l i] by auto
qed simp

lemma map_resid_list_update_res:
  "(\<And>r. resid (f r) = resid r) \<Longrightarrow> map resid (list_update_res l i f) = map resid l"
  by (induction l) auto

lemma get_res_update:
  "(\<And>r. resid (f r) = resid r) \<Longrightarrow>
   gpu_device_get_res (list_update_res l i f) k =
     (if k = i then map_option f (gpu_device_get_res l i) else gpu_device_get_res l k)"
  by (induction l) auto

lemma total_list_remove_res:
  "gpu_device_get_res l i = Some r \<Longrightarrow>
   sum_list (map w (list_remove_res l i)) = sum_list (map w l) - (w r :: u64)"
  by (induction l) (auto split: if_splits)

lemma total_list_update_res:
  "gpu_device_get_res l i = Some r \<Longrightarrow>
   sum_list (map w (list_update_res l i f)) = sum_list (map w l) - (w r :: u64) + w (f r)"
  by (induction l) (auto split: if_splits)

interpretation rt: res_table rvgpu_ctx_res_find "\<lambda>c i k. snd (rvgpu_ctx_res_create c i k)"
  rvgpu_ctx_res_destroy res_update new_res resid reslist_inv reslist_total
  by unfold_locales
    (auto simp: rvgpu_ctx_res_find_def rvgpu_ctx_res_create_def rvgpu_ctx_res_destroy_def
      res_update_def new_res_def reslist_inv_def reslist_total_def get_res_remove get_res_update
      get_res_None_iff distinct_list_remove_res map_resid_list_update_res
      total_list_remove_res total_list_update_res)

end
