(* ===== verification/Sanity.thy ===== *)
theory Sanity
  imports Virgl_Format
begin

text \<open>
  The command checks of \<open>src/rvgpu-sanity/rvgpu-sanity.c\<close>, which the proxy runs (strictly) on
  every command of the guest and the renderer (leniently) on every command of the proxy, and the
  command type \<open>union virtio_gpu_cmd\<close> of \<open>include/rvgpu-generic/rvgpu-sanity.h\<close>.  The structures
  of \<open>linux/virtio_gpu.h\<close> are records of the fields the program uses; the union is the record of
  its views, and the sizes of its members, which that header fixes, are a parameter.
\<close>

section \<open>Commands\<close>

text \<open>\<open>enum virtio_gpu_ctrl_type\<close>; any other 32-bit value is \<open>VIRTIO_GPU_OTHER\<close>.\<close>

datatype ctrl_type =
    VIRTIO_GPU_UNDEFINED
  | VIRTIO_GPU_CMD_GET_DISPLAY_INFO
  | VIRTIO_GPU_CMD_RESOURCE_CREATE_2D
  | VIRTIO_GPU_CMD_RESOURCE_UNREF
  | VIRTIO_GPU_CMD_SET_SCANOUT
  | VIRTIO_GPU_CMD_RESOURCE_FLUSH
  | VIRTIO_GPU_CMD_TRANSFER_TO_HOST_2D
  | VIRTIO_GPU_CMD_RESOURCE_ATTACH_BACKING
  | VIRTIO_GPU_CMD_RESOURCE_DETACH_BACKING
  | VIRTIO_GPU_CMD_GET_CAPSET_INFO
  | VIRTIO_GPU_CMD_GET_CAPSET
  | VIRTIO_GPU_CMD_CTX_CREATE
  | VIRTIO_GPU_CMD_CTX_DESTROY
  | VIRTIO_GPU_CMD_CTX_ATTACH_RESOURCE
  | VIRTIO_GPU_CMD_CTX_DETACH_RESOURCE
  | VIRTIO_GPU_CMD_RESOURCE_CREATE_3D
  | VIRTIO_GPU_CMD_TRANSFER_TO_HOST_3D
  | VIRTIO_GPU_CMD_TRANSFER_FROM_HOST_3D
  | VIRTIO_GPU_CMD_SUBMIT_3D
  | VIRTIO_GPU_CMD_UPDATE_CURSOR
  | VIRTIO_GPU_CMD_MOVE_CURSOR
  | VIRTIO_GPU_RESP_OK_NODATA
  | VIRTIO_GPU_RESP_OK_DISPLAY_INFO
  | VIRTIO_GPU_RESP_OK_CAPSET_INFO
  | VIRTIO_GPU_RESP_OK_CAPSET
  | VIRTIO_GPU_RESP_ERR_UNSPEC
  | VIRTIO_GPU_RESP_ERR_OUT_OF_MEMORY
  | VIRTIO_GPU_RESP_ERR_INVALID_SCANOUT_ID
  | VIRTIO_GPU_RESP_ERR_INVALID_RESOURCE_ID
  | VIRTIO_GPU_RESP_ERR_INVALID_CONTEXT_ID
  | VIRTIO_GPU_RESP_ERR_INVALID_PARAMETER
  | VIRTIO_GPU_RESP_ERR_DEVICE_RESET
  | VIRTIO_GPU_OTHER u32

abbreviation (input) VIRTIO_GPU_MAX_SCANOUTS :: u32 where "VIRTIO_GPU_MAX_SCANOUTS \<equiv> 16"
abbreviation (input) VIRTIO_GPU_FLAG_FENCE :: u32 where "VIRTIO_GPU_FLAG_FENCE \<equiv> 1"
abbreviation (input) VIRTIO_GPU_FLAG_VSYNC :: u32 where "VIRTIO_GPU_FLAG_VSYNC \<equiv> 4"
abbreviation (input) VIRTIO_GPU_RESOURCE_FLAG_Y_0_TOP :: u32 where "VIRTIO_GPU_RESOURCE_FLAG_Y_0_TOP \<equiv> 1"

record virtio_gpu_ctrl_hdr =
  hdr_type :: ctrl_type
  hdr_flags :: u32
  hdr_fence_id :: u64
  hdr_ctx_id :: u32

record virtio_gpu_rect =
  rect_x :: u32
  rect_y :: u32
  rect_width :: u32
  rect_height :: u32

record virtio_gpu_box =
  box_x :: u32
  box_y :: u32
  box_z :: u32
  box_w :: u32
  box_h :: u32
  box_d :: u32

record resource_create_2d =
  c2d_resource_id :: u32
  c2d_format :: u32
  c2d_width :: u32
  c2d_height :: u32

record set_scanout =
  set_r :: virtio_gpu_rect
  set_scanout_id :: u32
  set_resource_id :: u32

record resource_flush =
  flush_r :: virtio_gpu_rect
  flush_resource_id :: u32

record transfer_to_host_2d =
  t2d_r :: virtio_gpu_rect
  t2d_offset :: u64
  t2d_resource_id :: u32

record resource_attach_backing =
  att_resource_id :: u32
  att_nr_entries :: u32

record mem_entry =
  mem_addr :: u64
  mem_length :: u32

record transfer_host_3d =
  t3d_box :: virtio_gpu_box
  t3d_offset :: u64
  t3d_resource_id :: u32
  t3d_level :: u32
  t3d_stride :: u32
  t3d_layer_stride :: u32

record resource_create_3d =
  c3d_resource_id :: u32
  c3d_target :: u32
  c3d_format :: u32
  c3d_bind :: u32
  c3d_width :: u32
  c3d_height :: u32
  c3d_depth :: u32
  c3d_array_size :: u32
  c3d_last_level :: u32
  c3d_nr_samples :: u32
  c3d_flags :: u32

record update_cursor =
  cur_scanout_id :: u32
  cur_x :: u32
  cur_y :: u32
  cur_resource_id :: u32

text \<open>
  \<open>union virtio_gpu_cmd\<close>: every member is a view of the same bytes.  \<open>r_mem\<close> and
  \<open>c_cmdbuf\<close> are the arrays that follow their header in the union, indexed as the code
  indexes them.
\<close>

record virtio_gpu_cmd =
  hdr :: virtio_gpu_ctrl_hdr
  r_unref :: u32
  r_c2d :: resource_create_2d
  s_set :: set_scanout
  r_flush :: resource_flush
  t_2h2d :: transfer_to_host_2d
  r_att :: resource_attach_backing
  r_mem :: "nat \<Rightarrow> mem_entry"
  r_det :: u32
  t_h3d :: transfer_host_3d
  r_c3d :: resource_create_3d
  c_create_nlen :: u32
  c_res :: u32
  c_submit_size :: u32
  c_cmdbuf :: "nat \<Rightarrow> u32"
  capset_id :: u32
  capset_version :: u32
  capset_index :: u32
  cursor :: update_cursor

text \<open>The \<open>sizeof\<close> of the union, of its members and of the types named in the checks.\<close>

record cmd_sizes =
  sz_hdr :: u64
  sz_cmd :: u64
  sz_r_c2d :: u64
  sz_r_unref :: u64
  sz_s_set :: u64
  sz_r_flush :: u64
  sz_t_2h2d :: u64
  sz_r_att :: u64
  sz_mem_entry :: u64
  sz_r_det :: u64
  sz_capset_info :: u64
  sz_capset :: u64
  sz_c_create :: u64
  sz_debug_name :: u64
  sz_c_destroy :: u64
  sz_c_res :: u64
  sz_r_c3d :: u64
  sz_t_h3d :: u64
  sz_c_submit :: u64
  sz_cursor :: u64

section \<open>Numbers\<close>

text \<open>
  \<open>strtoul\<close> and \<open>strtol\<close> are the C library's: an argument gives, for the string, the value and
  whether the whole string was consumed.  The result pairs the returned value with \<open>*errstr\<close>.
\<close>

definition sanity_strtounum ::
  "(string \<Rightarrow> u64 \<times> bool) \<Rightarrow> string \<Rightarrow> u64 \<Rightarrow> u64 \<Rightarrow> u64 \<times> string option" where
  "sanity_strtounum strtoul str mn mx =
     (let (result, consumed) = strtoul str in
      if \<not> consumed then (mn, Some ''Invalid number'')
      else if result < mn then (mn, Some ''Number is too low'')
      else if result > mx then (mx, Some ''Number is too high'')
      else (result, None))"

definition sanity_strtonum ::
  "(string \<Rightarrow> u64 \<times> bool) \<Rightarrow> string \<Rightarrow> u64 \<Rightarrow> u64 \<Rightarrow> u64 \<times> string option" where
  "sanity_strtonum strtol str mn mx =
     (let (result, consumed) = strtol str in
      if \<not> consumed then (mn, Some ''Invalid number'')
      else if sint result < sint mn then (mn, Some ''Number is too low'')
      else if sint result > sint mx then (mx, Some ''Number is too high'')
      else (result, None))"

section \<open>Names\<close>

definition virtio_gpu_commands :: "(ctrl_type \<times> string) list" where
  "virtio_gpu_commands =
    [(VIRTIO_GPU_CMD_GET_DISPLAY_INFO, ''GET_DISPLAY_INFO''),
     (VIRTIO_GPU_CMD_RESOURCE_CREATE_2D, ''RESOURCE_CREATE_2D''),
     (VIRTIO_GPU_CMD_RESOURCE_UNREF, ''RESOURCE_UNREF''),
     (VIRTIO_GPU_CMD_SET_SCANOUT, ''SET_SCANOUT''),
     (VIRTIO_GPU_CMD_RESOURCE_FLUSH, ''RESOURCE_FLUSH''),
     (VIRTIO_GPU_CMD_TRANSFER_TO_HOST_2D, ''TRANSFER_TO_HOST_2D''),
     (VIRTIO_GPU_CMD_RESOURCE_ATTACH_BACKING, ''RESOURCE_ATTACH_BACKING''),
     (VIRTIO_GPU_CMD_RESOURCE_DETACH_BACKING, ''RESOURCE_DETACH_BACKING''),
     (VIRTIO_GPU_CMD_GET_CAPSET_INFO, ''GET_CAPSET_INFO''),
     (VIRTIO_GPU_CMD_GET_CAPSET, ''GET_CAPSET''),
     (VIRTIO_GPU_CMD_CTX_CREATE, ''CTX_CREATE''),
     (VIRTIO_GPU_CMD_CTX_DESTROY, ''CTX_DESTROY''),
     (VIRTIO_GPU_CMD_CTX_ATTACH_RESOURCE, ''CTX_ATTACH_RESOURCE''),
     (VIRTIO_GPU_CMD_CTX_DETACH_RESOURCE, ''CTX_DETACH_RESOURCE''),
     (VIRTIO_GPU_CMD_RESOURCE_CREATE_3D, ''RESOURCE_CREATE_3D''),
     (VIRTIO_GPU_CMD_TRANSFER_TO_HOST_3D, ''TRANSFER_TO_HOST_3D''),
     (VIRTIO_GPU_CMD_TRANSFER_FROM_HOST_3D, ''TRANSFER_FROM_HOST_3D''),
     (VIRTIO_GPU_CMD_SUBMIT_3D, ''SUBMIT_3D''),
     (VIRTIO_GPU_CMD_MOVE_CURSOR, ''MOVE_CURSOR''),
     (VIRTIO_GPU_CMD_UPDATE_CURSOR, ''UPDATE_CURSOR'')]"

fun cmd_name_loop :: "(ctrl_type \<times> string) list \<Rightarrow> ctrl_type \<Rightarrow> string" where
  "cmd_name_loop [] t = ''UNKNOWN''"
| "cmd_name_loop ((k, n) # es) t = (if k = t then n else cmd_name_loop es t)"

definition sanity_cmd_by_type :: "ctrl_type \<Rightarrow> string" where
  "sanity_cmd_by_type t = cmd_name_loop virtio_gpu_commands t"

section \<open>Geometry\<close>

abbreviation INT32_MAX :: u32 where "INT32_MAX \<equiv> 0x7FFFFFFF"

definition sanity_check_bounds :: "u32 \<Rightarrow> u32 \<Rightarrow> u32 \<Rightarrow> u32 \<Rightarrow> bool" where
  "sanity_check_bounds x y width height =
     (if x > INT32_MAX \<or> y > INT32_MAX then False
      else if width = 0 \<or> width > INT32_MAX then False
      else if height = 0 \<or> height > INT32_MAX then False
      else if (ucast height :: u64) * ucast width * 4 > 0x7FFFFFFF then False
      else True)"

definition sanity_check_rect :: "virtio_gpu_rect \<Rightarrow> bool" where
  "sanity_check_rect r =
     sanity_check_bounds (rect_x r) (rect_y r) (rect_width r) (rect_height r)"

definition sanity_check_box :: "virtio_gpu_box \<Rightarrow> bool" where
  "sanity_check_box b =
     (if box_z b > INT32_MAX \<or> box_d b > INT32_MAX then False
      else sanity_check_bounds (box_x b) (box_y b) (box_w b) (box_h b))"

definition sanity_check_resource_rect :: "virtio_gpu_rect \<Rightarrow> u32 \<Rightarrow> u32 \<Rightarrow> bool" where
  "sanity_check_resource_rect r width height =
     (if (ucast (rect_x r) :: u64) + ucast (rect_width r) > ucast width then False
      else if (ucast (rect_y r) :: u64) + ucast (rect_height r) > ucast height then False
      else True)"

definition sanity_check_resource_box :: "virtio_gpu_box \<Rightarrow> u32 \<Rightarrow> u32 \<Rightarrow> u32 \<Rightarrow> bool" where
  "sanity_check_resource_box b width height depth =
     (if (ucast (box_x b) :: u64) + ucast (box_w b) > ucast width then False
      else if (ucast (box_y b) :: u64) + ucast (box_h b) > ucast height then False
      else True)"

section \<open>Commands of the control and cursor queues\<close>

text \<open>The pixel formats a 2D resource may have (\<open>VIRTIO_GPU_FORMAT_*\<close>).\<close>

definition virtio_gpu_2d_formats :: "u32 list" where
  "virtio_gpu_2d_formats = [1, 2, 3, 4, 67, 68, 121, 134]"

text \<open>The shared cases of the two 3D transfers.\<close>

definition check_transfer_3d :: "cmd_sizes \<Rightarrow> virtio_gpu_cmd \<Rightarrow> u64 \<Rightarrow> ctrl_type" where
  "check_transfer_3d sz cmd len =
     (if len \<noteq> sz_t_h3d sz then VIRTIO_GPU_RESP_ERR_INVALID_PARAMETER
      else if hdr_ctx_id (hdr cmd) = 0 then VIRTIO_GPU_RESP_ERR_INVALID_CONTEXT_ID
      else if t3d_resource_id (t_h3d cmd) = 0 then VIRTIO_GPU_RESP_ERR_INVALID_RESOURCE_ID
      else if \<not> sanity_check_box (t3d_box (t_h3d cmd))
      then VIRTIO_GPU_RESP_ERR_INVALID_PARAMETER
      else VIRTIO_GPU_RESP_OK_NODATA)"

definition sanity_check_gpu_ctrl :: "cmd_sizes \<Rightarrow> virtio_gpu_cmd \<Rightarrow> u64 \<Rightarrow> bool \<Rightarrow> ctrl_type" where
  "sanity_check_gpu_ctrl sz cmd len strict =
     (if len < sz_hdr sz then VIRTIO_GPU_RESP_ERR_INVALID_PARAMETER
      else if len > sz_cmd sz then VIRTIO_GPU_RESP_ERR_OUT_OF_MEMORY
      else case hdr_type (hdr cmd) of
        VIRTIO_GPU_CMD_GET_DISPLAY_INFO \<Rightarrow>
          if len \<noteq> sz_hdr sz then VIRTIO_GPU_RESP_ERR_INVALID_PARAMETER
          else VIRTIO_GPU_RESP_OK_NODATA
      | VIRTIO_GPU_CMD_RESOURCE_CREATE_2D \<Rightarrow>
          if len \<noteq> sz_r_c2d sz then VIRTIO_GPU_RESP_ERR_INVALID_PARAMETER
          else if c2d_resource_id (r_c2d cmd) = 0 then VIRTIO_GPU_RESP_ERR_INVALID_RESOURCE_ID
          else if \<not> sanity_check_bounds 0 0 (c2d_width (r_c2d cmd)) (c2d_height (r_c2d cmd))
          then VIRTIO_GPU_RESP_ERR_INVALID_PARAMETER
          else if c2d_format (r_c2d cmd) \<notin> set virtio_gpu_2d_formats
          then VIRTIO_GPU_RESP_ERR_INVALID_PARAMETER
          else VIRTIO_GPU_RESP_OK_NODATA
      | VIRTIO_GPU_CMD_RESOURCE_UNREF \<Rightarrow>
          if len \<noteq> sz_r_unref sz then VIRTIO_GPU_RESP_ERR_INVALID_PARAMETER
          else if r_unref cmd = 0 then VIRTIO_GPU_RESP_ERR_INVALID_RESOURCE_ID
          else VIRTIO_GPU_RESP_OK_NODATA
      | VIRTIO_GPU_CMD_SET_SCANOUT \<Rightarrow>
          if len \<noteq> sz_s_set sz then VIRTIO_GPU_RESP_ERR_INVALID_PARAMETER
          else if set_scanout_id (s_set cmd) \<ge> VIRTIO_GPU_MAX_SCANOUTS
          then VIRTIO_GPU_RESP_ERR_INVALID_SCANOUT_ID
          else if set_resource_id (s_set cmd) \<noteq> 0 \<and> \<not> sanity_check_rect (set_r (s_set cmd))
          then VIRTIO_GPU_RESP_ERR_INVALID_PARAMETER
          else VIRTIO_GPU_RESP_OK_NODATA
      | VIRTIO_GPU_CMD_RESOURCE_FLUSH \<Rightarrow>
          if len \<noteq> sz_r_flush sz then VIRTIO_GPU_RESP_ERR_INVALID_PARAMETER
          else if strict \<and> flush_resource_id (r_flush cmd) = 0
          then VIRTIO_GPU_RESP_ERR_INVALID_RESOURCE_ID
          else if \<not> sanity_check_rect (flush_r (r_flush cmd))
          then VIRTIO_GPU_RESP_ERR_INVALID_PARAMETER
          else VIRTIO_GPU_RESP_OK_NODATA
      | VIRTIO_GPU_CMD_TRANSFER_TO_HOST_2D \<Rightarrow>
          if len \<noteq> sz_t_2h2d sz then VIRTIO_GPU_RESP_ERR_INVALID_PARAMETER
          else if t2d_resource_id (t_2h2d cmd) = 0 then VIRTIO_GPU_RESP_ERR_INVALID_RESOURCE_ID
          else if \<not> sanity_check_rect (t2d_r (t_2h2d cmd))
          then VIRTIO_GPU_RESP_ERR_INVALID_PARAMETER
          else VIRTIO_GPU_RESP_OK_NODATA
      | VIRTIO_GPU_CMD_RESOURCE_ATTACH_BACKING \<Rightarrow>
          if len \<le> sz_r_att sz then VIRTIO_GPU_RESP_ERR_INVALID_PARAMETER
          else if att_resource_id (r_att cmd) = 0 then VIRTIO_GPU_RESP_ERR_INVALID_RESOURCE_ID
          else if len \<noteq> sz_r_att sz + ucast (att_nr_entries (r_att cmd)) * sz_mem_entry sz
          then VIRTIO_GPU_RESP_ERR_INVALID_PARAMETER
          else VIRTIO_GPU_RESP_OK_NODATA
      | VIRTIO_GPU_CMD_RESOURCE_DETACH_BACKING \<Rightarrow>
          if len \<noteq> sz_r_det sz then VIRTIO_GPU_RESP_ERR_INVALID_PARAMETER
          else if r_det cmd = 0 then VIRTIO_GPU_RESP_ERR_INVALID_RESOURCE_ID
          else VIRTIO_GPU_RESP_OK_NODATA
      | VIRTIO_GPU_CMD_GET_CAPSET_INFO \<Rightarrow>
          if len \<noteq> sz_capset_info sz then VIRTIO_GPU_RESP_ERR_INVALID_PARAMETER
          else VIRTIO_GPU_RESP_OK_NODATA
      | VIRTIO_GPU_CMD_GET_CAPSET \<Rightarrow>
          if len \<noteq> sz_capset sz then VIRTIO_GPU_RESP_ERR_INVALID_PARAMETER
          else VIRTIO_GPU_RESP_OK_NODATA
      | VIRTIO_GPU_CMD_CTX_CREATE \<Rightarrow>
          if len \<noteq> sz_c_create sz then VIRTIO_GPU_RESP_ERR_INVALID_PARAMETER
          else if hdr_ctx_id (hdr cmd) = 0 then VIRTIO_GPU_RESP_ERR_INVALID_CONTEXT_ID
          else if ucast (c_create_nlen cmd) > sz_debug_name sz
          then VIRTIO_GPU_RESP_ERR_INVALID_PARAMETER
          else VIRTIO_GPU_RESP_OK_NODATA
      | VIRTIO_GPU_CMD_CTX_DESTROY \<Rightarrow>
          if len \<noteq> sz_c_destroy sz then VIRTIO_GPU_RESP_ERR_INVALID_PARAMETER
          else if hdr_ctx_id (hdr cmd) = 0 then VIRTIO_GPU_RESP_ERR_INVALID_CONTEXT_ID
          else VIRTIO_GPU_RESP_OK_NODATA
      | VIRTIO_GPU_CMD_CTX_ATTACH_RESOURCE \<Rightarrow>
          if len \<noteq> sz_c_res sz then VIRTIO_GPU_RESP_ERR_INVALID_PARAMETER
          else if hdr_ctx_id (hdr cmd) = 0 then VIRTIO_GPU_RESP_ERR_INVALID_CONTEXT_ID
          else if strict \<and> c_res cmd = 0 then VIRTIO_GPU_RESP_ERR_INVALID_RESOURCE_ID
          else VIRTIO_GPU_RESP_OK_NODATA
      | VIRTIO_GPU_CMD_CTX_DETACH_RESOURCE \<Rightarrow>
          if len \<noteq> sz_c_res sz then VIRTIO_GPU_RESP_ERR_INVALID_PARAMETER
          else if hdr_ctx_id (hdr cmd) = 0 then VIRTIO_GPU_RESP_ERR_INVALID_CONTEXT_ID
          else if strict \<and> c_res cmd = 0 then VIRTIO_GPU_RESP_ERR_INVALID_RESOURCE_ID
          else VIRTIO_GPU_RESP_OK_NODATA
      | VIRTIO_GPU_CMD_RESOURCE_CREATE_3D \<Rightarrow>
          if len \<noteq> sz_r_c3d sz then VIRTIO_GPU_RESP_ERR_INVALID_PARAMETER
          else if c3d_resource_id (r_c3d cmd) = 0 then VIRTIO_GPU_RESP_ERR_INVALID_RESOURCE_ID
          else if \<not> sanity_check_bounds 0 0 (c3d_width (r_c3d cmd)) (c3d_height (r_c3d cmd))
          then VIRTIO_GPU_RESP_ERR_INVALID_PARAMETER
          else VIRTIO_GPU_RESP_OK_NODATA
      | VIRTIO_GPU_CMD_TRANSFER_TO_HOST_3D \<Rightarrow> check_transfer_3d sz cmd len
      | VIRTIO_GPU_CMD_TRANSFER_FROM_HOST_3D \<Rightarrow> check_transfer_3d sz cmd len
      | VIRTIO_GPU_CMD_SUBMIT_3D \<Rightarrow>
          if len \<le> sz_c_submit sz then VIRTIO_GPU_RESP_ERR_INVALID_PARAMETER
          else if hdr_ctx_id (hdr cmd) = 0 then VIRTIO_GPU_RESP_ERR_INVALID_CONTEXT_ID
          else if len \<noteq> ucast (c_submit_size cmd) + sz_c_submit sz
          then VIRTIO_GPU_RESP_ERR_INVALID_PARAMETER
          else VIRTIO_GPU_RESP_OK_NODATA
      | _ \<Rightarrow> VIRTIO_GPU_RESP_ERR_UNSPEC)"

definition sanity_check_gpu_cursor :: "cmd_sizes \<Rightarrow> virtio_gpu_cmd \<Rightarrow> u64 \<Rightarrow> bool \<Rightarrow> ctrl_type" where
  "sanity_check_gpu_cursor sz cmd len strict =
     (let check_move =
            (if cur_scanout_id (cursor cmd) \<ge> VIRTIO_GPU_MAX_SCANOUTS
             then VIRTIO_GPU_RESP_ERR_INVALID_SCANOUT_ID
             else VIRTIO_GPU_RESP_OK_NODATA)
      in if len \<noteq> sz_cursor sz then VIRTIO_GPU_RESP_ERR_INVALID_PARAMETER
      else case hdr_type (hdr cmd) of
        VIRTIO_GPU_CMD_UPDATE_CURSOR \<Rightarrow>
          if cur_resource_id (cursor cmd) = 0 then VIRTIO_GPU_RESP_ERR_INVALID_RESOURCE_ID
          else check_move
      | VIRTIO_GPU_CMD_MOVE_CURSOR \<Rightarrow> check_move
      | _ \<Rightarrow> VIRTIO_GPU_RESP_ERR_UNSPEC)"

section \<open>A concrete layout\<close>

text \<open>
  The sizes that \<open>linux/virtio_gpu.h\<close> gives on the supported targets, and the all-zero command:
  the instance that the concrete evaluations below use.
\<close>

definition linux_sizes :: cmd_sizes where
  "linux_sizes =
     \<lparr> sz_hdr = 24, sz_cmd = 266272, sz_r_c2d = 40, sz_r_unref = 32, sz_s_set = 48,
       sz_r_flush = 48, sz_t_2h2d = 56, sz_r_att = 32, sz_mem_entry = 16, sz_r_det = 32,
       sz_capset_info = 32, sz_capset = 32, sz_c_create = 96, sz_debug_name = 64,
       sz_c_destroy = 24, sz_c_res = 32, sz_r_c3d = 72, sz_t_h3d = 72, sz_c_submit = 32,
       sz_cursor = 56 \<rparr>"

definition zero_rect :: virtio_gpu_rect where
  "zero_rect = \<lparr> rect_x = 0, rect_y = 0, rect_width = 0, rect_height = 0 \<rparr>"

definition zero_cmd :: virtio_gpu_cmd where
  "zero_cmd =
     \<lparr> hdr = \<lparr> hdr_type = VIRTIO_GPU_UNDEFINED, hdr_flags = 0, hdr_fence_id = 0, hdr_ctx_id = 0 \<rparr>,
       r_unref = 0,
       r_c2d = \<lparr> c2d_resource_id = 0, c2d_format = 0, c2d_width = 0, c2d_height = 0 \<rparr>,
       s_set = \<lparr> set_r = zero_rect, set_scanout_id = 0, set_resource_id = 0 \<rparr>,
       r_flush = \<lparr> flush_r = zero_rect, flush_resource_id = 0 \<rparr>,
       t_2h2d = \<lparr> t2d_r = zero_rect, t2d_offset = 0, t2d_resource_id = 0 \<rparr>,
       r_att = \<lparr> att_resource_id = 0, att_nr_entries = 0 \<rparr>,
       r_mem = (\<lambda>_. \<lparr> mem_addr = 0, mem_length = 0 \<rparr>),
       r_det = 0,
       t_h3d = \<lparr> t3d_box = \<lparr> box_x = 0, box_y = 0, box_z = 0, box_w = 0, box_h = 0, box_d = 0 \<rparr>,
                 t3d_offset = 0, t3d_resource_id = 0, t3d_level = 0, t3d_stride = 0,
                 t3d_layer_stride = 0 \<rparr>,
       r_c3d = \<lparr> c3d_resource_id = 0, c3d_target = 0, c3d_format = 0, c3d_bind = 0, c3d_width = 0,
                 c3d_height = 0, c3d_depth = 0, c3d_array_size = 0, c3d_last_level = 0,
                 c3d_nr_samples = 0, c3d_flags = 0 \<rparr>,
       c_create_nlen = 0, c_res = 0, c_submit_size = 0, c_cmdbuf = (\<lambda>_. 0),
       capset_id = 0, capset_version = 0, capset_index = 0,
       cursor = \<lparr> cur_scanout_id = 0, cur_x = 0, cur_y = 0, cur_resource_id = 0 \<rparr> \<rparr>"

section \<open>Properties\<close>

text \<open>
  The check of a rectangle decides exactly the mathematical bounds: both coordinates and
  both sides are below 2^31, the sides are positive and the area in bytes (four per pixel) is
  below 2^31.  The 64-bit product the code compares never wraps, so no oversized rectangle
  slips through.
\<close>

theorem sanity_check_bounds_iff:
  "sanity_check_bounds x y w h \<longleftrightarrow>
     unat x < 2 ^ 31 \<and> unat y < 2 ^ 31 \<and> 0 < unat w \<and> 0 < unat h \<and>
     unat h * unat w * 4 < 2 ^ 31"
proof (cases "0 < unat w \<and> 0 < unat h \<and> unat w < 2 ^ 31 \<and> unat h < 2 ^ 31")
  case True
  then have "unat h * unat w \<le> (2 ^ 31 - 1) * (2 ^ 31 - 1)"
    by (intro mult_mono) simp_all
  then have "unat ((ucast h :: u64) * ucast w * 4) = unat h * unat w * 4"
    by (subst unat_mult_lem [THEN iffD1]) (simp_all add: unat_mult_u32_u32)
  with True show ?thesis
    by (auto simp: sanity_check_bounds_def word_less_nat_alt unat_gt_0)
next
  case False
  then consider "unat w = 0 \<or> unat h = 0"
    | "0 < unat w" "0 < unat h" "2 ^ 31 \<le> unat w \<or> 2 ^ 31 \<le> unat h"
    by force
  then show ?thesis
  proof cases
    case 1
    then show ?thesis
      by (auto simp: sanity_check_bounds_def unat_eq_0)
  next
    case 2
    then have "unat w \<le> unat h * unat w" "unat h \<le> unat h * unat w"
      by simp_all
    with 2(3) have "2 ^ 31 \<le> unat h * unat w"
      by linarith
    with 2 show ?thesis
      by (auto simp: sanity_check_bounds_def word_less_nat_alt)
  qed
qed

text \<open>
  A rectangle passes the resource check if and only if it lies inside the resource, as
  natural numbers: the 64-bit sums of the code do not wrap.
\<close>

theorem sanity_check_resource_rect_iff:
  "sanity_check_resource_rect r width height \<longleftrightarrow>
     unat (rect_x r) + unat (rect_width r) \<le> unat width \<and>
     unat (rect_y r) + unat (rect_height r) \<le> unat height"
  by (auto simp: sanity_check_resource_rect_def word_less_nat_alt unat_add_u32_u32)

lemma sanity_check_resource_box_iff:
  "sanity_check_resource_box b width height depth \<longleftrightarrow>
     unat (box_x b) + unat (box_w b) \<le> unat width \<and>
     unat (box_y b) + unat (box_h b) \<le> unat height"
  by (auto simp: sanity_check_resource_box_def word_less_nat_alt unat_add_u32_u32)

text \<open>
  Every command the proxy forwards is sane for the renderer: what the strict check of
  \<open>gpu_device_serve_ctrl\<close> accepts, the lenient check of \<open>rvgpu_pr_dispatch\<close> accepts too, so the
  renderer never exits with "insane command issued" on a stream produced by the proxy.
\<close>

theorem sanity_check_strict_lenient:
  assumes "sanity_check_gpu_ctrl sz cmd len True = VIRTIO_GPU_RESP_OK_NODATA"
  shows "sanity_check_gpu_ctrl sz cmd len False = VIRTIO_GPU_RESP_OK_NODATA"
  using assms
  by (cases "hdr_type (hdr cmd)") (simp_all add: sanity_check_gpu_ctrl_def split: if_splits)

lemma sanity_check_strict_lenient_witness:
  "sanity_check_gpu_ctrl linux_sizes
     (zero_cmd\<lparr>hdr := (hdr zero_cmd)\<lparr>hdr_type := VIRTIO_GPU_CMD_RESOURCE_UNREF\<rparr>, r_unref := 7\<rparr>)
     32 False = VIRTIO_GPU_RESP_OK_NODATA"
  by (rule sanity_check_strict_lenient)
    (simp add: sanity_check_gpu_ctrl_def linux_sizes_def zero_cmd_def)

lemma sanity_attach_entries_bound:
  assumes "sanity_check_gpu_ctrl sz cmd len strict = VIRTIO_GPU_RESP_OK_NODATA"
    and "hdr_type (hdr cmd) = VIRTIO_GPU_CMD_RESOURCE_ATTACH_BACKING"
    and "unat (sz_r_att sz) < 2 ^ 32" and "unat (sz_mem_entry sz) < 2 ^ 32"
    and "i < unat (att_nr_entries (r_att cmd))"
  shows "unat (sz_r_att sz) + (i + 1) * unat (sz_mem_entry sz) \<le> unat (sz_cmd sz)"
proof -
  let ?n = "att_nr_entries (r_att cmd)"
  have nm: "unat ?n * unat (sz_mem_entry sz) \<le> (2 ^ 32 - 1) * (2 ^ 32 - 1)"
    using assms(4) unat_u32_less [of ?n] by (intro mult_mono) simp_all
  have m: "unat ((ucast ?n :: u64) * sz_mem_entry sz) = unat ?n * unat (sz_mem_entry sz)"
    using nm by (subst unat_mult_lem [THEN iffD1]) simp_all
  have "unat (sz_r_att sz + (ucast ?n :: u64) * sz_mem_entry sz) =
      unat (sz_r_att sz) + unat ?n * unat (sz_mem_entry sz)"
    using nm m assms(3) by (subst unat_add_lem [THEN iffD1]) simp_all
  then have "unat (sz_r_att sz) + unat ?n * unat (sz_mem_entry sz) \<le> unat (sz_cmd sz)"
    using assms(1,2)
    by (simp add: sanity_check_gpu_ctrl_def word_less_nat_alt word_le_nat_alt split: if_splits)
  moreover have "(i + 1) * unat (sz_mem_entry sz) \<le> unat ?n * unat (sz_mem_entry sz)"
    using assms(5) by (intro mult_le_mono1) simp
  ultimately show ?thesis
    by linarith
qed


text \<open>
  An accepted RESOURCE_ATTACH_BACKING carries all the entries it announces: every entry
  that \<open>gpu_device_attach\<close> and \<open>resource_attach_backing\<close> index ends inside
  \<open>union virtio_gpu_cmd\<close>, for any layout whose header and entry are below 4 GiB (the length
  computation of the check cannot wrap).
\<close>

theorem sanity_attach_entries_in_command:
  assumes "sanity_check_gpu_ctrl sz cmd len strict = VIRTIO_GPU_RESP_OK_NODATA"
    and "hdr_type (hdr cmd) = VIRTIO_GPU_CMD_RESOURCE_ATTACH_BACKING"
    and "unat (sz_r_att sz) < 2 ^ 32" and "unat (sz_mem_entry sz) < 2 ^ 32"
    and "i < unat (att_nr_entries (r_att cmd))"
  shows "unat (sz_r_att sz) + (i + 1) * unat (sz_mem_entry sz) \<le> unat (sz_cmd sz)"
  using assms by (rule sanity_attach_entries_bound)

lemma sanity_attach_entries_in_command_witness:
  "unat (sz_r_att linux_sizes) + (1 + 1) * unat (sz_mem_entry linux_sizes)
     \<le> unat (sz_cmd linux_sizes)"
  by (rule sanity_attach_entries_in_command
      [where len = 64 and strict = True and
        cmd = "zero_cmd\<lparr>hdr := (hdr zero_cmd)\<lparr>hdr_type := VIRTIO_GPU_CMD_RESOURCE_ATTACH_BACKING\<rparr>,
                 r_att := \<lparr> att_resource_id = 5, att_nr_entries = 2 \<rparr>\<rparr>"])
    (simp_all add: sanity_check_gpu_ctrl_def linux_sizes_def zero_cmd_def)

text \<open>
  \<open>sanity_strtounum\<close> returns a value of the requested range for every string, and reports
  no error exactly when the whole string is a number of that range, which it then returns.
\<close>

theorem sanity_strtounum_range:
  assumes "mn \<le> mx" and "sanity_strtounum strtoul str mn mx = (v, e)"
  shows "mn \<le> v \<and> v \<le> mx \<and>
    (e = None) = (snd (strtoul str) \<and> mn \<le> fst (strtoul str) \<and> fst (strtoul str) \<le> mx \<and>
      v = fst (strtoul str))"
  using assms
  by (auto simp: sanity_strtounum_def not_less split: prod.splits if_splits)

lemma sanity_strtounum_range_witness:
  "(3 :: u64) \<le> 5 \<and> (5 :: u64) \<le> 9 \<and>
   ((None :: string option) = None) =
     (snd (5 :: u64, True) \<and> 3 \<le> fst (5 :: u64, True) \<and> fst (5 :: u64, True) \<le> 9 \<and>
      5 = fst (5 :: u64, True))"
  using sanity_strtounum_range
    [where mn = 3 and mx = 9 and strtoul = "\<lambda>_. (5, True)" and str = "''5''" and v = 5 and e = None]
  by (simp add: sanity_strtounum_def)

text \<open>A number above the range is answered with the maximum, not with the minimum.\<close>

lemma sanity_strtounum_too_high:
  "strtoul str = (v, True) \<Longrightarrow> mn \<le> v \<Longrightarrow> mx < v \<Longrightarrow>
   sanity_strtounum strtoul str mn mx = (mx, Some ''Number is too high'')"
  by (simp add: sanity_strtounum_def)

end
