(* ===== verification/Gpu_Device.thy ===== *)
theory Gpu_Device
  imports Vqueue Rvgpu_Res Sanity
begin

text \<open>
  The virtual GPU of the proxy (\<open>src/rvgpu-proxy/gpu/rvgpu-gpu-device.c\<close>, built without
  \<open>VSYNC_ENABLE\<close>, as for kernels from 5.15 on): it takes the guest's commands off the control and
  cursor queues, checks them, forwards them to every host, keeps the table of resources and their
  mapped backing pages, and answers each command, at once or when its fence has been signalled.
\<close>

section \<open>State\<close>

record capset =
  cap_id :: u32
  cap_version :: u32
  cap_size :: u32

abbreviation (input) GPU_MAX_CAPDATA :: nat where "GPU_MAX_CAPDATA \<equiv> 16"
abbreviation (input) CAPSET_MAX_SIZE :: u32 where "CAPSET_MAX_SIZE \<equiv> 2048"

text \<open>\<open>struct cmd\<close>: a command waiting for its fence; the request is a handle.\<close>

record cmd =
  cmd_hdr :: virtio_gpu_ctrl_hdr
  cmd_req :: nat

text \<open>\<open>union virtio_gpu_resp\<close>: the header, and the bytes that follow it in the union.\<close>

record virtio_gpu_resp =
  resp_hdr :: virtio_gpu_ctrl_hdr
  resp_body :: "byte list"

text \<open>Calls into the connection thread that block or wake it.\<close>

datatype ctx_call = Ctx_wait reset_state | Ctx_wakeup

text \<open>
  \<open>struct gpu_device\<close> with the static variables of its functions (\<open>cmd\<close>, \<open>reset\<close>,
  \<open>gpu_reset_state\<close>) and, as logs, the kicks of the guest and the calls into the connection thread.
  \<open>fence_pipe\<close> holds the fence ids the resource thread has written and nobody has read yet.
\<close>

record gpu_device = vq_state +
  max_mem :: u64
  curr_mem :: u64
  scanres :: u32
  scan_id :: u32
  capdata :: "(capset \<times> byte list) list"
  num_capsets :: u32
  events_read :: u32
  async_cmds :: "cmd list"
  fence_pipe :: "u32 list"
  st_cmd :: "byte list"
  st_reset :: bool
  gpu_reset_state :: reset_state
  ctx :: ctx_priv
  kicks :: "nat list"
  ctx_calls :: "ctx_call list"

text \<open>
  What the code takes from outside: \<open>mmap\<close> on the guest device, the layout of the command union
  (its sizes and how its bytes decode), the bytes of a response header, the sizes of the responses,
  and the scanouts of the configuration.
\<close>

record gpu_env =
  e_mmap :: mmap
  e_sizes :: cmd_sizes
  e_decode :: "byte list \<Rightarrow> virtio_gpu_cmd"
  e_hdr_bytes :: "virtio_gpu_ctrl_hdr \<Rightarrow> byte list"
  e_sz_rdi :: nat
  e_sz_ci :: nat
  e_sz_c :: nat
  e_dpys :: "byte list"

definition zero_hdr :: virtio_gpu_ctrl_hdr where
  "zero_hdr = \<lparr> hdr_type = VIRTIO_GPU_UNDEFINED, hdr_flags = 0, hdr_fence_id = 0, hdr_ctx_id = 0 \<rparr>"

section \<open>Capability sets\<close>

text \<open>\<open>gpu_capset_init\<close> on the contents of the capset file.\<close>

fun capset_read_loop :: "nat \<Rightarrow> byte list \<Rightarrow> (capset \<times> byte list) list" where
  "capset_read_loop 0 file = []"
| "capset_read_loop (Suc n) file =
     (if length file < 12 then []
      else
        let h = \<lparr> cap_id = un_le32 file, cap_version = un_le32 (drop 4 file),
                  cap_size = un_le32 (drop 8 file) \<rparr>;
            rest = drop 12 file;
            k = unat (cap_size h)
        in if cap_size h > CAPSET_MAX_SIZE then []
           else if length rest < k then []
           else (h, take k rest) # capset_read_loop n (drop k rest))"

definition gpu_capset_init :: "gpu_device \<Rightarrow> byte list \<Rightarrow> gpu_device" where
  "gpu_capset_init g file =
     (let cs = capset_read_loop GPU_MAX_CAPDATA file
      in g\<lparr>capdata := cs, num_capsets := of_nat (length cs)\<rparr>)"

text \<open>\<open>put_body\<close> overwrites the start of the bytes that follow the header.\<close>

definition put_body :: "byte list \<Rightarrow> virtio_gpu_resp \<Rightarrow> virtio_gpu_resp" where
  "put_body bs r = r\<lparr>resp_body := bs @ drop (length bs) (resp_body r)\<rparr>"

definition set_type :: "ctrl_type \<Rightarrow> virtio_gpu_resp \<Rightarrow> virtio_gpu_resp" where
  "set_type t r = r\<lparr>resp_hdr := (resp_hdr r)\<lparr>hdr_type := t\<rparr>\<rparr>"

definition gpu_device_capset_info ::
  "gpu_device \<Rightarrow> u32 \<Rightarrow> virtio_gpu_resp \<Rightarrow> ctrl_type \<times> virtio_gpu_resp" where
  "gpu_device_capset_info g index ci =
     (if unat index < length (capdata g)
      then let h = fst (capdata g ! unat index)
           in (VIRTIO_GPU_RESP_OK_CAPSET_INFO,
               put_body (le32 (cap_id h) @ le32 (cap_version h) @ le32 (cap_size h)) ci)
      else (VIRTIO_GPU_RESP_ERR_INVALID_PARAMETER, ci))"

fun find_capset :: "(capset \<times> byte list) list \<Rightarrow> u32 \<Rightarrow> u32 \<Rightarrow> (capset \<times> byte list) option" where
  "find_capset [] i ver = None"
| "find_capset ((h, data) # cs) i ver =
     (if cap_id h = i \<and> cap_version h = ver then Some (h, data) else find_capset cs i ver)"

definition gpu_device_capset ::
  "gpu_env \<Rightarrow> gpu_device \<Rightarrow> u32 \<Rightarrow> u32 \<Rightarrow> virtio_gpu_resp \<Rightarrow> nat \<times> virtio_gpu_resp" where
  "gpu_device_capset env g i ver c =
     (case find_capset (capdata g) i ver of
        Some (h, data) \<Rightarrow>
          (e_sz_c env + unat (cap_size h), set_type VIRTIO_GPU_RESP_OK_CAPSET (put_body data c))
      | None \<Rightarrow>
          (unat (sz_hdr (e_sizes env)), set_type VIRTIO_GPU_RESP_ERR_INVALID_PARAMETER c))"

section \<open>Fences\<close>

definition add_resp :: "gpu_device \<Rightarrow> virtio_gpu_ctrl_hdr \<Rightarrow> nat \<Rightarrow> gpu_device" where
  "add_resp g h req = g\<lparr>async_cmds := async_cmds g @ [\<lparr> cmd_hdr = h, cmd_req = req \<rparr>]\<rparr>"

text \<open>
  \<open>process_fences\<close>: the walk over the waiting commands with those kept so far and the number
  answered.  The C reads the link of a command after freeing it; the walk here follows the list as
  it was.
\<close>

fun process_fences_loop ::
  "gpu_env \<Rightarrow> u32 \<Rightarrow> cmd list \<Rightarrow> cmd list \<Rightarrow> nat \<Rightarrow> gpu_device \<Rightarrow> (nat \<times> gpu_device) outcome" where
  "process_fences_loop env fence [] kept n g = Returned (n, g\<lparr>async_cmds := kept\<rparr>)"
| "process_fences_loop env fence (c # cs) kept n g =
     (if hdr_fence_id (cmd_hdr c) > ucast fence \<or> hdr_flags (cmd_hdr c) AND VIRTIO_GPU_FLAG_VSYNC \<noteq> 0
      then process_fences_loop env fence cs (kept @ [c]) n g
      else obind (vqueue_send_response g (cmd_req c) (e_hdr_bytes env (cmd_hdr c)))
             (process_fences_loop env fence cs kept (n + 1)))"

definition process_fences :: "gpu_env \<Rightarrow> gpu_device \<Rightarrow> u32 \<Rightarrow> (nat \<times> gpu_device) outcome" where
  "process_fences env g fence = process_fences_loop env fence (async_cmds g) [] 0 g"

text \<open>\<open>gpu_device_serve_fences\<close>: every fence id in the pipe, until poll finds it empty.\<close>

fun serve_fences_loop ::
  "gpu_env \<Rightarrow> u32 list \<Rightarrow> nat \<Rightarrow> gpu_device \<Rightarrow> (nat \<times> gpu_device) outcome" where
  "serve_fences_loop env [] n g = Returned (n, g)"
| "serve_fences_loop env (f # fs) n g =
     obind (process_fences env g f) (\<lambda>(k, g'). serve_fences_loop env fs (n + k) g')"

definition gpu_device_serve_fences :: "gpu_env \<Rightarrow> gpu_device \<Rightarrow> (nat \<times> gpu_device) outcome" where
  "gpu_device_serve_fences env g =
     serve_fences_loop env (fence_pipe g) 0 (g\<lparr>fence_pipe := []\<rparr>)"

text \<open>
  The fence part of \<open>resource_thread_func\<close>: a fence message from host \<open>i\<close> updates the last fence of
  that host; the smallest last fence of all hosts is passed on if its host has sent one.
\<close>

record fence_sync =
  recv_fence_ids :: "u32 list"
  recv_fence_flags :: "bool list"

definition fence_sync_init :: "nat \<Rightarrow> fence_sync" where
  "fence_sync_init n = \<lparr> recv_fence_ids = replicate n 0, recv_fence_flags = replicate n False \<rparr>"

fun min_fence_loop :: "u32 list \<Rightarrow> nat \<Rightarrow> u32 \<Rightarrow> nat \<Rightarrow> u32 \<times> nat" where
  "min_fence_loop [] j best host = (best, host)"
| "min_fence_loop (f # fs) j best host =
     (if best > f then min_fence_loop fs (j + 1) f j else min_fence_loop fs (j + 1) best host)"

definition resource_thread_fence :: "fence_sync \<Rightarrow> nat \<Rightarrow> u32 \<Rightarrow> fence_sync \<times> u32 option" where
  "resource_thread_fence s i fence =
     (let s' = s\<lparr>recv_fence_ids := (recv_fence_ids s)[i := fence],
                 recv_fence_flags := (recv_fence_flags s)[i := True]\<rparr>;
          (sync, host) = min_fence_loop (recv_fence_ids s') 0 fence i
      in (s', if recv_fence_flags s' ! host then Some sync else None))"

section \<open>Sending to the hosts\<close>

definition rvgpu_header_bytes :: "u32 \<Rightarrow> u16 \<Rightarrow> u16 \<Rightarrow> u32 \<Rightarrow> u32 \<Rightarrow> byte list" where
  "rvgpu_header_bytes sz idx flags bpp stride =
     le32 sz @ le16 idx @ le16 flags @ le32 bpp @ le32 stride"

text \<open>
  \<open>gpu_device_send_command\<close>; short writes are only reported.  Without a scanout the unicast
  variant dereferences the private data of a scanout that was never initialised.
\<close>

definition gpu_device_send_command :: "ctx_priv \<Rightarrow> byte list \<Rightarrow> bool \<Rightarrow> ctx_priv outcome" where
  "gpu_device_send_command u buf notify_all =
     (if notify_all then Returned (snd (rvgpu_ctx_send u buf))
      else case sc u of
             [] \<Rightarrow> Crashed ''scanout[0].priv''
           | s # ss \<Rightarrow>
               (case rvgpu_send (ctx_writes u) s COMMAND buf of
                  (rc, ws, s') \<Rightarrow> Returned (u\<lparr>sc := s' # ss, ctx_writes := ws\<rparr>)))"

fun send_commands :: "ctx_priv \<Rightarrow> byte list list \<Rightarrow> bool \<Rightarrow> ctx_priv outcome" where
  "send_commands u [] notify_all = Returned u"
| "send_commands u (b # bs) notify_all =
     obind (gpu_device_send_command u b notify_all) (\<lambda>u'. send_commands u' bs notify_all)"

section \<open>Resources\<close>

definition gpu_device_free_res :: "gpu_device \<Rightarrow> rvgpu_res \<Rightarrow> gpu_device" where
  "gpu_device_free_res g res =
     foldl (\<lambda>g v. g\<lparr>vs_munmaps := vs_munmaps g @ [unmap_guest (iov_base v) (iov_len v)],
                     curr_mem := curr_mem g - iov_len v\<rparr>) g (res_iovs res)"

definition gpu_device_create_res ::
  "gpu_device \<Rightarrow> u32 \<Rightarrow> rvgpu_res_info \<Rightarrow> ctrl_type \<times> gpu_device" where
  "gpu_device_create_res g i info =
     (case rvgpu_ctx_res_find (ctx g) i of
        Some res \<Rightarrow> (VIRTIO_GPU_RESP_ERR_INVALID_RESOURCE_ID, g)
      | None \<Rightarrow>
          (case rvgpu_ctx_res_create (ctx g) info i of
             (rc, c) \<Rightarrow> (if rc \<noteq> 0 then VIRTIO_GPU_RESP_ERR_OUT_OF_MEMORY
                        else VIRTIO_GPU_RESP_OK_NODATA, g\<lparr>ctx := c\<rparr>)))"

definition gpu_device_destroy_res :: "gpu_device \<Rightarrow> u32 \<Rightarrow> ctrl_type \<times> gpu_device" where
  "gpu_device_destroy_res g i =
     (case rvgpu_ctx_res_find (ctx g) i of
        None \<Rightarrow> (VIRTIO_GPU_RESP_ERR_INVALID_RESOURCE_ID, g)
      | Some res \<Rightarrow>
          (let g1 = gpu_device_free_res g res
           in (VIRTIO_GPU_RESP_OK_NODATA, g1\<lparr>ctx := rvgpu_ctx_res_destroy (ctx g1) i\<rparr>)))"

definition gpu_device_send_patched ::
  "gpu_device \<Rightarrow> rvgpu_res \<Rightarrow> rvgpu_res_transfer \<Rightarrow> gpu_device outcome" where
  "gpu_device_send_patched g res t =
     obind (rvgpu_ctx_transfer_to_host (vs_mem g) (ctx g) t res) (\<lambda>(rc, c). Returned (g\<lparr>ctx := c\<rparr>))"

definition gpu_device_send_res ::
  "gpu_device \<Rightarrow> u32 \<Rightarrow> rvgpu_res_transfer \<Rightarrow> (ctrl_type \<times> gpu_device) outcome" where
  "gpu_device_send_res g i t =
     (case rvgpu_ctx_res_find (ctx g) i of
        None \<Rightarrow> Returned (VIRTIO_GPU_RESP_ERR_INVALID_RESOURCE_ID, g)
      | Some res \<Rightarrow>
          if backing res = None then Returned (VIRTIO_GPU_RESP_ERR_INVALID_PARAMETER, g)
          else obind (gpu_device_send_patched g res t)
                 (\<lambda>g'. Returned (VIRTIO_GPU_RESP_OK_NODATA, g')))"

text \<open>The mapping of the entries of an attach command.\<close>

definition map_entries :: "mmap \<Rightarrow> (nat \<Rightarrow> mem_entry) \<Rightarrow> nat \<Rightarrow> iovec list" where
  "map_entries mmap mem n =
     map (\<lambda>i. \<lparr> iov_base = map_guest mmap (mem_addr (mem i)) PROT_READ_WRITE (ucast (mem_length (mem i))),
                iov_len = ucast (mem_length (mem i)) \<rparr>) [0..<n]"

definition gpu_device_attach ::
  "gpu_env \<Rightarrow> gpu_device \<Rightarrow> u32 \<Rightarrow> (nat \<Rightarrow> mem_entry) \<Rightarrow> u32 \<Rightarrow> ctrl_type \<times> gpu_device" where
  "gpu_device_attach env g i mem n =
     (case rvgpu_ctx_res_find (ctx g) i of
        None \<Rightarrow> (VIRTIO_GPU_RESP_ERR_INVALID_RESOURCE_ID, g)
      | Some res \<Rightarrow>
          if backing res \<noteq> None then (VIRTIO_GPU_RESP_ERR_INVALID_PARAMETER, g)
          else
            let vs = map_entries (e_mmap env) mem (unat n);
                sentsize = iov_size vs
            in if max_mem g \<noteq> 0 \<and> curr_mem g + sentsize > max_mem g
               then (VIRTIO_GPU_RESP_ERR_OUT_OF_MEMORY,
                     g\<lparr>vs_munmaps := vs_munmaps g @ unmap_iovs vs\<rparr>)
               else (VIRTIO_GPU_RESP_OK_NODATA,
                     g\<lparr>ctx := res_update (ctx g) i (\<lambda>r. r\<lparr>backing := Some vs\<rparr>),
                       curr_mem := curr_mem g + sentsize\<rparr>))"

definition gpu_device_detach :: "gpu_device \<Rightarrow> u32 \<Rightarrow> ctrl_type \<times> gpu_device" where
  "gpu_device_detach g i =
     (case rvgpu_ctx_res_find (ctx g) i of
        None \<Rightarrow> (VIRTIO_GPU_RESP_ERR_INVALID_RESOURCE_ID, g)
      | Some res \<Rightarrow>
          if backing res = None then (VIRTIO_GPU_RESP_ERR_INVALID_PARAMETER, g)
          else
            let g1 = gpu_device_free_res g res
            in (VIRTIO_GPU_RESP_OK_NODATA,
                g1\<lparr>ctx := res_update (ctx g1) i (\<lambda>r. r\<lparr>backing := None\<rparr>)\<rparr>))"

section \<open>Commands of the control queue\<close>

text \<open>\<open>VIRGL_CMD0\<close> and the command words that carry a transfer.\<close>

definition VIRGL_CMD0 :: "u32 \<Rightarrow> u32 \<Rightarrow> u32 \<Rightarrow> u32" where
  "VIRGL_CMD0 c obj len = c OR push_bit 8 obj OR push_bit 16 len"

definition CCMD_TRANSFER3D :: u32 where
  "CCMD_TRANSFER3D = VIRGL_CMD0 43 0 13"

definition CCMD_COPY_TRANSFER3D :: u32 where
  "CCMD_COPY_TRANSFER3D = VIRGL_CMD0 45 0 14"

text \<open>
  The transfer that a command buffer describes at offset \<open>k\<close>; \<open>iw\<close> is the index of the word with the
  data offset.
\<close>

definition submit_transfer :: "(nat \<Rightarrow> u32) \<Rightarrow> nat \<Rightarrow> nat \<Rightarrow> rvgpu_res_transfer" where
  "submit_transfer buf k iw =
     \<lparr> tr_x = buf (k + 6), tr_y = buf (k + 7), tr_z = buf (k + 8), tr_w = buf (k + 9),
       tr_h = buf (k + 10), tr_d = buf (k + 11), tr_level = buf (k + 2), tr_stride = buf (k + 4),
       tr_layer_stride = buf (k + 5), tr_offset = ucast (buf (k + iw)) \<rparr>"

text \<open>
  \<open>gpu_device_handle_submit_3d\<close>: the words read for a transfer are not checked against the end of
  the command.  Each step moves the offset by the length of the command and its header word.
\<close>

definition submit_3d_step ::
  "(nat \<Rightarrow> u32) \<Rightarrow> nat \<Rightarrow> gpu_device \<Rightarrow> virtio_gpu_resp \<Rightarrow> (gpu_device \<times> virtio_gpu_resp) outcome" where
  "submit_3d_step buf k g resp =
     (if buf k = CCMD_TRANSFER3D
      then obind (gpu_device_send_res g (buf (k + 1)) (submit_transfer buf k 12))
             (\<lambda>(t, g'). Returned (g', set_type t resp))
      else if buf k = CCMD_COPY_TRANSFER3D
      then obind (gpu_device_send_res g (buf (k + 12)) (submit_transfer buf k 13))
             (\<lambda>(t, g'). Returned (g', set_type t resp))
      else Returned (g, resp))"

function submit_3d_loop ::
  "(nat \<Rightarrow> u32) \<Rightarrow> u32 \<Rightarrow> u32 \<Rightarrow> gpu_device \<Rightarrow> virtio_gpu_resp \<Rightarrow> (gpu_device \<times> virtio_gpu_resp) outcome" where
  "submit_3d_loop buf size4 off g resp =
     (if \<not> off < size4 div 4 then Returned (g, resp)
      else obind (submit_3d_step buf (unat off) g resp)
             (\<lambda>(g', resp'). submit_3d_loop buf size4 (off + (drop_bit 16 (buf (unat off)) + 1)) g' resp'))"
  by pat_completeness auto

text \<open>The offset never wraps: it is below 2^30 and a command is shorter than 2^16 + 1 words.\<close>

lemma submit_offset_increases:
  assumes "off < size4 div (4 :: u32)"
  shows "unat (off + (drop_bit 16 h + 1)) = unat off + unat (drop_bit 16 h) + 1"
proof -
  have "unat (drop_bit 16 h) = unat h div 2 ^ 16"
    by (simp add: drop_bit_eq_div unat_div)
  also have "\<dots> < 2 ^ 16"
    using unat_u32_less [of h] by (simp add: less_mult_imp_div_less)
  finally have h: "unat (drop_bit 16 h) < 2 ^ 16" .
  have "unat off < unat size4 div 4"
    using assms by (simp add: word_less_nat_alt unat_div)
  also have "\<dots> < 2 ^ 30"
    using unat_u32_less [of size4] by (simp add: less_mult_imp_div_less)
  finally have "unat off < 2 ^ 30" .
  with h have "unat (drop_bit 16 h + 1) = unat (drop_bit 16 h) + 1"
    by (subst unat_add_lem [THEN iffD1]) simp_all
  with h \<open>unat off < 2 ^ 30\<close> show ?thesis
    by (subst unat_add_lem [THEN iffD1]) simp_all
qed

termination submit_3d_loop
  by (relation "measure (\<lambda>(buf, size4, off, g, resp). unat (size4 div 4) - unat off)")
    (auto simp: submit_offset_increases word_less_nat_alt)

declare submit_3d_loop.simps [simp del]

definition gpu_device_handle_submit_3d ::
  "gpu_device \<Rightarrow> virtio_gpu_cmd \<Rightarrow> virtio_gpu_resp \<Rightarrow> (gpu_device \<times> virtio_gpu_resp) outcome" where
  "gpu_device_handle_submit_3d g cmd resp =
     submit_3d_loop (c_cmdbuf cmd) (c_submit_size cmd) 0 g resp"

text \<open>\<open>get_meta_res_from_cmd\<close>: the pointer to the resource is used without a check.\<close>

definition get_meta_res_from_cmd :: "gpu_device \<Rightarrow> transfer_host_3d \<Rightarrow> (u32 \<times> u32) outcome" where
  "get_meta_res_from_cmd g t =
     (case rvgpu_ctx_res_find (ctx g) (t3d_resource_id t) of
        None \<Rightarrow> Crashed ''res''
      | Some res \<Rightarrow>
          (let width = drop_bit (unat (t3d_level t)) (ri_width (res_info res));
               bpp = of_nat (get_format_bpp (ri_format (res_info res)));
               stride = (if t3d_stride t \<noteq> 0 then t3d_stride t else bpp * width)
           in Returned (bpp, stride)))"

definition res_info_2d :: "resource_create_2d \<Rightarrow> rvgpu_res_info" where
  "res_info_2d c =
     \<lparr> ri_target = 2, ri_format = c2d_format c, ri_width = c2d_width c, ri_height = c2d_height c,
       ri_depth = 1, ri_array_size = 1, ri_last_level = 0,
       ri_flags = VIRTIO_GPU_RESOURCE_FLAG_Y_0_TOP, ri_bpp = 0 \<rparr>"

definition res_info_3d :: "resource_create_3d \<Rightarrow> rvgpu_res_info" where
  "res_info_3d c =
     \<lparr> ri_target = c3d_target c, ri_format = c3d_format c, ri_width = c3d_width c,
       ri_height = c3d_height c, ri_depth = c3d_depth c, ri_array_size = c3d_array_size c,
       ri_last_level = c3d_last_level c, ri_flags = c3d_flags c, ri_bpp = 0 \<rparr>"

definition transfer_2d :: "transfer_to_host_2d \<Rightarrow> rvgpu_res_transfer" where
  "transfer_2d t =
     \<lparr> tr_x = rect_x (t2d_r t), tr_y = rect_y (t2d_r t), tr_z = 0, tr_w = rect_width (t2d_r t),
       tr_h = rect_height (t2d_r t), tr_d = 1, tr_level = 0, tr_stride = 0, tr_layer_stride = 0,
       tr_offset = t2d_offset t \<rparr>"

text \<open>The 3D transfer leaves out the layer stride of the command.\<close>

definition transfer_3d :: "transfer_host_3d \<Rightarrow> rvgpu_res_transfer" where
  "transfer_3d t =
     \<lparr> tr_x = box_x (t3d_box t), tr_y = box_y (t3d_box t), tr_z = box_z (t3d_box t),
       tr_w = box_w (t3d_box t), tr_h = box_h (t3d_box t), tr_d = box_d (t3d_box t),
       tr_level = t3d_level t, tr_stride = t3d_stride t, tr_layer_stride = 0,
       tr_offset = t3d_offset t \<rparr>"

text \<open>
  The switch of \<open>gpu_device_serve_ctrl\<close> on a sane command: the response length, the device and the
  response.
\<close>

definition with_type ::
  "nat \<Rightarrow> virtio_gpu_resp \<Rightarrow> ctrl_type \<times> gpu_device \<Rightarrow> nat \<times> gpu_device \<times> virtio_gpu_resp" where
  "with_type len resp r = (len, snd r, set_type (fst r) resp)"

definition ctrl_dispatch ::
  "gpu_env \<Rightarrow> gpu_device \<Rightarrow> virtio_gpu_cmd \<Rightarrow> virtio_gpu_resp \<Rightarrow>
     (nat \<times> gpu_device \<times> virtio_gpu_resp) outcome" where
  "ctrl_dispatch env g cmd resp =
     (let len = unat (sz_hdr (e_sizes env)) in
      case hdr_type (hdr cmd) of
        VIRTIO_GPU_CMD_GET_DISPLAY_INFO \<Rightarrow>
          Returned (e_sz_rdi env, g,
            set_type VIRTIO_GPU_RESP_OK_DISPLAY_INFO (put_body (e_dpys env) resp))
      | VIRTIO_GPU_CMD_RESOURCE_CREATE_2D \<Rightarrow>
          Returned (with_type len resp
            (gpu_device_create_res g (c2d_resource_id (r_c2d cmd)) (res_info_2d (r_c2d cmd))))
      | VIRTIO_GPU_CMD_RESOURCE_CREATE_3D \<Rightarrow>
          Returned (with_type len resp
            (gpu_device_create_res g (c3d_resource_id (r_c3d cmd)) (res_info_3d (r_c3d cmd))))
      | VIRTIO_GPU_CMD_RESOURCE_UNREF \<Rightarrow>
          Returned (with_type len resp (gpu_device_destroy_res g (r_unref cmd)))
      | VIRTIO_GPU_CMD_SET_SCANOUT \<Rightarrow>
          Returned (len,
            g\<lparr>scanres := (if set_scanout_id (s_set cmd) = 0 then set_resource_id (s_set cmd)
                         else scanres g),
              scan_id := set_scanout_id (s_set cmd)\<rparr>, resp)
      | VIRTIO_GPU_CMD_RESOURCE_FLUSH \<Rightarrow> Returned (len, g, resp)
      | VIRTIO_GPU_CMD_SUBMIT_3D \<Rightarrow>
          obind (gpu_device_handle_submit_3d g cmd resp) (\<lambda>(g', resp'). Returned (len, g', resp'))
      | VIRTIO_GPU_CMD_TRANSFER_TO_HOST_2D \<Rightarrow>
          obind (gpu_device_send_res g (t2d_resource_id (t_2h2d cmd)) (transfer_2d (t_2h2d cmd)))
            (\<lambda>r. Returned (with_type len resp r))
      | VIRTIO_GPU_CMD_TRANSFER_TO_HOST_3D \<Rightarrow>
          obind (gpu_device_send_res g (t3d_resource_id (t_h3d cmd)) (transfer_3d (t_h3d cmd)))
            (\<lambda>r. Returned (with_type len resp r))
      | VIRTIO_GPU_CMD_RESOURCE_ATTACH_BACKING \<Rightarrow>
          Returned (with_type len resp
            (gpu_device_attach env g (att_resource_id (r_att cmd)) (r_mem cmd)
              (att_nr_entries (r_att cmd))))
      | VIRTIO_GPU_CMD_RESOURCE_DETACH_BACKING \<Rightarrow>
          Returned (with_type len resp (gpu_device_detach g (r_det cmd)))
      | VIRTIO_GPU_CMD_GET_CAPSET_INFO \<Rightarrow>
          (case gpu_device_capset_info g (capset_index cmd) resp of
             (t, resp') \<Rightarrow> Returned (e_sz_ci env, g, set_type t resp'))
      | VIRTIO_GPU_CMD_GET_CAPSET \<Rightarrow>
          (case gpu_device_capset env g (capset_id cmd) (capset_version cmd) resp of
             (n, resp') \<Rightarrow> Returned (n, g, resp'))
      | _ \<Rightarrow> Returned (len, g, resp))"

text \<open>A sane command is queued for its fence if it has one, forwarded to the hosts and executed.\<close>

definition ctrl_forward ::
  "gpu_env \<Rightarrow> gpu_device \<Rightarrow> virtio_gpu_cmd \<Rightarrow> u32 \<Rightarrow> iovec list \<Rightarrow> gpu_device outcome" where
  "ctrl_forward env g cmd rsize iovs =
     (let read_back = (hdr_type (hdr cmd) = VIRTIO_GPU_CMD_TRANSFER_FROM_HOST_3D) in
      obind (if read_back then get_meta_res_from_cmd g (t_h3d cmd) else Returned (0, 0))
        (\<lambda>(bpp, stride). obind
          (send_commands (ctx g)
             (rvgpu_header_bytes rsize 0 0 bpp stride #
              map (\<lambda>v. mem_read (vs_mem g) (iov_base v) (unat (iov_len v))) iovs)
             (\<not> read_back))
          (\<lambda>c. Returned (g\<lparr>ctx := c\<rparr>))))"

definition ctrl_execute ::
  "gpu_env \<Rightarrow> gpu_device \<Rightarrow> nat \<Rightarrow> virtio_gpu_cmd \<Rightarrow> u32 \<Rightarrow> iovec list \<Rightarrow> virtio_gpu_resp \<Rightarrow>
     (nat \<times> gpu_device \<times> virtio_gpu_resp) outcome" where
  "ctrl_execute env g req cmd rsize iovs resp =
     (let fenced = (hdr_flags (hdr cmd) AND VIRTIO_GPU_FLAG_FENCE \<noteq> 0);
          resp1 = (if fenced
                   then resp\<lparr>resp_hdr := (resp_hdr resp)
                          \<lparr>hdr_flags := VIRTIO_GPU_FLAG_FENCE, hdr_fence_id := hdr_fence_id (hdr cmd),
                           hdr_ctx_id := hdr_ctx_id (hdr cmd)\<rparr>\<rparr>
                   else resp)
      in obind (if fenced
                then obind (vqueue_request_ref g req) (\<lambda>g'. Returned (add_resp g' (resp_hdr resp1) req))
                else Returned g)
           (\<lambda>g1. obind (ctrl_forward env g1 cmd rsize iovs)
             (\<lambda>g2. ctrl_dispatch env g2 cmd resp1)))"

text \<open>The bytes of a response, cut to its length.\<close>

definition resp_bytes :: "gpu_env \<Rightarrow> virtio_gpu_resp \<Rightarrow> nat \<Rightarrow> byte list" where
  "resp_bytes env resp len = take len (e_hdr_bytes env (resp_hdr resp) @ resp_body resp)"

text \<open>The end of a turn: the answer is sent, or the request is left to its fence.\<close>

definition serve_ctrl_answer ::
  "gpu_env \<Rightarrow> nat \<Rightarrow> nat \<Rightarrow> nat \<Rightarrow> gpu_device \<Rightarrow> virtio_gpu_resp \<Rightarrow>
     (nat \<times> gpu_device \<times> virtio_gpu_resp) outcome" where
  "serve_ctrl_answer env req kick len g resp =
     (let resp' = (if gpu_reset_state g \<noteq> GPU_RESET_NONE
                   then set_type VIRTIO_GPU_RESP_ERR_DEVICE_RESET resp else resp);
          g' = (if gpu_reset_state g \<noteq> GPU_RESET_NONE then g\<lparr>st_reset := True\<rparr> else g)
      in if hdr_flags (resp_hdr resp') AND VIRTIO_GPU_FLAG_FENCE = 0 \<and>
            hdr_flags (resp_hdr resp') AND VIRTIO_GPU_FLAG_VSYNC = 0
         then obind (vqueue_send_response g' req (resp_bytes env resp' len))
                (\<lambda>g''. Returned (kick + 1, g'', resp'))
         else obind (vqueue_request_unref g' req) (\<lambda>g''. Returned (kick, g'', resp')))"

text \<open>One turn of the loop of \<open>gpu_device_serve_ctrl\<close>, from a request to its answer.\<close>

definition serve_ctrl_request ::
  "gpu_env \<Rightarrow> gpu_device \<Rightarrow> virtio_gpu_resp \<Rightarrow> nat \<Rightarrow> (nat \<times> gpu_device \<times> virtio_gpu_resp) outcome" where
  "serve_ctrl_request env g resp kick =
     obind (vqueue_get_request (e_mmap env) g 0) (\<lambda>(req, g1).
       case vs_reqs g1 req of
         None \<Rightarrow> Crashed ''request''
       | Some r \<Rightarrow>
           let rsize = ucast (iov_size (req_r r)) :: u32;
               new = fst (copy_from_iov (vs_mem g1) (req_r r) (sz_cmd (e_sizes env)));
               buf = new @ drop (length new) (st_cmd g1);
               g2 = g1\<lparr>st_cmd := buf\<rparr>;
               cmd = e_decode env buf;
               t = sanity_check_gpu_ctrl (e_sizes env) cmd (ucast rsize) True;
               resp1 = resp\<lparr>resp_hdr := (resp_hdr resp)\<lparr>hdr_type := t, hdr_flags := 0, hdr_fence_id := 0\<rparr>\<rparr>
           in obind
               (if t = VIRTIO_GPU_RESP_OK_NODATA
                then ctrl_execute env g2 req cmd rsize (req_r r) resp1
                else Returned (unat (sz_hdr (e_sizes env)), g2, resp1))
               (\<lambda>(len, g3, resp2). serve_ctrl_answer env req kick len g3 resp2))"

text \<open>
  The loop; the fuel is the number of available requests at the start, which is exactly the number
  of turns.
\<close>

definition avail_count :: "vqueue \<Rightarrow> nat" where
  "avail_count q = unat (avail_idx (vr q) - last_avail_idx q)"

fun serve_ctrl_loop ::
  "gpu_env \<Rightarrow> nat \<Rightarrow> gpu_device \<Rightarrow> virtio_gpu_resp \<Rightarrow> nat \<Rightarrow> (nat \<times> gpu_device) outcome" where
  "serve_ctrl_loop env 0 g resp kick = Returned (kick, g)"
| "serve_ctrl_loop env (Suc n) g resp kick =
     (if \<not> vqueue_are_requests_available (vs_queues g ! 0) then Returned (kick, g)
      else obind (serve_ctrl_request env g resp kick)
             (\<lambda>(kick', g', resp'). serve_ctrl_loop env n g' resp' kick'))"

definition kick_queue :: "nat \<Rightarrow> gpu_device \<Rightarrow> gpu_device" where
  "kick_queue qidx g = g\<lparr>kicks := kicks g @ [qidx]\<rparr>"

text \<open>The end of \<open>gpu_device_serve_ctrl\<close>: the resynchronisation with a renderer that came back.\<close>

definition serve_reset :: "gpu_device \<Rightarrow> gpu_device" where
  "serve_reset g =
     (if st_reset g
      then (case gpu_reset_state g of
              GPU_RESET_NONE \<Rightarrow>
                g\<lparr>st_reset := False, ctx_calls := ctx_calls g @ [Ctx_wait GPU_RESET_NONE]\<rparr>
            | GPU_RESET_TRUE \<Rightarrow>
                g\<lparr>ctx := rvgpu_frontend_reset_state (ctx g) GPU_RESET_INITIATED,
                  gpu_reset_state := GPU_RESET_INITIATED,
                  ctx_calls := ctx_calls g @ [Ctx_wakeup]\<rparr>
            | GPU_RESET_INITIATED \<Rightarrow> g)
      else g)"

definition gpu_device_serve_ctrl :: "gpu_env \<Rightarrow> byte list \<Rightarrow> gpu_device \<Rightarrow> gpu_device outcome" where
  "gpu_device_serve_ctrl env body g =
     obind (gpu_device_serve_fences env g) (\<lambda>(kick, g1).
       obind (serve_ctrl_loop env (avail_count (vs_queues g1 ! 0)) g1
                \<lparr> resp_hdr = zero_hdr, resp_body = body \<rparr> kick)
         (\<lambda>(kick', g2). Returned (serve_reset (if kick' \<noteq> 0 then kick_queue 0 g2 else g2))))"

section \<open>The cursor queue\<close>

definition serve_cursor_request :: "gpu_env \<Rightarrow> byte list \<Rightarrow> gpu_device \<Rightarrow> gpu_device outcome" where
  "serve_cursor_request env stack g =
     obind (vqueue_get_request (e_mmap env) g 1) (\<lambda>(req, g1).
       case vs_reqs g1 req of
         None \<Rightarrow> Crashed ''request''
       | Some r \<Rightarrow>
           let cmdsize = iov_size (req_r r);
               new = fst (copy_from_iov (vs_mem g1) (req_r r) (sz_cmd (e_sizes env)));
               cmd = e_decode env (new @ drop (length new) stack);
               t = sanity_check_gpu_cursor (e_sizes env) cmd cmdsize True;
               fenced = (hdr_flags (hdr cmd) AND VIRTIO_GPU_FLAG_FENCE \<noteq> 0);
               h = zero_hdr\<lparr>hdr_type := t\<rparr>;
               resp = (if t = VIRTIO_GPU_RESP_OK_NODATA \<and> fenced
                       then h\<lparr>hdr_flags := VIRTIO_GPU_FLAG_FENCE, hdr_fence_id := hdr_fence_id (hdr cmd),
                              hdr_ctx_id := hdr_ctx_id (hdr cmd)\<rparr>
                       else h)
           in obind
               (if t = VIRTIO_GPU_RESP_OK_NODATA
                then obind (send_commands (ctx g1)
                       (rvgpu_header_bytes (ucast cmdsize) 0 16 0 0 #
                        map (\<lambda>v. mem_read (vs_mem g1) (iov_base v) (unat (iov_len v))) (req_r r)) True)
                       (\<lambda>c. Returned (g1\<lparr>ctx := c\<rparr>))
                else Returned g1)
               (\<lambda>g2. vqueue_send_response g2 req (e_hdr_bytes env resp)))"

fun serve_cursor_loop ::
  "gpu_env \<Rightarrow> byte list \<Rightarrow> nat \<Rightarrow> gpu_device \<Rightarrow> bool \<Rightarrow> (bool \<times> gpu_device) outcome" where
  "serve_cursor_loop env stack 0 g kick = Returned (kick, g)"
| "serve_cursor_loop env stack (Suc n) g kick =
     (if \<not> vqueue_are_requests_available (vs_queues g ! 1) then Returned (kick, g)
      else obind (serve_cursor_request env stack g) (\<lambda>g'. serve_cursor_loop env stack n g' True))"

definition gpu_device_serve_cursor :: "gpu_env \<Rightarrow> byte list \<Rightarrow> gpu_device \<Rightarrow> gpu_device outcome" where
  "gpu_device_serve_cursor env stack g =
     obind (serve_cursor_loop env stack (avail_count (vs_queues g ! 1)) g False)
       (\<lambda>(kick, g'). Returned (if kick then kick_queue 1 g' else g'))"

text \<open>
  \<open>gpu_device_serve\<close>: the result of reading the event counter (its return value and whether errno
  is \<open>EAGAIN\<close>), then both queues.
\<close>

definition gpu_device_serve ::
  "gpu_env \<Rightarrow> byte list \<Rightarrow> byte list \<Rightarrow> int \<Rightarrow> bool \<Rightarrow> gpu_device \<Rightarrow> gpu_device outcome" where
  "gpu_device_serve env body stack ret eagain g =
     (if ret > 0 \<and> ret \<noteq> 8 then Exited ''wrong read from eventfd''
      else if ret < 0 \<and> \<not> eagain then Exited ''read failed from eventfd''
      else obind (gpu_device_serve_ctrl env body g) (gpu_device_serve_cursor env stack))"

section \<open>Draining\<close>

text \<open>The answer that ends a waiting command when the device goes away.\<close>

definition drain_hdr :: "virtio_gpu_ctrl_hdr \<Rightarrow> virtio_gpu_ctrl_hdr" where
  "drain_hdr h = h\<lparr>hdr_type := VIRTIO_GPU_RESP_OK_NODATA\<rparr>"

fun drain_async_loop :: "gpu_env \<Rightarrow> cmd list \<Rightarrow> nat \<Rightarrow> gpu_device \<Rightarrow> (nat \<times> gpu_device) outcome" where
  "drain_async_loop env [] n g = Returned (n, g)"
| "drain_async_loop env (c # cs) n g =
     obind (vqueue_send_response g (cmd_req c) (e_hdr_bytes env (drain_hdr (cmd_hdr c))))
       (\<lambda>g'. drain_async_loop env cs (n + 1) (g'\<lparr>async_cmds := cs\<rparr>))"

fun drain_queue_loop :: "gpu_env \<Rightarrow> virtio_gpu_ctrl_hdr \<Rightarrow> nat \<Rightarrow> nat \<Rightarrow> nat \<Rightarrow> gpu_device \<Rightarrow> (nat \<times> gpu_device) outcome" where
  "drain_queue_loop env h qi 0 n g = Returned (n, g)"
| "drain_queue_loop env h qi (Suc k) n g =
     (if \<not> vqueue_are_requests_available (vs_queues g ! qi) then Returned (n, g)
      else obind (vqueue_get_request (e_mmap env) g qi) (\<lambda>(req, g1).
             obind (vqueue_send_response g1 req (e_hdr_bytes env (drain_hdr h)))
               (drain_queue_loop env h qi k (n + 1))))"

text \<open>
  \<open>gpu_device_drain_once\<close>: everything waiting for a fence, then everything in the two queues; each
  queue that got an answer is kicked.
\<close>

definition gpu_device_drain_once :: "gpu_env \<Rightarrow> gpu_device \<Rightarrow> (nat \<times> gpu_device) outcome" where
  "gpu_device_drain_once env g =
     obind (drain_async_loop env (async_cmds g) 0 g) (\<lambda>(n, g1).
       obind (drain_queue_loop env zero_hdr 0 (avail_count (vs_queues g1 ! 0)) 0 g1) (\<lambda>(n0, g2).
         obind (drain_queue_loop env zero_hdr 1 (avail_count (vs_queues g2 ! 1)) 0 g2) (\<lambda>(n1, g3).
           let g4 = (if n + n0 \<noteq> 0 then kick_queue 0 g3 else g3);
               g5 = (if n1 \<noteq> 0 then kick_queue 1 g4 else g4)
           in Returned (n + n0 + n1, g5))))"

text \<open>
  \<open>gpu_device_config\<close>: the guest's copy of the configuration, when the ioctl succeeds, acknowledges
  events.
\<close>

definition gpu_device_config :: "u32 option \<Rightarrow> gpu_device \<Rightarrow> gpu_device" where
  "gpu_device_config events_clear g =
     (case events_clear of
        None \<Rightarrow> g
      | Some e \<Rightarrow> if e \<noteq> 0 then g\<lparr>events_read := events_read g AND NOT e\<rparr> else g)"

definition backend_reset_state :: "gpu_device \<Rightarrow> reset_state \<Rightarrow> gpu_device" where
  "backend_reset_state g st = g\<lparr>gpu_reset_state := st\<rparr>"

end
