(* ===== verification/Gpu_Frames.thy ===== *)
theory Gpu_Frames
  imports Gpu_Device
begin

text \<open>
  What the operations of the GPU device leave alone: the queue operations keep the device part of
  the state, the commands keep the queues and the requests, and every send keeps the resource
  table.  Each frame is a relation on states, so that the frames of the composed handlers follow
  by transitivity.
\<close>

section \<open>Sends keep the resource table\<close>

lemma rvgpu_ctx_send_reslist [simp]: "reslist (snd (rvgpu_ctx_send c bs)) = reslist c"
  by (simp add: rvgpu_ctx_send_def split: prod.splits)

lemma send_bufs_reslist [simp]: "reslist (send_bufs c bss) = reslist c"
  unfolding send_bufs_def by (induction bss arbitrary: c) simp_all

lemma write_patch_reslist [simp]: "reslist (write_patch m c d) = reslist c"
  by (simp add: write_patch_def)

lemma add_patch_reslist: "add_patch m c d off a l = Returned (c', d') \<Longrightarrow> reslist c' = reslist c"
  by (auto simp: add_patch_def Let_def split: if_splits)

lemma send_data_loop_reslist:
  "send_data_loop m c d vs off skip len = Returned (c', d') \<Longrightarrow> reslist c' = reslist c"
  by (induction m c d vs off skip len arbitrary: c' d' rule: send_data_loop.induct)
    (auto simp: Let_def obind_Returned_iff dest: add_patch_reslist split: if_splits)

lemma gpu_device_send_data_reslist:
  "gpu_device_send_data m c vs skip len = Returned c' \<Longrightarrow> reslist c' = reslist c"
  by (auto simp: gpu_device_send_data_def obind_Returned_iff Let_def dest: send_data_loop_reslist)

lemma rvgpu_ctx_transfer_to_host_reslist:
  "rvgpu_ctx_transfer_to_host m c t res = Returned (rc, c') \<Longrightarrow> reslist c' = reslist c"
  by (auto simp: rvgpu_ctx_transfer_to_host_def obind_Returned_iff Let_def case_prod_beta
      dest: gpu_device_send_data_reslist split: if_splits)

lemma gpu_device_send_command_reslist:
  "gpu_device_send_command c b all = Returned c' \<Longrightarrow> reslist c' = reslist c"
  by (auto simp: gpu_device_send_command_def split: if_splits list.splits prod.splits)

lemma send_commands_reslist:
  "send_commands c bs all = Returned c' \<Longrightarrow> reslist c' = reslist c"
  by (induction c bs all arbitrary: c' rule: send_commands.induct)
    (auto simp: obind_Returned_iff dest: gpu_device_send_command_reslist)

section \<open>The queue operations keep the device\<close>

definition same_device :: "gpu_device \<Rightarrow> gpu_device \<Rightarrow> bool" where
  "same_device g g' = (vq_state.more g' = vq_state.more g)"

lemma same_device_refl [simp]: "same_device g g"
  by (simp add: same_device_def)

lemma same_device_trans: "same_device g g' \<Longrightarrow> same_device g' g'' \<Longrightarrow> same_device g g''"
  by (simp add: same_device_def)

lemma same_device_fields:
  assumes "same_device g g'"
  shows "ctx g' = ctx g" "curr_mem g' = curr_mem g" "max_mem g' = max_mem g"
    "async_cmds g' = async_cmds g" "fence_pipe g' = fence_pipe g"
    "gpu_reset_state g' = gpu_reset_state g" "st_reset g' = st_reset g" "st_cmd g' = st_cmd g"
    "capdata g' = capdata g" "kicks g' = kicks g"
  using assms by (cases g; cases g'; simp add: same_device_def)+

lemma get_request_device:
  "vqueue_get_request mmap g qi = Returned (i, g') \<Longrightarrow> same_device g g'"
  by (elim vqueue_get_request_ReturnedE) (simp add: same_device_def)

lemma request_ref_device: "vqueue_request_ref g i = Returned g' \<Longrightarrow> same_device g g'"
  by (auto simp: vqueue_request_ref_def same_device_def split: option.splits)

lemma request_unref_device: "vqueue_request_unref g i = Returned g' \<Longrightarrow> same_device g g'"
  by (auto simp: vqueue_request_unref_def same_device_def Let_def split: option.splits if_splits)

lemma send_response_device: "vqueue_send_response g i bs = Returned g' \<Longrightarrow> same_device g g'"
  by (auto simp: vqueue_send_response_def Let_def same_device_def split: option.splits prod.splits
      dest!: request_unref_device)

section \<open>The commands keep the queues\<close>

definition same_queues :: "gpu_device \<Rightarrow> gpu_device \<Rightarrow> bool" where
  "same_queues g g' =
     (vs_queues g' = vs_queues g \<and> vs_reqs g' = vs_reqs g \<and> vs_next g' = vs_next g \<and>
      vs_mem g' = vs_mem g \<and> async_cmds g' = async_cmds g \<and> fence_pipe g' = fence_pipe g \<and>
      max_mem g' = max_mem g \<and> gpu_reset_state g' = gpu_reset_state g \<and> kicks g' = kicks g \<and>
      capdata g' = capdata g)"

lemma same_queues_refl [simp]: "same_queues g g"
  by (simp add: same_queues_def)

lemma same_queues_trans: "same_queues g g' \<Longrightarrow> same_queues g' g'' \<Longrightarrow> same_queues g g''"
  by (simp add: same_queues_def)

lemma gpu_device_free_res_eq:
  "gpu_device_free_res g res =
     g\<lparr>vs_munmaps := vs_munmaps g @ unmap_iovs (res_iovs res),
       curr_mem := curr_mem g - iov_size (res_iovs res)\<rparr>"
proof -
  have "foldl (\<lambda>g v. g\<lparr>vs_munmaps := vs_munmaps g @ [unmap_guest (iov_base v) (iov_len v)],
                     curr_mem := curr_mem g - iov_len v\<rparr>) g vs =
     g\<lparr>vs_munmaps := vs_munmaps g @ unmap_iovs vs, curr_mem := curr_mem g - iov_size vs\<rparr>" for vs
    by (induction vs arbitrary: g) (simp_all add: unmap_iovs_def algebra_simps)
  then show ?thesis
    by (simp add: gpu_device_free_res_def)
qed

lemma create_res_queues: "same_queues g (snd (gpu_device_create_res g i info))"
  by (simp add: gpu_device_create_res_def rvgpu_ctx_res_create_def same_queues_def split: option.splits)

lemma destroy_res_queues: "same_queues g (snd (gpu_device_destroy_res g i))"
  by (simp add: gpu_device_destroy_res_def gpu_device_free_res_eq same_queues_def Let_def
      split: option.splits)

lemma attach_queues: "same_queues g (snd (gpu_device_attach env g i mem n))"
  by (simp add: gpu_device_attach_def same_queues_def Let_def split: option.splits)

lemma detach_queues: "same_queues g (snd (gpu_device_detach g i))"
  by (simp add: gpu_device_detach_def gpu_device_free_res_eq same_queues_def Let_def
      split: option.splits)

lemma send_res_frame:
  assumes "gpu_device_send_res g i t = Returned (ty, g')"
  shows "same_queues g g' \<and> reslist (ctx g') = reslist (ctx g) \<and> curr_mem g' = curr_mem g"
  using assms
  by (auto simp: gpu_device_send_res_def gpu_device_send_patched_def obind_Returned_iff same_queues_def
      dest: rvgpu_ctx_transfer_to_host_reslist split: option.splits if_splits)

lemma set_type_flags [simp]: "hdr_flags (resp_hdr (set_type t r)) = hdr_flags (resp_hdr r)"
  by (simp add: set_type_def)

lemma put_body_hdr [simp]: "resp_hdr (put_body bs r) = resp_hdr r"
  by (simp add: put_body_def)

lemma submit_3d_step_frame:
  assumes "submit_3d_step buf k g resp = Returned (g', resp')"
  shows "same_queues g g' \<and> reslist (ctx g') = reslist (ctx g) \<and> curr_mem g' = curr_mem g \<and>
    hdr_flags (resp_hdr resp') = hdr_flags (resp_hdr resp)"
  using assms
  by (auto simp: submit_3d_step_def obind_Returned_iff dest!: send_res_frame split: if_splits)

lemma submit_3d_loop_frame:
  "submit_3d_loop buf size4 off g resp = Returned (g', resp') \<Longrightarrow>
     same_queues g g' \<and> reslist (ctx g') = reslist (ctx g) \<and> curr_mem g' = curr_mem g \<and>
     hdr_flags (resp_hdr resp') = hdr_flags (resp_hdr resp)"
proof (induction buf size4 off g resp arbitrary: g' resp' rule: submit_3d_loop.induct)
  case (1 buf size4 off g resp)
  show ?case
  proof (cases "off < size4 div 4")
    case False
    with 1(2) show ?thesis
      by (subst (asm) submit_3d_loop.simps) simp
  next
    case True
    then obtain g1 r1 where s: "submit_3d_step buf (unat off) g resp = Returned (g1, r1)"
      and rec: "submit_3d_loop buf size4 (off + (drop_bit 16 (buf (unat off)) + 1)) g1 r1 =
        Returned (g', resp')"
      using 1(2) by (subst (asm) submit_3d_loop.simps) (auto simp: obind_Returned_iff)
    from submit_3d_step_frame [OF s] 1(1) [OF _ rec] True show ?thesis
      using same_queues_trans by auto
  qed
qed

lemma ctrl_dispatch_queues:
  assumes "ctrl_dispatch env g cmd resp = Returned (len, g', resp')"
  shows "same_queues g g' \<and> hdr_flags (resp_hdr resp') = hdr_flags (resp_hdr resp)"
  using assms create_res_queues destroy_res_queues attach_queues detach_queues
  by (cases "hdr_type (hdr cmd)")
    (auto simp: ctrl_dispatch_def Let_def with_type_def obind_Returned_iff same_queues_def
      gpu_device_handle_submit_3d_def gpu_device_capset_info_def gpu_device_capset_def
      dest!: send_res_frame submit_3d_loop_frame split: prod.splits option.splits if_splits)

lemma ctrl_forward_frame:
  assumes "ctrl_forward env g cmd rsize iovs = Returned g'"
  shows "same_queues g g' \<and> reslist (ctx g') = reslist (ctx g) \<and> curr_mem g' = curr_mem g"
  using assms
  by (auto simp: ctrl_forward_def Let_def obind_Returned_iff same_queues_def
      dest!: gpu_device_send_command_reslist send_commands_reslist)

lemma ctrl_execute_ReturnedE:
  assumes "ctrl_execute env g req cmd rsize iovs resp = Returned (len, g', resp')"
  obtains (fenced) g0 g2 r1 where
      "hdr_flags (hdr cmd) AND VIRTIO_GPU_FLAG_FENCE \<noteq> 0"
      "r1 = resp\<lparr>resp_hdr := (resp_hdr resp)
         \<lparr>hdr_flags := VIRTIO_GPU_FLAG_FENCE, hdr_fence_id := hdr_fence_id (hdr cmd),
          hdr_ctx_id := hdr_ctx_id (hdr cmd)\<rparr>\<rparr>"
      "vqueue_request_ref g req = Returned g0"
      "ctrl_forward env (add_resp g0 (resp_hdr r1) req) cmd rsize iovs = Returned g2"
      "ctrl_dispatch env g2 cmd r1 = Returned (len, g', resp')"
    | (plain) g2 where
      "hdr_flags (hdr cmd) AND VIRTIO_GPU_FLAG_FENCE = 0"
      "ctrl_forward env g cmd rsize iovs = Returned g2"
      "ctrl_dispatch env g2 cmd resp = Returned (len, g', resp')"
proof (cases "hdr_flags (hdr cmd) AND VIRTIO_GPU_FLAG_FENCE = 0")
  case True
  then show ?thesis
    using assms by (auto simp: ctrl_execute_def Let_def obind_Returned_iff intro: that(2))
next
  case False
  with assms show ?thesis
    unfolding ctrl_execute_def Let_def
    by (simp add: obind_Returned_iff, elim exE conjE, intro that(1)) auto
qed

end
