(* ===== verification/Gpu_Memory.thy ===== *)
theory Gpu_Memory
  imports Gpu_Frames
begin

text \<open>
  The memory accounting of the GPU device: \<open>curr_mem\<close> is the total length of the backing of all
  resources, the limit \<open>max_mem\<close> is respected, and detaching gives back what attaching took.  The
  invariants of the resource table are lifted from single commands to \<open>gpu_device_serve_ctrl\<close> once,
  in a locale.
\<close>

section \<open>Invariants of the table, from a command to the handler\<close>

text \<open>
  A predicate that depends on the table and the two counters only, and that every sane command
  preserves.  \<open>ok\<close> are the environments for which it does.
\<close>

locale table_invariant =
  fixes P :: "gpu_device \<Rightarrow> bool"
    and ok :: "gpu_env \<Rightarrow> bool"
  assumes P_cong: "P g \<Longrightarrow> reslist (ctx g') = reslist (ctx g) \<Longrightarrow> curr_mem g' = curr_mem g \<Longrightarrow>
      max_mem g' = max_mem g \<Longrightarrow> P g'"
    and P_dispatch: "ok env \<Longrightarrow> P g \<Longrightarrow> ctrl_dispatch env g cmd resp = Returned (len, g', resp') \<Longrightarrow>
      sanity_check_gpu_ctrl (e_sizes env) cmd clen True = VIRTIO_GPU_RESP_OK_NODATA \<Longrightarrow> P g'"
begin

lemma P_device: "same_device g g' \<Longrightarrow> P g \<Longrightarrow> P g'"
  using P_cong [of g g'] same_device_fields [of g g'] by simp

lemma P_execute:
  assumes "ok env" "P g" "ctrl_execute env g req cmd rsize iovs resp = Returned (len, g', resp')"
    and "sanity_check_gpu_ctrl (e_sizes env) cmd clen True = VIRTIO_GPU_RESP_OK_NODATA"
  shows "P g'"
  using assms(3)
proof (cases rule: ctrl_execute_ReturnedE)
  case (fenced g0 g2 r1)
  have "P (add_resp g0 (resp_hdr r1) req)"
    using P_cong [OF P_device [OF request_ref_device [OF fenced(3)] assms(2)],
        of "add_resp g0 (resp_hdr r1) req"]
    by (simp add: add_resp_def)
  then have "P g2"
    using ctrl_forward_frame [OF fenced(4)] P_cong by (auto simp: same_queues_def)
  from P_dispatch [OF assms(1) this fenced(5) assms(4)] show ?thesis .
next
  case (plain g2)
  then have "P g2"
    using ctrl_forward_frame [OF plain(2)] assms(2) P_cong by (auto simp: same_queues_def)
  from P_dispatch [OF assms(1) this plain(3) assms(4)] show ?thesis .
qed

lemma P_request:
  assumes "ok env" "P g" "serve_ctrl_request env g resp kick = Returned (k, g', resp')"
  shows "P g'"
proof -
  obtain req g1 r where g1: "vqueue_get_request (e_mmap env) g 0 = Returned (req, g1)"
    "vs_reqs g1 req = Some r"
    using assms(3) by (auto simp: serve_ctrl_request_def obind_Returned_iff split: option.splits)
  have p1: "P (g1\<lparr>st_cmd := b\<rparr>)" for b
    using P_device [OF get_request_device [OF g1(1)] assms(2)] P_cong by fastforce
  note e = P_execute [OF assms(1) p1]
  have p4: "P (g3\<lparr>st_reset := b\<rparr>)" if "P g3" for g3 b
    using P_cong [OF that, of "g3\<lparr>st_reset := b\<rparr>"] by simp
  show ?thesis
    using assms(3) g1 p1 p4
    by (auto simp: serve_ctrl_request_def serve_ctrl_answer_def Let_def obind_Returned_iff split: if_splits
        dest!: e intro: P_device [OF send_response_device] P_device [OF request_unref_device])
qed

lemma P_loop:
  "ok env \<Longrightarrow> P g \<Longrightarrow> serve_ctrl_loop env n g resp kick = Returned (k, g') \<Longrightarrow> P g'"
  by (induction env n g resp kick rule: serve_ctrl_loop.induct)
    (auto simp: obind_Returned_iff split: if_splits dest: P_request)

lemma P_process_fences_loop:
  "P g \<Longrightarrow> process_fences_loop env f cs kept n g = Returned (k, g') \<Longrightarrow> P g'"
proof (induction env f cs kept n g rule: process_fences_loop.induct)
  case (1 env fence kept n g)
  then show ?case
    using P_cong [of g "g\<lparr>async_cmds := kept\<rparr>"] by auto
next
  case (2 env fence c cs kept n g)
  then show ?case
    by (auto simp: obind_Returned_iff split: if_splits dest: P_device [OF send_response_device])
qed

lemma P_serve_fences:
  "P g \<Longrightarrow> serve_fences_loop env fs n g = Returned (k, g') \<Longrightarrow> P g'"
  by (induction env fs n g rule: serve_fences_loop.induct)
    (auto simp: obind_Returned_iff process_fences_def dest: P_process_fences_loop)

lemma P_serve_ctrl:
  assumes "ok env" "P g" "gpu_device_serve_ctrl env body g = Returned g'"
  shows "P g'"
proof -
  obtain kick g1 k g2 where g1: "serve_fences_loop env (fence_pipe g) 0 (g\<lparr>fence_pipe := []\<rparr>) = Returned (kick, g1)"
    and g2: "serve_ctrl_loop env (avail_count (vs_queues g1 ! 0)) g1
      \<lparr> resp_hdr = zero_hdr, resp_body = body \<rparr> kick = Returned (k, g2)"
    and g': "g' = serve_reset (if k \<noteq> 0 then kick_queue 0 g2 else g2)"
    using assms(3) by (auto simp: gpu_device_serve_ctrl_def gpu_device_serve_fences_def obind_Returned_iff)
  have "P (g\<lparr>fence_pipe := []\<rparr>)"
    using P_cong [OF assms(2)] by simp
  from P_loop [OF assms(1) P_serve_fences [OF this g1] g2] have "P g2" .
  then show ?thesis
    unfolding g'
    by (rule P_cong)
      (auto simp: serve_reset_def kick_queue_def rvgpu_frontend_reset_state_def split: reset_state.splits)
qed

end

section \<open>The accounting\<close>

definition mem_weight :: "rvgpu_res \<Rightarrow> u64" where
  "mem_weight r = iov_size (res_iovs r)"

definition mem_accounted :: "gpu_device \<Rightarrow> bool" where
  "mem_accounted g = (reslist_inv (ctx g) \<and> curr_mem g = reslist_total mem_weight (ctx g))"

lemma mem_accounted_cong:
  "mem_accounted g \<Longrightarrow> reslist (ctx g') = reslist (ctx g) \<Longrightarrow> curr_mem g' = curr_mem g \<Longrightarrow> mem_accounted g'"
  by (simp add: mem_accounted_def reslist_inv_def reslist_total_def)

lemma mem_accounted_create:
  assumes "mem_accounted g"
  shows "mem_accounted (snd (gpu_device_create_res g i info))"
proof (cases "rvgpu_ctx_res_find (ctx g) i")
  case None
  have "mem_weight (new_res info i) = 0"
    by (simp add: mem_weight_def new_res_def res_iovs_def)
  with assms None rt.inv_create [of "ctx g" i info] rt.total_create [of mem_weight "ctx g" info i]
  show ?thesis
    by (simp add: gpu_device_create_res_def mem_accounted_def case_prod_beta)
qed (use assms in \<open>simp add: gpu_device_create_res_def\<close>)

lemma mem_accounted_destroy:
  assumes "mem_accounted g"
  shows "mem_accounted (snd (gpu_device_destroy_res g i))"
proof (cases "rvgpu_ctx_res_find (ctx g) i")
  case (Some res)
  with assms rt.inv_destroy [of "ctx g" i] rt.total_destroy [of "ctx g" i res mem_weight] show ?thesis
    by (simp add: gpu_device_destroy_res_def mem_accounted_def gpu_device_free_res_eq Let_def mem_weight_def)
qed (use assms in \<open>simp add: gpu_device_destroy_res_def\<close>)

lemma mem_accounted_attach:
  assumes "mem_accounted g"
  shows "mem_accounted (snd (gpu_device_attach env g i mem n))"
proof (cases "rvgpu_ctx_res_find (ctx g) i")
  case (Some res)
  let ?f = "\<lambda>r. r\<lparr>backing := Some (map_entries (e_mmap env) mem (unat n))\<rparr>"
  have "mem_weight (?f res) = iov_size (map_entries (e_mmap env) mem (unat n))"
    by (simp add: mem_weight_def res_iovs_def)
  moreover have "mem_weight res = 0" if "backing res = None"
    using that by (simp add: mem_weight_def res_iovs_def)
  ultimately show ?thesis
    using assms Some rt.inv_update [of ?f "ctx g" i] rt.total_update [of "ctx g" i res mem_weight ?f]
    by (auto simp: gpu_device_attach_def mem_accounted_def Let_def)
qed (use assms in \<open>simp add: gpu_device_attach_def\<close>)

lemma mem_accounted_detach:
  assumes "mem_accounted g"
  shows "mem_accounted (snd (gpu_device_detach g i))"
proof (cases "rvgpu_ctx_res_find (ctx g) i")
  case (Some res)
  let ?f = "\<lambda>r. r\<lparr>backing := None\<rparr> :: rvgpu_res"
  have "mem_weight (?f res) = 0"
    by (simp add: mem_weight_def res_iovs_def)
  then show ?thesis
    using assms Some rt.inv_update [of ?f "ctx g" i] rt.total_update [of "ctx g" i res mem_weight ?f]
    by (auto simp: gpu_device_detach_def mem_accounted_def gpu_device_free_res_eq Let_def mem_weight_def)
qed (use assms in \<open>simp add: gpu_device_detach_def\<close>)

lemma mem_accounted_dispatch:
  assumes "mem_accounted g" and "ctrl_dispatch env g cmd resp = Returned (len, g', resp')"
  shows "mem_accounted g'"
  using assms mem_accounted_create mem_accounted_destroy mem_accounted_attach mem_accounted_detach
  by (cases "hdr_type (hdr cmd)")
    (auto simp: ctrl_dispatch_def Let_def with_type_def obind_Returned_iff gpu_device_handle_submit_3d_def
      dest!: send_res_frame submit_3d_loop_frame intro: mem_accounted_cong split: prod.splits)

interpretation acc: table_invariant mem_accounted "\<lambda>_. True"
  by unfold_locales (auto intro: mem_accounted_cong mem_accounted_dispatch)

section \<open>The limit\<close>

text \<open>The backing of all resources in bytes, as a number.\<close>

definition backing_total :: "ctx_priv \<Rightarrow> nat" where
  "backing_total c = (\<Sum>r\<leftarrow>reslist c. iov_total (res_iovs r))"

definition mem_limited :: "gpu_device \<Rightarrow> bool" where
  "mem_limited g =
     (mem_accounted g \<and> max_mem g \<noteq> 0 \<and> unat (max_mem g) < 2 ^ 63 \<and>
      backing_total (ctx g) \<le> unat (max_mem g))"

text \<open>Layouts in which a command fits into a megabyte and an entry is not empty.\<close>

definition small_commands :: "gpu_env \<Rightarrow> bool" where
  "small_commands env =
     (unat (sz_cmd (e_sizes env)) < 2 ^ 20 \<and> 0 < unat (sz_mem_entry (e_sizes env)) \<and>
      unat (sz_mem_entry (e_sizes env)) < 2 ^ 32 \<and> unat (sz_r_att (e_sizes env)) < 2 ^ 32)"

lemma iov_size_of_nat: "iov_size vs = of_nat (iov_total vs)"
  by (induction vs) simp_all

lemma total_of_nat: "reslist_total mem_weight c = of_nat (backing_total c)"
proof -
  have "sum_list (map mem_weight l) = of_nat (\<Sum>r\<leftarrow>l. iov_total (res_iovs r))" for l
    by (induction l) (simp_all add: mem_weight_def iov_size_of_nat)
  then show ?thesis
    by (simp add: reslist_total_def backing_total_def)
qed

lemma sum_remove_le:
  "(\<Sum>r\<leftarrow>list_remove_res l i. w r) \<le> (\<Sum>r\<leftarrow>l. (w r :: nat))"
  by (induction l) auto

lemma sum_update:
  "gpu_device_get_res l i = Some r \<Longrightarrow>
     (\<Sum>r\<leftarrow>list_update_res l i f. (w r :: nat)) + w r = (\<Sum>r\<leftarrow>l. w r) + w (f r)"
  by (induction l) (auto split: if_splits)

lemma iov_total_map_entries_le:
  "iov_total (map_entries mmap mem n) \<le> n * 2 ^ 32"
proof (induction n)
  case (Suc n)
  have "iov_total (map_entries mmap mem (Suc n)) =
      iov_total (map_entries mmap mem n) + unat (mem_length (mem n))"
    by (simp add: map_entries_def iov_total_def)
  also have "\<dots> \<le> n * 2 ^ 32 + 2 ^ 32"
    using Suc unat_u32_less [of "mem_length (mem n)"] by (intro add_mono) simp_all
  finally show ?case
    by simp
qed (simp add: map_entries_def)

lemma attach_limit:
  assumes "mem_limited g" and n: "unat n < 2 ^ 20"
  shows "max_mem g < curr_mem g + iov_size (map_entries mmap mem (unat (n :: u32))) \<longleftrightarrow>
    unat (max_mem g) < backing_total (ctx g) + iov_total (map_entries mmap mem (unat n))"
proof -
  let ?vs = "map_entries mmap mem (unat n)"
  have cur: "unat (curr_mem g) = backing_total (ctx g)"
    using assms(1) unat_u64_less [of "max_mem g"]
    by (simp add: mem_limited_def mem_accounted_def total_of_nat unat_of_nat take_bit_nat_eq_self_iff)
  have "iov_total ?vs \<le> unat n * 2 ^ 32"
    by (rule iov_total_map_entries_le)
  also have "\<dots> < 2 ^ 20 * 2 ^ 32"
    using n by (intro mult_strict_right_mono) simp_all
  finally have v: "iov_total ?vs < 2 ^ 52"
    by simp
  have "unat (iov_size ?vs) = iov_total ?vs"
    using v by (simp add: iov_size_total)
  then have "unat (curr_mem g + iov_size ?vs) = backing_total (ctx g) + iov_total ?vs"
    using cur v assms(1) by (subst unat_add_lem [THEN iffD1]) (simp_all add: mem_limited_def)
  then show ?thesis
    by (simp add: word_less_nat_alt)
qed

lemma mem_limited_attach:
  assumes "mem_limited g" and n: "unat n < 2 ^ 20"
  shows "mem_limited (snd (gpu_device_attach env g i mem n))"
proof -
  let ?vs = "map_entries (e_mmap env) mem (unat n)"
  let ?g' = "snd (gpu_device_attach env g i mem n)"
  have acc: "mem_accounted ?g'"
    using assms(1) mem_accounted_attach by (simp add: mem_limited_def)
  show ?thesis
  proof (cases "\<exists>res. rvgpu_ctx_res_find (ctx g) i = Some res \<and> backing res = None \<and>
      \<not> max_mem g < curr_mem g + iov_size ?vs")
    case False
    then have "ctx ?g' = ctx g \<and> max_mem ?g' = max_mem g"
      using assms(1) by (auto simp: gpu_device_attach_def Let_def mem_limited_def split: option.splits)
    with acc assms(1) show ?thesis
      by (simp add: mem_limited_def)
  next
    case True
    then obtain res where ok: "rvgpu_ctx_res_find (ctx g) i = Some res" "backing res = None"
      "\<not> max_mem g < curr_mem g + iov_size ?vs"
      by blast
    then have g': "ctx ?g' = res_update (ctx g) i (\<lambda>r. r\<lparr>backing := Some ?vs\<rparr>)"
      "max_mem ?g' = max_mem g"
      by (simp_all add: gpu_device_attach_def Let_def)
    have "backing_total (ctx ?g') = backing_total (ctx g) + iov_total ?vs"
      using sum_update [of "reslist (ctx g)" i res "\<lambda>r. iov_total (res_iovs r)" "\<lambda>r. r\<lparr>backing := Some ?vs\<rparr>"]
        ok(1,2) g'(1)
      by (simp add: backing_total_def res_update_def rvgpu_ctx_res_find_def res_iovs_def)
    with ok(3) attach_limit [OF assms] g'(2) acc assms(1) show ?thesis
      by (simp add: mem_limited_def)
  qed
qed

lemma sane_attach_entries:
  assumes "small_commands env"
    and "sanity_check_gpu_ctrl (e_sizes env) cmd clen True = VIRTIO_GPU_RESP_OK_NODATA"
    and "hdr_type (hdr cmd) = VIRTIO_GPU_CMD_RESOURCE_ATTACH_BACKING"
  shows "unat (att_nr_entries (r_att cmd)) < 2 ^ 20"
proof (cases "unat (att_nr_entries (r_att cmd)) = 0")
  case False
  let ?n = "unat (att_nr_entries (r_att cmd))"
  have "unat (sz_r_att (e_sizes env)) + (?n - 1 + 1) * unat (sz_mem_entry (e_sizes env))
      \<le> unat (sz_cmd (e_sizes env))"
    using assms False by (intro sanity_attach_entries_bound) (auto simp: small_commands_def)
  then have "?n * unat (sz_mem_entry (e_sizes env)) \<le> unat (sz_cmd (e_sizes env))"
    using False by simp
  moreover have "?n \<le> ?n * unat (sz_mem_entry (e_sizes env))"
    using assms(1) by (simp add: small_commands_def)
  ultimately have "?n \<le> unat (sz_cmd (e_sizes env))"
    by (rule order_trans [rotated])
  with assms(1) show ?thesis
    by (simp add: small_commands_def)
qed simp

lemma mem_limited_dispatch:
  assumes "small_commands env" and "mem_limited g"
    and "ctrl_dispatch env g cmd resp = Returned (len, g', resp')"
    and "sanity_check_gpu_ctrl (e_sizes env) cmd clen True = VIRTIO_GPU_RESP_OK_NODATA"
  shows "mem_limited g'"
proof -
  have acc: "mem_accounted g'"
    using assms(2,3) mem_accounted_dispatch by (auto simp: mem_limited_def)
  have max: "max_mem g' = max_mem g"
    using ctrl_dispatch_queues [OF assms(3)] by (simp add: same_queues_def)
  show ?thesis
  proof (cases "hdr_type (hdr cmd) = VIRTIO_GPU_CMD_RESOURCE_ATTACH_BACKING")
    case True
    with mem_limited_attach [OF assms(2) sane_attach_entries [OF assms(1,4)]] assms(3) show ?thesis
      by (auto simp: ctrl_dispatch_def Let_def with_type_def)
  next
    case False
    have "backing_total (ctx g') \<le> backing_total (ctx g)"
      using assms(3) False
      by (cases "hdr_type (hdr cmd)")
        (auto simp: ctrl_dispatch_def Let_def with_type_def obind_Returned_iff
          gpu_device_handle_submit_3d_def backing_total_def gpu_device_create_res_def
          gpu_device_destroy_res_def gpu_device_detach_def gpu_device_free_res_eq
          rvgpu_ctx_res_create_def rvgpu_ctx_res_destroy_def res_update_def res_iovs_def
          sum_remove_le rvgpu_ctx_res_find_def
          dest!: send_res_frame submit_3d_loop_frame
            sum_update [where f = "\<lambda>r. r\<lparr>backing := None\<rparr>" and w = "\<lambda>r. iov_total (res_iovs r)"]
          split: prod.splits option.splits if_splits)
    with assms(2) acc max show ?thesis
      by (simp add: mem_limited_def)
  qed
qed

lemma mem_limited_cong:
  "mem_limited g \<Longrightarrow> reslist (ctx g') = reslist (ctx g) \<Longrightarrow> curr_mem g' = curr_mem g \<Longrightarrow>
   max_mem g' = max_mem g \<Longrightarrow> mem_limited g'"
  by (auto simp: mem_limited_def backing_total_def intro: mem_accounted_cong)

interpretation lim: table_invariant mem_limited small_commands
  by unfold_locales (auto intro: mem_limited_cong mem_limited_dispatch)

end
