(* ===== verification/Gpu_Requests.thy ===== *)
theory Gpu_Requests
  imports Gpu_Frames
begin

text \<open>
  The life of a request in the GPU device: every request taken off a queue is either answered at
  once or waits for its fence, no request is used after it was freed, none is lost, and serving
  empties the queues.  The proofs are Hoare-style: \<open>safe m P\<close> says that \<open>m\<close> does not misuse a
  request and that its result, if it returns, satisfies \<open>P\<close>.
\<close>

section \<open>Safe outcomes\<close>

definition safe :: "'a outcome \<Rightarrow> ('a \<Rightarrow> bool) \<Rightarrow> bool" where
  "safe m P =
     (case m of
        Returned x \<Rightarrow> P x
      | Exited e \<Rightarrow> e \<noteq> ''assert(!req->mapped)''
      | Crashed e \<Rightarrow> e \<noteq> ''request''
      | Diverged \<Rightarrow> True)"

lemma safe_Returned [simp]: "safe (Returned x) P = P x"
  by (simp add: safe_def)

lemma safe_bind: "safe m Q \<Longrightarrow> (\<And>x. Q x \<Longrightarrow> safe (f x) P) \<Longrightarrow> safe (obind m f) P"
  by (cases m) (simp_all add: safe_def)

lemma safe_mono: "safe m Q \<Longrightarrow> (\<And>x. Q x \<Longrightarrow> P x) \<Longrightarrow> safe m P"
  by (cases m) (simp_all add: safe_def)

lemma safe_result: "safe m (\<lambda>_. True) \<Longrightarrow> (\<And>x. m = Returned x \<Longrightarrow> P x) \<Longrightarrow> safe m P"
  by (cases m) (simp_all add: safe_def)

lemma safe_ReturnedD: "safe m P \<Longrightarrow> m = Returned x \<Longrightarrow> P x"
  by (simp add: safe_def)

subsection \<open>The commands never touch a request\<close>

lemma safe_add_patch: "safe (add_patch m c d off a l) (\<lambda>_. True)"
  by (simp add: add_patch_def Let_def safe_def split: prod.splits)

lemma safe_send_data_loop: "safe (send_data_loop m c d vs off skip len) (\<lambda>_. True)"
proof (induction m c d vs off skip len rule: send_data_loop.induct)
  case (2 m c d v vs offset skip len)
  then show ?case
    by (auto simp: Let_def intro!: safe_bind [OF safe_add_patch])
qed simp

lemma safe_transfer: "safe (rvgpu_ctx_transfer_to_host m c t res) (\<lambda>_. True)"
  by (auto simp: rvgpu_ctx_transfer_to_host_def gpu_device_send_data_def Let_def case_prod_beta
      intro!: safe_bind [where Q = "\<lambda>_. True"] safe_send_data_loop)

lemma safe_send_res: "safe (gpu_device_send_res g i t) (\<lambda>_. True)"
  by (auto simp: gpu_device_send_res_def gpu_device_send_patched_def split: option.splits
      intro!: safe_bind [where Q = "\<lambda>_. True"] safe_transfer)

lemma safe_submit_3d_step: "safe (submit_3d_step buf k g resp) (\<lambda>_. True)"
  by (auto simp: submit_3d_step_def intro!: safe_bind [where Q = "\<lambda>_. True"] safe_send_res)

lemma safe_submit_3d_loop: "safe (submit_3d_loop buf size4 off g resp) (\<lambda>_. True)"
proof (induction buf size4 off g resp rule: submit_3d_loop.induct)
  case (1 buf size4 off g resp)
  then show ?case
    by (subst submit_3d_loop.simps) (auto intro!: safe_bind [OF safe_submit_3d_step])
qed

lemma safe_dispatch_True: "safe (ctrl_dispatch env g cmd resp) (\<lambda>_. True)"
  by (cases "hdr_type (hdr cmd)")
    (auto simp: ctrl_dispatch_def Let_def gpu_device_handle_submit_3d_def split: prod.splits
      intro!: safe_bind [where Q = "\<lambda>_. True"] safe_send_res safe_submit_3d_loop)

lemma safe_dispatch:
  "safe (ctrl_dispatch env g cmd resp)
     (\<lambda>(len, g', resp'). same_queues g g' \<and> hdr_flags (resp_hdr resp') = hdr_flags (resp_hdr resp))"
  by (rule safe_result [OF safe_dispatch_True]) (auto dest: ctrl_dispatch_queues)

lemma safe_send_commands: "safe (send_commands c bs all) (\<lambda>_. True)"
  by (induction c bs all rule: send_commands.induct)
    (auto intro!: safe_bind [where Q = "\<lambda>_. True"] simp: gpu_device_send_command_def safe_def
      split: list.splits prod.splits)

lemma safe_get_meta: "safe (get_meta_res_from_cmd g t) (\<lambda>_. True)"
  by (simp add: get_meta_res_from_cmd_def Let_def split: option.splits) (simp add: safe_def)

lemma safe_forward:
  "safe (ctrl_forward env g cmd rsize iovs) (\<lambda>g'. same_queues g g')"
proof (rule safe_result)
  show "safe (ctrl_forward env g cmd rsize iovs) (\<lambda>_. True)"
    unfolding ctrl_forward_def Let_def
    by (intro safe_bind [where Q = "\<lambda>_. True"])
      (auto simp del: send_commands.simps intro!: safe_bind [OF safe_send_commands] safe_get_meta)
qed (auto dest: ctrl_forward_frame)

section \<open>The invariant\<close>

text \<open>
  Two queues; the live requests are exactly those of the waiting commands, each held once; and the
  used ring of the control queue lags behind the requests taken by the number of waiting commands.
\<close>

definition waiting :: "gpu_device \<Rightarrow> nat list" where
  "waiting g = map cmd_req (async_cmds g)"

definition held_request :: "nat \<Rightarrow> u32 \<Rightarrow> vqueue_request \<Rightarrow> bool" where
  "held_request q rc r = (req_refcount r = rc \<and> req_mapped r \<and> req_q r = q)"

definition dev_inv :: "gpu_device \<Rightarrow> bool" where
  "dev_inv g =
     (length (vs_queues g) = 2 \<and> distinct (waiting g) \<and>
      dom (vs_reqs g) = set (waiting g) \<and>
      (\<forall>i r. vs_reqs g i = Some r \<longrightarrow> i < vs_next g \<and> held_request 0 1 r) \<and>
      used_idx (vr (vs_queues g ! 0)) + of_nat (length (async_cmds g)) = last_avail_idx (vs_queues g ! 0) \<and>
      used_idx (vr (vs_queues g ! 1)) = last_avail_idx (vs_queues g ! 1))"

lemma dev_invD:
  assumes "dev_inv g" "vs_reqs g i = Some r"
  shows "i < vs_next g" "held_request 0 1 r" "i \<in> set (waiting g)"
proof -
  have "i \<in> dom (vs_reqs g)"
    using assms(2) by blast
  then show "i \<in> set (waiting g)"
    using assms(1) by (simp add: dev_inv_def)
  show "i < vs_next g" "held_request 0 1 r"
    using assms unfolding dev_inv_def by blast+
qed

lemma dev_inv_fresh: "dev_inv g \<Longrightarrow> vs_next g \<le> i \<Longrightarrow> vs_reqs g i = None"
  using dev_invD(1) [of g i] by (cases "vs_reqs g i") fastforce+

lemma dev_inv_waiting:
  assumes "dev_inv g" "i \<in> set (waiting g)"
  obtains r where "vs_reqs g i = Some r" "held_request 0 1 r" "i < vs_next g"
proof -
  have "i \<in> dom (vs_reqs g)"
    using assms by (simp add: dev_inv_def)
  then obtain r where "vs_reqs g i = Some r"
    by blast
  with dev_invD [OF assms(1)] that show ?thesis
    by blast
qed

lemma dev_inv_cong:
  "dev_inv g \<Longrightarrow> vs_queues g' = vs_queues g \<Longrightarrow> vs_reqs g' = vs_reqs g \<Longrightarrow> vs_next g' = vs_next g \<Longrightarrow>
   async_cmds g' = async_cmds g \<Longrightarrow> dev_inv g'"
  unfolding dev_inv_def waiting_def by simp

text \<open>Sending the answer of a request that is held once.\<close>

lemma safe_send_response:
  assumes "vs_reqs g i = Some r" "held_request q 1 r"
  shows "safe (vqueue_send_response g i bs)
    (\<lambda>g'. same_device g g' \<and> vs_reqs g' = (vs_reqs g)(i := None) \<and> vs_next g' = vs_next g \<and>
      (\<exists>n. vs_queues g' = (vs_queues g)
        [q := (vs_queues g ! q)\<lparr>vr := push_used (vr (vs_queues g ! q)) (ucast (req_idx r)) n\<rparr>]))"
proof -
  have "vqueue_send_response g i bs = Returned (answered g i r bs)"
    using assms by (intro vqueue_send_response_sole) (simp_all add: held_request_def)
  then show ?thesis
    using assms(2)
    by (auto simp: answered_def Let_def same_device_def held_request_def split: prod.splits)
qed

text \<open>Answering a waiting command.\<close>

lemma dev_inv_unwait:
  assumes "dev_inv (g\<lparr>async_cmds := kept @ c # cs\<rparr>)"
    and "vs_reqs g' = (vs_reqs g)(cmd_req c := None)" "vs_next g' = vs_next g"
    and "vs_queues g' = (vs_queues g)[0 := (vs_queues g ! 0)\<lparr>vr := push_used (vr (vs_queues g ! 0)) i k\<rparr>]"
  shows "dev_inv (g'\<lparr>async_cmds := kept @ cs\<rparr>)"
    and "avail_count (vs_queues g' ! 0) = avail_count (vs_queues g ! 0)"
    and "vs_queues g' ! 1 = vs_queues g ! 1"
proof -
  have l: "length (vs_queues g) = 2"
    using assms(1) by (simp add: dev_inv_def)
  show "avail_count (vs_queues g' ! 0) = avail_count (vs_queues g ! 0)" "vs_queues g' ! 1 = vs_queues g ! 1"
    using l by (simp_all add: assms(2-4) avail_count_def push_used_def)
  have h: "i < vs_next g \<and> held_request 0 1 r" if "vs_reqs g i = Some r" for i r
    using dev_invD [OF assms(1), of i r] that by simp
  show "dev_inv (g'\<lparr>async_cmds := kept @ cs\<rparr>)"
    using assms(1) h by (auto simp: assms(2-4) dev_inv_def waiting_def push_used_def algebra_simps)
qed

section \<open>Fences\<close>

text \<open>
  While \<open>process_fences\<close> walks the list, the waiting commands are those kept and those still to
  visit.
\<close>

lemma safe_process_fences_loop:
  "dev_inv (g\<lparr>async_cmds := kept @ cs\<rparr>) \<Longrightarrow>
   safe (process_fences_loop env f cs kept n g)
     (\<lambda>(k, g'). dev_inv g' \<and> async_cmds g' = kept @
        filter (\<lambda>c. hdr_fence_id (cmd_hdr c) > ucast f \<or> hdr_flags (cmd_hdr c) AND VIRTIO_GPU_FLAG_VSYNC \<noteq> 0) cs \<and>
        k + length (async_cmds g') = n + length (kept @ cs) \<and>
        avail_count (vs_queues g' ! 0) = avail_count (vs_queues g ! 0) \<and>
        fence_pipe g' = fence_pipe g \<and> kicks g' = kicks g)"
proof (induction env f cs kept n g rule: process_fences_loop.induct)
  case (1 env fence kept n g)
  then show ?case by simp
next
  case (2 env fence c cs kept n g)
  let ?wait = "hdr_fence_id (cmd_hdr c) > ucast fence \<or> hdr_flags (cmd_hdr c) AND VIRTIO_GPU_FLAG_VSYNC \<noteq> 0"
  show ?case
  proof (cases ?wait)
    case True
    with 2(1) [OF True] 2(3) show ?thesis
      by (auto intro: safe_mono)
  next
    case False
    have "cmd_req c \<in> set (waiting (g\<lparr>async_cmds := kept @ c # cs\<rparr>))"
      by (simp add: waiting_def)
    from dev_inv_waiting [OF 2(3) this] obtain r where
      r: "vs_reqs g (cmd_req c) = Some r" "held_request 0 1 r"
      by auto
    note step = dev_inv_unwait [OF 2(3)]
    show ?thesis
      unfolding process_fences_loop.simps if_not_P [OF False]
    proof (rule safe_bind [OF safe_send_response [OF r]], elim conjE exE)
      fix g' k
      assume g': "same_device g g'" "vs_reqs g' = (vs_reqs g)(cmd_req c := None)"
        "vs_next g' = vs_next g" "vs_queues g' = (vs_queues g)[0 := (vs_queues g ! 0)
           \<lparr>vr := push_used (vr (vs_queues g ! 0)) (ucast (req_idx r)) k\<rparr>]"
      show "safe (process_fences_loop env fence cs kept (n + 1) g')
        (\<lambda>(k, g'). dev_inv g' \<and> async_cmds g' = kept @
          filter (\<lambda>c. hdr_fence_id (cmd_hdr c) > ucast fence \<or>
            hdr_flags (cmd_hdr c) AND VIRTIO_GPU_FLAG_VSYNC \<noteq> 0) (c # cs) \<and>
          k + length (async_cmds g') = n + length (kept @ c # cs) \<and>
          avail_count (vs_queues g' ! 0) = avail_count (vs_queues g ! 0) \<and>
          fence_pipe g' = fence_pipe g \<and> kicks g' = kicks g)"
        using False step [OF g'(2-4)] same_device_fields(5,10) [OF g'(1)]
        by (intro safe_mono [OF 2(2) [OF False]]) auto
    qed
  qed
qed

text \<open>The commands that still wait after fence \<open>f\<close> has been signalled.\<close>

definition still_waiting :: "u32 \<Rightarrow> cmd list \<Rightarrow> cmd list" where
  "still_waiting f cs = filter (\<lambda>c. hdr_fence_id (cmd_hdr c) > ucast f \<or>
     hdr_flags (cmd_hdr c) AND VIRTIO_GPU_FLAG_VSYNC \<noteq> 0) cs"

lemma safe_process_fences:
  assumes "dev_inv g"
  shows "safe (process_fences env g f)
    (\<lambda>(k, g'). dev_inv g' \<and> async_cmds g' = still_waiting f (async_cmds g) \<and>
       k + length (async_cmds g') = length (async_cmds g) \<and>
       avail_count (vs_queues g' ! 0) = avail_count (vs_queues g ! 0) \<and> fence_pipe g' = fence_pipe g \<and> kicks g' = kicks g)"
proof -
  have "dev_inv (g\<lparr>async_cmds := [] @ async_cmds g\<rparr>)"
    using assms by simp
  from safe_process_fences_loop [OF this, of env f 0] show ?thesis
    unfolding process_fences_def by (rule safe_mono) (auto simp: still_waiting_def)
qed

lemma safe_serve_fences_loop:
  "dev_inv g \<Longrightarrow> safe (serve_fences_loop env fs n g)
    (\<lambda>(k, g'). dev_inv g' \<and> async_cmds g' = fold still_waiting fs (async_cmds g) \<and>
       k + length (async_cmds g') = n + length (async_cmds g) \<and>
       avail_count (vs_queues g' ! 0) = avail_count (vs_queues g ! 0) \<and> fence_pipe g' = fence_pipe g \<and> kicks g' = kicks g)"
proof (induction env fs n g rule: serve_fences_loop.induct)
  case (2 env f fs n g)
  show ?case
    unfolding serve_fences_loop.simps
  proof (rule safe_bind [OF safe_process_fences [OF 2(2), of env f]], clarsimp)
    fix k g'
    assume "dev_inv g'" "k + length (still_waiting f (async_cmds g)) = length (async_cmds g)"
      "avail_count (vs_queues g' ! 0) = avail_count (vs_queues g ! 0)" "fence_pipe g' = fence_pipe g" "kicks g' = kicks g"
      "async_cmds g' = still_waiting f (async_cmds g)"
    with 2(1) [of g' k] show "safe (serve_fences_loop env fs (n + k) g')
        (\<lambda>(k, g'). dev_inv g' \<and> async_cmds g' = fold still_waiting fs (still_waiting f (async_cmds g)) \<and>
           k + length (async_cmds g') = n + length (async_cmds g) \<and>
           avail_count (vs_queues g' ! 0) = avail_count (vs_queues g ! 0) \<and> fence_pipe g' = fence_pipe g \<and> kicks g' = kicks g)"
      by (auto intro: safe_mono)
  qed
qed simp

section \<open>One command\<close>

lemma avail_count_step:
  assumes "vqueue_are_requests_available q"
  shows "avail_count (q\<lparr>last_avail_idx := last_avail_idx q + 1\<rparr>) + 1 = avail_count q"
proof -
  have "avail_idx (vr q) - last_avail_idx q \<noteq> 0"
    using assms by (simp add: vqueue_are_requests_available_def)
  then have "unat (avail_idx (vr q) - last_avail_idx q - 1) = unat (avail_idx (vr q) - last_avail_idx q) - 1"
    by (subst unat_sub) (simp_all add: word_le_nat_alt Suc_le_eq unat_gt_0)
  then show ?thesis
    using \<open>avail_idx (vr q) - last_avail_idx q \<noteq> 0\<close>
    by (simp add: avail_count_def diff_diff_eq unat_gt_0)
qed

lemma avail_count_push [simp]: "avail_count (q\<lparr>vr := push_used (vr q) i n\<rparr>) = avail_count q"
  by (simp add: avail_count_def push_used_def)

lemma safe_get_request:
  assumes "vqueue_are_requests_available (vs_queues g ! qi)"
  shows "safe (vqueue_get_request mmap g qi)
    (\<lambda>(i, g'). same_device g g' \<and> i = vs_next g \<and> vs_next g' = vs_next g + 1 \<and>
      (\<exists>r. held_request qi 1 r \<and> vs_reqs g' = (vs_reqs g)(i \<mapsto> r)) \<and>
      vs_queues g' = (vs_queues g)
        [qi := (vs_queues g ! qi)\<lparr>last_avail_idx := last_avail_idx (vs_queues g ! qi) + 1\<rparr>])"
proof (rule safe_result)
  show "safe (vqueue_get_request mmap g qi) (\<lambda>_. True)"
    using assms by (auto simp: vqueue_get_request_def Let_def safe_def split: option.splits)
next
  fix x assume x: "vqueue_get_request mmap g qi = Returned x"
  obtain i g' where "x = (i, g')"
    by fastforce
  with x have "vqueue_get_request mmap g qi = Returned (i, g')"
    by simp
  then obtain r w where
    "i = vs_next g"
    "g' = g\<lparr>vs_reqs := (vs_reqs g)(vs_next g \<mapsto>
           \<lparr> req_r = r, req_w = w, req_idx = next_head (vs_queues g ! qi), req_q = qi,
             req_mapped = True, req_refcount = 1 \<rparr>),
         vs_next := vs_next g + 1,
         vs_queues := (vs_queues g)
           [qi := (vs_queues g ! qi)\<lparr>last_avail_idx := last_avail_idx (vs_queues g ! qi) + 1\<rparr>]\<rparr>"
    by (rule vqueue_get_request_ReturnedE)
  then show "case x of (i, g') \<Rightarrow> same_device g g' \<and> i = vs_next g \<and> vs_next g' = vs_next g + 1 \<and>
      (\<exists>r. held_request qi 1 r \<and> vs_reqs g' = (vs_reqs g)(i \<mapsto> r)) \<and>
      vs_queues g' = (vs_queues g)
        [qi := (vs_queues g ! qi)\<lparr>last_avail_idx := last_avail_idx (vs_queues g ! qi) + 1\<rparr>]"
    unfolding \<open>x = (i, g')\<close> prod.case
    by (intro conjI exI [of _ "\<lparr> req_r = r, req_w = w, req_idx = next_head (vs_queues g ! qi), req_q = qi,
             req_mapped = True, req_refcount = 1 \<rparr>"]) (simp_all add: same_device_def held_request_def)
qed

lemma safe_execute:
  assumes "vs_reqs g req = Some r" and "held_request q 1 r"
  shows "safe (ctrl_execute env g req cmd rsize iovs resp)
    (\<lambda>(len, g', resp'). vs_queues g' = vs_queues g \<and> vs_next g' = vs_next g \<and> fence_pipe g' = fence_pipe g \<and> kicks g' = kicks g \<and>
      (if hdr_flags (hdr cmd) AND VIRTIO_GPU_FLAG_FENCE \<noteq> 0
       then hdr_flags (resp_hdr resp') = VIRTIO_GPU_FLAG_FENCE \<and>
            vs_reqs g' = (vs_reqs g)(req \<mapsto> r\<lparr>req_refcount := 2\<rparr>) \<and>
            (\<exists>h. async_cmds g' = async_cmds g @ [\<lparr> cmd_hdr = h, cmd_req = req \<rparr>])
       else hdr_flags (resp_hdr resp') = hdr_flags (resp_hdr resp) \<and>
            vs_reqs g' = vs_reqs g \<and> async_cmds g' = async_cmds g))"
proof -
  have run: "safe (obind (ctrl_forward env g1 cmd rsize iovs) (\<lambda>g2. ctrl_dispatch env g2 cmd r1))
      (\<lambda>(len, g', resp'). same_queues g1 g' \<and> hdr_flags (resp_hdr resp') = hdr_flags (resp_hdr r1))" for g1 r1
    by (rule safe_bind [OF safe_forward], rule safe_mono [OF safe_dispatch])
      (auto dest: same_queues_trans)
  show ?thesis
  proof (cases "hdr_flags (hdr cmd) AND VIRTIO_GPU_FLAG_FENCE = 0")
    case True
    then show ?thesis
      by (simp add: ctrl_execute_def) (rule safe_mono [OF run], auto simp: same_queues_def)
  next
    case False
    have "vqueue_request_ref g req = Returned (g\<lparr>vs_reqs := (vs_reqs g)(req \<mapsto> r\<lparr>req_refcount := 2\<rparr>)\<rparr>)"
      using assms by (simp add: vqueue_request_ref_def held_request_def)
    with False show ?thesis
      by (simp add: ctrl_execute_def Let_def) (rule safe_mono [OF run], auto simp: same_queues_def add_resp_def)
  qed
qed

text \<open>The state after a request is either answered or left waiting.\<close>

lemma dev_inv_answered:
  assumes "dev_inv g" and "qi < 2"
    and "vs_reqs g' = (vs_reqs g)(vs_next g := None)" "vs_next g' = vs_next g + 1"
    and "async_cmds g' = async_cmds g"
    and "vs_queues g' = (vs_queues g)[qi := (vs_queues g ! qi)
      \<lparr>last_avail_idx := last_avail_idx (vs_queues g ! qi) + 1, vr := push_used (vr (vs_queues g ! qi)) k n\<rparr>]"
  shows "dev_inv g'"
proof -
  have r: "vs_reqs g' = vs_reqs g"
    using assms(3) dev_inv_fresh [OF assms(1), of "vs_next g"] by (simp add: fun_upd_idem)
  have h: "i < vs_next g \<and> held_request 0 1 r" if "vs_reqs g i = Some r" for i r
    using dev_invD [OF assms(1) that] by simp
  have "qi = 0 \<or> qi = 1"
    using assms(2) by linarith
  then show ?thesis
    using assms(1) h
    by (auto simp: r assms(4-6) dev_inv_def waiting_def push_used_def algebra_simps less_Suc_eq)
qed

text \<open>A fresh request that is answered at once.\<close>

lemma safe_answer_fresh:
  assumes "dev_inv g" "qi < 2" and av: "vqueue_are_requests_available (vs_queues g ! qi)"
    and g3: "vs_reqs g3 = (vs_reqs g)(vs_next g \<mapsto> r)" "vs_next g3 = vs_next g + 1"
      "async_cmds g3 = async_cmds g"
      "vs_queues g3 = (vs_queues g)
         [qi := (vs_queues g ! qi)\<lparr>last_avail_idx := last_avail_idx (vs_queues g ! qi) + 1\<rparr>]"
    and r: "held_request qi 1 r"
  shows "safe (vqueue_send_response g3 (vs_next g) bs)
    (\<lambda>g'. dev_inv g' \<and> same_device g3 g' \<and>
       avail_count (vs_queues g' ! qi) + 1 = avail_count (vs_queues g ! qi) \<and>
       vs_queues g' ! (1 - qi) = vs_queues g ! (1 - qi))"
proof -
  have "vs_reqs g3 (vs_next g) = Some r"
    by (simp add: g3)
  from safe_send_response [OF this r] show ?thesis
  proof (rule safe_mono, elim conjE exE)
    fix g' n
    assume g': "same_device g3 g'" "vs_reqs g' = (vs_reqs g3)(vs_next g := None)"
      "vs_next g' = vs_next g3"
      "vs_queues g' = (vs_queues g3)
        [qi := (vs_queues g3 ! qi)\<lparr>vr := push_used (vr (vs_queues g3 ! qi)) (ucast (req_idx r)) n\<rparr>]"
    have l: "length (vs_queues g) = 2"
      using assms(1) by (simp add: dev_inv_def)
    have "qi \<noteq> 1 - qi"
      by arith
    have q: "vs_queues g' = (vs_queues g)[qi := (vs_queues g ! qi)
      \<lparr>last_avail_idx := last_avail_idx (vs_queues g ! qi) + 1,
       vr := push_used (vr (vs_queues g ! qi)) (ucast (req_idx r)) n\<rparr>]"
      using assms(2) l by (simp add: g' g3)
    have "dev_inv g'"
      by (rule dev_inv_answered [OF assms(1,2) _ _ _ q])
        (use g' g3 same_device_fields [OF g'(1)] in auto)
    moreover have "avail_count (vs_queues g' ! qi) + 1 = avail_count (vs_queues g ! qi)"
      using avail_count_step [OF av] l assms(2) by (simp add: q avail_count_def push_used_def)
    ultimately show "dev_inv g' \<and> same_device g3 g' \<and>
       avail_count (vs_queues g' ! qi) + 1 = avail_count (vs_queues g ! qi) \<and>
       vs_queues g' ! (1 - qi) = vs_queues g ! (1 - qi)"
      using g'(1) q \<open>qi \<noteq> 1 - qi\<close> by auto
  qed
qed

lemma dev_inv_left_waiting:
  assumes "dev_inv g" and "vs_reqs g' = (vs_reqs g)(vs_next g \<mapsto> r)" "vs_next g' = vs_next g + 1"
    and "held_request 0 1 r" "async_cmds g' = async_cmds g @ [\<lparr> cmd_hdr = h, cmd_req = vs_next g \<rparr>]"
    and "vs_queues g' = (vs_queues g)[0 := (vs_queues g ! 0)
      \<lparr>last_avail_idx := last_avail_idx (vs_queues g ! 0) + 1\<rparr>]"
  shows "dev_inv g'"
proof -
  have new: "vs_next g \<notin> set (waiting g)"
    using dev_inv_waiting [OF assms(1)] by blast
  have h: "i < vs_next g \<and> held_request 0 1 r" if "vs_reqs g i = Some r" for i r
    using dev_invD [OF assms(1) that] by simp
  show ?thesis
    using assms(1,4) new h
    by (auto simp: assms(2,3,5,6) dev_inv_def waiting_def algebra_simps less_Suc_eq split: if_splits)
qed

lemma serve_ctrl_answer_answer:
  assumes "vs_reqs g req = Some r" "held_request 0 1 r" "hdr_flags (resp_hdr resp) = 0"
  shows "safe (serve_ctrl_answer env req kick len g resp)
    (\<lambda>(k, g', resp'). k = kick + 1 \<and> vs_reqs g' = (vs_reqs g)(req := None) \<and> vs_next g' = vs_next g \<and>
      async_cmds g' = async_cmds g \<and> fence_pipe g' = fence_pipe g \<and> kicks g' = kicks g \<and>
      (\<exists>n. vs_queues g' = (vs_queues g)
        [0 := (vs_queues g ! 0)\<lparr>vr := push_used (vr (vs_queues g ! 0)) (ucast (req_idx r)) n\<rparr>]))"
proof -
  have "safe (vqueue_send_response (g\<lparr>st_reset := b\<rparr>) req bs)
    (\<lambda>g'. vs_reqs g' = (vs_reqs g)(req := None) \<and> vs_next g' = vs_next g \<and>
      async_cmds g' = async_cmds g \<and> fence_pipe g' = fence_pipe g \<and> kicks g' = kicks g \<and>
      (\<exists>n. vs_queues g' = (vs_queues g)
        [0 := (vs_queues g ! 0)\<lparr>vr := push_used (vr (vs_queues g ! 0)) (ucast (req_idx r)) n\<rparr>]))" for b bs
    using safe_send_response [of "g\<lparr>st_reset := b\<rparr>" req r 0 bs] assms(1,2)
    by (auto elim!: safe_mono dest: same_device_fields)
  from this [of "st_reset g"] this [of True] assms(3) show ?thesis
    by (auto simp: serve_ctrl_answer_def Let_def intro!: safe_bind)
qed

lemma serve_ctrl_answer_wait:
  assumes "vs_reqs g req = Some r" "req_refcount r = 2" "hdr_flags (resp_hdr resp) = VIRTIO_GPU_FLAG_FENCE"
  shows "safe (serve_ctrl_answer env req kick len g resp)
    (\<lambda>(k, g', resp'). k = kick \<and> vs_reqs g' = (vs_reqs g)(req \<mapsto> r\<lparr>req_refcount := 1\<rparr>) \<and>
      vs_next g' = vs_next g \<and> async_cmds g' = async_cmds g \<and> fence_pipe g' = fence_pipe g \<and> kicks g' = kicks g \<and>
      vs_queues g' = vs_queues g)"
  using assms by (simp add: serve_ctrl_answer_def Let_def vqueue_request_unref_def)

section \<open>The control queue\<close>

lemma safe_serve_ctrl_request:
  assumes "dev_inv g" and av: "vqueue_are_requests_available (vs_queues g ! 0)"
  shows "safe (serve_ctrl_request env g resp kick)
    (\<lambda>(k, g', resp'). dev_inv g' \<and> avail_count (vs_queues g' ! 0) + 1 = avail_count (vs_queues g ! 0) \<and>
       k + length (async_cmds g') = kick + length (async_cmds g) + 1 \<and> fence_pipe g' = fence_pipe g \<and> kicks g' = kicks g)"
proof -
  let ?q = "vs_queues g ! 0"
  let ?Q = "\<lambda>(k, g', resp'). dev_inv g' \<and> avail_count (vs_queues g' ! 0) + 1 = avail_count ?q \<and>
       k + length (async_cmds g') = kick + length (async_cmds g) + 1 \<and> fence_pipe g' = fence_pipe g \<and> kicks g' = kicks g"
  have l: "length (vs_queues g) = 2"
    using assms(1) by (simp add: dev_inv_def)
  have cnt: "avail_count (?q\<lparr>last_avail_idx := last_avail_idx ?q + 1, vr := v\<rparr>) + 1 = avail_count ?q"
    if "avail_idx v = avail_idx (vr ?q)" for v
    using avail_count_step [OF av] that by (simp add: avail_count_def)
  have answer: "safe (serve_ctrl_answer env (vs_next g) kick len g3 r3) ?Q"
    if a: "vs_reqs g3 = (vs_reqs g)(vs_next g \<mapsto> r)" "held_request 0 1 r" "hdr_flags (resp_hdr r3) = 0"
      "vs_next g3 = vs_next g + 1" "async_cmds g3 = async_cmds g" "fence_pipe g3 = fence_pipe g \<and> kicks g3 = kicks g"
      "vs_queues g3 = (vs_queues g)[0 := ?q\<lparr>last_avail_idx := last_avail_idx ?q + 1\<rparr>]" for r g3 r3 len
  proof (rule safe_mono [OF serve_ctrl_answer_answer [OF _ a(2,3)]])
    show "vs_reqs g3 (vs_next g) = Some r"
      using a(1) by simp
    show "?Q x" if x: "case x of (k, g', resp') \<Rightarrow> k = kick + 1 \<and>
        vs_reqs g' = (vs_reqs g3)(vs_next g := None) \<and> vs_next g' = vs_next g3 \<and>
        async_cmds g' = async_cmds g3 \<and> fence_pipe g' = fence_pipe g3 \<and> kicks g' = kicks g3 \<and>
        (\<exists>n. vs_queues g' = (vs_queues g3)
          [0 := (vs_queues g3 ! 0)\<lparr>vr := push_used (vr (vs_queues g3 ! 0)) (ucast (req_idx r)) n\<rparr>])" for x
    proof -
      obtain k g' r' where xe: "x = (k, g', r')"
        by (cases x) auto
      from x obtain n where q: "vs_queues g' = (vs_queues g)[0 := ?q
          \<lparr>last_avail_idx := last_avail_idx ?q + 1, vr := push_used (vr ?q) (ucast (req_idx r)) n\<rparr>]"
        using l \<open>vs_queues g3 = _\<close> by (auto simp: xe)
      have "dev_inv g'"
        by (rule dev_inv_answered [OF assms(1) _ _ _ _ q]) (use x a(1,4,5) xe in auto)
      moreover have "avail_count (vs_queues g' ! 0) + 1 = avail_count ?q"
        using cnt [of "push_used (vr ?q) (ucast (req_idx r)) n"] l by (simp add: q push_used_def)
      ultimately show ?thesis
        using x a(5,6) by (simp add: xe)
    qed
  qed
  have wait: "safe (serve_ctrl_answer env (vs_next g) kick len g3 r3) ?Q"
    if w: "vs_reqs g3 = (vs_reqs g)(vs_next g \<mapsto> r\<lparr>req_refcount := 2\<rparr>)" "held_request 0 1 r"
      "hdr_flags (resp_hdr r3) = VIRTIO_GPU_FLAG_FENCE"
      "vs_next g3 = vs_next g + 1" "async_cmds g3 = async_cmds g @ [\<lparr> cmd_hdr = h, cmd_req = vs_next g \<rparr>]"
      "fence_pipe g3 = fence_pipe g \<and> kicks g3 = kicks g"
      "vs_queues g3 = (vs_queues g)[0 := ?q\<lparr>last_avail_idx := last_avail_idx ?q + 1\<rparr>]" for r g3 r3 len h
  proof -
    have "vs_reqs g3 (vs_next g) = Some (r\<lparr>req_refcount := 2\<rparr>)"
      using w(1) by simp
    from serve_ctrl_answer_wait [OF this _ w(3)] show ?thesis
    proof (rule safe_mono, goal_cases)
      case (2 x)
      obtain k g' r' where xe: "x = (k, g', r')"
        by (cases x) auto
      have "dev_inv g'"
      proof (rule dev_inv_left_waiting [OF assms(1)])
        show "vs_reqs g' = (vs_reqs g)(vs_next g \<mapsto> r\<lparr>req_refcount := 1\<rparr>)"
          using 2 w(1) by (simp add: xe)
        show "held_request 0 1 (r\<lparr>req_refcount := 1\<rparr>)"
          using w(2) by (simp add: held_request_def)
      qed (use 2 w xe in auto)
      with 2 w(5,6,7) cnt [of "vr ?q"] l show ?case
        by (simp add: xe)
    qed simp
  qed
  show ?thesis
    unfolding serve_ctrl_request_def
  proof (rule safe_bind [OF safe_get_request [OF av]], clarsimp simp: Let_def, goal_cases)
    case (1 g1 r)
    note g1 = 1(3,4,5,2) same_device_fields [OF 1(1)]
    let ?Q1 = "\<lambda>(len, g3, r3). vs_next g3 = vs_next g + 1 \<and> fence_pipe g3 = fence_pipe g \<and> kicks g3 = kicks g \<and>
        vs_queues g3 = (vs_queues g)[0 := ?q\<lparr>last_avail_idx := last_avail_idx ?q + 1\<rparr>] \<and>
        (hdr_flags (resp_hdr r3) = 0 \<and> vs_reqs g3 = (vs_reqs g)(vs_next g \<mapsto> r) \<and>
         async_cmds g3 = async_cmds g \<or>
         hdr_flags (resp_hdr r3) = VIRTIO_GPU_FLAG_FENCE \<and>
         vs_reqs g3 = (vs_reqs g)(vs_next g \<mapsto> r\<lparr>req_refcount := 2\<rparr>) \<and>
         (\<exists>h. async_cmds g3 = async_cmds g @ [\<lparr> cmd_hdr = h, cmd_req = vs_next g \<rparr>]))"
    have ex: "safe (ctrl_execute env (g1\<lparr>st_cmd := b\<rparr>) (vs_next g) cmd rsize iovs (resp\<lparr>resp_hdr := h\<rparr>)) ?Q1"
      if "hdr_flags h = 0" for b cmd rsize iovs h
      by (rule safe_mono [OF safe_execute [of _ _ r 0]]) (use g1 that in \<open>auto split: if_splits\<close>)
    have ans: "safe (serve_ctrl_answer env (vs_next g) kick len g3 r3) ?Q" if "?Q1 (len, g3, r3)" for len g3 r3
      using that answer [OF _ \<open>held_request 0 1 r\<close>] wait [OF _ \<open>held_request 0 1 r\<close>] by auto
    show ?case
    proof (intro conjI impI, goal_cases)
      case 1
      show ?case
      proof (rule safe_bind [OF ex], goal_cases)
        case (2 x)
        then show ?case
          by (cases x) (auto intro: safe_mono [OF ans])
      qed simp
    next
      case 2
      show ?case
        using g1 by (intro safe_mono [OF ans]) auto
    qed
  qed
qed

lemma avail_count_0: "\<not> vqueue_are_requests_available q \<Longrightarrow> avail_count q = 0"
  by (simp add: vqueue_are_requests_available_def avail_count_def)

lemma avail_count_0_iff: "avail_count q = 0 \<longleftrightarrow> \<not> vqueue_are_requests_available q"
  by (auto simp: vqueue_are_requests_available_def avail_count_def unat_eq_0)

lemma safe_serve_ctrl_loop:
  "dev_inv g \<Longrightarrow> n = avail_count (vs_queues g ! 0) \<Longrightarrow>
   safe (serve_ctrl_loop env n g resp kick)
     (\<lambda>(k, g'). dev_inv g' \<and> avail_count (vs_queues g' ! 0) = 0 \<and>
        k + length (async_cmds g') = kick + length (async_cmds g) + n \<and>
        fence_pipe g' = fence_pipe g \<and> kicks g' = kicks g)"
proof (induction n arbitrary: g resp kick)
  case (Suc n)
  then have av: "vqueue_are_requests_available (vs_queues g ! 0)"
    using avail_count_0 by fastforce
  have "safe (serve_ctrl_loop env n g1 r1 k1)
      (\<lambda>(k, g'). dev_inv g' \<and> avail_count (vs_queues g' ! 0) = 0 \<and>
        k + length (async_cmds g') = kick + length (async_cmds g) + Suc n \<and>
        fence_pipe g' = fence_pipe g \<and> kicks g' = kicks g)"
    if "dev_inv g1" "avail_count (vs_queues g1 ! 0) + 1 = avail_count (vs_queues g ! 0)"
      "k1 + length (async_cmds g1) = kick + length (async_cmds g) + 1"
      "fence_pipe g1 = fence_pipe g" "kicks g1 = kicks g" for g1 r1 k1
    using that Suc(3) by (intro safe_mono [OF Suc(1) [of g1 r1 k1]]) auto
  then show ?case
    unfolding serve_ctrl_loop.simps
    using av by (auto intro!: safe_bind [OF safe_serve_ctrl_request [OF Suc(2) av]])
qed auto

lemma serve_reset_frame [simp]:
  "vs_queues (serve_reset g) = vs_queues g" "vs_reqs (serve_reset g) = vs_reqs g"
  "vs_next (serve_reset g) = vs_next g" "async_cmds (serve_reset g) = async_cmds g"
  "fence_pipe (serve_reset g) = fence_pipe g" "kicks (serve_reset g) = kicks g"
  by (simp_all add: serve_reset_def split: reset_state.splits)

text \<open>What serving the control queue leaves: the number answered is what the lists no longer hold.\<close>

definition ctrl_answered :: "gpu_device \<Rightarrow> gpu_device \<Rightarrow> nat" where
  "ctrl_answered g g' =
     length (async_cmds g) + avail_count (vs_queues g ! 0) - length (async_cmds g')"

lemma safe_serve_ctrl:
  assumes "dev_inv g"
  shows "safe (gpu_device_serve_ctrl env body g)
    (\<lambda>g'. dev_inv g' \<and> avail_count (vs_queues g' ! 0) = 0 \<and> fence_pipe g' = [] \<and>
       length (async_cmds g') \<le> length (async_cmds g) + avail_count (vs_queues g ! 0) \<and>
       kicks g' = kicks g @ (if ctrl_answered g g' = 0 then [] else [0]))"
proof -
  have inv: "dev_inv (g\<lparr>fence_pipe := []\<rparr>)"
    by (rule dev_inv_cong [OF assms]) simp_all
  have fin: "dev_inv (serve_reset (if k \<noteq> 0 then kick_queue 0 g2 else g2))" if "dev_inv g2" for k :: nat and g2
    by (rule dev_inv_cong [OF that]) (simp_all add: kick_queue_def)
  show ?thesis
    unfolding gpu_device_serve_ctrl_def gpu_device_serve_fences_def
  proof (rule safe_bind [OF safe_serve_fences_loop [OF inv]], clarify, goal_cases)
    case (1 k1 g1)
    show ?case
    proof (rule safe_bind [OF safe_serve_ctrl_loop [OF 1(1) refl]], clarify, goal_cases)
      case (1 k2 g2)
      then show ?case
        using fin [of g2 k2] \<open>k1 + length (async_cmds g1) = _\<close> \<open>avail_count (vs_queues g1 ! 0) = _\<close>
          \<open>fence_pipe g1 = _\<close> \<open>kicks g1 = _\<close>
        by (auto simp: kick_queue_def ctrl_answered_def)
    qed
  qed
qed

section \<open>The cursor queue\<close>

lemma safe_serve_cursor_request:
  assumes "dev_inv g" and av: "vqueue_are_requests_available (vs_queues g ! 1)"
  shows "safe (serve_cursor_request env stack g)
    (\<lambda>g'. dev_inv g' \<and> avail_count (vs_queues g' ! 1) + 1 = avail_count (vs_queues g ! 1) \<and>
       vs_queues g' ! 0 = vs_queues g ! 0 \<and> async_cmds g' = async_cmds g \<and>
       fence_pipe g' = fence_pipe g \<and> kicks g' = kicks g)"
proof -
  show ?thesis
    unfolding serve_cursor_request_def
  proof (rule safe_bind [OF safe_get_request [OF av]], clarify, goal_cases)
    case (1 req g1 r)
    note g1 = same_device_fields [OF 1(1)]
    have ans: "safe (vqueue_send_response (g1\<lparr>ctx := c\<rparr>) (vs_next g) bs)
      (\<lambda>g'. dev_inv g' \<and> avail_count (vs_queues g' ! 1) + 1 = avail_count (vs_queues g ! 1) \<and>
         vs_queues g' ! 0 = vs_queues g ! 0 \<and> async_cmds g' = async_cmds g \<and>
         fence_pipe g' = fence_pipe g \<and> kicks g' = kicks g)" for c bs
      by (rule safe_mono [OF safe_answer_fresh [OF assms(1) _ av _ _ _ _ \<open>held_request 1 1 r\<close>]])
        (use 1 g1 in \<open>auto dest: same_device_fields simp del: One_nat_def\<close>)
    have fwd: "safe (if b then obind (send_commands (ctx g1) bss True) (\<lambda>c. Returned (g1\<lparr>ctx := c\<rparr>)) else Returned g1)
        (\<lambda>g2. \<exists>c. g2 = g1\<lparr>ctx := c\<rparr>)" for b bss
    proof (cases b)
      case True
      show ?thesis
        unfolding if_P [OF True] by (rule safe_bind [OF safe_send_commands]) (simp only: safe_Returned, blast)
    next
      case False
      have "g1 = g1\<lparr>ctx := ctx g1\<rparr>"
        by simp
      with False show ?thesis
        by (simp only: if_False safe_Returned) blast
    qed
    have r: "vs_reqs g1 (vs_next g) = Some r"
      using 1 by simp
    show ?case
      unfolding Let_def r option.case
      by (rule safe_bind [OF fwd], erule exE, erule ssubst, rule ans)
  qed
qed

lemma safe_serve_cursor_loop:
  "dev_inv g \<Longrightarrow> n = avail_count (vs_queues g ! 1) \<Longrightarrow>
   safe (serve_cursor_loop env stack n g kick)
     (\<lambda>(k, g'). dev_inv g' \<and> avail_count (vs_queues g' ! 1) = 0 \<and> k = (kick \<or> n \<noteq> 0) \<and>
        vs_queues g' ! 0 = vs_queues g ! 0 \<and> async_cmds g' = async_cmds g \<and>
        fence_pipe g' = fence_pipe g \<and> kicks g' = kicks g)"
proof (induction n arbitrary: g kick)
  case (Suc n)
  then have av: "vqueue_are_requests_available (vs_queues g ! 1)"
    using avail_count_0 by fastforce
  have "safe (serve_cursor_loop env stack n g1 True)
      (\<lambda>(k, g'). dev_inv g' \<and> avail_count (vs_queues g' ! 1) = 0 \<and> k \<and>
        vs_queues g' ! 0 = vs_queues g ! 0 \<and> async_cmds g' = async_cmds g \<and>
        fence_pipe g' = fence_pipe g \<and> kicks g' = kicks g)"
    if "dev_inv g1" "avail_count (vs_queues g1 ! 1) + 1 = avail_count (vs_queues g ! 1)"
      "vs_queues g1 ! 0 = vs_queues g ! 0" "async_cmds g1 = async_cmds g"
      "fence_pipe g1 = fence_pipe g" "kicks g1 = kicks g" for g1
    using that Suc(3) by (intro safe_mono [OF Suc(1) [of g1 True]]) auto
  then show ?case
    unfolding serve_cursor_loop.simps
    using av by (auto intro!: safe_bind [OF safe_serve_cursor_request [OF Suc(2) av]])
qed auto

lemma safe_serve_cursor:
  assumes "dev_inv g"
  shows "safe (gpu_device_serve_cursor env stack g)
    (\<lambda>g'. dev_inv g' \<and> avail_count (vs_queues g' ! 1) = 0 \<and> vs_queues g' ! 0 = vs_queues g ! 0 \<and>
       async_cmds g' = async_cmds g \<and> fence_pipe g' = fence_pipe g \<and>
       kicks g' = kicks g @ (if vqueue_are_requests_available (vs_queues g ! 1) then [1] else []))"
proof -
  have fin: "dev_inv (if k then kick_queue 1 g2 else g2)" if "dev_inv g2" for k and g2
    by (rule dev_inv_cong [OF that]) (simp_all add: kick_queue_def)
  show ?thesis
    unfolding gpu_device_serve_cursor_def
  proof (rule safe_bind [OF safe_serve_cursor_loop [OF assms refl]], clarify, goal_cases)
    case (1 k g2)
    then show ?case
      using fin [of g2 "\<not> avail_count (vs_queues g ! 1) = 0"]
      by (auto simp: avail_count_0_iff kick_queue_def simp del: One_nat_def)
  qed
qed

section \<open>Both queues\<close>

lemma safe_serve:
  assumes "dev_inv g"
  shows "safe (gpu_device_serve env body stack ret eagain g)
    (\<lambda>g'. dev_inv g' \<and> avail_count (vs_queues g' ! 0) = 0 \<and> avail_count (vs_queues g' ! 1) = 0 \<and>
       fence_pipe g' = [])"
proof -
  have "safe (gpu_device_serve_cursor env stack g1)
    (\<lambda>g'. dev_inv g' \<and> avail_count (vs_queues g' ! 0) = 0 \<and> avail_count (vs_queues g' ! 1) = 0 \<and>
       fence_pipe g' = [])"
    if "dev_inv g1" "avail_count (vs_queues g1 ! 0) = 0" "fence_pipe g1 = []" for g1
    by (rule safe_mono [OF safe_serve_cursor [OF that(1)]]) (use that in auto)
  then show ?thesis
    unfolding gpu_device_serve_def
    by (auto simp: safe_def [of "Exited _"] intro!: safe_bind [OF safe_serve_ctrl [OF assms]])
qed

section \<open>Draining\<close>

lemma safe_drain_async_loop:
  "dev_inv (g\<lparr>async_cmds := cs\<rparr>) \<Longrightarrow> async_cmds g = cs \<Longrightarrow>
   safe (drain_async_loop env cs n g)
     (\<lambda>(k, g'). dev_inv g' \<and> async_cmds g' = [] \<and> k = n + length cs \<and> kicks g' = kicks g \<and>
        avail_count (vs_queues g' ! 0) = avail_count (vs_queues g ! 0) \<and>
        vs_queues g' ! 1 = vs_queues g ! 1)"
proof (induction cs arbitrary: n g)
  case (Cons c cs)
  have inv: "dev_inv (g\<lparr>async_cmds := [] @ c # cs\<rparr>)"
    using Cons(2) by simp
  have "cmd_req c \<in> set (waiting (g\<lparr>async_cmds := [] @ c # cs\<rparr>))"
    by (simp add: waiting_def)
  from dev_inv_waiting [OF inv this] obtain r where
    r: "vs_reqs g (cmd_req c) = Some r" "held_request 0 1 r"
    by auto
  show ?case
    unfolding drain_async_loop.simps
  proof (rule safe_bind [OF safe_send_response [OF r]], elim conjE exE)
    fix g' k
    assume g': "same_device g g'" "vs_reqs g' = (vs_reqs g)(cmd_req c := None)"
      "vs_next g' = vs_next g" "vs_queues g' = (vs_queues g)[0 := (vs_queues g ! 0)
         \<lparr>vr := push_used (vr (vs_queues g ! 0)) (ucast (req_idx r)) k\<rparr>]"
    note step = dev_inv_unwait [OF inv g'(2-4)]
    show "safe (drain_async_loop env cs (n + 1) (g'\<lparr>async_cmds := cs\<rparr>))
        (\<lambda>(k, g'). dev_inv g' \<and> async_cmds g' = [] \<and> k = n + length (c # cs) \<and> kicks g' = kicks g \<and>
        avail_count (vs_queues g' ! 0) = avail_count (vs_queues g ! 0) \<and>
        vs_queues g' ! 1 = vs_queues g ! 1)"
      by (rule safe_mono [OF Cons(1)]) (use step same_device_fields(10) [OF g'(1)] in auto)
  qed
qed (auto intro: dev_inv_cong)

lemma safe_drain_queue_loop:
  "dev_inv g \<Longrightarrow> qi < 2 \<Longrightarrow> k = avail_count (vs_queues g ! qi) \<Longrightarrow>
   safe (drain_queue_loop env h qi k n g)
     (\<lambda>(m, g'). dev_inv g' \<and> avail_count (vs_queues g' ! qi) = 0 \<and> m = n + k \<and>
        vs_queues g' ! (1 - qi) = vs_queues g ! (1 - qi) \<and> async_cmds g' = async_cmds g \<and>
        kicks g' = kicks g)"
proof (induction k arbitrary: n g)
  case (Suc k)
  then have av: "vqueue_are_requests_available (vs_queues g ! qi)"
    using avail_count_0 by fastforce
  have ans: "safe (vqueue_send_response g1 (vs_next g) bs) (\<lambda>g'. dev_inv g' \<and> same_device g1 g' \<and>
       avail_count (vs_queues g' ! qi) + 1 = avail_count (vs_queues g ! qi) \<and>
       vs_queues g' ! (1 - qi) = vs_queues g ! (1 - qi))"
    if "same_device g g1" "vs_next g1 = vs_next g + 1" "held_request qi 1 r"
      "vs_reqs g1 = (vs_reqs g)(vs_next g \<mapsto> r)" "vs_queues g1 = (vs_queues g)
         [qi := (vs_queues g ! qi)\<lparr>last_avail_idx := last_avail_idx (vs_queues g ! qi) + 1\<rparr>]" for g1 r bs
    by (rule safe_answer_fresh [OF Suc(2,3) av that(4,2) _ that(5,3)])
      (use same_device_fields [OF that(1)] in simp)
  have rec: "safe (drain_queue_loop env h qi k (n + 1) g2)
     (\<lambda>(m, g'). dev_inv g' \<and> avail_count (vs_queues g' ! qi) = 0 \<and> m = n + Suc k \<and>
        vs_queues g' ! (1 - qi) = vs_queues g ! (1 - qi) \<and> async_cmds g' = async_cmds g \<and>
        kicks g' = kicks g)"
    if "same_device g g1" "dev_inv g2" "same_device g1 g2"
       "avail_count (vs_queues g2 ! qi) + 1 = avail_count (vs_queues g ! qi)"
       "vs_queues g2 ! (1 - qi) = vs_queues g ! (1 - qi)" for g1 g2
    by (rule safe_mono [OF Suc(1) [OF that(2) Suc(3)]])
      (use that Suc(4) same_device_fields [OF that(1)] same_device_fields [OF that(3)] in auto)
  show ?case
    unfolding drain_queue_loop.simps not_not if_not_P [OF not_not [THEN iffD2, OF av]]
  proof (rule safe_bind [OF safe_get_request [OF av]], clarify, goal_cases)
    case (1 i g1 r)
    show ?case
      by (rule safe_bind [OF ans [OF 1(1,2)]], use 1 in blast, use 1 in blast, use 1 in blast)
        (elim conjE, rule rec [OF 1(1)])
  qed
qed simp

lemma safe_drain_once:
  assumes "dev_inv g"
  shows "safe (gpu_device_drain_once env g)
    (\<lambda>(n, g'). dev_inv g' \<and> async_cmds g' = [] \<and> avail_count (vs_queues g' ! 0) = 0 \<and>
       avail_count (vs_queues g' ! 1) = 0 \<and>
       n = length (async_cmds g) + avail_count (vs_queues g ! 0) + avail_count (vs_queues g ! 1))"
proof -
  have inv: "dev_inv (g\<lparr>async_cmds := async_cmds g\<rparr>)"
    using assms by simp
  have kick: "dev_inv (g\<lparr>kicks := ks\<rparr>)" if "dev_inv g" for ks and g
    by (rule dev_inv_cong [OF that]) simp_all
  show ?thesis
    unfolding gpu_device_drain_once_def
  proof (rule safe_bind [OF safe_drain_async_loop [OF inv refl]], clarify, goal_cases)
    case (1 n g1)
    note g1 = 1
    show ?case
    proof (rule safe_bind [OF safe_drain_queue_loop [OF g1(1) _ refl]], simp, clarify, goal_cases)
      case (1 n0 g2)
      note g2 = 1
      show ?case
        by (rule safe_bind [OF safe_drain_queue_loop [OF g2(1) _ refl]])
          (use g1 g2 kick in \<open>auto simp: Let_def kick_queue_def\<close>)
    qed
  qed
qed

end
