(* ===== verification/Gpu_Liveness.thy ===== *)
theory Gpu_Liveness
  imports Gpu_Memory Gpu_Requests
begin

text \<open>
  Serving the guest terminates: when the pages of the guest can be mapped, the backing of each
  resource is below 4 GiB and no command reads a resource back, the handlers return.  The
  failures that are left after the environment is excluded are misuses of a request, which the
  request invariant excludes.
\<close>

section \<open>Failures that are misuses of a request\<close>

definition plain :: "'a outcome \<Rightarrow> bool" where
  "plain m =
     (case m of
        Returned x \<Rightarrow> True
      | Exited e \<Rightarrow> e = ''assert(!req->mapped)''
      | Crashed e \<Rightarrow> e = ''request''
      | Diverged \<Rightarrow> False)"

lemma plain_Returned [simp, intro!]: "plain (Returned x)"
  by (simp add: plain_def)

lemma plain_bind: "plain m \<Longrightarrow> (\<And>x. m = Returned x \<Longrightarrow> plain (f x)) \<Longrightarrow> plain (obind m f)"
  by (cases m) (simp_all add: plain_def)

lemma plain_safe_returns: "plain m \<Longrightarrow> safe m P \<Longrightarrow> \<exists>x. m = Returned x \<and> P x"
  by (cases m) (simp_all add: plain_def safe_def)

section \<open>Commands\<close>

definition small_backings :: "gpu_device \<Rightarrow> bool" where
  "small_backings g = (\<forall>r\<in>set (reslist (ctx g)). iov_total (res_iovs r) < 2 ^ 32)"

lemma small_backings_cong: "small_backings g \<Longrightarrow> reslist (ctx g') = reslist (ctx g) \<Longrightarrow> small_backings g'"
  by (simp add: small_backings_def)

lemma plain_send_data_loop:
  "unat offset + iov_total vs < 2 ^ 32 \<Longrightarrow> plain (send_data_loop m c d vs offset skip len)"
proof (induction vs arbitrary: c d offset skip len)
  case (Cons v vs)
  have o: "unat (offset + iov_len v) = unat offset + unat (iov_len v)"
    using Cons(2) by (subst unat_add_lem [THEN iffD1]) simp_all
  have rec: "plain (send_data_loop m c' d' vs (offset + iov_len v) skip' len')" for c' d' skip' len'
    using Cons(2) by (intro Cons(1)) (simp add: o)
  have "offset + skip < 0xFFFFFFFF" if "skip < iov_len v"
  proof -
    have "unat (offset + skip) = unat offset + unat skip"
      using Cons(2) that by (subst unat_add_lem [THEN iffD1]) (simp_all add: word_less_nat_alt)
    then show ?thesis
      using Cons(2) that by (simp add: word_less_nat_alt)
  qed
  then have "plain (add_patch m c d (offset + skip) a l)" if "skip < iov_len v" for a l
    using that by (simp add: add_patch_def Let_def split: prod.splits)
  then show ?case
    by (auto simp: Let_def not_le intro!: plain_bind rec)
qed simp

lemma plain_transfer:
  "iov_total (res_iovs res) < 2 ^ 32 \<Longrightarrow> plain (rvgpu_ctx_transfer_to_host m c t res)"
  by (auto simp: rvgpu_ctx_transfer_to_host_def gpu_device_send_data_def Let_def case_prod_beta
      intro!: plain_bind plain_send_data_loop)

lemma plain_send_res:
  assumes "small_backings g"
  shows "plain (gpu_device_send_res g i t)"
proof -
  have "iov_total (res_iovs r) < 2 ^ 32" if "rvgpu_ctx_res_find (ctx g) i = Some r" for r
    using that assms get_res_resid unfolding rvgpu_ctx_res_find_def small_backings_def by blast
  then show ?thesis
    by (auto simp: gpu_device_send_res_def gpu_device_send_patched_def split: option.splits
        intro!: plain_bind plain_transfer)
qed

lemma plain_submit_3d_step: "small_backings g \<Longrightarrow> plain (submit_3d_step buf k g resp)"
  by (auto simp: submit_3d_step_def intro!: plain_bind plain_send_res)

lemma plain_submit_3d_loop: "small_backings g \<Longrightarrow> plain (submit_3d_loop buf size4 off g resp)"
proof (induction buf size4 off g resp rule: submit_3d_loop.induct)
  case (1 buf size4 off g resp)
  have "small_backings g1" if "submit_3d_step buf (unat off) g resp = Returned (g1, r1)" for g1 r1
    using submit_3d_step_frame [OF that] 1(2) small_backings_cong by blast
  with 1 show ?case
    by (subst submit_3d_loop.simps) (auto intro!: plain_bind plain_submit_3d_step)
qed

lemma plain_dispatch: "small_backings g \<Longrightarrow> plain (ctrl_dispatch env g cmd resp)"
  by (cases "hdr_type (hdr cmd)")
    (auto simp: ctrl_dispatch_def Let_def gpu_device_handle_submit_3d_def split: prod.splits
      intro!: plain_bind plain_send_res plain_submit_3d_loop)

lemma send_commands_all: "\<exists>c'. send_commands c bs True = Returned c'"
  by (induction bs arbitrary: c) (simp_all add: gpu_device_send_command_def)

lemma plain_send_commands: "plain (send_commands c bs True)"
  using send_commands_all [of c bs] by auto

section \<open>The environment\<close>

text \<open>The guest's pages can be mapped, and no command reads a resource back.\<close>

definition calm :: "gpu_env \<Rightarrow> bool" where
  "calm env =
     ((\<forall>d. desc_mapped (e_mmap env) d) \<and>
      (\<forall>bs. hdr_type (hdr (e_decode env bs)) \<noteq> VIRTIO_GPU_CMD_TRANSFER_FROM_HOST_3D))"

definition mem_small :: "gpu_device \<Rightarrow> bool" where
  "mem_small g = (mem_limited g \<and> unat (max_mem g) < 2 ^ 32)"

interpretation sml: table_invariant mem_small small_commands
proof unfold_locales
  fix env g cmd resp len g' resp' clen
  assume "mem_small g" "small_commands env" "ctrl_dispatch env g cmd resp = Returned (len, g', resp')"
    "sanity_check_gpu_ctrl (e_sizes env) cmd clen True = VIRTIO_GPU_RESP_OK_NODATA"
  then show "mem_small g'"
    using ctrl_dispatch_queues [of env g cmd resp len g' resp'] lim.P_dispatch
    by (auto simp: mem_small_def same_queues_def)
qed (auto simp: mem_small_def intro: lim.P_cong)

lemma mem_small_backings:
  assumes "mem_small g"
  shows "small_backings g"
proof -
  have "iov_total (res_iovs r) \<le> backing_total (ctx g)" if "r \<in> set (reslist (ctx g))" for r
    unfolding backing_total_def by (rule member_le_sum_list) (use that in auto)
  then show ?thesis
    using assms by (fastforce simp: small_backings_def mem_small_def mem_limited_def)
qed

lemma plain_get_request:
  "calm env \<Longrightarrow> vqueue_are_requests_available (vs_queues g ! qi) \<Longrightarrow>
   plain (vqueue_get_request (e_mmap env) g qi)"
  using vqueue_get_request_returns [of g qi "e_mmap env"] by (auto simp: calm_def)

lemma plain_request_ref: "plain (vqueue_request_ref g i)"
  by (simp add: vqueue_request_ref_def plain_def split: option.splits)

lemma plain_request_unref: "plain (vqueue_request_unref g i)"
  by (simp add: vqueue_request_unref_def plain_def Let_def split: option.splits)

lemma plain_send_response: "plain (vqueue_send_response g i bs)"
  using plain_request_unref plain_def [of "Crashed ''request''"]
  by (auto simp: vqueue_send_response_def Let_def split: option.splits prod.splits)

lemma plain_execute:
  assumes "small_backings g" "hdr_type (hdr cmd) \<noteq> VIRTIO_GPU_CMD_TRANSFER_FROM_HOST_3D"
  shows "plain (ctrl_execute env g req cmd rsize iovs resp)"
proof -
  have fwd: "plain (ctrl_forward env g1 cmd rsize iovs)" for g1
    using assms(2) by (auto simp: ctrl_forward_def simp del: send_commands.simps
        intro!: plain_bind plain_send_commands)
  have run: "plain (obind (ctrl_forward env g1 cmd rsize iovs) (\<lambda>g2. ctrl_dispatch env g2 cmd r1))"
    if "small_backings g1" for g1 r1
    using that ctrl_forward_frame small_backings_cong
    by (intro plain_bind [OF fwd] plain_dispatch) blast
  have "small_backings (add_resp g1 h req)" if "vqueue_request_ref g req = Returned g1" for g1 h
    using assms(1) same_device_fields(1) [OF request_ref_device [OF that]]
    by (simp add: small_backings_def add_resp_def)
  then show ?thesis
    unfolding ctrl_execute_def Let_def
    by (intro plain_bind run)
      (use assms(1) in \<open>auto simp: obind_Returned_iff intro!: plain_bind plain_request_ref split: if_splits\<close>)
qed

lemma plain_serve_ctrl_request:
  assumes "calm env" "small_backings g" "vqueue_are_requests_available (vs_queues g ! 0)"
  shows "plain (serve_ctrl_request env g resp kick)"
proof -
  have "plain (serve_ctrl_answer env i k len g3 r3)" for i k len g3 r3
    by (auto simp: serve_ctrl_answer_def Let_def
        intro!: plain_bind plain_send_response plain_request_unref)
  moreover have "small_backings (g1\<lparr>st_cmd := b\<rparr>)"
    if "vqueue_get_request (e_mmap env) g 0 = Returned (i, g1)" for i g1 b
    using assms(2) same_device_fields(1) [OF get_request_device [OF that]]
    by (simp add: small_backings_def)
  moreover have "hdr_type (hdr (e_decode env bs)) \<noteq> VIRTIO_GPU_CMD_TRANSFER_FROM_HOST_3D" for bs
    using assms(1) by (simp add: calm_def)
  moreover have "plain (Crashed ''request'' :: 'c outcome)"
    by (simp add: plain_def)
  ultimately show ?thesis
    unfolding serve_ctrl_request_def Let_def
    by (intro plain_bind [OF plain_get_request [OF assms(1,3)]])
      (auto split: option.splits intro!: plain_bind plain_execute)
qed

section \<open>The handlers return\<close>

definition served :: "gpu_device \<Rightarrow> bool" where
  "served g = (dev_inv g \<and> mem_small g)"

lemma serve_ctrl_request_returns:
  assumes "calm env" "small_commands env" "served g" "vqueue_are_requests_available (vs_queues g ! 0)"
  shows "\<exists>k g' resp'. serve_ctrl_request env g resp kick = Returned (k, g', resp') \<and> served g' \<and>
    avail_count (vs_queues g' ! 0) + 1 = avail_count (vs_queues g ! 0)"
proof -
  have inv: "dev_inv g" and lim: "mem_small g"
    using assms(3) by (simp_all add: served_def)
  obtain k g' resp' where r: "serve_ctrl_request env g resp kick = Returned (k, g', resp')"
    "dev_inv g'" "avail_count (vs_queues g' ! 0) + 1 = avail_count (vs_queues g ! 0)"
    using plain_safe_returns [OF plain_serve_ctrl_request [OF assms(1) mem_small_backings [OF lim] assms(4)]
        safe_serve_ctrl_request [OF inv assms(4)], of resp kick]
    by auto
  with sml.P_request [OF assms(2) lim r(1)] show ?thesis
    by (simp add: served_def)
qed

lemma serve_ctrl_loop_returns:
  "calm env \<Longrightarrow> small_commands env \<Longrightarrow> served g \<Longrightarrow> n = avail_count (vs_queues g ! 0) \<Longrightarrow>
   \<exists>k g'. serve_ctrl_loop env n g resp kick = Returned (k, g') \<and> served g'"
proof (induction n arbitrary: g resp kick)
  case (Suc n)
  then have av: "vqueue_are_requests_available (vs_queues g ! 0)"
    using avail_count_0 by fastforce
  obtain k g1 r1 where r: "serve_ctrl_request env g resp kick = Returned (k, g1, r1)" "served g1"
    "avail_count (vs_queues g1 ! 0) + 1 = avail_count (vs_queues g ! 0)"
    using serve_ctrl_request_returns [OF Suc(2-4) av] by blast
  with Suc(5) have "n = avail_count (vs_queues g1 ! 0)"
    by simp
  from Suc(1) [OF Suc(2,3) r(2) this] r(1) av show ?case
    by simp
qed simp

lemma process_fences_loop_plain: "plain (process_fences_loop env f cs kept n g)"
  by (induction env f cs kept n g rule: process_fences_loop.induct)
    (auto intro!: plain_bind plain_send_response)

lemma serve_fences_loop_plain: "plain (serve_fences_loop env fs n g)"
  by (induction env fs n g rule: serve_fences_loop.induct)
    (auto simp: process_fences_def intro!: plain_bind process_fences_loop_plain)

lemma serve_fences_returns:
  assumes "dev_inv g"
  shows "\<exists>k g'. serve_fences_loop env fs n g = Returned (k, g') \<and> dev_inv g' \<and>
    async_cmds g' = fold still_waiting fs (async_cmds g) \<and>
    k + length (async_cmds g') = n + length (async_cmds g) \<and>
    avail_count (vs_queues g' ! 0) = avail_count (vs_queues g ! 0) \<and>
    fence_pipe g' = fence_pipe g \<and> kicks g' = kicks g"
  using plain_safe_returns [OF serve_fences_loop_plain safe_serve_fences_loop [OF assms]] by fast

lemma serve_ctrl_returns:
  assumes "calm env" "small_commands env" "served g"
  shows "\<exists>g'. gpu_device_serve_ctrl env body g = Returned g'"
proof -
  let ?g = "g\<lparr>fence_pipe := []\<rparr>"
  have "dev_inv ?g" "mem_small ?g"
    using assms(3) dev_inv_cong [of g ?g] sml.P_cong [of g ?g] by (simp_all add: served_def)
  then obtain k g1 where f: "serve_fences_loop env (fence_pipe g) 0 ?g = Returned (k, g1)" "served g1"
    using serve_fences_returns [of ?g env "fence_pipe g" 0] sml.P_serve_fences [of ?g env "fence_pipe g" 0]
    by (auto simp: served_def)
  obtain k' g2 where "serve_ctrl_loop env (avail_count (vs_queues g1 ! 0)) g1
      \<lparr> resp_hdr = zero_hdr, resp_body = body \<rparr> k = Returned (k', g2)"
    using serve_ctrl_loop_returns [OF assms(1,2) f(2) refl] by blast
  with f(1) show ?thesis
    by (simp add: gpu_device_serve_ctrl_def gpu_device_serve_fences_def)
qed

lemma plain_serve_cursor_request:
  assumes "calm env" "vqueue_are_requests_available (vs_queues g ! 1)"
  shows "plain (serve_cursor_request env stack g)"
  using plain_def [of "Crashed ''request''"]
  unfolding serve_cursor_request_def Let_def
  by (intro plain_bind [OF plain_get_request [OF assms]])
    (auto split: option.splits simp del: send_commands.simps
      intro!: plain_bind plain_send_commands plain_send_response)

lemma serve_cursor_returns:
  assumes "calm env" "dev_inv g"
  shows "\<exists>g'. gpu_device_serve_cursor env stack g = Returned g'"
proof -
  have "\<exists>k g'. serve_cursor_loop env stack n g kick = Returned (k, g')"
    if "dev_inv g" "n = avail_count (vs_queues g ! 1)" for n g kick
    using that
  proof (induction n arbitrary: g kick)
    case (Suc n)
    then have av: "vqueue_are_requests_available (vs_queues g ! 1)"
      using avail_count_0 by fastforce
    then obtain g1 where r: "serve_cursor_request env stack g = Returned g1" "dev_inv g1"
      "avail_count (vs_queues g1 ! 1) + 1 = avail_count (vs_queues g ! 1)"
      using plain_safe_returns [OF plain_serve_cursor_request [OF assms(1) av]
          safe_serve_cursor_request [OF Suc(2) av]] by blast
    with Suc(3) have "n = avail_count (vs_queues g1 ! 1)"
      by simp
    from Suc(1) [OF r(2) this] r(1) av show ?case
      by simp
  qed simp
  from this [OF assms(2) refl, of False] show ?thesis
    by (auto simp: gpu_device_serve_cursor_def)
qed

lemma plain_drain_queue_loop:
  "calm env \<Longrightarrow> plain (drain_queue_loop env h qi k n g)"
  by (induction env h qi k n g rule: drain_queue_loop.induct)
    (auto intro!: plain_bind plain_get_request plain_send_response)

lemma plain_drain_async_loop: "plain (drain_async_loop env cs n g)"
  by (induction env cs n g rule: drain_async_loop.induct) (auto intro!: plain_bind plain_send_response)

lemma plain_drain_once: "calm env \<Longrightarrow> plain (gpu_device_drain_once env g)"
  by (auto simp: gpu_device_drain_once_def Let_def
      intro!: plain_bind plain_drain_async_loop plain_drain_queue_loop)

end
