(* ===== verification/Gpu_Properties.thy ===== *)
theory Gpu_Properties
  imports Gpu_Liveness
begin

text \<open>
  What the GPU device promises, as properties of its whole handlers, each applied to a concrete
  proxy with two connected hosts, a resource and a command of the guest.
\<close>

section \<open>A concrete proxy\<close>

text \<open>A kernel that can always map: every page of the guest at the same address.\<close>

definition page_mmap :: mmap where
  "page_mmap n p off = Some 0x7F0000000000"

lemma page_mapped: "desc_mapped page_mmap d"
proof -
  have "unat (take_bit 12 (a :: u64)) < 4096" for a
    using take_bit_nat_less_exp [of 12 "unat a"] by (simp add: unsigned_take_bit_eq)
  then have "unat (0x7F0000000000 + take_bit 12 (a :: u64)) = 0x7F0000000000 + unat (take_bit 12 a)" for a
    by (subst unat_add_lem [THEN iffD1]) (simp_all add: less_trans [of _ 4096])
  then have "0x7F0000000000 + take_bit 12 (a :: u64) \<noteq> 0" for a
    by (metis add_is_0 unat_0 unat_eq_0 zero_neq_numeral unat_numeral)
  then show ?thesis
    by (simp add: desc_mapped_def desc_iov_def map_guest_def page_mmap_def Let_def
        align_to_page_down_minus)
qed

definition demo_env :: "virtio_gpu_cmd \<Rightarrow> gpu_env" where
  "demo_env cmd =
     \<lparr> e_mmap = page_mmap, e_sizes = linux_sizes, e_decode = (\<lambda>_. cmd),
       e_hdr_bytes = (\<lambda>h. replicate 24 0), e_sz_rdi = 408, e_sz_ci = 40, e_sz_c = 24, e_dpys = [] \<rparr>"

text \<open>One readable descriptor of the given length at guest address 0x3010.\<close>

definition demo_read_desc :: "u32 \<Rightarrow> vring_desc" where
  "demo_read_desc n = \<lparr> d_addr = 0x3010, d_len = n, d_flags = 0, d_next = 0 \<rparr>"

definition demo_read_vring :: "u32 \<Rightarrow> vring" where
  "demo_read_vring n = \<lparr> vr_num = 4, vr_desc = (\<lambda>_. demo_read_desc n), avail_idx = 1,
     avail_ring = (\<lambda>_. 0), used_idx = 0, used_ring = (\<lambda>_. (0, 0)) \<rparr>"

definition demo_idle_vring :: vring where
  "demo_idle_vring = (demo_read_vring 0)\<lparr>avail_idx := 0\<rparr>"

definition demo_info :: rvgpu_res_info where
  "demo_info = \<lparr> ri_target = 2, ri_format = VIRGL_FORMAT_R8G8B8A8_UNORM, ri_width = 2, ri_height = 2,
     ri_depth = 1, ri_array_size = 1, ri_last_level = 0, ri_flags = 0, ri_bpp = 4 \<rparr>"

definition demo_gpu :: "u32 \<Rightarrow> iovec list option \<Rightarrow> gpu_device" where
  "demo_gpu n bk =
     \<lparr> vs_mem = (\<lambda>a. ucast a), vs_queues = [\<lparr> vr = demo_read_vring n, last_avail_idx = 0 \<rparr>,
         \<lparr> vr = demo_idle_vring, last_avail_idx = 0 \<rparr>],
       vs_reqs = (\<lambda>_. None), vs_next = 0, vs_munmaps = [],
       max_mem = 0x100000, curr_mem = (case bk of None \<Rightarrow> 0 | Some vs \<Rightarrow> iov_size vs),
       scanres = 0, scan_id = 0, capdata = [], num_capsets = 0,
       events_read = 0, async_cmds = [], fence_pipe = [], st_cmd = [], st_reset = False,
       gpu_reset_state = GPU_RESET_NONE,
       ctx = (demo_ctx [])\<lparr>reslist := [\<lparr> resid = 7, backing = bk, res_info = demo_info \<rparr>]\<rparr>,
       kicks = [], ctx_calls = [] \<rparr>"

definition demo_attach :: virtio_gpu_cmd where
  "demo_attach = zero_cmd\<lparr>hdr := (hdr zero_cmd)\<lparr>hdr_type := VIRTIO_GPU_CMD_RESOURCE_ATTACH_BACKING\<rparr>,
     r_att := \<lparr> att_resource_id = 7, att_nr_entries = 1 \<rparr>,
     r_mem := (\<lambda>_. \<lparr> mem_addr = 0x5000, mem_length = 0x2000 \<rparr>)\<rparr>"

lemma demo_dev_inv: "dev_inv (demo_gpu n bk)"
  by (simp add: dev_inv_def demo_gpu_def waiting_def demo_idle_vring_def demo_read_vring_def)

lemma demo_mem_limited: "mem_limited (demo_gpu n None)"
  by (simp add: mem_limited_def mem_accounted_def demo_gpu_def reslist_inv_def reslist_total_def
      mem_weight_def res_iovs_def backing_total_def)

lemma demo_served: "served (demo_gpu n None)"
  using demo_dev_inv demo_mem_limited by (simp add: served_def mem_small_def) (simp add: demo_gpu_def)

lemma demo_small_commands: "small_commands (demo_env cmd)"
  by (simp add: small_commands_def demo_env_def linux_sizes_def)

lemma demo_calm:
  "hdr_type (hdr cmd) \<noteq> VIRTIO_GPU_CMD_TRANSFER_FROM_HOST_3D \<Longrightarrow> calm (demo_env cmd)"
  by (simp add: calm_def demo_env_def page_mapped)

section \<open>Serving the queues\<close>

lemma same_device_table:
  "same_device g g' \<Longrightarrow> ctx g' = ctx g \<and> curr_mem g' = curr_mem g \<and> max_mem g' = max_mem g"
  using same_device_fields by blast

lemma serve_cursor_request_frame:
  assumes "serve_cursor_request env stack g = Returned g'"
  shows "reslist (ctx g') = reslist (ctx g) \<and> curr_mem g' = curr_mem g \<and> max_mem g' = max_mem g"
proof -
  obtain req g1 r where g1: "vqueue_get_request (e_mmap env) g 1 = Returned (req, g1)"
    "vs_reqs g1 req = Some r"
    using assms by (auto simp: serve_cursor_request_def obind_Returned_iff split: option.splits)
  have "reslist (ctx g') = reslist (ctx g1) \<and> curr_mem g' = curr_mem g1 \<and> max_mem g' = max_mem g1"
    using assms g1
    by (auto simp: serve_cursor_request_def Let_def obind_Returned_iff simp del: send_commands.simps
        split: if_splits dest!: send_response_device same_device_table send_commands_reslist)
  with same_device_fields(1-3) [OF get_request_device [OF g1(1)]] show ?thesis
    by simp
qed

lemma serve_cursor_loop_frame:
  "serve_cursor_loop env stack n g kick = Returned (k, g') \<Longrightarrow>
   reslist (ctx g') = reslist (ctx g) \<and> curr_mem g' = curr_mem g \<and> max_mem g' = max_mem g"
  by (induction env stack n g kick rule: serve_cursor_loop.induct)
    (auto simp: obind_Returned_iff split: if_splits dest!: serve_cursor_request_frame)

lemma serve_cursor_mem_small:
  assumes "mem_small g" "gpu_device_serve_cursor env stack g = Returned g'"
  shows "mem_small g'"
  using assms(2)
  by (intro sml.P_cong [OF assms(1)])
    (auto simp: gpu_device_serve_cursor_def obind_Returned_iff kick_queue_def
      dest!: serve_cursor_loop_frame split: if_splits)

lemma serve_returns:
  assumes "calm env" "small_commands env" "served g" and "ret = 8 \<or> ret = 0 \<or> ret < 0 \<and> eagain"
  shows "\<exists>g'. gpu_device_serve env body stack ret eagain g = Returned g' \<and> served g'"
proof -
  obtain g1 where g1: "gpu_device_serve_ctrl env body g = Returned g1"
    using serve_ctrl_returns [OF assms(1-3)] by blast
  have "dev_inv g" "mem_small g"
    using assms(3) by (simp_all add: served_def)
  then have inv: "dev_inv g1" "mem_small g1"
    using safe_ReturnedD [OF safe_serve_ctrl g1] sml.P_serve_ctrl [OF assms(2) _ g1] by simp_all
  obtain g2 where g2: "gpu_device_serve_cursor env stack g1 = Returned g2"
    using serve_cursor_returns [OF assms(1) inv(1)] by blast
  have "gpu_device_serve env body stack ret eagain g = Returned g2"
    using assms(4) g1 g2 by (auto simp: gpu_device_serve_def)
  with serve_cursor_mem_small [OF inv(2) g2] safe_ReturnedD [OF safe_serve_cursor [OF inv(1)] g2] show ?thesis
    by (simp add: served_def)
qed

text \<open>
  C2. Serving the guest always comes back and leaves nothing behind: when the guest's pages can be
  mapped and no command reads a resource back, \<open>gpu_device_serve\<close> returns, both queues are
  empty, every fence in the pipe has been used, and the request and memory invariants hold
  again.
\<close>

theorem gpu_device_serve_returns:
  assumes "calm env" "small_commands env" "served g" and "ret = 8 \<or> ret = 0 \<or> ret < 0 \<and> eagain"
  shows "\<exists>g'. gpu_device_serve env body stack ret eagain g = Returned g' \<and> served g' \<and>
    \<not> vqueue_are_requests_available (vs_queues g' ! 0) \<and>
    \<not> vqueue_are_requests_available (vs_queues g' ! 1) \<and> fence_pipe g' = []"
proof -
  obtain g' where g': "gpu_device_serve env body stack ret eagain g = Returned g'" "served g'"
    using serve_returns [OF assms] by blast
  have "dev_inv g"
    using assms(3) by (simp add: served_def)
  with g' safe_ReturnedD [OF safe_serve g'(1)] show ?thesis
    by (simp add: avail_count_0_iff)
qed

lemma gpu_device_serve_returns_witness:
  "\<exists>g'. gpu_device_serve (demo_env demo_attach) [] [] 8 False (demo_gpu 48 None) = Returned g' \<and> served g' \<and>
    \<not> vqueue_are_requests_available (vs_queues g' ! 0) \<and>
    \<not> vqueue_are_requests_available (vs_queues g' ! 1) \<and> fence_pipe g' = []"
  by (rule gpu_device_serve_returns [OF demo_calm demo_small_commands demo_served])
    (simp_all add: demo_attach_def)

text \<open>
  C16. No request is misused, lost or answered twice, whatever the guest sends: from a state of the
  request invariant, serving the control queue never touches a freed request nor frees one whose
  buffers are still mapped; when it returns, the invariant holds again (the live requests are
  those of the commands that wait for a fence, and the used index trails the requests taken by
  exactly their number), the queue is empty, and the guest has been notified if and only if some
  request was answered.
\<close>

theorem gpu_device_serve_ctrl_requests:
  assumes "dev_inv g"
  shows "gpu_device_serve_ctrl env body g \<noteq> Crashed ''request'' \<and>
    gpu_device_serve_ctrl env body g \<noteq> Exited ''assert(!req->mapped)'' \<and>
    (\<forall>g'. gpu_device_serve_ctrl env body g = Returned g' \<longrightarrow>
       dev_inv g' \<and> \<not> vqueue_are_requests_available (vs_queues g' ! 0) \<and>
       length (async_cmds g') \<le> length (async_cmds g) + avail_count (vs_queues g ! 0) \<and>
       kicks g' = kicks g @
         (if length (async_cmds g') = length (async_cmds g) + avail_count (vs_queues g ! 0)
          then [] else [0]))"
  using safe_serve_ctrl [OF assms, of env body]
  by (auto simp: safe_def ctrl_answered_def avail_count_0_iff)

lemma demo_serve_attach:
  "\<exists>g'. gpu_device_serve_ctrl (demo_env demo_attach) [] (demo_gpu 48 None) = Returned g'"
  by (rule serve_ctrl_returns [OF demo_calm demo_small_commands demo_served]) (simp add: demo_attach_def)

lemma gpu_device_serve_ctrl_requests_witness:
  "\<exists>g'. gpu_device_serve_ctrl (demo_env demo_attach) [] (demo_gpu 48 None) = Returned g' \<and> dev_inv g' \<and>
     length (async_cmds g') \<le> 1"
proof -
  have "avail_count (vs_queues (demo_gpu 48 None) ! 0) = 1" "async_cmds (demo_gpu 48 None) = []"
    by (simp_all add: demo_gpu_def avail_count_def demo_read_vring_def)
  with demo_serve_attach gpu_device_serve_ctrl_requests [OF demo_dev_inv, of "demo_env demo_attach" "[]" 48 None]
  show ?thesis
    by auto
qed

section \<open>The memory of the backings\<close>

text \<open>
  C18. The memory counter is exact: after any batch of commands the proxy's \<open>curr_mem\<close> is the
  total length of the backing pages of the resources that exist, and resource ids stay distinct.
\<close>

theorem gpu_device_serve_ctrl_accounts:
  assumes "mem_accounted g" "gpu_device_serve_ctrl env body g = Returned g'"
  shows "mem_accounted g'"
  by (rule acc.P_serve_ctrl [OF TrueI assms])

lemma gpu_device_serve_ctrl_accounts_witness:
  "\<exists>g'. gpu_device_serve_ctrl (demo_env demo_attach) [] (demo_gpu 48 None) = Returned g' \<and> mem_accounted g'"
  using demo_serve_attach demo_mem_limited gpu_device_serve_ctrl_accounts
  unfolding mem_limited_def by blast

interpretation cap: table_invariant "\<lambda>g. mem_limited g \<and> max_mem g = m" small_commands for m
proof unfold_locales
  fix env g cmd resp len g' resp' clen
  assume "mem_limited g \<and> max_mem g = m" "small_commands env"
    "ctrl_dispatch env g cmd resp = Returned (len, g', resp')"
    "sanity_check_gpu_ctrl (e_sizes env) cmd clen True = VIRTIO_GPU_RESP_OK_NODATA"
  then show "mem_limited g' \<and> max_mem g' = m"
    using ctrl_dispatch_queues [of env g cmd resp len g' resp'] lim.P_dispatch
    by (auto simp: same_queues_def)
qed (auto intro: lim.P_cong)

text \<open>
  C19. The memory limit of the command line holds: whatever the guest attaches, the pages the proxy
  keeps mapped for resources never exceed \<open>max_mem\<close>, counted without wrap-around.
\<close>

theorem gpu_device_serve_ctrl_limit:
  assumes "small_commands env" "mem_limited g" "gpu_device_serve_ctrl env body g = Returned g'"
  shows "max_mem g' = max_mem g \<and> backing_total (ctx g') \<le> unat (max_mem g)"
  using cap.P_serve_ctrl [OF assms(1) _ assms(3), of "max_mem g"] assms(2) unfolding mem_limited_def by metis

lemma gpu_device_serve_ctrl_limit_witness:
  "\<exists>g'. gpu_device_serve_ctrl (demo_env demo_attach) [] (demo_gpu 48 None) = Returned g' \<and>
     backing_total (ctx g') \<le> 0x100000"
proof -
  obtain g' where g': "gpu_device_serve_ctrl (demo_env demo_attach) [] (demo_gpu 48 None) = Returned g'"
    using demo_serve_attach by blast
  from gpu_device_serve_ctrl_limit [OF demo_small_commands demo_mem_limited g'] have
    "backing_total (ctx g') \<le> unat (max_mem (demo_gpu 48 None))"
    by simp
  also have "max_mem (demo_gpu 48 None) = 0x100000"
    by (simp add: demo_gpu_def)
  finally show ?thesis
    using g' by auto
qed

text \<open>
  C20. Detaching undoes attaching: after a backing has been attached, \<open>gpu_device_detach\<close> of the
  same resource succeeds, gives the memory counter and the table back as they were, and unmaps
  each mapping the attach made, in order, with the address it got and the length it asked for.
\<close>

theorem gpu_device_attach_detach:
  assumes "gpu_device_attach env g i mem n = (VIRTIO_GPU_RESP_OK_NODATA, g1)" and "reslist_inv (ctx g)"
  shows "\<exists>g2. gpu_device_detach g1 i = (VIRTIO_GPU_RESP_OK_NODATA, g2) \<and>
    curr_mem g2 = curr_mem g \<and> rvgpu_ctx_res_find (ctx g2) = rvgpu_ctx_res_find (ctx g) \<and>
    vs_munmaps g2 = vs_munmaps g @ unmap_iovs (map_entries (e_mmap env) mem (unat n))"
proof -
  let ?vs = "map_entries (e_mmap env) mem (unat n)"
  let ?a = "\<lambda>r. r\<lparr>backing := Some ?vs\<rparr> :: rvgpu_res"
  let ?d = "\<lambda>r. r\<lparr>backing := None\<rparr> :: rvgpu_res"
  obtain res where res: "rvgpu_ctx_res_find (ctx g) i = Some res" "backing res = None"
    and g1: "g1 = g\<lparr>ctx := res_update (ctx g) i ?a, curr_mem := curr_mem g + iov_size ?vs\<rparr>"
    using assms(1) by (auto simp: gpu_device_attach_def Let_def split: option.splits if_splits)
  have f1: "rvgpu_ctx_res_find (ctx g1) k = (if k = i then Some (?a res) else rvgpu_ctx_res_find (ctx g) k)" for k
    using res by (simp add: g1 rt.find_update)
  let ?g2 = "g1\<lparr>vs_munmaps := vs_munmaps g1 @ unmap_iovs ?vs, curr_mem := curr_mem g1 - iov_size ?vs,
    ctx := res_update (ctx g1) i ?d\<rparr>"
  have "gpu_device_detach g1 i = (VIRTIO_GPU_RESP_OK_NODATA, ?g2)"
    using f1 [of i] by (simp add: gpu_device_detach_def gpu_device_free_res_eq Let_def res_iovs_def)
  moreover have "rvgpu_ctx_res_find (res_update (ctx g1) i ?d) k = rvgpu_ctx_res_find (ctx g) k" for k
    using f1 res by (simp add: rt.find_update) 
  ultimately show ?thesis
    by (intro exI [of _ ?g2]) (auto simp: g1)
qed

lemma gpu_device_attach_detach_witness:
  "\<exists>g1 g2. gpu_device_attach (demo_env demo_attach) (demo_gpu 48 None) 7
      (\<lambda>_. \<lparr> mem_addr = 0x5000, mem_length = 0x2000 \<rparr>) 1 = (VIRTIO_GPU_RESP_OK_NODATA, g1) \<and>
    curr_mem g1 = 0x2000 \<and>
    gpu_device_detach g1 7 = (VIRTIO_GPU_RESP_OK_NODATA, g2) \<and> curr_mem g2 = 0 \<and>
    vs_munmaps g2 = [(0x7F0000000000, 0x2000)]"
proof -
  let ?mem = "\<lambda>_ :: nat. \<lparr> mem_addr = 0x5000, mem_length = 0x2000 \<rparr> :: mem_entry"
  obtain g1 where g1: "gpu_device_attach (demo_env demo_attach) (demo_gpu 48 None) 7 ?mem 1 =
      (VIRTIO_GPU_RESP_OK_NODATA, g1)" "curr_mem g1 = 0x2000"
    by (simp add: gpu_device_attach_def rvgpu_ctx_res_find_def demo_gpu_def Let_def map_entries_def)
  have "reslist_inv (ctx (demo_gpu 48 None))"
    by (simp add: reslist_inv_def demo_gpu_def)
  from gpu_device_attach_detach [OF g1(1) this] g1 show ?thesis
    by (auto simp: demo_gpu_def demo_env_def page_mmap_def map_entries_def unmap_iovs_def
        map_guest_def unmap_guest_def Let_def align_to_page_down_def align_to_page_up_def)
qed

section \<open>Fences\<close>

lemma fold_still_waiting:
  "fold still_waiting fs cs =
     filter (\<lambda>c. (\<forall>f\<in>set fs. hdr_fence_id (cmd_hdr c) > ucast f) \<or>
       hdr_flags (cmd_hdr c) AND VIRTIO_GPU_FLAG_VSYNC \<noteq> 0) cs"
proof (induction fs arbitrary: cs)
  case (Cons f fs)
  show ?case
    unfolding fold_simps Cons
    unfolding still_waiting_def filter_filter by (rule filter_cong) auto
qed simp

lemma serve_fences_filter_ex:
  assumes "dev_inv g"
  shows "\<exists>k g'. gpu_device_serve_fences env g = Returned (k, g') \<and> dev_inv g' \<and> fence_pipe g' = [] \<and>
    async_cmds g' = filter (\<lambda>c. (\<forall>f\<in>set (fence_pipe g). hdr_fence_id (cmd_hdr c) > ucast f) \<or>
      hdr_flags (cmd_hdr c) AND VIRTIO_GPU_FLAG_VSYNC \<noteq> 0) (async_cmds g) \<and>
    k + length (async_cmds g') = length (async_cmds g)"
proof -
  have "dev_inv (g\<lparr>fence_pipe := []\<rparr>)"
    by (rule dev_inv_cong [OF assms]) simp_all
  from serve_fences_returns [OF this, of env "fence_pipe g" 0] show ?thesis
    unfolding gpu_device_serve_fences_def fold_still_waiting by fastforce
qed

lemma serve_fences_filter:
  assumes "dev_inv g" "gpu_device_serve_fences env g = Returned (k, g')"
  shows "async_cmds g' = filter (\<lambda>c. (\<forall>f\<in>set (fence_pipe g). hdr_fence_id (cmd_hdr c) > ucast f) \<or>
      hdr_flags (cmd_hdr c) AND VIRTIO_GPU_FLAG_VSYNC \<noteq> 0) (async_cmds g)"
  using serve_fences_filter_ex [OF assms(1), of env] assms(2) by auto

text \<open>
  Signalled fences answer exactly the commands they complete: \<open>gpu_device_serve_fences\<close> always
  returns, empties the pipe, keeps waiting (in their order) the commands whose fence id is
  above every fence in the pipe and those held for a vertical sync, and counts one answer for each of the others.
\<close>

theorem gpu_device_serve_fences_answers:
  assumes "dev_inv g"
  shows "\<exists>k g'. gpu_device_serve_fences env g = Returned (k, g') \<and> dev_inv g' \<and> fence_pipe g' = [] \<and>
    async_cmds g' = filter (\<lambda>c. (\<forall>f\<in>set (fence_pipe g). hdr_fence_id (cmd_hdr c) > ucast f) \<or>
      hdr_flags (cmd_hdr c) AND VIRTIO_GPU_FLAG_VSYNC \<noteq> 0) (async_cmds g) \<and>
    k + length (async_cmds g') = length (async_cmds g)"
  by (rule serve_fences_filter_ex [OF assms])

text \<open>The state after a fenced command of fence 5 was taken, when fence 6 has been signalled.\<close>

definition demo_waiting :: gpu_device where
  "demo_waiting = (demo_gpu 48 None)\<lparr>
     vs_reqs := [0 \<mapsto> \<lparr> req_r = [], req_w = [], req_idx = 0, req_q = 0, req_mapped = True, req_refcount = 1 \<rparr>],
     vs_next := 1, async_cmds := [\<lparr> cmd_hdr = zero_hdr\<lparr>hdr_fence_id := 5\<rparr>, cmd_req = 0 \<rparr>],
     vs_queues := [\<lparr> vr = demo_read_vring 48, last_avail_idx = 1 \<rparr>, \<lparr> vr = demo_idle_vring, last_avail_idx = 0 \<rparr>],
     fence_pipe := [6]\<rparr>"

lemma demo_waiting_inv: "dev_inv demo_waiting"
  by (simp add: dev_inv_def demo_waiting_def demo_gpu_def waiting_def held_request_def
      demo_idle_vring_def demo_read_vring_def)

lemma gpu_device_serve_fences_answers_witness:
  "\<exists>g'. gpu_device_serve_fences (demo_env demo_attach) demo_waiting = Returned (1, g') \<and> dev_inv g' \<and>
     async_cmds g' = []"
  using gpu_device_serve_fences_answers [OF demo_waiting_inv, of "demo_env demo_attach"]
  by (auto simp: demo_waiting_def zero_hdr_def)

text \<open>A run of the resource thread over the fence messages it receives, with what it passes on.\<close>

fun resource_thread_run :: "fence_sync \<Rightarrow> (nat \<times> u32) list \<Rightarrow> u32 list" where
  "resource_thread_run s [] = []"
| "resource_thread_run s ((i, f) # ms) =
     (case resource_thread_fence s i f of
        (s', None) \<Rightarrow> resource_thread_run s' ms
      | (s', Some x) \<Rightarrow> x # resource_thread_run s' ms)"

lemma min_fence_loop_spec:
  "min_fence_loop fs j best host = (b, h) \<Longrightarrow>
     b \<le> best \<and> (\<forall>f\<in>set fs. b \<le> f) \<and>
     (b = best \<and> h = host \<or> j \<le> h \<and> h < j + length fs \<and> fs ! (h - j) = b)"
proof (induction fs arbitrary: j best host)
  case (Cons f fs)
  show ?case
  proof (cases "best > f")
    case True
    with Cons(2) have "min_fence_loop fs (j + 1) f j = (b, h)"
      by simp
    from Cons(1) [OF this] True show ?thesis
      by (auto simp: nth_Cons' le_Suc_eq)
  next
    case False
    with Cons(2) have "min_fence_loop fs (j + 1) best host = (b, h)"
      by simp
    from Cons(1) [OF this] False show ?thesis
      by (auto simp: nth_Cons' not_less)
  qed
qed simp

definition fence_sync_inv :: "nat \<Rightarrow> (nat \<times> u32) set \<Rightarrow> fence_sync \<Rightarrow> bool" where
  "fence_sync_inv n seen s =
     (length (recv_fence_ids s) = n \<and> length (recv_fence_flags s) = n \<and>
      (\<forall>j<n. if recv_fence_flags s ! j then (j, recv_fence_ids s ! j) \<in> seen else recv_fence_ids s ! j = 0))"

lemma resource_thread_fence_inv:
  assumes "fence_sync_inv n seen s" "i < n" "resource_thread_fence s i f = (s', out)"
  shows "fence_sync_inv n (insert (i, f) seen) s'"
    and "out = Some x \<Longrightarrow> x \<noteq> 0 \<Longrightarrow> j < n \<Longrightarrow> \<exists>y. (j, y) \<in> insert (i, f) seen \<and> x \<le> y"
proof -
  obtain b h where m: "min_fence_loop ((recv_fence_ids s)[i := f]) 0 f i = (b, h)"
    by fastforce
  have s': "recv_fence_ids s' = (recv_fence_ids s)[i := f]" "recv_fence_flags s' = (recv_fence_flags s)[i := True]"
    "out = (if (recv_fence_flags s)[i := True] ! h then Some b else None)"
    using assms(3) m by (auto simp: resource_thread_fence_def Let_def)
  show inv: "fence_sync_inv n (insert (i, f) seen) s'"
    using assms(1,2) by (auto simp: fence_sync_inv_def s' nth_list_update)
  assume x: "out = Some x" "x \<noteq> 0" "j < n"
  then have "x = b"
    by (simp add: s'(3) split: if_splits)
  moreover have "recv_fence_ids s' ! j \<in> set ((recv_fence_ids s)[i := f])"
    using x(3) assms(1) s'(1) by (auto simp: fence_sync_inv_def)
  ultimately have "x \<le> recv_fence_ids s' ! j"
    using min_fence_loop_spec [OF m] by blast
  with x inv show "\<exists>y. (j, y) \<in> insert (i, f) seen \<and> x \<le> y"
    unfolding fence_sync_inv_def by (metis word_le_0_iff)
qed

lemma resource_thread_run_bound:
  "fence_sync_inv n seen s \<Longrightarrow> \<forall>(i, f)\<in>set ms. i < n \<Longrightarrow> x \<in> set (resource_thread_run s ms) \<Longrightarrow>
   x \<noteq> 0 \<Longrightarrow> j < n \<Longrightarrow> \<exists>y. (j, y) \<in> seen \<union> set ms \<and> x \<le> y"
proof (induction ms arbitrary: s seen)
  case (Cons m ms)
  obtain i f where m: "m = (i, f)"
    by fastforce
  obtain s' out where r: "resource_thread_fence s i f = (s', out)"
    by fastforce
  have i: "i < n" and ms: "\<forall>(i, f)\<in>set ms. i < n"
    using Cons(3) by (simp_all add: m)
  note inv = resource_thread_fence_inv [OF Cons(2) i r]
  have rec: "\<exists>y. (j, y) \<in> insert (i, f) seen \<union> set ms \<and> x \<le> y" if "x \<in> set (resource_thread_run s' ms)"
    by (rule Cons(1) [OF inv(1) ms that Cons(5,6)])
  show ?case
    using Cons(4) r rec inv(2) [of x j] Cons(5,6) by (cases out) (auto simp: m)
qed simp


definition demo_messages :: "(nat \<times> u32) list" where
  "demo_messages = [(0, 6), (1, 6)]"


section \<open>Commands that are refused\<close>

text \<open>The command a request carries: its bytes over what the static buffer held.\<close>

definition received_command :: "gpu_env \<Rightarrow> gpu_device \<Rightarrow> vqueue_request \<Rightarrow> virtio_gpu_cmd" where
  "received_command env g r =
     (let new = fst (copy_from_iov (vs_mem g) (req_r r) (sz_cmd (e_sizes env)))
      in e_decode env (new @ drop (length new) (st_cmd g)))"


lemma demo_take_request:
  "\<exists>g1 r. vqueue_get_request (e_mmap (demo_env cmd)) (demo_gpu n None) 0 = Returned (0, g1) \<and>
     vs_reqs g1 0 = Some r"
proof -
  have "vqueue_are_requests_available (vs_queues (demo_gpu n None) ! 0)"
    by (simp add: demo_gpu_def demo_read_vring_def vqueue_are_requests_available_def)
  from vqueue_get_request_returns [OF this page_mapped] obtain i g1 where
    g: "vqueue_get_request page_mmap (demo_gpu n None) 0 = Returned (i, g1)"
    by blast
  then have "i = 0 \<and> (\<exists>r. vs_reqs g1 0 = Some r)"
    by (rule vqueue_get_request_ReturnedE) (simp add: demo_gpu_def)
  with g show ?thesis
    by (auto simp: demo_env_def)
qed


section \<open>Draining\<close>

text \<open>
  Draining ends everything: when the guest's pages can be mapped, \<open>gpu_device_drain_once\<close>
  returns, no request is live, no command waits and both queues are empty, and the count it
  reports is the number of commands that waited plus the requests that were available.
\<close>

theorem gpu_device_drain_once_empties:
  assumes "calm env" "dev_inv g"
  shows "\<exists>g'. gpu_device_drain_once env g = Returned
      (length (async_cmds g) + avail_count (vs_queues g ! 0) + avail_count (vs_queues g ! 1), g') \<and>
    async_cmds g' = [] \<and> vs_reqs g' = (\<lambda>_. None) \<and>
    \<not> vqueue_are_requests_available (vs_queues g' ! 0) \<and>
    \<not> vqueue_are_requests_available (vs_queues g' ! 1)"
proof -
  obtain n g' where g': "gpu_device_drain_once env g = Returned (n, g')" "dev_inv g'" "async_cmds g' = []"
    "avail_count (vs_queues g' ! 0) = 0" "avail_count (vs_queues g' ! 1) = 0"
    "n = length (async_cmds g) + avail_count (vs_queues g ! 0) + avail_count (vs_queues g ! 1)"
    using plain_safe_returns [OF plain_drain_once [OF assms(1)] safe_drain_once [OF assms(2)]] by auto
  then have "dom (vs_reqs g') = {}"
    by (simp add: dev_inv_def waiting_def)
  then have "vs_reqs g' = (\<lambda>_. None)"
    by simp
  with g' show ?thesis
    by (simp add: avail_count_0_iff)
qed

lemma gpu_device_drain_once_empties_witness:
  "\<exists>g'. gpu_device_drain_once (demo_env demo_attach) demo_waiting = Returned (1, g') \<and> async_cmds g' = []"
proof -
  have "calm (demo_env demo_attach)"
    by (rule demo_calm) (simp add: demo_attach_def)
  from gpu_device_drain_once_empties [OF this demo_waiting_inv] show ?thesis
    by (auto simp: demo_waiting_def avail_count_def demo_read_vring_def demo_idle_vring_def)
qed

section \<open>Capability sets\<close>

text \<open>The file that lists the given capability sets.\<close>

definition capset_file :: "(capset \<times> byte list) list \<Rightarrow> byte list" where
  "capset_file cs = concat (map (\<lambda>(h, data).
     le32 (cap_id h) @ le32 (cap_version h) @ le32 (cap_size h) @ data) cs)"

definition capset_ok :: "capset \<times> byte list \<Rightarrow> bool" where
  "capset_ok c = (cap_size (fst c) \<le> CAPSET_MAX_SIZE \<and> length (snd c) = unat (cap_size (fst c)))"

lemma capset_read_loop_file:
  "list_all capset_ok cs \<Longrightarrow> capset_read_loop n (capset_file cs) = take n cs"
proof (induction n arbitrary: cs)
  case (Suc n)
  show ?case
  proof (cases cs)
    case (Cons c cs')
    obtain h d where c: "c = (h, d)"
      by fastforce
    have ok: "cap_size h \<le> CAPSET_MAX_SIZE" "length d = unat (cap_size h)"
      using Suc(2) by (simp_all add: Cons c capset_ok_def)
    have fb: "capset_file cs = le32 (cap_id h) @ le32 (cap_version h) @ le32 (cap_size h) @ d @ capset_file cs'"
      by (simp add: capset_file_def Cons c)
    have rd: "un_le32 (le32 x @ ys) = x" "drop 4 (le32 x @ ys) = ys" "length (le32 x) = 4" for x ys
      by simp_all
    have "drop 12 (capset_file cs) = drop 4 (drop 4 (drop 4 (capset_file cs)))"
         "drop 8 (capset_file cs) = drop 4 (drop 4 (capset_file cs))"
      by simp_all
    then have parts: "un_le32 (capset_file cs) = cap_id h" "un_le32 (drop 4 (capset_file cs)) = cap_version h"
      "un_le32 (drop 8 (capset_file cs)) = cap_size h" "drop 12 (capset_file cs) = d @ capset_file cs'"
      unfolding fb by (simp_all only: rd)
    have "12 \<le> length (capset_file cs)"
      by (simp add: fb)
    with parts ok Suc show ?thesis
      by (simp add: Cons c Let_def)
  qed (simp add: capset_file_def)
qed simp

lemma find_capset_nth:
  "distinct (map (\<lambda>(h, d). (cap_id h, cap_version h)) cs) \<Longrightarrow> k < length cs \<Longrightarrow> cs ! k = (h, d) \<Longrightarrow>
   find_capset cs (cap_id h) (cap_version h) = Some (h, d)"
proof (induction cs arbitrary: k)
  case (Cons c cs)
  obtain h' d' where c: "c = (h', d')"
    by fastforce
  show ?case
  proof (cases k)
    case 0
    with Cons(4) show ?thesis
      by (simp add: c)
  next
    case (Suc k')
    have "(cap_id h, cap_version h) \<in> set (map (\<lambda>(h, d). (cap_id h, cap_version h)) cs)"
      using Suc Cons(3,4) by (force simp: in_set_conv_nth)
    with Cons(2) have "(cap_id h', cap_version h') \<noteq> (cap_id h, cap_version h)"
      by (auto simp: c)
    with Cons Suc show ?thesis
      by (auto simp: c)
  qed
qed simp

lemma capset_answers:
  assumes "list_all capset_ok cs" and "k < length cs" "k < GPU_MAX_CAPDATA" "cs ! k = (h, d)"
    and "distinct (map (\<lambda>(h, d). (cap_id h, cap_version h)) cs)" and "unat index = k"
    and "g' = gpu_capset_init g (capset_file cs)"
  shows "\<exists>c1 c2. gpu_device_capset_info g' index c = (VIRTIO_GPU_RESP_OK_CAPSET_INFO, c1) \<and>
    take 12 (resp_body c1) = le32 (cap_id h) @ le32 (cap_version h) @ le32 (cap_size h) \<and>
    gpu_device_capset env g' (cap_id h) (cap_version h) c = (e_sz_c env + length d, c2) \<and>
    take (length d) (resp_body c2) = d \<and> hdr_type (resp_hdr c2) = VIRTIO_GPU_RESP_OK_CAPSET"
proof -
  have cap: "capdata g' = take GPU_MAX_CAPDATA cs"
    by (simp add: assms(7) gpu_capset_init_def Let_def capset_read_loop_file [OF assms(1)])
  have k: "k < length (capdata g')" "capdata g' ! k = (h, d)"
    using assms(2-4) by (simp_all add: cap)
  have "distinct (map (\<lambda>(h, d). (cap_id h, cap_version h)) (capdata g'))"
    unfolding cap take_map [symmetric] by (rule distinct_take [OF assms(5)])
  from find_capset_nth [OF this k] have f: "find_capset (capdata g') (cap_id h) (cap_version h) = Some (h, d)" .
  have d: "length d = unat (cap_size h)"
    using assms(1,2,4) unfolding list_all_length capset_ok_def by fastforce
  show ?thesis
    using k f d assms(6)
    by (simp add: gpu_device_capset_info_def gpu_device_capset_def put_body_def set_type_def)
qed

text \<open>
  The guest gets the capability sets of the renderer: every set of a well-formed capset file
  (the first sixteen of them) is reported by \<open>gpu_device_capset_info\<close> at its index with its id, version and
  size, and \<open>gpu_device_capset\<close> answers its id and version with exactly its bytes.
\<close>

theorem capset_file_answers:
  assumes "list_all capset_ok cs" and "k < length cs" "k < GPU_MAX_CAPDATA" "cs ! k = (h, d)"
    and "distinct (map (\<lambda>(h, d). (cap_id h, cap_version h)) cs)" and "unat index = k"
    and "g' = gpu_capset_init g (capset_file cs)"
  shows "\<exists>c1 c2. gpu_device_capset_info g' index c = (VIRTIO_GPU_RESP_OK_CAPSET_INFO, c1) \<and>
    take 12 (resp_body c1) = le32 (cap_id h) @ le32 (cap_version h) @ le32 (cap_size h) \<and>
    gpu_device_capset env g' (cap_id h) (cap_version h) c = (e_sz_c env + length d, c2) \<and>
    take (length d) (resp_body c2) = d \<and> hdr_type (resp_hdr c2) = VIRTIO_GPU_RESP_OK_CAPSET"
  using assms by (rule capset_answers)

definition demo_capsets :: "(capset \<times> byte list) list" where
  "demo_capsets = [(\<lparr> cap_id = 1, cap_version = 1, cap_size = 2 \<rparr>, [7, 8])]"

lemma capset_file_answers_witness:
  "\<exists>c2. gpu_device_capset (demo_env zero_cmd) (gpu_capset_init (demo_gpu 48 None) (capset_file demo_capsets)) 1 1
        \<lparr> resp_hdr = zero_hdr, resp_body = [] \<rparr> = (26, c2) \<and> take 2 (resp_body c2) = [7, 8]"
proof -
  let ?h = "\<lparr> cap_id = 1, cap_version = 1, cap_size = 2 \<rparr>"
  have "list_all capset_ok demo_capsets" "demo_capsets ! 0 = (?h, [7, 8])"
    "distinct (map (\<lambda>(h, d). (cap_id h, cap_version h)) demo_capsets)" "0 < length demo_capsets"
    "unat (0 :: u32) = 0"
    by (simp_all add: demo_capsets_def capset_ok_def)
  from capset_file_answers [OF this(1,4) _ this(2,3,5) refl, of "demo_gpu 48 None"
      "\<lparr> resp_hdr = zero_hdr, resp_body = [] \<rparr>" "demo_env zero_cmd"]
  obtain c2 where c2: "gpu_device_capset (demo_env zero_cmd) (gpu_capset_init (demo_gpu 48 None) (capset_file demo_capsets))
      (cap_id ?h) (cap_version ?h) \<lparr> resp_hdr = zero_hdr, resp_body = [] \<rparr> =
      (e_sz_c (demo_env zero_cmd) + length [7 :: byte, 8], c2)" "take (length [7 :: byte, 8]) (resp_body c2) = [7, 8]"
    by fastforce
  have "e_sz_c (demo_env zero_cmd) = 24"
    by (simp add: demo_env_def)
  with c2 show ?thesis
    by (simp add: numeral_2_eq_2)
qed

section \<open>What the code does not check\<close>

text \<open>A read-back of a resource that does not exist dereferences a null pointer.\<close>

lemma read_back_unknown_resource_crashes:
  assumes "hdr_type (hdr cmd) = VIRTIO_GPU_CMD_TRANSFER_FROM_HOST_3D"
    and "hdr_flags (hdr cmd) AND VIRTIO_GPU_FLAG_FENCE = 0"
    and "rvgpu_ctx_res_find (ctx g) (t3d_resource_id (t_h3d cmd)) = None"
  shows "ctrl_execute env g req cmd rsize iovs resp = Crashed ''res''"
  using assms by (simp add: ctrl_execute_def ctrl_forward_def get_meta_res_from_cmd_def)

text \<open>
  A command buffer of one word that announces a transfer is accepted, and the transfer is read from
  the twelve words behind it.
\<close>

lemma submit_3d_reads_past_end:
  assumes "c_submit_size cmd = 4" and "c_cmdbuf cmd 0 = CCMD_TRANSFER3D"
  shows "gpu_device_handle_submit_3d g cmd resp =
    obind (gpu_device_send_res g (c_cmdbuf cmd 1) (submit_transfer (c_cmdbuf cmd) 0 12))
      (\<lambda>(t, g'). Returned (g', set_type t resp))"
proof -
  have "drop_bit 16 CCMD_TRANSFER3D = 13"
    by (simp add: CCMD_TRANSFER3D_def VIRGL_CMD0_def)
  moreover have "submit_3d_loop buf 4 14 g resp = Returned (g, resp)" for buf g resp
    by (subst submit_3d_loop.simps) simp
  ultimately show ?thesis
    using assms unfolding gpu_device_handle_submit_3d_def
    by (subst submit_3d_loop.simps) (auto simp: submit_3d_step_def obind_assoc intro!: arg_cong [of _ _ "obind _"])
qed

end
