(* ===== verification/Gpu_Spec.thy ===== *)
theory Gpu_Spec
  imports Gpu_Properties
begin

text \<open>
  What the proxy's resource commands promise, as a map from resource ids to their description and
  backing, and the proof that the device with its list and its counter implements it: for one
  command the answer and the new table are those of the specification, and any batch of requests is
  a sequence of its steps.
\<close>

section \<open>The specification\<close>

type_synonym res_spec = "u32 \<Rightarrow> (rvgpu_res_info \<times> iovec list option) option"

definition spec_weight :: "rvgpu_res_info \<times> iovec list option \<Rightarrow> nat" where
  "spec_weight e = (case snd e of None \<Rightarrow> 0 | Some vs \<Rightarrow> iov_total vs)"

definition spec_used :: "res_spec \<Rightarrow> nat" where
  "spec_used t = (\<Sum>i\<in>dom t. spec_weight (the (t i)))"

datatype res_cmd =
  Spec_create u32 rvgpu_res_info
| Spec_destroy u32
| Spec_attach u32 "iovec list"
| Spec_detach u32

text \<open>The answer and the new table, with \<open>mx\<close> bytes of backing at most.\<close>

fun spec_step :: "nat \<Rightarrow> res_spec \<Rightarrow> res_cmd \<Rightarrow> ctrl_type \<times> res_spec" where
  "spec_step mx t (Spec_create i info) =
     (case t i of
        Some e \<Rightarrow> (VIRTIO_GPU_RESP_ERR_INVALID_RESOURCE_ID, t)
      | None \<Rightarrow> (VIRTIO_GPU_RESP_OK_NODATA, t(i \<mapsto> (info\<lparr>ri_bpp := 4\<rparr>, None))))"
| "spec_step mx t (Spec_destroy i) =
     (case t i of
        None \<Rightarrow> (VIRTIO_GPU_RESP_ERR_INVALID_RESOURCE_ID, t)
      | Some e \<Rightarrow> (VIRTIO_GPU_RESP_OK_NODATA, t(i := None)))"
| "spec_step mx t (Spec_attach i vs) =
     (case t i of
        None \<Rightarrow> (VIRTIO_GPU_RESP_ERR_INVALID_RESOURCE_ID, t)
      | Some (info, Some ws) \<Rightarrow> (VIRTIO_GPU_RESP_ERR_INVALID_PARAMETER, t)
      | Some (info, None) \<Rightarrow>
          if spec_used t + iov_total vs > mx then (VIRTIO_GPU_RESP_ERR_OUT_OF_MEMORY, t)
          else (VIRTIO_GPU_RESP_OK_NODATA, t(i \<mapsto> (info, Some vs))))"
| "spec_step mx t (Spec_detach i) =
     (case t i of
        None \<Rightarrow> (VIRTIO_GPU_RESP_ERR_INVALID_RESOURCE_ID, t)
      | Some (info, None) \<Rightarrow> (VIRTIO_GPU_RESP_ERR_INVALID_PARAMETER, t)
      | Some (info, Some ws) \<Rightarrow> (VIRTIO_GPU_RESP_OK_NODATA, t(i \<mapsto> (info, None))))"

text \<open>The tables that steps lead to.\<close>

inductive spec_reach :: "nat \<Rightarrow> res_spec \<Rightarrow> res_spec \<Rightarrow> bool" for mx t where
  start: "spec_reach mx t t"
| step: "spec_reach mx t u \<Longrightarrow> spec_step mx u c = (a, u') \<Longrightarrow> spec_reach mx t u'"

section \<open>The device as a table\<close>

definition table_of :: "gpu_device \<Rightarrow> res_spec" where
  "table_of g = (\<lambda>i. map_option (\<lambda>r. (res_info r, backing r)) (rvgpu_ctx_res_find (ctx g) i))"

definition res_cmd_of :: "gpu_env \<Rightarrow> virtio_gpu_cmd \<Rightarrow> res_cmd option" where
  "res_cmd_of env cmd =
     (case hdr_type (hdr cmd) of
        VIRTIO_GPU_CMD_RESOURCE_CREATE_2D \<Rightarrow> Some (Spec_create (c2d_resource_id (r_c2d cmd)) (res_info_2d (r_c2d cmd)))
      | VIRTIO_GPU_CMD_RESOURCE_CREATE_3D \<Rightarrow> Some (Spec_create (c3d_resource_id (r_c3d cmd)) (res_info_3d (r_c3d cmd)))
      | VIRTIO_GPU_CMD_RESOURCE_UNREF \<Rightarrow> Some (Spec_destroy (r_unref cmd))
      | VIRTIO_GPU_CMD_RESOURCE_ATTACH_BACKING \<Rightarrow>
          Some (Spec_attach (att_resource_id (r_att cmd))
            (map_entries (e_mmap env) (r_mem cmd) (unat (att_nr_entries (r_att cmd)))))
      | VIRTIO_GPU_CMD_RESOURCE_DETACH_BACKING \<Rightarrow> Some (Spec_detach (r_det cmd))
      | _ \<Rightarrow> None)"

lemma table_of_cong: "reslist (ctx g') = reslist (ctx g) \<Longrightarrow> table_of g' = table_of g"
  by (simp add: table_of_def rvgpu_ctx_res_find_def)

lemma get_res_self: "distinct (map resid l) \<Longrightarrow> r \<in> set l \<Longrightarrow> gpu_device_get_res l (resid r) = Some r"
  by (induction l) (auto simp: image_iff)

lemma spec_used_table:
  assumes "reslist_inv (ctx g)"
  shows "spec_used (table_of g) = backing_total (ctx g)"
proof -
  let ?l = "reslist (ctx g)"
  have d: "distinct (map resid ?l)"
    using assms by (simp add: reslist_inv_def)
  have "dom (table_of g) = resid ` set ?l"
    using get_res_None_iff [of ?l] by (auto simp: table_of_def rvgpu_ctx_res_find_def dom_def)
  moreover have "inj_on resid (set ?l)"
    using d by (simp add: distinct_map)
  moreover have "spec_weight (the (table_of g (resid r))) = iov_total (res_iovs r)" if "r \<in> set ?l" for r
    using get_res_self [OF d that]
    by (simp add: table_of_def rvgpu_ctx_res_find_def spec_weight_def res_iovs_def split: option.split)
  ultimately have "spec_used (table_of g) = (\<Sum>r\<in>set ?l. iov_total (res_iovs r))"
    by (simp add: spec_used_def sum.reindex)
  also have "\<dots> = backing_total (ctx g)"
    using d by (simp add: backing_total_def sum_list_distinct_conv_sum_set distinct_map)
  finally show ?thesis .
qed

section \<open>One command\<close>

lemma create_refines:
  "spec_step mx (table_of g) (Spec_create i info) =
     (fst (gpu_device_create_res g i info), table_of (snd (gpu_device_create_res g i info)))"
  using rt.find_create [of "ctx g" info i]
  by (auto simp: table_of_def gpu_device_create_res_def rvgpu_ctx_res_create_def new_res_def
      split: option.split)

lemma destroy_refines:
  "reslist_inv (ctx g) \<Longrightarrow> spec_step mx (table_of g) (Spec_destroy i) =
     (fst (gpu_device_destroy_res g i), table_of (snd (gpu_device_destroy_res g i)))"
  using rt.find_destroy [of "ctx g" i]
  by (auto simp: table_of_def gpu_device_destroy_res_def gpu_device_free_res_eq Let_def split: option.split)

lemma detach_refines:
  "spec_step mx (table_of g) (Spec_detach i) =
     (fst (gpu_device_detach g i), table_of (snd (gpu_device_detach g i)))"
  using rt.find_update [of "\<lambda>r. r\<lparr>backing := None\<rparr>" "ctx g" i]
  by (auto simp: table_of_def gpu_device_detach_def gpu_device_free_res_eq Let_def split: option.split)

lemma attach_refines:
  assumes "mem_limited g" "unat n < 2 ^ 20"
  shows "spec_step (unat (max_mem g)) (table_of g) (Spec_attach i (map_entries (e_mmap env) mem (unat n))) =
     (fst (gpu_device_attach env g i mem n), table_of (snd (gpu_device_attach env g i mem n)))"
proof -
  let ?vs = "map_entries (e_mmap env) mem (unat n)"
  have used: "spec_used (table_of g) = backing_total (ctx g)"
    using assms(1) by (intro spec_used_table) (simp add: mem_limited_def mem_accounted_def)
  have "max_mem g < curr_mem g + iov_size ?vs \<longleftrightarrow> unat (max_mem g) < backing_total (ctx g) + iov_total ?vs"
    by (rule attach_limit [OF assms])
  with used assms(1) rt.find_update [of "\<lambda>r. r\<lparr>backing := Some ?vs\<rparr>" "ctx g" i] show ?thesis
    by (auto simp: table_of_def gpu_device_attach_def Let_def mem_limited_def split: option.split)
qed

lemma dispatch_refines:
  assumes "mem_limited g" "small_commands env"
    and "sanity_check_gpu_ctrl (e_sizes env) cmd clen True = VIRTIO_GPU_RESP_OK_NODATA"
    and "ctrl_dispatch env g cmd resp = Returned (len, g', resp')"
  shows "case res_cmd_of env cmd of
      None \<Rightarrow> table_of g' = table_of g
    | Some c \<Rightarrow> spec_step (unat (max_mem g)) (table_of g) c = (hdr_type (resp_hdr resp'), table_of g')"
proof (cases "hdr_type (hdr cmd) = VIRTIO_GPU_CMD_RESOURCE_ATTACH_BACKING")
  case True
  with attach_refines [OF assms(1) sane_attach_entries [OF assms(2,3) True]] assms(4) show ?thesis
    by (auto simp: ctrl_dispatch_def Let_def with_type_def res_cmd_of_def set_type_def simp del: spec_step.simps)
next
  case False
  have "reslist_inv (ctx g)"
    using assms(1) by (simp add: mem_limited_def mem_accounted_def)
  note refines = create_refines destroy_refines [OF this] detach_refines
  show ?thesis
    using assms(4) False
    by (cases "hdr_type (hdr cmd)")
      (auto simp: ctrl_dispatch_def Let_def with_type_def res_cmd_of_def set_type_def refines
        obind_Returned_iff gpu_device_handle_submit_3d_def simp del: spec_step.simps intro!: table_of_cong
        dest!: send_res_frame submit_3d_loop_frame split: prod.splits)
qed

text \<open>
  C5. The device implements its specification: on every sane command, from a state that keeps the
  memory limit, a create, unref, attach or detach answers what the map from ids to resources answers
  and leaves the table that the map's step leaves (ids are not reused, only one backing at a time,
  attach refused when the sum of all backings would pass the limit), and no other command changes
  the table.
\<close>

theorem ctrl_dispatch_refines:
  assumes "mem_limited g" "small_commands env"
    and "sanity_check_gpu_ctrl (e_sizes env) cmd clen True = VIRTIO_GPU_RESP_OK_NODATA"
    and "ctrl_dispatch env g cmd resp = Returned (len, g', resp')"
  shows "case res_cmd_of env cmd of
      None \<Rightarrow> table_of g' = table_of g
    | Some c \<Rightarrow> spec_step (unat (max_mem g)) (table_of g) c = (hdr_type (resp_hdr resp'), table_of g')"
  using assms by (rule dispatch_refines)

lemma ctrl_dispatch_refines_witness:
  "\<exists>len g' resp'. ctrl_dispatch (demo_env demo_attach) (demo_gpu 48 None) demo_attach
      \<lparr> resp_hdr = zero_hdr, resp_body = [] \<rparr> = Returned (len, g', resp') \<and>
    spec_step 0x100000 (table_of (demo_gpu 48 None))
      (Spec_attach 7 [\<lparr> iov_base = map_guest page_mmap 0x5000 PROT_READ_WRITE 0x2000, iov_len = 0x2000 \<rparr>]) =
      (hdr_type (resp_hdr resp'), table_of g')"
proof -
  obtain len g' resp' where d: "ctrl_dispatch (demo_env demo_attach) (demo_gpu 48 None) demo_attach
      \<lparr> resp_hdr = zero_hdr, resp_body = [] \<rparr> = Returned (len, g', resp')"
    by (cases "gpu_device_attach (demo_env demo_attach) (demo_gpu 48 None) 7 (r_mem demo_attach) 1")
      (auto simp: ctrl_dispatch_def demo_attach_def Let_def with_type_def)
  have "sanity_check_gpu_ctrl (e_sizes (demo_env demo_attach)) demo_attach 48 True = VIRTIO_GPU_RESP_OK_NODATA"
    by (simp add: sanity_check_gpu_ctrl_def demo_env_def linux_sizes_def demo_attach_def)
  from ctrl_dispatch_refines [OF demo_mem_limited demo_small_commands this d] d show ?thesis
    by (intro exI [of _ len] exI [of _ g'] exI [of _ resp'])
      (simp add: res_cmd_of_def demo_attach_def demo_env_def map_entries_def demo_gpu_def del: spec_step.simps)
qed

section \<open>A batch of requests\<close>

text \<open>
  Everything a table can go through from the table \<open>t\<close> is an invariant of the device, and so is
  what holds of all those tables.
\<close>

definition in_reach :: "nat \<Rightarrow> res_spec \<Rightarrow> gpu_device \<Rightarrow> bool" where
  "in_reach mx t g = (mem_limited g \<and> unat (max_mem g) = mx \<and> spec_reach mx t (table_of g))"

interpretation reach: table_invariant "in_reach mx t" small_commands for mx t
proof unfold_locales
  fix g g' :: gpu_device
  assume "in_reach mx t g" "reslist (ctx g') = reslist (ctx g)" "curr_mem g' = curr_mem g" "max_mem g' = max_mem g"
  then show "in_reach mx t g'"
    using table_of_cong [of g' g] mem_limited_cong [of g g'] by (simp add: in_reach_def)
next
  fix env g cmd resp len g' resp' clen
  assume a: "small_commands env" "in_reach mx t g" "ctrl_dispatch env g cmd resp = Returned (len, g', resp')"
    "sanity_check_gpu_ctrl (e_sizes env) cmd clen True = VIRTIO_GPU_RESP_OK_NODATA"
  then have g: "mem_limited g" "unat (max_mem g) = mx" "spec_reach mx t (table_of g)"
    by (simp_all add: in_reach_def)
  have "mem_limited g'" "max_mem g' = max_mem g"
    using lim.P_dispatch [OF a(1) g(1) a(3,4)] ctrl_dispatch_queues [OF a(3)] by (simp_all add: same_queues_def)
  with g dispatch_refines [OF g(1) a(1,4,3)] show "in_reach mx t g'"
    by (auto simp: in_reach_def intro: spec_reach.step split: option.splits)
qed

lemma spec_weight_le_used:
  assumes "finite (dom t)" "t i = Some e"
  shows "spec_weight e \<le> spec_used t"
  using member_le_sum [of i "dom t" "\<lambda>i. spec_weight (the (t i))"] assms by (auto simp: spec_used_def)

lemma spec_used_upd:
  assumes "finite (dom t)"
  shows "spec_used (t(i \<mapsto> e)) + (case t i of None \<Rightarrow> 0 | Some e' \<Rightarrow> spec_weight e') = spec_used t + spec_weight e"
proof -
  have "spec_used (t(i \<mapsto> e)) = spec_weight e + (\<Sum>k\<in>dom t - {i}. spec_weight (the (t k)))"
    using assms by (simp add: spec_used_def sum.insert_remove)
  moreover have "spec_used t = (case t i of None \<Rightarrow> 0 | Some e' \<Rightarrow> spec_weight e') +
      (\<Sum>k\<in>dom t - {i}. spec_weight (the (t k)))"
    using assms by (cases "t i") (auto simp: spec_used_def sum.remove [of "dom t" i] domI intro!: sum.cong)
  ultimately show ?thesis
    by simp
qed

lemma spec_used_del:
  assumes "finite (dom t)"
  shows "spec_used (t(i := None)) \<le> spec_used t"
  using assms by (auto simp: spec_used_def intro!: sum_mono2 order_trans [OF _ sum_mono2 [of "dom t" "dom t - {i}"]])

text \<open>The limit, as an invariant of the specification.\<close>

lemma spec_reach_limit:
  assumes "spec_reach mx t u" "finite (dom t)" "spec_used t \<le> mx"
  shows "finite (dom u) \<and> spec_used u \<le> mx"
  using assms
proof (induction rule: spec_reach.induct)
  case (step u c a u')
  then have u: "finite (dom u)" "spec_used u \<le> mx"
    by auto
  show ?case
  proof (cases c)
    case (Spec_create i info)
    then show ?thesis
      using step(2) u spec_used_upd [OF u(1), of i "(info\<lparr>ri_bpp := 4\<rparr>, None)"]
      by (auto simp: spec_weight_def split: option.splits)
  next
    case (Spec_destroy i)
    then show ?thesis
      using step(2) u spec_used_del [OF u(1), of i] by (auto split: option.splits)
  next
    case (Spec_attach i vs)
    then show ?thesis
      using step(2) u spec_used_upd [OF u(1), of i "(fst (the (u i)), Some vs)"]
      by (auto simp: spec_weight_def split: option.splits if_splits)
  next
    case (Spec_detach i)
    then show ?thesis
      using step(2) u spec_used_upd [OF u(1), of i "(fst (the (u i)), None)"]
      by (auto simp: spec_weight_def split: option.splits)
  qed
qed simp

lemma finite_table: "finite (dom (table_of g))"
proof -
  have "dom (table_of g) \<subseteq> resid ` set (reslist (ctx g))"
    using get_res_None_iff [of "reslist (ctx g)"] by (auto simp: table_of_def rvgpu_ctx_res_find_def dom_def)
  then show ?thesis
    by (rule finite_subset) simp
qed



end
