(* ===== verification/Gpu_Shutdown.thy ===== *)
theory Gpu_Shutdown
  imports Gpu_Properties
begin

text \<open>
  The end of the device (\<open>gpu_device_flush_pending\<close> of src/rvgpu-proxy/gpu/rvgpu-gpu-device.c): after
  the resource thread was joined, so that no fence arrives any more, what
  waits is answered in up to five passes, and then the proxy waits until nothing new has come for three
  checks.  The guest may add requests whenever the proxy sleeps.  Proved: the function returns when the
  guest stops sending, and then no request is left.
\<close>

section \<open>Flushing\<close>

text \<open>What the guest does during the sleeps, in order; afterwards it does nothing.\<close>

type_synonym arrivals = "(gpu_device \<Rightarrow> gpu_device) list"

definition arrive :: "arrivals \<Rightarrow> gpu_device \<Rightarrow> gpu_device" where
  "arrive fs g = (case fs of [] \<Rightarrow> g | f # _ \<Rightarrow> f g)"

text \<open>The passes that are left, and the number of requests flushed so far.\<close>

fun flush_passes :: "gpu_env \<Rightarrow> arrivals \<Rightarrow> nat \<Rightarrow> nat \<Rightarrow> gpu_device \<Rightarrow> (nat \<times> arrivals \<times> gpu_device) outcome" where
  "flush_passes env fs 0 flushed g = Returned (flushed, fs, g)"
| "flush_passes env fs (Suc k) flushed g =
     obind (gpu_device_drain_once env g) (\<lambda>(n, g1).
       if n = 0 then Returned (flushed, fs, g1)
       else flush_passes env (tl fs) k (flushed + n) (arrive fs g1))"

definition has_pending :: "gpu_device \<Rightarrow> bool" where
  "has_pending g =
     (vqueue_are_requests_available (vs_queues g ! 0) \<or> vqueue_are_requests_available (vs_queues g ! 1) \<or>
      async_cmds g \<noteq> [])"

text \<open>
  A later round: one response is used for all requests, so that those of the queues are answered with
  the flags and the fence of the command that was answered last.
\<close>

definition flush_round :: "gpu_env \<Rightarrow> gpu_device \<Rightarrow> gpu_device outcome" where
  "flush_round env g =
     (let resp = (if async_cmds g = [] then zero_hdr else cmd_hdr (last (async_cmds g)))
      in obind (drain_async_loop env (async_cmds g) 0 g) (\<lambda>(_, g1).
           obind (drain_queue_loop env resp 0 (avail_count (vs_queues g1 ! 0)) 0 g1) (\<lambda>(_, g2).
             obind (drain_queue_loop env resp 1 (avail_count (vs_queues g2 ! 1)) 0 g2) (\<lambda>(_, g3).
               Returned (kick_queue 1 (kick_queue 0 g3))))))"

text \<open>The rounds until the third check in a row that finds nothing; the fuel counts the rounds.\<close>

fun settle :: "gpu_env \<Rightarrow> arrivals \<Rightarrow> nat \<Rightarrow> nat \<Rightarrow> gpu_device \<Rightarrow> gpu_device outcome" where
  "settle env fs checks 0 g = Diverged"
| "settle env fs checks (Suc fuel) g =
     (if has_pending g
      then obind (flush_round env g) (\<lambda>g1. settle env (tl fs) 0 fuel (arrive fs g1))
      else if checks + 1 < 3 then settle env (tl fs) (checks + 1) fuel (arrive fs g)
      else Returned g)"

definition gpu_device_flush_pending :: "gpu_env \<Rightarrow> arrivals \<Rightarrow> gpu_device \<Rightarrow> gpu_device outcome" where
  "gpu_device_flush_pending env fs g =
     obind (flush_passes env fs 5 0 g) (\<lambda>(flushed, fs1, g1). settle env fs1 0 (4 * length fs1 + 4) g1)"

section \<open>Properties\<close>

definition guest_behaves :: "arrivals \<Rightarrow> bool" where
  "guest_behaves fs = (\<forall>f \<in> set fs. \<forall>g. dev_inv g \<longrightarrow> dev_inv (f g))"

lemma guest_behaves_simps:
  "guest_behaves fs \<Longrightarrow> dev_inv g \<Longrightarrow> dev_inv (arrive fs g)" "guest_behaves fs \<Longrightarrow> guest_behaves (tl fs)"
  by (cases fs; auto simp: guest_behaves_def arrive_def)+

lemma drain_once_returns:
  assumes "calm env" "dev_inv g"
  obtains n g' where "gpu_device_drain_once env g = Returned (n, g')" "dev_inv g'" "\<not> has_pending g'"
  using plain_safe_returns [OF plain_drain_once [OF assms(1)] safe_drain_once [OF assms(2)]]
  by (auto simp: has_pending_def avail_count_0_iff)

lemma flush_passes_returns:
  "calm env \<Longrightarrow> guest_behaves fs \<Longrightarrow> dev_inv g \<Longrightarrow>
     \<exists>n fs' g'. flush_passes env fs k flushed g = Returned (n, fs', g') \<and> guest_behaves fs' \<and> dev_inv g'"
proof (induction env fs k flushed g rule: flush_passes.induct)
  case (2 env fs k flushed g)
  obtain n g1 where g1: "gpu_device_drain_once env g = Returned (n, g1)" "dev_inv g1"
    using drain_once_returns [OF 2(2,4)] by metis
  show ?case
    using 2(1) [of n g1] 2(2,3) g1 guest_behaves_simps by (cases "n = 0") auto
qed simp

lemma flush_round_returns:
  assumes "calm env" "dev_inv g"
  shows "\<exists>g'. flush_round env g = Returned g' \<and> dev_inv g' \<and> \<not> has_pending g'"
proof -
  let ?resp = "if async_cmds g = [] then zero_hdr else cmd_hdr (last (async_cmds g))"
  have inv: "dev_inv (g\<lparr>async_cmds := async_cmds g\<rparr>)"
    using assms(2) by simp
  have kick: "dev_inv (g\<lparr>kicks := ks\<rparr>)" if "dev_inv g" for ks and g
    by (rule dev_inv_cong [OF that]) simp_all
  obtain n1 g1 where g1: "drain_async_loop env (async_cmds g) 0 g = Returned (n1, g1)" "dev_inv g1" "async_cmds g1 = []"
    using plain_safe_returns [OF plain_drain_async_loop safe_drain_async_loop [OF inv refl], of env 0] by auto
  obtain n2 g2 where g2: "drain_queue_loop env ?resp 0 (avail_count (vs_queues g1 ! 0)) 0 g1 = Returned (n2, g2)"
    "dev_inv g2" "avail_count (vs_queues g2 ! 0) = 0" "async_cmds g2 = []"
    using plain_safe_returns [OF plain_drain_queue_loop [OF assms(1)] safe_drain_queue_loop [OF g1(2) _ refl, where qi = 0 and h = ?resp and n = 0]] g1(3)
    by auto
  obtain n3 g3 where g3: "drain_queue_loop env ?resp 1 (avail_count (vs_queues g2 ! 1)) 0 g2 = Returned (n3, g3)"
    "dev_inv g3" "avail_count (vs_queues g3 ! 1) = 0" "vs_queues g3 ! 0 = vs_queues g2 ! 0" "async_cmds g3 = []"
    using plain_safe_returns [OF plain_drain_queue_loop [OF assms(1)] safe_drain_queue_loop [OF g2(2) _ refl, where qi = 1 and h = ?resp and n = 0]] g2(4)
    by auto
  show ?thesis
    using g1(1) g2(1,3) g3 kick [OF g3(2)]
    by (simp add: flush_round_def Let_def kick_queue_def has_pending_def avail_count_0_iff)
qed

text \<open>Every sleep may bring a request and so cost up to four rounds.\<close>

lemma settle_returns:
  "calm env \<Longrightarrow> guest_behaves fs \<Longrightarrow> dev_inv g \<Longrightarrow> checks < 3 \<Longrightarrow>
   4 * length fs + (if has_pending g then 4 else 3 - checks) \<le> fuel \<Longrightarrow>
     \<exists>g'. settle env fs checks fuel g = Returned g' \<and> dev_inv g' \<and> \<not> has_pending g'"
proof (induction env fs checks fuel g rule: settle.induct)
  case (2 env fs checks fuel g)
  have next_fuel: "4 * length (tl fs) + (if has_pending (arrive fs g1) then 4 else 3 - s) \<le> fuel"
    if "\<not> has_pending g1" "s \<le> 2" "4 * length fs + (4 - s) \<le> Suc fuel \<or> (fs \<noteq> [] \<and> 4 * length fs + 1 \<le> Suc fuel)" for g1 s
    using that by (cases fs) (auto simp: arrive_def)
  show ?case
  proof (cases "has_pending g")
    case True
    obtain g1 where g1: "flush_round env g = Returned g1" "dev_inv g1" "\<not> has_pending g1"
      using flush_round_returns [OF 2(3,5)] by blast
    show ?thesis
      using 2(1) [OF True, of g1] 2(3,4,7) g1 True guest_behaves_simps next_fuel [OF g1(3), of 0] by auto
  next
    case False
    then show ?thesis
      using 2(2) [OF False] 2(3-7) guest_behaves_simps next_fuel [OF False, of "checks + 1"] by auto
  qed
qed (auto split: if_splits)

text \<open>
  The device ends in order: when the pages of the guest can be mapped and the guest at some time stops
  sending, \<open>gpu_device_flush_pending\<close> returns, no command waits, both queues are empty, and every
  request that was taken was answered.
\<close>

theorem gpu_device_flush_pending_returns:
  assumes "calm env" "dev_inv g" "guest_behaves fs"
  shows "\<exists>g'. gpu_device_flush_pending env fs g = Returned g' \<and> dev_inv g' \<and> \<not> has_pending g' \<and>
    vs_reqs g' = (\<lambda>_. None)"
proof -
  obtain n fs1 g1 where g1: "flush_passes env fs 5 0 g = Returned (n, fs1, g1)" "guest_behaves fs1" "dev_inv g1"
    using flush_passes_returns [OF assms(1,3,2)] by blast
  have le: "4 * length fs1 + (if has_pending g1 then 4 else 3 - 0) \<le> 4 * length fs1 + 4"
    by simp
  obtain g' where g': "settle env fs1 0 (4 * length fs1 + 4) g1 = Returned g'" "dev_inv g'" "\<not> has_pending g'"
    using settle_returns [OF assms(1) g1(2,3) _ le] by auto
  then have "dom (vs_reqs g') = {}"
    by (simp add: dev_inv_def waiting_def has_pending_def)
  then show ?thesis
    using g1(1) g' by (simp add: gpu_device_flush_pending_def)
qed

lemma gpu_device_flush_pending_returns_witness:
  "\<exists>g'. gpu_device_flush_pending (demo_env demo_attach) [\<lambda>g. g, \<lambda>_. demo_waiting] demo_waiting = Returned g' \<and>
     dev_inv g' \<and> \<not> has_pending g' \<and> vs_reqs g' = (\<lambda>_. None)"
proof (rule gpu_device_flush_pending_returns)
  show "calm (demo_env demo_attach)"
    by (rule demo_calm) (simp add: demo_attach_def)
qed (use demo_waiting_inv in \<open>auto simp: guest_behaves_def\<close>)

end
