(* ===== verification/Gpu_Start.thy ===== *)
theory Gpu_Start
  imports Gpu_Shutdown
begin

text \<open>
  The start of the device (src/rvgpu-proxy/gpu/rvgpu-gpu-device.c): the vendor id of the new device,
  which is chosen after those of the virtual cards that exist, and \<open>gpu_device_init\<close>.  Proved: the new
  device satisfies the invariants of the handlers; its limit of memory is the one asked for, but that
  the largest limit accepted wraps to 0, which means no limit; and the vendor id is new when the cards
  come in the order of theirs.
\<close>

section \<open>Strings\<close>

text \<open>\<open>strstr\<close>: the string from the first place on where the pattern stands.\<close>

fun strstr :: "string \<Rightarrow> string \<Rightarrow> string option" where
  "strstr [] p = (if p = [] then Some [] else None)"
| "strstr (c # s) p = (if take (length p) (c # s) = p then Some (c # s) else strstr s p)"

definition is_space :: "char \<Rightarrow> bool" where
  "is_space c = (c \<in> {CHR '' '', CHR 0x09, CHR 0x0A, CHR 0x0B, CHR 0x0C, CHR 0x0D})"

text \<open>The value of a digit of base up to 16.\<close>

definition digit_value :: "char \<Rightarrow> nat option" where
  "digit_value c =
     (let n = of_char c :: nat
      in if 48 \<le> n \<and> n \<le> 57 then Some (n - 48)
         else if 97 \<le> n \<and> n \<le> 102 then Some (n - 87)
         else if 65 \<le> n \<and> n \<le> 70 then Some (n - 55)
         else None)"

definition is_digit :: "nat \<Rightarrow> char \<Rightarrow> bool" where
  "is_digit b c = (case digit_value c of None \<Rightarrow> False | Some d \<Rightarrow> d < b)"

definition digits_value :: "nat \<Rightarrow> string \<Rightarrow> nat" where
  "digits_value b ds = foldl (\<lambda>n c. n * b + the (digit_value c)) 0 ds"

text \<open>A sign, if there is one: whether it is a minus, and what follows.\<close>

definition scan_sign :: "string \<Rightarrow> bool \<times> string" where
  "scan_sign s =
     (case s of [] \<Rightarrow> (False, s)
      | c # t \<Rightarrow> if c = CHR ''-'' then (True, t) else if c = CHR ''+'' then (False, t) else (False, s))"

text \<open>
  \<open>sscanf\<close> with \<open>"%4x%n"\<close>: white space, then at most four characters of a hexadecimal number, with a
  sign and a prefix; the value and the number of characters consumed.
\<close>

definition scan_4x :: "string \<Rightarrow> (u32 \<times> nat) option" where
  "scan_4x s =
     (let ws = length (takeWhile is_space s);
          t = take 4 (drop ws s);
          (neg, t1) = scan_sign t;
          t2 = (if take 2 t1 = ''0x'' \<or> take 2 t1 = ''0X'' then drop 2 t1 else t1);
          ds = takeWhile (is_digit 16) t2;
          v = of_nat (digits_value 16 ds)
      in if ds = [] then None
         else Some (if neg then - v else v, ws + (length t - length t2) + length ds))"

section \<open>The virtual cards\<close>

text \<open>The kernel's \<open>VIRTIO_ID_GPU\<close> is 16, so that the prefix is the one of \<open>snprintf\<close>.\<close>

definition get_virtio_suffix_hex :: "string \<Rightarrow> u32 option" where
  "get_virtio_suffix_hex devpath =
     (case strstr devpath ''virtio-lo-0010'' of
        None \<Rightarrow> None
      | Some ptr \<Rightarrow>
          (case scan_4x (drop 14 ptr) of
             None \<Rightarrow> None
           | Some (v, consumed) \<Rightarrow> if consumed \<noteq> 4 then None else Some v))"

abbreviation (input) PCI_VENDOR_ID_REDHAT_QUMRANET :: u32 where "PCI_VENDOR_ID_REDHAT_QUMRANET \<equiv> 0x1af4"

text \<open>
  The properties \<open>ID_SEAT\<close> and \<open>DEVPATH\<close> of a card, and for the enumeration the name of its node.  The
  first function looks at card0, card1 and so on until one is missing.
\<close>

record drm_card =
  dc_seat :: "string option"
  dc_devpath :: "string option"
  dc_devnode :: "string option"

definition virtual_seat :: "drm_card \<Rightarrow> bool" where
  "virtual_seat c = (dc_seat c = Some ''seat_virtual'')"

fun drm_card_loop :: "drm_card list \<Rightarrow> u32 \<Rightarrow> u32 outcome" where
  "drm_card_loop [] mex = Returned mex"
| "drm_card_loop (c # cs) mex =
     (if virtual_seat c
      then (case dc_devpath c of
              None \<Rightarrow> Crashed ''strstr(NULL)''
            | Some devpath \<Rightarrow>
                (case get_virtio_suffix_hex devpath of
                   None \<Rightarrow> Returned mex
                 | Some v \<Rightarrow> drm_card_loop cs (v - PCI_VENDOR_ID_REDHAT_QUMRANET + 1)))
      else drm_card_loop cs mex)"

text \<open>Without udev or memory the result is 0.\<close>

definition next_drm_card_mex :: "drm_card list option \<Rightarrow> u32 outcome" where
  "next_drm_card_mex cards = (case cards of None \<Rightarrow> Returned 0 | Some cs \<Rightarrow> drm_card_loop cs 0)"

definition find_virtual_drm_card_devices :: "drm_card list option \<Rightarrow> nat" where
  "find_virtual_drm_card_devices cards =
     (case cards of
        None \<Rightarrow> 0
      | Some cs \<Rightarrow> length (filter (\<lambda>c. virtual_seat c \<and>
          (\<exists>n. dc_devnode c = Some n \<and> strstr n ''card'' \<noteq> None)) cs))"

section \<open>The device\<close>

text \<open>\<open>struct virtio_gpu_display_one\<close> and \<open>struct gpu_device_params\<close>.\<close>

record display_one =
  dp_x :: u32
  dp_y :: u32
  dp_width :: u32
  dp_height :: u32
  dp_enabled :: u32
  dp_flags :: u32

record gpu_device_params =
  gp_num_scanouts :: u32
  gp_mem_limit :: u32
  gp_framerate :: u64
  gp_dpys :: "display_one list"

text \<open>What the kernel is told of the device, and what it gives back: its number and the two rings.\<close>

record virtio_lo_devinfo =
  di_vendor_id :: u32
  di_features :: u64
  di_num_scanouts :: u32
  di_num_capsets :: u32
  di_qsize :: "u32 list"

record start_env =
  se_calloc :: bool
  se_cards :: "drm_card list option"
  se_adddev :: "virtio_lo_devinfo \<Rightarrow> vring list option"
  se_pipe :: bool
  se_thread :: bool
  se_mem :: hmem

definition bit64 :: "nat \<Rightarrow> u64" where
  "bit64 shift = push_bit shift 1"

abbreviation (input) VIRTIO_GPU_F_VIRGL :: nat where "VIRTIO_GPU_F_VIRGL \<equiv> 0"
abbreviation (input) VIRTIO_F_VERSION_1 :: nat where "VIRTIO_F_VERSION_1 \<equiv> 32"
abbreviation (input) VIRTIO_GPU_F_VSYNC :: nat where "VIRTIO_GPU_F_VSYNC \<equiv> 5"

definition device_features :: "u64 \<Rightarrow> u64" where
  "device_features framerate =
     (let f = bit64 VIRTIO_GPU_F_VIRGL OR bit64 VIRTIO_F_VERSION_1
      in if framerate \<noteq> 0 then f OR bit64 VIRTIO_GPU_F_VSYNC else f)"

text \<open>\<open>max_mem\<close> is a \<open>size_t\<close>, but the product is computed on 32 bits.\<close>

definition mem_limit_bytes :: "u32 \<Rightarrow> u64" where
  "mem_limit_bytes limit = ucast (limit * 1024 * 1024)"

text \<open>The device as \<open>calloc\<close> leaves it, the static variables of its functions included.\<close>

definition zero_device :: "ctx_priv \<Rightarrow> hmem \<Rightarrow> cmd_sizes \<Rightarrow> gpu_device" where
  "zero_device c m sizes =
     \<lparr> vs_mem = m, vs_queues = [], vs_reqs = (\<lambda>_. None), vs_next = 0, vs_munmaps = [],
       max_mem = 0, curr_mem = 0, scanres = 0, scan_id = 0, capdata = [], num_capsets = 0,
       events_read = 0, async_cmds = [], fence_pipe = [], st_cmd = replicate (unat (sz_cmd sizes)) 0,
       st_reset = False, gpu_reset_state = GPU_RESET_NONE, ctx = c, kicks = [], ctx_calls = [] \<rparr>"

definition gpu_device_init ::
  "start_env \<Rightarrow> gpu_env \<Rightarrow> byte list option \<Rightarrow> gpu_device_params \<Rightarrow> ctx_priv \<Rightarrow>
   (virtio_lo_devinfo \<times> gpu_device) option outcome" where
  "gpu_device_init se env capset params c =
     obind (next_drm_card_mex (se_cards se)) (\<lambda>card.
       if \<not> se_calloc se then Returned None
       else
         let g0 = (zero_device c (se_mem se) (e_sizes env))\<lparr>max_mem := mem_limit_bytes (gp_mem_limit params)\<rparr>;
             g = (case capset of None \<Rightarrow> g0 | Some file \<Rightarrow> gpu_capset_init g0 file);
             info = \<lparr> di_vendor_id = PCI_VENDOR_ID_REDHAT_QUMRANET + card,
               di_features = device_features (gp_framerate params),
               di_num_scanouts = gp_num_scanouts params, di_num_capsets = num_capsets g,
               di_qsize = [1024, 1024] \<rparr>
         in case se_adddev se info of
              None \<Rightarrow> Exited ''add virtio-lo-device''
            | Some rings \<Rightarrow>
                if \<not> se_pipe se then Exited ''pipe creation error''
                else if \<not> se_thread se then Exited ''resource thread create''
                else Returned (Some (info,
                  g\<lparr>vs_queues := map (\<lambda>r. \<lparr> vr = r, last_avail_idx = 0 \<rparr>) rings\<rparr>)))"

section \<open>The limit of memory\<close>

lemma mem_limit_wraps: "mem_limit_bytes 4096 = 0"
  by (simp add: mem_limit_bytes_def)

lemma mem_limit_exact: "limit < 4096 \<Longrightarrow> unat (mem_limit_bytes limit) = unat limit * 2 ^ 20"
proof -
  assume "limit < 4096"
  then have l: "unat limit < 4096"
    by (simp add: word_less_nat_alt)
  have "unat (limit * 1024 * 1024) = unat limit * 2 ^ 20"
    using l by (simp add: unat_word_ariths)
  then show ?thesis
    by (simp add: mem_limit_bytes_def)
qed

section \<open>The vendor id\<close>

text \<open>The vendor ids of the virtual cards, and the one of the new device.\<close>

definition card_vendors :: "drm_card list \<Rightarrow> u32 option list" where
  "card_vendors cs = map (\<lambda>c. Option.bind (dc_devpath c) get_virtio_suffix_hex) (filter virtual_seat cs)"

lemma drm_card_loop_last:
  "card_vendors cs = map Some vs \<Longrightarrow>
   drm_card_loop cs mex =
     Returned (if vs = [] then mex else last vs - PCI_VENDOR_ID_REDHAT_QUMRANET + 1)"
proof (induction cs mex arbitrary: vs rule: drm_card_loop.induct)
  case (2 c cs mex)
  show ?case
  proof (cases "virtual_seat c")
    case True
    with 2(3) obtain v ws d where vs: "vs = v # ws" "card_vendors cs = map Some ws"
      and d: "dc_devpath c = Some d" "get_virtio_suffix_hex d = Some v"
      by (cases vs) (auto simp: card_vendors_def split: bind_splits)
    show ?thesis
      using 2(1) [OF True d vs(2)] True vs d by simp
  next
    case False
    with 2(3) have "card_vendors cs = map Some vs"
      by (simp add: card_vendors_def)
    from 2(2) [OF False this] False show ?thesis
      by simp
  qed
qed (simp add: card_vendors_def)

lemma vendor_id_new:
  assumes "card_vendors cs = map Some vs" "sorted (map unat vs)" "\<forall>v\<in>set vs. v < 0xFFFF" "vs \<noteq> []"
  shows "\<exists>card. next_drm_card_mex (Some cs) = Returned card \<and>
    PCI_VENDOR_ID_REDHAT_QUMRANET + card \<notin> set vs"
proof -
  have "unat v \<le> unat (last vs)" if "v \<in> set vs" for v
    using that assms(2,4) by (auto simp: in_set_conv_nth last_conv_nth sorted_iff_nth_mono)
  then have le: "v \<le> last vs" if "v \<in> set vs" for v
    using that by (simp add: word_le_nat_alt)
  have "last vs < 0xFFFF"
    using assms(3,4) by simp
  then have "last vs < last vs + 1"
    by (simp add: word_less_nat_alt unat_word_ariths)
  with le [of "last vs + 1"] have "1 + last vs \<notin> set vs"
    by (auto simp: add.commute)
  with drm_card_loop_last [OF assms(1), of 0] assms(4) show ?thesis
    by (simp add: next_drm_card_mex_def)
qed

text \<open>
  The id is one more than that of the last card, not than the greatest: cards that came in another
  order lead to an id that is in use.
\<close>

lemma vendor_id_reused:
  "let cards = map (\<lambda>d. \<lparr> dc_seat = Some ''seat_virtual'', dc_devpath = Some d, dc_devnode = None \<rparr>)
       [''/virtio-lo-00101af5'', ''/virtio-lo-00101af4'']
   in card_vendors cards = [Some 0x1af5, Some 0x1af4] \<and>
      next_drm_card_mex (Some cards) = Returned (0x1af5 - PCI_VENDOR_ID_REDHAT_QUMRANET)"
  by code_simp

section \<open>The invariants of a new device\<close>

text \<open>Rings as a driver finds them.\<close>

definition fresh_rings :: "vring list \<Rightarrow> bool" where
  "fresh_rings rings = (length rings = 2 \<and> (\<forall>r\<in>set rings. avail_idx r = 0 \<and> used_idx r = 0))"

lemma gpu_capset_init_fields [simp]:
  "vs_reqs (gpu_capset_init g file) = vs_reqs g" "async_cmds (gpu_capset_init g file) = async_cmds g"
  "max_mem (gpu_capset_init g file) = max_mem g" "curr_mem (gpu_capset_init g file) = curr_mem g"
  "ctx (gpu_capset_init g file) = ctx g"
  by (simp_all add: gpu_capset_init_def Let_def)

lemma gpu_device_init_fields:
  assumes "gpu_device_init se env capset params c = Returned (Some (info, g))"
  obtains rings where "se_adddev se info = Some rings"
    "vs_queues g = map (\<lambda>r. \<lparr> vr = r, last_avail_idx = 0 \<rparr>) rings"
    "vs_reqs g = (\<lambda>_. None)" "async_cmds g = []" "curr_mem g = 0" "ctx g = c"
    "max_mem g = mem_limit_bytes (gp_mem_limit params)"
  using assms
  by (auto simp: gpu_device_init_def Let_def obind_Returned_iff zero_device_def split: if_splits option.splits)

lemma gpu_device_init_invariants:
  assumes "gpu_device_init se env capset params c = Returned (Some (info, g))"
    and "\<forall>info rings. se_adddev se info = Some rings \<longrightarrow> fresh_rings rings" and "reslist c = []"
  shows "dev_inv g" "mem_accounted g" "0 < gp_mem_limit params \<Longrightarrow> gp_mem_limit params < 4096 \<Longrightarrow> served g"
proof -
  obtain rings where r: "se_adddev se info = Some rings"
    "vs_queues g = map (\<lambda>r. \<lparr> vr = r, last_avail_idx = 0 \<rparr>) rings"
    "vs_reqs g = (\<lambda>_. None)" "async_cmds g = []" "curr_mem g = 0" "ctx g = c"
    "max_mem g = mem_limit_bytes (gp_mem_limit params)"
    by (rule gpu_device_init_fields [OF assms(1)])
  have f: "fresh_rings rings"
    using assms(2) r(1) by blast
  then obtain r0 r1 where rs: "rings = [r0, r1]"
    by (auto simp: fresh_rings_def length_Suc_conv numeral_2_eq_2)
  show inv: "dev_inv g"
    using r f rs by (simp add: dev_inv_def waiting_def fresh_rings_def)
  show acc: "mem_accounted g"
    using r assms(3) by (simp add: mem_accounted_def reslist_inv_def reslist_total_def)
  assume l: "0 < gp_mem_limit params" "gp_mem_limit params < 4096"
  have "unat (max_mem g) = unat (gp_mem_limit params) * 2 ^ 20" "unat (gp_mem_limit params) < 4096"
    "0 < unat (gp_mem_limit params)"
    using mem_limit_exact [OF l(2)] l r(7) by (simp_all add: word_less_nat_alt)
  then show "served g"
    using inv acc r(6) assms(3)
    by (auto simp: served_def mem_small_def mem_limited_def backing_total_def)
qed

end
