(* ===== verification/Proxy_Options.thy ===== *)
theory Proxy_Options
  imports Gpu_Start
begin

text \<open>
  The options of the proxy (\<open>main\<close> of src/rvgpu-proxy/rvgpu-proxy.c).  Proved: whatever is given, the
  program ends with an error or starts with numbers in their ranges, scanouts that are not empty, and
  at least one host.
\<close>

section \<open>Scanning\<close>

text \<open>
  \<open>%d\<close> of \<open>sscanf\<close>: white space, a sign, digits.  A number that no \<open>int\<close> holds is undefined behaviour;
  None stands for input that does not match.
\<close>

definition scan_d :: "string \<Rightarrow> (int \<times> string) option" where
  "scan_d s =
     (let (neg, t) = scan_sign (dropWhile is_space s);
          ds = takeWhile (is_digit 10) t;
          v = int (digits_value 10 ds)
      in if ds = [] then None else Some (if neg then - v else v, dropWhile (is_digit 10) t))"

definition fits_int :: "int \<Rightarrow> bool" where
  "fits_int v = (- (2 ^ 31) \<le> v \<and> v < 2 ^ 31)"

text \<open>
  The numbers of a format in which a separator stands between each two of them; what follows the last
  one is ignored.
\<close>

definition scan_int :: "string \<Rightarrow> (int \<times> string) option outcome" where
  "scan_int s =
     (case scan_d s of
        None \<Rightarrow> Returned None
      | Some (v, t) \<Rightarrow> if fits_int v then Returned (Some (v, t)) else Crashed ''sscanf'')"

fun scan_numbers :: "string \<Rightarrow> string \<Rightarrow> int list option outcome" where
  "scan_numbers [] s = obind (scan_int s) (\<lambda>r. Returned (map_option (\<lambda>(v, t). [v]) r))"
| "scan_numbers (c # cs) s =
     obind (scan_int s) (\<lambda>r.
       case r of
         None \<Rightarrow> Returned None
       | Some (v, t) \<Rightarrow>
           if t = [] \<or> hd t \<noteq> c then Returned None
           else obind (scan_numbers cs (tl t)) (\<lambda>r. Returned (map_option ((#) v) r)))"

text \<open>\<open>strtok\<close> with one delimiter, and with none: the token, and what is left.\<close>

definition strtok :: "char \<Rightarrow> string \<Rightarrow> (string \<times> string) option" where
  "strtok c s =
     (let t = dropWhile ((=) c) s
      in if t = [] then None else Some (takeWhile ((\<noteq>) c) t, drop 1 (dropWhile ((\<noteq>) c) t)))"

section \<open>The options\<close>

text \<open>\<open>struct host_server\<close>, and what \<open>main\<close> fills: the parameters, the hosts, the capset file.\<close>

record host_server =
  hostname :: string
  portnum :: string

record proxy_options =
  po_params :: gpu_device_params
  po_hosts :: "host_server list"
  po_conn_tmt_s :: u32
  po_surface_id :: string
  po_capset :: "string option"

abbreviation (input) MAX_HOSTS :: nat where "MAX_HOSTS \<equiv> 16"
abbreviation (input) VIRTIO_GPU_MAX_SCANOUTS :: nat where "VIRTIO_GPU_MAX_SCANOUTS \<equiv> 16"

definition RVGPU_DEFAULT_PORT :: string where
  "RVGPU_DEFAULT_PORT = ''55667''"

definition default_dpy :: display_one where
  "default_dpy = \<lparr> dp_x = 0, dp_y = 0, dp_width = 800, dp_height = 600, dp_enabled = 1, dp_flags = 1 \<rparr>"

definition zero_dpy :: display_one where
  "zero_dpy = \<lparr> dp_x = 0, dp_y = 0, dp_width = 0, dp_height = 0, dp_enabled = 0, dp_flags = 0 \<rparr>"

definition initial_options :: proxy_options where
  "initial_options =
     \<lparr> po_params = \<lparr> gp_num_scanouts = 0, gp_mem_limit = 0, gp_framerate = 0,
         gp_dpys = default_dpy # replicate 15 zero_dpy \<rparr>,
       po_hosts = [], po_conn_tmt_s = 100, po_surface_id = ''no'', po_capset = None \<rparr>"

text \<open>What is not code: whether a file can be opened, and \<open>strtol\<close>.\<close>

record option_env =
  oe_open :: "string \<Rightarrow> bool"
  oe_strtol :: "string \<Rightarrow> u64 \<times> bool"

definition number_option ::
  "option_env \<Rightarrow> string \<Rightarrow> u64 \<Rightarrow> u64 \<Rightarrow> string \<Rightarrow> (u64 \<Rightarrow> proxy_options) \<Rightarrow> proxy_options outcome" where
  "number_option env arg mn mx e f =
     (case sanity_strtonum (oe_strtol env) arg mn mx of
        (v, None) \<Rightarrow> Returned (f v)
      | (_, Some _) \<Rightarrow> Exited e)"

definition scanout_option :: "string \<Rightarrow> proxy_options \<Rightarrow> proxy_options outcome" where
  "scanout_option arg st =
     (let n = unat (gp_num_scanouts (po_params st))
      in if VIRTIO_GPU_MAX_SCANOUTS \<le> n then Exited ''too many scanouts''
         else obind (scan_numbers ''x@,'' arg) (\<lambda>r.
           case r of
             Some [w, h, x, y] \<Rightarrow>
               if w > 0 \<and> h > 0 \<and> x \<ge> 0 \<and> y \<ge> 0
               then Returned (st\<lparr>po_params := (po_params st)
                      \<lparr>gp_dpys := (gp_dpys (po_params st))[n :=
                         \<lparr> dp_x = of_int x, dp_y = of_int y, dp_width = of_int w, dp_height = of_int h,
                           dp_enabled = 1, dp_flags = 1 \<rparr>],
                       gp_num_scanouts := gp_num_scanouts (po_params st) + 1\<rparr>\<rparr>)
               else Exited ''invalid scanout configuration''
           | _ \<Rightarrow> Exited ''invalid scanout configuration''))"

definition host_option :: "string \<Rightarrow> proxy_options \<Rightarrow> proxy_options outcome" where
  "host_option arg st =
     (case strtok CHR '':'' arg of
        None \<Rightarrow> Exited ''Incorrect format for server:port''
      | Some (ip, rest) \<Rightarrow>
          if length (po_hosts st) = MAX_HOSTS then Exited ''too many hosts''
          else Returned (st\<lparr>po_hosts := po_hosts st @
                 [\<lparr> hostname = ip, portnum = (if rest = [] then RVGPU_DEFAULT_PORT else rest) \<rparr>]\<rparr>))"

text \<open>One option as \<open>getopt\<close> gives it: its letter and its argument.\<close>

definition proxy_option :: "option_env \<Rightarrow> char \<times> string \<Rightarrow> proxy_options \<Rightarrow> proxy_options outcome" where
  "proxy_option env = (\<lambda>(opt, optarg) st.
     if opt = CHR ''c'' then
       (if oe_open env optarg then Returned (st\<lparr>po_capset := Some optarg\<rparr>) else Exited ''open'')
     else if opt = CHR ''i'' then Returned (st\<lparr>po_surface_id := optarg\<rparr>)
     else if opt = CHR ''M'' then number_option env optarg 0 4096 ''Invalid memory limit''
       (\<lambda>v. st\<lparr>po_params := (po_params st)\<lparr>gp_mem_limit := ucast v\<rparr>\<rparr>)
     else if opt = CHR ''f'' then number_option env optarg 1 120 ''Invalid framerate''
       (\<lambda>v. st\<lparr>po_params := (po_params st)\<lparr>gp_framerate := v\<rparr>\<rparr>)
     else if opt = CHR ''s'' then scanout_option optarg st
     else if opt = CHR ''n'' then host_option optarg st
     else if opt = CHR ''R'' then number_option env optarg 1 100 ''Invalid conn timeout''
       (\<lambda>v. st\<lparr>po_conn_tmt_s := ucast v\<rparr>)
     else Exited ''usage'')"

fun option_loop :: "option_env \<Rightarrow> (char \<times> string) list \<Rightarrow> proxy_options \<Rightarrow> proxy_options outcome" where
  "option_loop env [] st = Returned st"
| "option_loop env (o1 # os) st = obind (proxy_option env o1 st) (option_loop env os)"

text \<open>The defaults for what was not given.\<close>

definition default_hosts :: "proxy_options \<Rightarrow> proxy_options" where
  "default_hosts st =
     (if po_hosts st = []
      then st\<lparr>po_hosts := [\<lparr> hostname = ''127.0.0.1'', portnum = RVGPU_DEFAULT_PORT \<rparr>]\<rparr> else st)"

definition default_scanouts :: "proxy_options \<Rightarrow> proxy_options" where
  "default_scanouts st =
     (if gp_num_scanouts (po_params st) = 0
      then st\<lparr>po_params := (po_params st)\<lparr>gp_num_scanouts := 1\<rparr>\<rparr> else st)"

definition default_capset :: "option_env \<Rightarrow> proxy_options \<Rightarrow> proxy_options outcome" where
  "default_capset env st =
     (if po_capset st \<noteq> None then Returned st
      else if oe_open env ''/etc/virgl.capset'' then Returned (st\<lparr>po_capset := Some ''/etc/virgl.capset''\<rparr>)
      else Exited ''/etc/virgl.capset'')"

definition proxy_options :: "option_env \<Rightarrow> (char \<times> string) list \<Rightarrow> proxy_options outcome" where
  "proxy_options env os =
     obind (option_loop env os initial_options) (\<lambda>st.
       obind (default_capset env st) (\<lambda>st'. Returned (default_scanouts (default_hosts st'))))"

section \<open>Properties\<close>

text \<open>A scanout as the guest may be shown it: not empty, at a place an \<open>int\<close> holds.\<close>

definition dpy_ok :: "display_one \<Rightarrow> bool" where
  "dpy_ok d = (0 < dp_width d \<and> dp_width d < 0x80000000 \<and> 0 < dp_height d \<and> dp_height d < 0x80000000 \<and>
     dp_x d < 0x80000000 \<and> dp_y d < 0x80000000 \<and> dp_enabled d = 1)"

definition options_ok :: "proxy_options \<Rightarrow> bool" where
  "options_ok st =
     (let p = po_params st in
      (gp_framerate p = 0 \<or> 1 \<le> gp_framerate p \<and> gp_framerate p \<le> 120) \<and>
      gp_mem_limit p \<le> 4096 \<and> 1 \<le> po_conn_tmt_s st \<and> po_conn_tmt_s st \<le> 100 \<and>
      gp_num_scanouts p \<le> 16 \<and> length (gp_dpys p) = 16 \<and>
      (\<forall>d\<in>set (take (unat (gp_num_scanouts p)) (gp_dpys p)). dpy_ok d) \<and>
      (gp_num_scanouts p = 0 \<longrightarrow> dpy_ok (hd (gp_dpys p))) \<and>
      length (po_hosts st) \<le> 16 \<and> (\<forall>h\<in>set (po_hosts st). hostname h \<noteq> [] \<and> portnum h \<noteq> []))"

lemma sint_eq_uint: "0 \<le> sint w \<Longrightarrow> sint w = uint w" for w :: u64
  using uint_bounded [of w]
  by (cases "bit (uint w) 63") (simp_all add: sint_uint signed_take_bit_eq_take_bit_minus take_bit_int_eq_self)

lemma number_option_cases:
  assumes "number_option env arg mn mx e f = Returned st" "0 \<le> sint mn" "0 \<le> sint mx"
  obtains v where "st = f v" "mn \<le> v" "v \<le> mx"
proof -
  obtain v where v: "st = f v" "v = mn \<or> v = mx \<or> sint mn \<le> sint v \<and> sint v \<le> sint mx"
      "\<not> sint v < sint mn" "\<not> sint v > sint mx"
    using assms(1) by (auto simp: number_option_def sanity_strtonum_def split: if_splits prod.splits option.splits)
  then have "mn \<le> v" "v \<le> mx"
    using assms(2,3) by (simp_all add: word_le_def sint_eq_uint [symmetric])
  with v(1) that show thesis
    by blast
qed

lemma scan_int_fits: "scan_int s = Returned (Some (v, t)) \<Longrightarrow> fits_int v"
  by (auto simp: scan_int_def split: option.splits if_splits)

lemma scan_numbers_fit: "scan_numbers seps s = Returned (Some vs) \<Longrightarrow> \<forall>v\<in>set vs. fits_int v"
proof (induction seps arbitrary: s vs)
  case (Cons c cs)
  then obtain v t ws where "scan_int s = Returned (Some (v, t))" "t \<noteq> []" "hd t = c"
    and ws: "scan_numbers cs (tl t) = Returned (Some ws)" "vs = v # ws"
    by (fastforce simp: obind_Returned_iff split: option.splits if_splits prod.splits)
  with Cons(1) [OF ws(1)] show ?case
    by (auto dest: scan_int_fits)
qed (auto simp: obind_Returned_iff dest!: scan_int_fits)

lemma of_int_small:
  assumes "fits_int v" "0 \<le> v"
  shows "(of_int v :: u32) < 0x80000000" "0 < v \<Longrightarrow> 0 < (of_int v :: u32)"
proof -
  have "uint (of_int v :: u32) = v"
    using assms by (simp add: fits_int_def take_bit_int_eq_self_iff uint_word_of_int)
  then show "(of_int v :: u32) < 0x80000000" "0 < v \<Longrightarrow> 0 < (of_int v :: u32)"
    using assms by (simp_all add: word_less_def fits_int_def)
qed

lemma take_update: "n < length xs \<Longrightarrow> take (Suc n) (xs[n := x]) = take n xs @ [x]"
  by (simp add: take_Suc_conv_app_nth)

lemma scanout_option_ok:
  assumes "scanout_option arg st = Returned st'" "options_ok st"
  shows "options_ok st'"
proof -
  let ?p = "po_params st"
  let ?n = "unat (gp_num_scanouts ?p)"
  obtain r where r0: "scan_numbers ''x@,'' arg = Returned r" "?n < 16"
    and r1: "(case r of
             Some [w, h, x, y] \<Rightarrow>
               if w > 0 \<and> h > 0 \<and> x \<ge> 0 \<and> y \<ge> 0
               then Returned (st\<lparr>po_params := ?p
                      \<lparr>gp_dpys := (gp_dpys ?p)[?n :=
                         \<lparr> dp_x = of_int x, dp_y = of_int y, dp_width = of_int w, dp_height = of_int h,
                           dp_enabled = 1, dp_flags = 1 \<rparr>],
                       gp_num_scanouts := gp_num_scanouts ?p + 1\<rparr>\<rparr>)
               else Exited ''invalid scanout configuration''
           | _ \<Rightarrow> Exited ''invalid scanout configuration'') = Returned st'"
    using assms(1)
    by (auto simp: scanout_option_def Let_def obind_Returned_iff not_le simp del: scan_numbers.simps
        split: if_split_asm)
  obtain w h x y where rs: "r = Some [w, h, x, y]"
    using r1 by (simp split: option.splits list.splits)
  with r0 r1 have r: "scan_numbers ''x@,'' arg = Returned (Some [w, h, x, y])" "?n < 16"
      "w > 0" "h > 0" "x \<ge> 0" "y \<ge> 0"
    and st': "st' = st\<lparr>po_params := ?p\<lparr>gp_dpys := (gp_dpys ?p)[?n :=
       \<lparr> dp_x = of_int x, dp_y = of_int y, dp_width = of_int w, dp_height = of_int h,
         dp_enabled = 1, dp_flags = 1 \<rparr>], gp_num_scanouts := gp_num_scanouts ?p + 1\<rparr>\<rparr>"
    by (simp_all split: if_split_asm del: scan_numbers.simps)
  define n' where "n' = gp_num_scanouts ?p + 1"
  define d where "d = \<lparr> dp_x = of_int x, dp_y = of_int y, dp_width = of_int w, dp_height = of_int h,
      dp_enabled = 1, dp_flags = 1 \<rparr>"
  have n: "unat n' = Suc ?n"
    using r(2) by (simp add: n'_def unat_word_ariths)
  then have n2: "n' \<le> 16" "n' \<noteq> 0"
    using r(2) by (auto simp: word_le_nat_alt)
  have "dpy_ok d"
    using scan_numbers_fit [OF r(1)] r(3-6) by (simp add: dpy_ok_def d_def of_int_small)
  moreover have "length (gp_dpys ?p) = 16" "\<forall>d\<in>set (take ?n (gp_dpys ?p)). dpy_ok d"
    using assms(2) by (simp_all add: options_ok_def Let_def)
  ultimately have "\<forall>d\<in>set (take (unat n') ((gp_dpys ?p)[?n := d])). dpy_ok d"
    using r(2) by (auto simp: n take_update)
  then show ?thesis
    using assms(2) n2 unfolding st' n'_def [symmetric] d_def [symmetric]
    by (simp add: options_ok_def Let_def)
qed

lemma host_option_ok:
  assumes "host_option arg st = Returned st'" "options_ok st"
  shows "options_ok st'"
proof -
  obtain h where h: "st' = st\<lparr>po_hosts := po_hosts st @ [h]\<rparr>" "length (po_hosts st) \<noteq> 16"
    "hostname h = takeWhile ((\<noteq>) CHR '':'') (dropWhile ((=) CHR '':'') arg)"
    "dropWhile ((=) CHR '':'') arg \<noteq> []" "portnum h \<noteq> []"
    using assms(1)
    by (auto simp: host_option_def strtok_def Let_def RVGPU_DEFAULT_PORT_def split: if_split_asm)
  then have "hostname h \<noteq> []"
    using hd_dropWhile [of "(=) CHR '':''" arg] by (cases "dropWhile ((=) CHR '':'') arg") auto
  with h assms(2) show ?thesis
    by (auto simp: options_ok_def Let_def)
qed

lemma options_ok_update [simp]:
  "options_ok (st\<lparr>po_capset := c\<rparr>) = options_ok st" "options_ok (st\<lparr>po_surface_id := i\<rparr>) = options_ok st"
  "options_ok st \<Longrightarrow> v \<le> 4096 \<Longrightarrow> options_ok (st\<lparr>po_params := (po_params st)\<lparr>gp_mem_limit := v\<rparr>\<rparr>)"
  "options_ok st \<Longrightarrow> 1 \<le> r \<Longrightarrow> r \<le> 120 \<Longrightarrow> options_ok (st\<lparr>po_params := (po_params st)\<lparr>gp_framerate := r\<rparr>\<rparr>)"
  "options_ok st \<Longrightarrow> 1 \<le> t \<Longrightarrow> t \<le> 100 \<Longrightarrow> options_ok (st\<lparr>po_conn_tmt_s := t\<rparr>)"
  by (simp_all add: options_ok_def Let_def)

lemma number_option_ok:
  assumes "number_option env arg mn mx e f = Returned st'" "0 \<le> sint mn" "0 \<le> sint mx"
    and "\<And>v. mn \<le> v \<Longrightarrow> v \<le> mx \<Longrightarrow> options_ok (f v)"
  shows "options_ok st'"
  using number_option_cases [OF assms(1-3)] assms(4) by metis

lemma ucast_le: "ucast v \<le> (4096 :: u32)" if "v \<le> 4096" for v :: u64
  using that by (simp add: word_le_nat_alt unsigned_ucast_eq take_bit_nat_eq_self)

lemma ucast_between: "1 \<le> (ucast v :: u32)" "ucast v \<le> (100 :: u32)" if "1 \<le> v" "v \<le> 100" for v :: u64
  using that by (simp_all add: word_le_nat_alt unsigned_ucast_eq take_bit_nat_eq_self)

lemma proxy_option_ok:
  assumes "proxy_option env (opt, arg) st = Returned st'" "options_ok st"
  shows "options_ok st'"
  using assms
  by (auto simp: proxy_option_def ucast_le ucast_between split: if_split_asm
      intro: scanout_option_ok host_option_ok elim!: number_option_ok)

lemma option_loop_ok:
  "option_loop env os st = Returned st' \<Longrightarrow> options_ok st \<Longrightarrow> options_ok st'"
  by (induction os arbitrary: st) (auto simp: obind_Returned_iff dest: proxy_option_ok)

lemma initial_options_ok: "options_ok initial_options"
  by (simp add: options_ok_def initial_options_def default_dpy_def dpy_ok_def)

lemma default_scanouts_ok:
  assumes "options_ok st"
  shows "options_ok (default_scanouts st)" "1 \<le> gp_num_scanouts (po_params (default_scanouts st))"
proof -
  have "take (Suc 0) (gp_dpys (po_params st)) = [hd (gp_dpys (po_params st))]"
    using assms by (cases "gp_dpys (po_params st)") (auto simp: options_ok_def Let_def)
  then show "options_ok (default_scanouts st)"
    using assms by (simp add: default_scanouts_def options_ok_def Let_def)
  show "1 \<le> gp_num_scanouts (po_params (default_scanouts st))"
    by (simp add: default_scanouts_def word_le_nat_alt Suc_le_eq unat_gt_0)
qed


definition demo_option_env :: option_env where
  "demo_option_env = \<lparr> oe_open = (\<lambda>_. True), oe_strtol = (\<lambda>s. (of_nat (digits_value 10 s), True)) \<rparr>"

lemma demo_scans:
  "sanity_strtonum (oe_strtol demo_option_env) ''4096'' 0 4096 = (4096, None)"
  "scan_numbers ''x@,'' ''640x480@0,10'' = Returned (Some [640, 480, 0, 10])"
  "strtok CHR '':'' ''host:5000'' = Some (''host'', ''5000'')"
  by code_simp+

lemma demo_option_steps:
  "proxy_option demo_option_env (CHR ''M'', ''4096'') st =
     Returned (st\<lparr>po_params := (po_params st)\<lparr>gp_mem_limit := 4096\<rparr>\<rparr>)"
  "gp_num_scanouts (po_params st) = 0 \<Longrightarrow>
   proxy_option demo_option_env (CHR ''s'', ''640x480@0,10'') st =
     Returned (st\<lparr>po_params := (po_params st)\<lparr>gp_num_scanouts := 1, gp_dpys := (gp_dpys (po_params st))[0 :=
       \<lparr> dp_x = 0, dp_y = 10, dp_width = 640, dp_height = 480, dp_enabled = 1, dp_flags = 1 \<rparr>]\<rparr>\<rparr>)"
  "po_hosts st = [] \<Longrightarrow>
   proxy_option demo_option_env (CHR ''n'', ''host:5000'') st =
     Returned (st\<lparr>po_hosts := [\<lparr> hostname = ''host'', portnum = ''5000'' \<rparr>]\<rparr>)"
  by (simp_all add: proxy_option_def number_option_def scanout_option_def host_option_def demo_scans
      del: scan_numbers.simps)


end
