(* ===== verification/Proxy_Main.thy ===== *)
theory Proxy_Main
  imports Proxy_Options
begin

text \<open>
  The main program of the proxy (src/rvgpu-proxy/rvgpu-proxy.c): its event loop, and the end, where it
  answers the guest while the processes that use the virtual card leave, flushes the device and removes
  it (\<open>gpu_device_free\<close> of gpu/rvgpu-gpu-device.c).  Proved: from the start of the device to its removal
  the program returns, without a request left; and only processes that held the card are signalled, and
  killed at the earliest three seconds after they were asked to end.
\<close>

section \<open>The processes that use a device\<close>

text \<open>
  \<open>/proc\<close>: the entries with the device and inode behind each descriptor; None stands for a call that
  fails.
\<close>

record proc_entry =
  pe_name :: string
  pe_fds :: "(nat \<times> nat) option list option"

definition atoi :: "string \<Rightarrow> int" where
  "atoi s = (case scan_d s of None \<Rightarrow> 0 | Some (v, _) \<Rightarrow> v)"

fun find_pids_loop :: "nat \<times> nat \<Rightarrow> int \<Rightarrow> nat \<Rightarrow> proc_entry list \<Rightarrow> int list \<Rightarrow> int list" where
  "find_pids_loop target my_pid max_pids [] pids = pids"
| "find_pids_loop target my_pid max_pids (e # es) pids =
     (if \<not> length pids < max_pids then pids
      else
        let pid = atoi (pe_name e)
        in if pid \<le> 0 \<or> pid = my_pid then find_pids_loop target my_pid max_pids es pids
           else (case pe_fds e of
                   None \<Rightarrow> find_pids_loop target my_pid max_pids es pids
                 | Some fds \<Rightarrow>
                     find_pids_loop target my_pid max_pids es
                       (if Some target \<in> set fds then pids @ [pid] else pids)))"

definition find_dri_user_pids :: "nat \<times> nat \<Rightarrow> int \<Rightarrow> proc_entry list option \<Rightarrow> nat \<Rightarrow> int list" where
  "find_dri_user_pids target my_pid procs max_pids =
     (case procs of None \<Rightarrow> [] | Some es \<Rightarrow> find_pids_loop target my_pid max_pids es [])"

text \<open>What \<open>kill\<close> with signal 0 says.\<close>

datatype kill_result = Kill_ok | Kill_errno int

abbreviation (input) EPERM :: int where "EPERM \<equiv> 1"

definition process_exists :: "(int \<Rightarrow> kill_result) \<Rightarrow> int \<Rightarrow> bool" where
  "process_exists k pid = (k pid = Kill_ok \<or> k pid = Kill_errno EPERM)"

definition running :: "(int \<Rightarrow> kill_result) \<Rightarrow> int list \<Rightarrow> int list" where
  "running k pids = filter (\<lambda>p. 0 < p \<and> process_exists k p) pids"

text \<open>\<open>wait_for_processes\<close>: what is seen at each time, in steps of 50 ms.\<close>

function wait_loop :: "(nat \<Rightarrow> int \<Rightarrow> kill_result) \<Rightarrow> int list \<Rightarrow> nat \<Rightarrow> nat \<Rightarrow> nat" where
  "wait_loop k pids timeout_ms elapsed =
     (if elapsed < timeout_ms
      then if running (k elapsed) pids = [] then 0 else wait_loop k pids timeout_ms (elapsed + 50)
      else length (running (k elapsed) pids))"
  by pat_completeness auto
termination by (relation "measure (\<lambda>(k, pids, t, e). t - e)") auto

definition wait_for_processes :: "(nat \<Rightarrow> int \<Rightarrow> kill_result) \<Rightarrow> int list \<Rightarrow> nat \<Rightarrow> nat" where
  "wait_for_processes k pids timeout_ms = wait_loop k pids timeout_ms 0"

section \<open>Draining while they leave\<close>

text \<open>
  What the system does at a time: which processes run when they are looked at and when they are to be
  killed, what /proc shows, and what the guest does during the sleep.
\<close>

record dri_turn =
  dt_alive :: "int \<Rightarrow> kill_result"
  dt_procs :: "proc_entry list option"
  dt_alive_kill :: "int \<Rightarrow> kill_result"
  dt_sleep :: "gpu_device \<Rightarrow> gpu_device"

text \<open>The variables of the loop; the log holds the processes that were killed and the time.\<close>

record dri_drain =
  dd_elapsed :: nat
  dd_stable :: nat
  dd_idle :: nat
  dd_scan :: nat
  dd_users :: bool
  dd_sigkill_sent :: bool
  dd_kills :: "(nat \<times> int) list"
  dd_dev :: gpu_device

definition scan_node ::
  "int \<Rightarrow> (nat \<times> nat) option \<Rightarrow> dri_turn \<Rightarrow> bool \<Rightarrow> dri_drain \<Rightarrow> bool \<times> dri_drain" where
  "scan_node my_pid node t any_alive d =
     (case node of
        Some target \<Rightarrow>
          if any_alive then (True, d)
          else
            let d1 = d\<lparr>dd_scan := dd_scan d + 1\<rparr>;
                d2 = (if 100 \<le> dd_scan d1
                      then d1\<lparr>dd_scan := 0, dd_users := find_dri_user_pids target my_pid (dt_procs t) 64 \<noteq> []\<rparr>
                      else d1)
            in (dd_users d2, d2)
      | None \<Rightarrow> (any_alive, d))"

definition escalate :: "int list \<Rightarrow> dri_turn \<Rightarrow> bool \<Rightarrow> dri_drain \<Rightarrow> dri_drain" where
  "escalate pids t any_alive d =
     (if \<not> dd_sigkill_sent d \<and> pids \<noteq> [] \<and> any_alive \<and> (3000 \<le> dd_idle d \<or> 5000 \<le> dd_elapsed d)
      then d\<lparr>dd_kills := dd_kills d @ map (Pair (dd_elapsed d)) (running (dt_alive_kill t) pids),
             dd_sigkill_sent := True, dd_idle := 0\<rparr>
      else d)"

text \<open>The counters at the end of a turn; whether the loop is left, and the variables.\<close>

definition count_turn :: "nat \<Rightarrow> bool \<Rightarrow> dri_turn \<Rightarrow> dri_drain \<Rightarrow> bool \<times> dri_drain" where
  "count_turn flushed any_alive t d =
     (let d1 = (if flushed > 0 then d\<lparr>dd_idle := 0, dd_stable := 0\<rparr>
                else if any_alive then d\<lparr>dd_idle := dd_idle d + 10, dd_stable := 0\<rparr>
                else d\<lparr>dd_stable := dd_stable d + 1\<rparr>)
      in if flushed = 0 \<and> \<not> any_alive \<and> 50 \<le> dd_stable d1 then (True, d1)
         else (False, d1\<lparr>dd_dev := dt_sleep t (dd_dev d1), dd_elapsed := dd_elapsed d1 + 10\<rparr>))"

definition dri_turn_step ::
  "gpu_env \<Rightarrow> int \<Rightarrow> int list \<Rightarrow> (nat \<times> nat) option \<Rightarrow> dri_turn \<Rightarrow> dri_drain \<Rightarrow> (bool \<times> dri_drain) outcome" where
  "dri_turn_step env my_pid pids node t d =
     obind (gpu_device_drain_once env (dd_dev d)) (\<lambda>(flushed, g).
       let (any_alive, d1) = scan_node my_pid node t (running (dt_alive t) pids \<noteq> []) (d\<lparr>dd_dev := g\<rparr>)
       in Returned (count_turn flushed any_alive t (escalate pids t any_alive d1)))"

text \<open>Every turn but the last takes 10 ms, so that the time bounds the number of turns.\<close>

fun dri_drain_loop ::
  "gpu_env \<Rightarrow> int \<Rightarrow> int list \<Rightarrow> (nat \<times> nat) option \<Rightarrow> nat \<Rightarrow> (nat \<Rightarrow> dri_turn) \<Rightarrow> nat \<Rightarrow> dri_drain \<Rightarrow>
   dri_drain outcome" where
  "dri_drain_loop env my_pid pids node max_wait_ms ts 0 d = Diverged"
| "dri_drain_loop env my_pid pids node max_wait_ms ts (Suc fuel) d =
     (if \<not> dd_elapsed d < max_wait_ms then Returned d
      else obind (dri_turn_step env my_pid pids node (ts (dd_elapsed d)) d) (\<lambda>(stop, d').
             if stop then Returned d' else dri_drain_loop env my_pid pids node max_wait_ms ts fuel d'))"

definition drain_during_dri_cleanup ::
  "gpu_env \<Rightarrow> int \<Rightarrow> int list \<Rightarrow> (nat \<times> nat) option \<Rightarrow> nat \<Rightarrow> (nat \<Rightarrow> dri_turn) \<Rightarrow> gpu_device \<Rightarrow>
   dri_drain outcome" where
  "drain_during_dri_cleanup env my_pid pids node max_wait_ms ts g =
     dri_drain_loop env my_pid pids node max_wait_ms ts (max_wait_ms + 1)
       \<lparr> dd_elapsed = 0, dd_stable = 0, dd_idle = 0, dd_scan = 100, dd_users = False,
         dd_sigkill_sent = False, dd_kills = [], dd_dev = g \<rparr>"

section \<open>Ending the users of the card\<close>

text \<open>\<open>"0x%04x"\<close>.\<close>

fun hex_string :: "nat \<Rightarrow> string" where
  "hex_string n = (if n < 16 then [] else hex_string (n div 16)) @ [''0123456789abcdef'' ! (n mod 16)]"

declare hex_string.simps [simp del]

definition vendor_string :: "u32 \<Rightarrow> string" where
  "vendor_string v = (let h = hex_string (unat v) in ''0x'' @ replicate (4 - length h) CHR ''0'' @ h)"

text \<open>The entries of the DRM subsystem: the node of a card, its parent and the vendor of the parent.\<close>

record udev_card =
  uc_devnode :: "string option"
  uc_parent_vendor :: "string option option"

fun find_dri_node :: "string \<Rightarrow> udev_card option list \<Rightarrow> string option" where
  "find_dri_node vendor [] = None"
| "find_dri_node vendor (None # cs) = find_dri_node vendor cs"
| "find_dri_node vendor (Some c # cs) =
     (case uc_devnode c of
        None \<Rightarrow> find_dri_node vendor cs
      | Some node \<Rightarrow>
          if strstr node ''/dev/dri/card'' \<noteq> None \<and> uc_parent_vendor c = Some (Some vendor) then Some node
          else find_dri_node vendor cs)"

text \<open>
  The system during the end: the cards (None when udev fails), the nodes, the process of the proxy, the
  turns of the two waits, and /proc in between.
\<close>

record dri_world =
  dw_cards :: "udev_card option list option"
  dw_stat :: "string \<Rightarrow> (nat \<times> nat) option"
  dw_pid :: int
  dw_grace :: "nat \<Rightarrow> dri_turn"
  dw_procs :: "proc_entry list option"
  dw_cleanup :: "nat \<Rightarrow> dri_turn"

text \<open>
  The processes asked to end, those killed with the time of it, and the device.  The count of
  \<open>wait_for_processes\<close> at the end only goes to a message.
\<close>

definition terminate_dri_users ::
  "gpu_env \<Rightarrow> dri_world \<Rightarrow> u32 \<Rightarrow> gpu_device \<Rightarrow> (int list \<times> (nat \<times> int) list \<times> gpu_device) outcome" where
  "terminate_dri_users env w vendor_id g =
     (case dw_cards w of
        None \<Rightarrow> Returned ([], [], g)
      | Some cards \<Rightarrow>
          (case find_dri_node (vendor_string vendor_id) cards of
             None \<Rightarrow>
               obind (drain_during_dri_cleanup env (dw_pid w) [] None 3000 (dw_grace w) g) (\<lambda>d.
                 Returned ([], [], dd_dev d))
           | Some node \<Rightarrow>
               (case dw_stat w node of
                  None \<Rightarrow> Returned ([], [], g)
                | Some target \<Rightarrow>
                    obind (drain_during_dri_cleanup env (dw_pid w) [] (Some target) 3000 (dw_grace w) g) (\<lambda>d.
                      let pids = find_dri_user_pids target (dw_pid w) (dw_procs w) 64
                      in if pids = [] then Returned ([], [], dd_dev d)
                         else obind (drain_during_dri_cleanup env (dw_pid w) pids (Some target) 30000
                                       (dw_cleanup w) (dd_dev d)) (\<lambda>d'.
                                Returned (pids, dd_kills d', dd_dev d'))))))"

section \<open>Removing the device\<close>

text \<open>
  Twenty passes over the queues with a sleep after each, then those of the thread that drains while the
  kernel removes the device; the lists say what the guest does in the sleeps.
\<close>

fun drain_passes :: "gpu_env \<Rightarrow> nat \<Rightarrow> arrivals \<Rightarrow> gpu_device \<Rightarrow> gpu_device outcome" where
  "drain_passes env 0 fs g = Returned g"
| "drain_passes env (Suc n) fs g =
     obind (gpu_device_drain_once env g) (\<lambda>(_, g1). drain_passes env n (tl fs) (arrive fs g1))"

definition detach_drain_thread :: "gpu_env \<Rightarrow> arrivals \<Rightarrow> gpu_device \<Rightarrow> gpu_device outcome" where
  "detach_drain_thread env fs g = drain_passes env (length fs) fs g"

definition gpu_device_free :: "gpu_env \<Rightarrow> arrivals \<Rightarrow> arrivals \<Rightarrow> gpu_device \<Rightarrow> gpu_device outcome" where
  "gpu_device_free env fs detach g =
     obind (drain_passes env 20 fs g) (detach_drain_thread env detach)"

section \<open>The main loop\<close>

text \<open>
  The events of the epoll set: the configuration with what the guest acknowledges, the queues with the
  arguments of \<open>gpu_device_serve\<close>, or another number.  A turn is what the guest and the other threads do
  before \<open>epoll_wait\<close> comes back, and its result; after the last turn the flag of the signal handler is
  set.
\<close>

datatype proxy_event =
    Config_event "u32 option" | Queues_event "byte list" "byte list" int bool | Unknown_event u32

datatype epoll_result = Epoll_interrupted | Epoll_error | Epoll_events "proxy_event list"

type_synonym main_turn = "(gpu_device \<Rightarrow> gpu_device) \<times> epoll_result"

fun proxy_event_step :: "gpu_env \<Rightarrow> proxy_event \<Rightarrow> gpu_device \<Rightarrow> gpu_device outcome" where
  "proxy_event_step env (Config_event c) g = Returned (gpu_device_config c g)"
| "proxy_event_step env (Queues_event body stack ret eagain) g = gpu_device_serve env body stack ret eagain g"
| "proxy_event_step env (Unknown_event n) g = Returned g"

fun proxy_events :: "gpu_env \<Rightarrow> proxy_event list \<Rightarrow> gpu_device \<Rightarrow> gpu_device outcome" where
  "proxy_events env [] g = Returned g"
| "proxy_events env (e # es) g = obind (proxy_event_step env e g) (proxy_events env es)"

fun main_cycle :: "gpu_env \<Rightarrow> main_turn list \<Rightarrow> gpu_device \<Rightarrow> gpu_device outcome" where
  "main_cycle env [] g = Returned g"
| "main_cycle env ((f, r) # ts) g =
     (case r of
        Epoll_interrupted \<Rightarrow> main_cycle env ts (f g)
      | Epoll_error \<Rightarrow> Returned (f g)
      | Epoll_events es \<Rightarrow> obind (proxy_events env es (f g)) (main_cycle env ts))"

text \<open>The life of the device: its start, the loop, and the end.\<close>

definition proxy_run ::
  "start_env \<Rightarrow> gpu_env \<Rightarrow> byte list option \<Rightarrow> gpu_device_params \<Rightarrow> ctx_priv \<Rightarrow> main_turn list \<Rightarrow> dri_world \<Rightarrow>
   arrivals \<Rightarrow> arrivals \<Rightarrow> arrivals \<Rightarrow> (int list \<times> (nat \<times> int) list \<times> gpu_device) outcome" where
  "proxy_run se env capset params c turns w fs1 fs2 fs3 =
     obind (gpu_device_init se env capset params c) (\<lambda>r.
       case r of
         None \<Rightarrow> Exited ''gpu device init''
       | Some (info, g) \<Rightarrow>
           obind (main_cycle env turns g) (\<lambda>g1.
             obind (terminate_dri_users env w (di_vendor_id info) g1) (\<lambda>(terms, kills, g2).
               obind (gpu_device_flush_pending env fs1 g2) (\<lambda>g3.
                 obind (gpu_device_free env fs2 fs3 g3) (\<lambda>g4.
                   Returned (terms, kills, g4))))))"

section \<open>Who is signalled\<close>

lemma find_pids_loop_found:
  "p \<in> set (find_pids_loop target my_pid max_pids es pids) \<Longrightarrow>
   p \<in> set pids \<or>
   (0 < p \<and> p \<noteq> my_pid \<and> (\<exists>e\<in>set es. atoi (pe_name e) = p \<and> (\<exists>fds. pe_fds e = Some fds \<and> Some target \<in> set fds)))"
  by (induction target my_pid max_pids es pids rule: find_pids_loop.induct)
    (fastforce simp: Let_def split: if_split_asm option.split_asm)+

lemma find_pids_loop_length:
  "length pids \<le> max_pids \<Longrightarrow> length (find_pids_loop target my_pid max_pids es pids) \<le> max_pids"
  by (induction target my_pid max_pids es pids rule: find_pids_loop.induct)
    (auto simp: Let_def split: option.split)

definition holds_node :: "proc_entry list option \<Rightarrow> nat \<times> nat \<Rightarrow> int \<Rightarrow> bool" where
  "holds_node procs target p =
     (\<exists>es. procs = Some es \<and> (\<exists>e\<in>set es. atoi (pe_name e) = p \<and>
       (\<exists>fds. pe_fds e = Some fds \<and> Some target \<in> set fds)))"

lemma find_dri_user_pids_sound:
  "p \<in> set (find_dri_user_pids target my_pid procs n) \<Longrightarrow> 0 < p \<and> p \<noteq> my_pid \<and> holds_node procs target p"
  "length (find_dri_user_pids target my_pid procs n) \<le> n"
  by (auto simp: find_dri_user_pids_def holds_node_def find_pids_loop_length
      dest!: find_pids_loop_found split: option.split_asm option.split)

text \<open>All processes are killed at one time, not before three seconds.\<close>

definition late_kills :: "int list \<Rightarrow> (nat \<times> int) list \<Rightarrow> bool" where
  "late_kills pids ks = (\<exists>t k. 3000 \<le> t \<and> (ks = [] \<or> ks = map (Pair t) (running k pids)))"

definition kills_ok :: "int list \<Rightarrow> dri_drain \<Rightarrow> bool" where
  "kills_ok pids d =
     (dd_idle d \<le> dd_elapsed d \<and> (\<not> dd_sigkill_sent d \<longrightarrow> dd_kills d = []) \<and>
      late_kills pids (dd_kills d))"

lemma scan_node_fields:
  "scan_node my_pid node t a d = (b, d') \<Longrightarrow>
   dd_idle d' = dd_idle d \<and> dd_elapsed d' = dd_elapsed d \<and> dd_sigkill_sent d' = dd_sigkill_sent d \<and>
   dd_kills d' = dd_kills d \<and> dd_dev d' = dd_dev d \<and> dd_stable d' = dd_stable d"
  by (auto simp: scan_node_def Let_def split: option.splits if_splits)

lemma escalate_ok:
  assumes "kills_ok pids d"
  shows "kills_ok pids (escalate pids t a d)"
proof (cases "escalate pids t a d = d")
  case False
  then have "3000 \<le> dd_idle d \<or> 5000 \<le> dd_elapsed d" "\<not> dd_sigkill_sent d"
    by (auto simp: escalate_def split: if_split_asm)
  then have "3000 \<le> dd_elapsed d" "dd_kills d = []"
    using assms by (auto simp: kills_ok_def late_kills_def)
  then show ?thesis
    using assms by (auto simp: escalate_def kills_ok_def late_kills_def)
qed (use assms in simp)

lemma escalate_dev [simp]: "dd_dev (escalate pids t a d) = dd_dev d"
  by (simp add: escalate_def)

lemma count_turn_ok: "count_turn n a t d = (b, d') \<Longrightarrow> kills_ok pids d \<Longrightarrow> kills_ok pids d'"
  by (auto simp: count_turn_def kills_ok_def Let_def split: if_split_asm)

lemma dri_turn_step_cases:
  assumes "dri_turn_step env my_pid pids node t d = Returned (b, d')"
  obtains n g a d1 where "gpu_device_drain_once env (dd_dev d) = Returned (n, g)"
    "scan_node my_pid node t (running (dt_alive t) pids \<noteq> []) (d\<lparr>dd_dev := g\<rparr>) = (a, d1)"
    "count_turn n a t (escalate pids t a d1) = (b, d')"
proof -
  obtain n g where n: "gpu_device_drain_once env (dd_dev d) = Returned (n, g)"
    using assms by (auto simp: dri_turn_step_def obind_Returned_iff)
  obtain a d1 where "scan_node my_pid node t (running (dt_alive t) pids \<noteq> []) (d\<lparr>dd_dev := g\<rparr>) = (a, d1)"
    by fastforce
  with n assms that show thesis
    by (simp add: dri_turn_step_def)
qed

lemma dri_turn_step_ok:
  assumes "dri_turn_step env my_pid pids node t d = Returned (b, d')" "kills_ok pids d"
  shows "kills_ok pids d'"
  using assms(1)
proof (cases rule: dri_turn_step_cases)
  case (1 n g a d1)
  have "kills_ok pids d1"
    using assms(2) scan_node_fields [OF 1(2)] by (simp add: kills_ok_def)
  from count_turn_ok [OF 1(3) escalate_ok [OF this]] show ?thesis .
qed

lemma dri_drain_loop_ok:
  "dri_drain_loop env my_pid pids node max_wait_ms ts fuel d = Returned d' \<Longrightarrow> kills_ok pids d \<Longrightarrow> kills_ok pids d'"
  by (induction fuel arbitrary: d)
    (auto simp: obind_Returned_iff dest: dri_turn_step_ok split: if_split_asm)

lemma drain_during_dri_cleanup_ok:
  "drain_during_dri_cleanup env my_pid pids node max_wait_ms ts g = Returned d \<Longrightarrow> kills_ok pids d"
  unfolding drain_during_dri_cleanup_def by (erule dri_drain_loop_ok) (auto simp: kills_ok_def late_kills_def)


section \<open>The end comes\<close>

definition behaves :: "(gpu_device \<Rightarrow> gpu_device) \<Rightarrow> bool" where
  "behaves f = (\<forall>g. dev_inv g \<longrightarrow> dev_inv (f g))"

lemma guest_behaves_iff: "guest_behaves fs \<longleftrightarrow> (\<forall>f\<in>set fs. behaves f)"
  by (simp add: guest_behaves_def behaves_def)

lemma dri_turn_step_returns:
  assumes "calm env" "behaves (dt_sleep t)" "dev_inv (dd_dev d)"
  shows "\<exists>b d'. dri_turn_step env my_pid pids node t d = Returned (b, d') \<and> dev_inv (dd_dev d') \<and>
    (b \<or> dd_elapsed d' = dd_elapsed d + 10)"
proof -
  obtain n g where g: "gpu_device_drain_once env (dd_dev d) = Returned (n, g)" "dev_inv g"
    using drain_once_returns [OF assms(1,3)] by metis
  obtain a d1 where d1: "scan_node my_pid node t (running (dt_alive t) pids \<noteq> []) (d\<lparr>dd_dev := g\<rparr>) = (a, d1)"
    by fastforce
  obtain b d' where d': "count_turn n a t (escalate pids t a d1) = (b, d')"
    by fastforce
  have "dd_elapsed (escalate pids t a d1) = dd_elapsed d" "dd_dev (escalate pids t a d1) = g"
    using scan_node_fields [OF d1] by (simp_all add: escalate_def)
  then have "dev_inv (dd_dev d') \<and> (b \<or> dd_elapsed d' = dd_elapsed d + 10)"
    using d' g(2) assms(2) by (auto simp: count_turn_def Let_def behaves_def split: if_split_asm)
  with g(1) d1 d' show ?thesis
    by (simp add: dri_turn_step_def)
qed

lemma dri_drain_loop_returns:
  assumes "calm env" "\<And>n. behaves (dt_sleep (ts n))"
  shows "dev_inv (dd_dev d) \<Longrightarrow> max_wait_ms - dd_elapsed d < fuel \<Longrightarrow>
    \<exists>d'. dri_drain_loop env my_pid pids node max_wait_ms ts fuel d = Returned d' \<and> dev_inv (dd_dev d')"
proof (induction fuel arbitrary: d)
  case (Suc fuel)
  obtain b d' where d': "dri_turn_step env my_pid pids node (ts (dd_elapsed d)) d = Returned (b, d')"
    "dev_inv (dd_dev d')" "b \<or> dd_elapsed d' = dd_elapsed d + 10"
    using dri_turn_step_returns [OF assms(1) assms(2) Suc(2)] by metis
  show ?case
    using Suc(1) [OF d'(2)] Suc(2,3) d' by auto
qed simp

lemma drain_during_dri_cleanup_returns:
  assumes "calm env" "\<And>n. behaves (dt_sleep (ts n))" "dev_inv g"
  shows "\<exists>d. drain_during_dri_cleanup env my_pid pids node max_wait_ms ts g = Returned d \<and> dev_inv (dd_dev d)"
  unfolding drain_during_dri_cleanup_def using assms by (intro dri_drain_loop_returns) simp_all

definition world_behaves :: "dri_world \<Rightarrow> bool" where
  "world_behaves w = (\<forall>n. behaves (dt_sleep (dw_grace w n)) \<and> behaves (dt_sleep (dw_cleanup w n)))"

lemma terminate_dri_users_returns:
  assumes "calm env" "world_behaves w" "dev_inv g"
  shows "\<exists>terms kills g'. terminate_dri_users env w vendor_id g = Returned (terms, kills, g') \<and> dev_inv g'"
proof -
  have b: "\<And>n. behaves (dt_sleep (dw_grace w n))" "\<And>n. behaves (dt_sleep (dw_cleanup w n))"
    using assms(2) by (simp_all add: world_behaves_def)
  note grace = drain_during_dri_cleanup_returns [where ts = "dw_grace w", OF assms(1) b(1) assms(3)]
  note cleanup = drain_during_dri_cleanup_returns [where ts = "dw_cleanup w", OF assms(1) b(2)]
  show ?thesis
  proof (cases "dw_cards w")
    case (Some cards)
    show ?thesis
    proof (cases "find_dri_node (vendor_string vendor_id) cards")
      case None
      obtain d where "drain_during_dri_cleanup env (dw_pid w) [] None 3000 (dw_grace w) g = Returned d" "dev_inv (dd_dev d)"
        using grace by blast
      with Some None show ?thesis
        by (simp add: terminate_dri_users_def)
    next
      case node: (Some node)
      show ?thesis
      proof (cases "dw_stat w node")
        case target: (Some target)
        obtain d where d: "drain_during_dri_cleanup env (dw_pid w) [] (Some target) 3000 (dw_grace w) g = Returned d"
          "dev_inv (dd_dev d)"
          using grace by blast
        obtain d' where d': "drain_during_dri_cleanup env (dw_pid w)
            (find_dri_user_pids target (dw_pid w) (dw_procs w) 64) (Some target) 30000 (dw_cleanup w) (dd_dev d) = Returned d'"
          "dev_inv (dd_dev d')"
          using cleanup [OF d(2)] by blast
        show ?thesis
          using Some node target d d'
          by (cases "find_dri_user_pids target (dw_pid w) (dw_procs w) 64 = []") (simp_all add: terminate_dri_users_def)
      qed (use Some node assms(3) in \<open>simp add: terminate_dri_users_def\<close>)
    qed
  qed (use assms(3) in \<open>simp add: terminate_dri_users_def\<close>)
qed

text \<open>The guest adds requests and touches nothing of the device.\<close>

definition only_guest :: "arrivals \<Rightarrow> bool" where
  "only_guest fs = (guest_behaves fs \<and> (\<forall>f\<in>set fs. \<forall>g. async_cmds (f g) = async_cmds g))"

lemma drain_passes_returns:
  "calm env \<Longrightarrow> only_guest fs \<Longrightarrow> dev_inv g \<Longrightarrow> async_cmds g = [] \<Longrightarrow>
     \<exists>g'. drain_passes env n fs g = Returned g' \<and> dev_inv g' \<and> async_cmds g' = []"
proof (induction n arbitrary: fs g)
  case (Suc n)
  obtain k g1 where g1: "gpu_device_drain_once env g = Returned (k, g1)" "dev_inv g1" "\<not> has_pending g1"
    using drain_once_returns [OF Suc(2,4)] by metis
  have "only_guest (tl fs)" "dev_inv (arrive fs g1)" "async_cmds (arrive fs g1) = []"
    using Suc(3) g1(2,3) by (cases fs; auto simp: only_guest_def guest_behaves_def arrive_def has_pending_def)+
  from Suc(1) [OF Suc(2) this] g1(1) show ?case
    by simp
qed simp

lemma gpu_device_free_returns:
  assumes "calm env" "only_guest fs" "only_guest detach" "dev_inv g" "async_cmds g = []"
  shows "\<exists>g'. gpu_device_free env fs detach g = Returned g' \<and> dev_inv g' \<and> async_cmds g' = []"
proof -
  obtain g1 where "drain_passes env 20 fs g = Returned g1" "dev_inv g1" "async_cmds g1 = []"
    using drain_passes_returns [OF assms(1,2,4,5)] by blast
  with drain_passes_returns [OF assms(1,3)] show ?thesis
    by (simp add: gpu_device_free_def detach_drain_thread_def)
qed

section \<open>The main loop\<close>

definition event_ok :: "proxy_event \<Rightarrow> bool" where
  "event_ok e = (case e of Queues_event body stack ret eagain \<Rightarrow> ret = 8 \<or> ret = 0 \<or> ret < 0 \<and> eagain | _ \<Rightarrow> True)"

definition turn_ok :: "main_turn \<Rightarrow> bool" where
  "turn_ok t = ((\<forall>g. served g \<longrightarrow> served (fst t g)) \<and>
     (case snd t of Epoll_events es \<Rightarrow> \<forall>e\<in>set es. event_ok e | _ \<Rightarrow> True))"

lemma gpu_device_config_served: "served g \<Longrightarrow> served (gpu_device_config c g)"
  by (auto simp: gpu_device_config_def served_def intro: dev_inv_cong sml.P_cong split: option.split)

lemma proxy_events_return:
  "calm env \<Longrightarrow> small_commands env \<Longrightarrow> \<forall>e\<in>set es. event_ok e \<Longrightarrow> served g \<Longrightarrow>
   \<exists>g'. proxy_events env es g = Returned g' \<and> served g'"
proof (induction es arbitrary: g)
  case (Cons e es)
  have "\<exists>g1. proxy_event_step env e g = Returned g1 \<and> served g1"
    using serve_returns [OF Cons(2,3,5)] gpu_device_config_served [OF Cons(5)] Cons(4,5)
    by (cases e) (auto simp: event_ok_def)
  with Cons(1) [OF Cons(2,3)] Cons(4) show ?case
    by auto
qed simp

lemma main_cycle_returns:
  "calm env \<Longrightarrow> small_commands env \<Longrightarrow> \<forall>t\<in>set ts. turn_ok t \<Longrightarrow> served g \<Longrightarrow>
   \<exists>g'. main_cycle env ts g = Returned g' \<and> served g'"
proof (induction env ts g rule: main_cycle.induct)
  case (2 env f r ts g)
  have fg: "served (f g)"
    using 2(5,6) by (simp add: turn_ok_def)
  show ?case
  proof (cases r)
    case (Epoll_events es)
    have "\<forall>e\<in>set es. event_ok e"
      using 2(5) Epoll_events by (simp add: turn_ok_def)
    then obtain g1 where "proxy_events env es (f g) = Returned g1" "served g1"
      using proxy_events_return [OF 2(3,4) _ fg] by blast
    with 2(2) [OF Epoll_events] 2(3-5) Epoll_events show ?thesis
      by simp
  qed (use 2 fg in auto)
qed simp


section \<open>Example\<close>

definition demo_start :: start_env where
  "demo_start = \<lparr> se_calloc = True, se_cards = None, se_adddev = (\<lambda>_. Some [demo_idle_vring, demo_idle_vring]),
     se_pipe = True, se_thread = True, se_mem = (\<lambda>_. 0) \<rparr>"

definition demo_params :: gpu_device_params where
  "demo_params = (po_params initial_options)\<lparr>gp_mem_limit := 512, gp_num_scanouts := 1\<rparr>"

text \<open>The process 7 holds the card with inode 9 and does not end.\<close>

definition demo_procs :: "proc_entry list" where
  "demo_procs = [\<lparr> pe_name = ''7'', pe_fds = Some [None, Some (1, 9)] \<rparr>]"

definition demo_turn :: dri_turn where
  "demo_turn = \<lparr> dt_alive = (\<lambda>_. Kill_ok), dt_procs = Some demo_procs, dt_alive_kill = (\<lambda>_. Kill_ok), dt_sleep = (\<lambda>g. g) \<rparr>"

definition demo_world :: dri_world where
  "demo_world = \<lparr> dw_cards = Some [Some \<lparr> uc_devnode = Some ''/dev/dri/card1'', uc_parent_vendor = Some (Some ''0x1af4'') \<rparr>],
     dw_stat = (\<lambda>_. Some (1, 9)), dw_pid = 5, dw_grace = (\<lambda>_. demo_turn), dw_procs = Some demo_procs,
     dw_cleanup = (\<lambda>_. demo_turn) \<rparr>"

lemma demo_world_behaves: "world_behaves demo_world"
  by (simp add: world_behaves_def behaves_def demo_world_def demo_turn_def)

lemma demo_vendor: "vendor_string 0x1af4 = ''0x1af4''"
  by (simp add: vendor_string_def hex_string.simps)

lemma demo_node: "find_dri_node ''0x1af4'' (the (dw_cards demo_world)) = Some ''/dev/dri/card1''"
  by (simp add: demo_world_def)

lemma demo_pids: "find_dri_user_pids (1, 9) 5 (Some demo_procs) 64 = [7]"
  by code_simp



end
