(* ===== verification/Utils.thy ===== *)
theory Utils
  imports Rvgpu_Ctx
begin

text \<open>
  The helpers on descriptors of src/rvgpu-utils/rvgpu-utils.c: writing and reading all of a buffer,
  and the exchange of strings between the processes of a renderer, each preceded by its length in
  network byte order.  Proved: a string arrives as it was sent, whatever the sizes of the writes and
  of the reads.
\<close>

section \<open>Whole buffers\<close>

text \<open>\<open>write_all\<close>: the result, the rest of the script, and what was written.\<close>

fun write_all_loop ::
  "write_result list \<Rightarrow> byte list \<Rightarrow> byte list \<Rightarrow> nat option \<times> write_result list \<times> byte list" where
  "write_all_loop ws [] out = (Some 0, ws, out)"
| "write_all_loop [] bs out = (Some 0, [], out @ bs)"
| "write_all_loop (Wrote n # ws) bs out =
     (if n = 0 then (Some (length bs), ws, out) else write_all_loop ws (drop n bs) (out @ take n bs))"
| "write_all_loop (Write_again # ws) bs out = write_all_loop ws bs out"
| "write_all_loop (Write_error e # ws) bs out = (None, ws, out)"

definition write_all ::
  "write_result list \<Rightarrow> byte list \<Rightarrow> byte list \<Rightarrow> int \<times> write_result list \<times> byte list" where
  "write_all ws bs out =
     (case write_all_loop ws bs out of
        (None, ws', out') \<Rightarrow> (- 1, ws', out')
      | (Some remaining, ws', out') \<Rightarrow> (int (length bs) - int remaining, ws', out'))"

text \<open>
  The calls of \<open>read\<close> follow a script (\<open>read_result\<close>); when nothing is left, the peer has closed
  the connection.
\<close>

fun read_all_loop ::
  "read_result list \<Rightarrow> nat \<Rightarrow> byte list \<Rightarrow> byte list option \<times> read_result list" where
  "read_all_loop [] n acc = (Some acc, [])"
| "read_all_loop (Chunk c # rs) n acc =
     (if n = 0 then (Some acc, Chunk c # rs)
      else if c = [] then (Some acc, rs)
      else if n < length c then (Some (acc @ take n c), Chunk (drop n c) # rs)
      else read_all_loop rs (n - length c) (acc @ c))"
| "read_all_loop (Read_again # rs) n acc =
     (if n = 0 then (Some acc, Read_again # rs) else read_all_loop rs n acc)"
| "read_all_loop (Read_error # rs) n acc =
     (if n = 0 then (Some acc, Read_error # rs) else (None, rs))"

text \<open>\<open>read_all\<close>: the bytes stored, fewer than \<open>n\<close> at the end of the stream; \<open>None\<close> is the result -1.\<close>

definition read_all :: "read_result list \<Rightarrow> nat \<Rightarrow> byte list option \<times> read_result list" where
  "read_all rs n = read_all_loop rs n []"

section \<open>Strings with their size\<close>

text \<open>\<open>htonl\<close> and \<open>ntohl\<close> on the bytes of the integer.\<close>

definition be32 :: "u32 \<Rightarrow> byte list" where
  "be32 w = rev (le32 w)"

definition un_be32 :: "byte list \<Rightarrow> u32" where
  "un_be32 bs = un_le32 (rev bs)"

text \<open>\<open>send_str_with_size\<close>: a C string is the list of its characters before the terminating 0.\<close>

definition send_str_with_size ::
  "write_result list \<Rightarrow> byte list \<Rightarrow> byte list \<Rightarrow> write_result list \<times> byte list" where
  "send_str_with_size ws str out =
     (let buffer_size = (of_nat (length str) + 1 :: u32) in
      case write_all ws (be32 buffer_size) out of
        (sent, ws', out') \<Rightarrow>
          if sent \<noteq> 4 then (ws', out')
          else case write_all ws' (take (unat buffer_size) (str @ [0])) out' of (_, ws'', out'') \<Rightarrow> (ws'', out''))"

text \<open>
  \<open>recv_str_all\<close>: \<open>mem\<close> tells whether \<open>calloc\<close> succeeds.  The size of the buffer is computed in 32
  bits; stores behind it are crashes.  The result is \<open>NULL\<close> or the C string in the buffer.
\<close>

definition recv_str_all ::
  "(nat \<Rightarrow> bool) \<Rightarrow> read_result list \<Rightarrow> (byte list option \<times> read_result list) outcome" where
  "recv_str_all mem rs =
     (case read_all rs 4 of
        (None, rs1) \<Rightarrow> Returned (None, rs1)
      | (Some hdr, rs1) \<Rightarrow>
          if length hdr \<noteq> 4 then Returned (None, rs1)
          else
            let buffer_size = un_be32 hdr; space = unat (buffer_size + 1) in
            if \<not> mem space then Returned (None, rs1)
            else case read_all rs1 (unat buffer_size) of
                   (None, rs2) \<Rightarrow> Returned (None, rs2)
                 | (Some bs, rs2) \<Rightarrow>
                     if space < length bs then Crashed ''recv_str_all''
                     else if length bs \<noteq> unat buffer_size then Returned (None, rs2)
                     else if space \<le> unat buffer_size then Crashed ''recv_str_all''
                     else Returned (Some (takeWhile (\<lambda>b. b \<noteq> 0) bs), rs2))"

section \<open>A string arrives as it was sent\<close>

text \<open>Writes that do not fail.\<close>

fun write_ok :: "write_result \<Rightarrow> bool" where
  "write_ok (Wrote n) = (n \<noteq> 0)"
| "write_ok Write_again = True"
| "write_ok (Write_error e) = False"

lemma write_all_loop_all:
  "list_all write_ok ws \<Longrightarrow>
   \<exists>ws'. write_all_loop ws bs out = (Some 0, ws', out @ bs) \<and> list_all write_ok ws'"
  by (induction ws bs out rule: write_all_loop.induct) auto

lemma write_all_all:
  "list_all write_ok ws \<Longrightarrow>
   \<exists>ws'. write_all ws bs out = (int (length bs), ws', out @ bs) \<and> list_all write_ok ws'"
  using write_all_loop_all [of ws bs out] by (auto simp: write_all_def)

lemma read_all_loop_all:
  "n \<le> length (stream_bytes rs) \<Longrightarrow>
   \<exists>rs'. read_all_loop rs n acc = (Some (acc @ take n (stream_bytes rs)), rs') \<and>
     stream_bytes rs' = drop n (stream_bytes rs)"
proof (induction rs n acc rule: read_all_loop.induct)
  case (2 c rs n acc)
  then show ?case by (cases "n < length c") auto
qed auto

lemma read_all_all:
  "stream_bytes rs = bs @ rest \<Longrightarrow> \<exists>rs'. read_all rs (length bs) = (Some bs, rs') \<and> stream_bytes rs' = rest"
  using read_all_loop_all [of "length bs" rs "[]"] by (simp add: read_all_def)

lemma un_be32_be32 [simp]: "un_be32 (be32 w) = w"
  by (simp add: un_be32_def be32_def)

lemma length_be32 [simp]: "length (be32 w) = 4"
  by (simp add: be32_def)

lemma unat_of_nat_u32: "n < 2 ^ 32 \<Longrightarrow> unat (of_nat n :: u32) = n"
  by (simp add: unsigned_of_nat take_bit_nat_eq_self)

lemma send_str_bytes:
  assumes "list_all write_ok ws" "length str + 1 < 2 ^ 32"
  shows "\<exists>ws'. send_str_with_size ws str out = (ws', out @ be32 (of_nat (length str + 1)) @ str @ [0]) \<and>
    list_all write_ok ws'"
proof -
  let ?n = "of_nat (length str) + 1 :: u32"
  have n: "unat ?n = length str + 1"
    using unat_of_nat_u32 [OF assms(2)] by (simp add: add.commute)
  obtain ws1 where 1: "write_all ws (be32 ?n) out = (4, ws1, out @ be32 ?n)" "list_all write_ok ws1"
    using write_all_all [OF assms(1), of "be32 ?n" out] by auto
  obtain ws2 where 2: "write_all ws1 (str @ [0]) (out @ be32 ?n) = (int (length str + 1), ws2, (out @ be32 ?n) @ str @ [0])"
      "list_all write_ok ws2"
    using write_all_all [OF 1(2), of "str @ [0]" "out @ be32 ?n"] by auto
  show ?thesis
    using 1 2 n by (simp add: send_str_with_size_def add.commute)
qed

text \<open>
  Strings between the processes of a renderer: if the writes do not fail, then what
  \<open>recv_str_all\<close> returns is the string \<open>send_str_with_size\<close> was given, however the kernel splits the
  bytes up for the writer and the reader, and the bytes that follow are left for the next call.
\<close>

theorem recv_str_all_send_str:
  assumes "list_all write_ok ws" and "\<And>n. mem n"
    and "stream_bytes rs = snd (send_str_with_size ws str []) @ rest"
    and "0 \<notin> set str" and "length str + 2 < 2 ^ 32"
  shows "\<exists>rs'. recv_str_all mem rs = Returned (Some str, rs') \<and> stream_bytes rs' = rest"
proof -
  let ?n = "of_nat (length str + 1) :: u32"
  have n: "unat ?n = length str + 1" "unat (?n + 1) = length str + 2"
    using unat_of_nat_u32 [of "length str + 1"] unat_of_nat_u32 [of "length str + 2"] assms(5)
    by (simp_all add: ac_simps)
  have bytes: "stream_bytes rs = be32 ?n @ (str @ [0]) @ rest"
    using send_str_bytes [OF assms(1), of str "[]"] assms(3,5) by auto
  obtain rs1 where 1: "read_all rs 4 = (Some (be32 ?n), rs1)" "stream_bytes rs1 = (str @ [0]) @ rest"
    using read_all_all [OF bytes] by auto
  obtain rs2 where 2: "read_all rs1 (length str + 1) = (Some (str @ [0]), rs2)" "stream_bytes rs2 = rest"
    using read_all_all [OF 1(2)] by auto
  have "takeWhile (\<lambda>b. b \<noteq> 0) (str @ [0]) = str"
    using assms(4) by (induction str) auto
  then show ?thesis
    using 1 2 n assms(2) by (simp add: recv_str_all_def Let_def del: of_nat_add of_nat_Suc)
qed

lemma recv_str_all_send_str_witness:
  "\<exists>rs'. recv_str_all (\<lambda>_. True) [Chunk [0, 0], Read_again, Chunk [0, 3, 104], Chunk [105, 0, 7]] =
     Returned (Some [104, 105], rs') \<and> stream_bytes rs' = [7]"
  using recv_str_all_send_str [of "[Wrote 1, Write_again, Wrote 9]" "\<lambda>_. True"
    "[Chunk [0, 0], Read_again, Chunk [0, 3, 104], Chunk [105, 0, 7]]" "[104, 105]" "[7]"]
  by (simp add: send_str_with_size_def write_all_def be32_def le32_def)

text \<open>
  The size that does not fit into 32 bits with its terminator: the buffer has no room at all for what
  the peer sends.
\<close>

lemma recv_str_all_overrun:
  "recv_str_all (\<lambda>_. True) [Chunk [255, 255, 255, 255], Chunk [1]] = Crashed ''recv_str_all''"
  by (simp add: recv_str_all_def read_all_def un_be32_def un_le32_def Let_def)

end
