(* ===== verification/Virgl_Renderer.thy ===== *)
theory Virgl_Renderer
  imports Gpu_Device Utils
begin

text \<open>
  The command loop of the renderer (\<open>src/rvgpu-renderer/virgl/rvgpu-virgl.c\<close>): it reads the stream
  of a proxy, checks each command again, and hands it to virglrenderer, loading the patches of a
  transfer into the host copy of the backing and sending back what the guest reads.

  virglrenderer is a library outside the repository: its functions are the fields of \<open>virgl_ops\<close>, on
  a state of an arbitrary type.  Buffers allocated with \<open>malloc\<close> are handles into a heap; an iovec is
  the handle of its buffer, whose length is the buffer's.  The times measured for the display of the
  frame rate are left out.
\<close>

section \<open>Sockets\<close>

text \<open>\<open>write_to_socket\<close>: every failure, also \<open>EAGAIN\<close>, ends the process.\<close>

fun write_to_socket ::
  "write_result list \<Rightarrow> byte list \<Rightarrow> byte list \<Rightarrow> (write_result list \<times> byte list) outcome" where
  "write_to_socket ws [] out = Returned (ws, out)"
| "write_to_socket [] bs out = Returned ([], out @ bs)"
| "write_to_socket (Wrote n # ws) bs out =
     (if n = 0 then Exited ''Short read res pipe''
      else write_to_socket ws (drop n bs) (out @ take n bs))"
| "write_to_socket (Write_again # ws) bs out = Exited ''Short read res pipe''"
| "write_to_socket (Write_error e # ws) bs out = Exited ''Short read res pipe''"

text \<open>
  What \<open>poll\<close> and the \<open>read\<close> after it give: a timeout, or the read (if \<open>POLLIN\<close> is set) and whether an
  error or hang-up is reported.  An exhausted script is a closed connection.
\<close>

datatype pr_event = Poll_timeout | Poll_ready "read_result option" bool

section \<open>State\<close>

type_synonym bheap = "nat \<Rightarrow> byte list option"

record virgl_resource_info =
  vi_width :: u32
  vi_height :: u32
  vi_depth :: u32
  vi_flags :: u32
  vi_tex_id :: u32

record virgl_transfer =
  vt_res :: u32
  vt_ctx :: u32
  vt_level :: u32
  vt_stride :: u32
  vt_layer_stride :: u32
  vt_box :: virtio_gpu_box
  vt_offset :: u64

text \<open>The calls whose result the renderer does not use; a context's debug name is left out.\<close>

datatype virgl_call =
  Force_ctx_0
| Context_create u32 u32
| Context_destroy u32
| Resource_create_2d resource_create_2d
| Resource_create_3d resource_create_3d
| Resource_unref u32
| Ctx_attach_resource u32 u32
| Ctx_detach_resource u32 u32
| Submit_cmd "u32 list" u32
| Transfer_write_iov virgl_transfer

record 'v virgl_ops =
  vo_call :: "'v \<Rightarrow> bheap \<Rightarrow> virgl_call \<Rightarrow> 'v"
  vo_attach_iov :: "'v \<Rightarrow> u32 \<Rightarrow> nat \<Rightarrow> int \<times> 'v"
  vo_detach_iov :: "'v \<Rightarrow> u32 \<Rightarrow> nat option \<times> 'v"
  vo_get_info :: "'v \<Rightarrow> u32 \<Rightarrow> virgl_resource_info option"
  vo_transfer_read_iov :: "'v \<Rightarrow> bheap \<Rightarrow> virgl_transfer \<Rightarrow> bheap \<times> 'v"
  vo_create_fence :: "'v \<Rightarrow> u32 \<Rightarrow> ctrl_type \<Rightarrow> int \<times> 'v"
  vo_poll :: "'v \<Rightarrow> u32 list \<times> 'v"
  vo_cursor_data :: "'v \<Rightarrow> u32 \<Rightarrow> (u32 \<times> u32) option"
  vo_cap_set :: "u32 \<Rightarrow> u32 \<times> u32"
  vo_fill_caps :: "u32 \<Rightarrow> u32 \<Rightarrow> byte list"

text \<open>Scanouts: the part that the command loop touches.\<close>

record rvgpu_box =
  bx_x :: u32
  bx_y :: u32
  bx_w :: u32
  bx_h :: u32

record rvgpu_virgl_params =
  vp_box :: rvgpu_box
  vp_res_id :: u32
  vp_tex_id :: u32
  vp_tex_w :: u32
  vp_tex_h :: u32
  vp_y0_top :: u32

record pr_scanout =
  ps_virgl :: rvgpu_virgl_params
  ps_box :: rvgpu_box
  ps_enabled :: bool
  ps_boxed :: bool

datatype cursor_call = Set_cursor u32 u32 | Move_cursor u32 u32

text \<open>
  \<open>struct rvgpu_pr_state\<close> with the static variables of \<open>rvgpu_pr_dispatch\<close>: the bytes in the input
  buffer and the position in it, the script of the command socket, what has been written to the
  resource socket, the fences, the library and the heap, the scanouts, and the capset file.
\<close>

record 'v pr_state =
  pr_buffer :: "byte list"
  pr_bufpos :: nat
  pr_events :: "pr_event list"
  pr_res_out :: "byte list"
  pr_res_writes :: "write_result list"
  fence_received :: u32
  fence_sent :: u32
  pr_virgl :: 'v
  pr_heap :: bheap
  pr_next :: nat
  pr_scanouts :: "pr_scanout list"
  current_scanout_id :: u32
  waiting_first_cmd :: bool
  capset_open :: bool
  capset_out :: "byte list"
  has_submit_3d_draw :: bool
  pr_r :: "byte list"
  pr_cursor :: "cursor_call list"

text \<open>The library, the layout of the command union, and whether the back end draws cursors.\<close>

record 'v pr_env =
  pe_ops :: "'v virgl_ops"
  pe_sizes :: cmd_sizes
  pe_decode :: "byte list \<Rightarrow> virtio_gpu_cmd"
  pe_set_cursor :: bool
  pe_move_cursor :: bool

abbreviation (input) INBUFSIZE :: nat where "INBUFSIZE \<equiv> 65536"

section \<open>Fences\<close>

definition res_message_bytes :: "u8 \<Rightarrow> u32 \<Rightarrow> byte list" where
  "res_message_bytes ty fence = [ty, 0, 0, 0] @ le32 fence"

abbreviation (input) RVGPU_FENCE :: u8 where "RVGPU_FENCE \<equiv> 8"
abbreviation (input) RVGPU_RES_TRANSFER :: u8 where "RVGPU_RES_TRANSFER \<equiv> 16"

definition virgl_write_fence :: "u32 \<Rightarrow> 'v pr_state \<Rightarrow> 'v pr_state outcome" where
  "virgl_write_fence fence s =
     (let s1 = (if fence > fence_sent s then s\<lparr>fence_sent := fence\<rparr> else s)
      in case write_all (pr_res_writes s1) (res_message_bytes RVGPU_FENCE fence) (pr_res_out s1) of
           (res, ws, out) \<Rightarrow>
             if res < 0 then Exited ''assert(res >= 0)''
             else Returned (s1\<lparr>pr_res_writes := ws, pr_res_out := out\<rparr>))"

fun write_fences :: "u32 list \<Rightarrow> 'v pr_state \<Rightarrow> 'v pr_state outcome" where
  "write_fences [] s = Returned s"
| "write_fences (f # fs) s = obind (virgl_write_fence f s) (write_fences fs)"

text \<open>\<open>virgl_renderer_poll\<close> calls back for each fence that has completed.\<close>

definition virgl_poll :: "'v virgl_ops \<Rightarrow> 'v pr_state \<Rightarrow> 'v pr_state outcome" where
  "virgl_poll ops s =
     (case vo_poll ops (pr_virgl s) of (fs, v) \<Rightarrow> write_fences fs (s\<lparr>pr_virgl := v\<rparr>))"

section \<open>Reading the command stream\<close>

text \<open>
  The wait of \<open>rvgpu_pr_readbuf\<close>: while fences are outstanding a timeout polls the library; without
  outstanding fences \<open>poll\<close> blocks and no timeout is reported.
\<close>

fun poll_wait ::
  "'v virgl_ops \<Rightarrow> pr_event list \<Rightarrow> 'v pr_state \<Rightarrow> ((read_result option \<times> bool) \<times> 'v pr_state) outcome" where
  "poll_wait ops [] s = Returned ((Some (Chunk []), False), s\<lparr>pr_events := []\<rparr>)"
| "poll_wait ops (Poll_ready r hup # es) s = Returned ((r, hup), s\<lparr>pr_events := es\<rparr>)"
| "poll_wait ops (Poll_timeout # es) s =
     (if fence_received s \<noteq> fence_sent s
      then obind (virgl_poll ops s) (poll_wait ops es)
      else poll_wait ops es s)"

definition rvgpu_pr_readbuf :: "'v virgl_ops \<Rightarrow> 'v pr_state \<Rightarrow> (bool \<times> 'v pr_state) outcome" where
  "rvgpu_pr_readbuf ops s =
     obind (poll_wait ops (pr_events s) s) (\<lambda>((r, hup), s1).
       case r of
         None \<Rightarrow> Returned (\<not> hup, s1)
       | Some (Chunk bs) \<Rightarrow>
           if bs = [] then Returned (False, s1)
           else Returned (\<not> hup, s1\<lparr>pr_buffer := take INBUFSIZE bs, pr_bufpos := 0,
                  pr_events := (if INBUFSIZE < length bs
                    then Poll_ready (Some (Chunk (drop INBUFSIZE bs))) hup # pr_events s1
                    else pr_events s1)\<rparr>)
       | Some e \<Rightarrow> Returned (False, s1))"

text \<open>What a script can still deliver.\<close>

fun event_size :: "pr_event \<Rightarrow> nat" where
  "event_size (Poll_ready (Some (Chunk bs)) hup) = Suc (length bs)"
| "event_size e = 1"

definition events_size :: "pr_event list \<Rightarrow> nat" where
  "events_size es = sum_list (map event_size es)"

lemma events_size_simps [simp]:
  "events_size [] = 0" "events_size (e # es) = event_size e + events_size es"
  by (simp_all add: events_size_def)

lemma event_size_pos: "0 < event_size e"
  by (cases e rule: event_size.cases) simp_all

lemma virgl_write_fence_events: "virgl_write_fence f s = Returned s' \<Longrightarrow> pr_events s' = pr_events s"
  by (auto simp: virgl_write_fence_def Let_def split: prod.splits if_splits)

lemma write_fences_events: "write_fences fs s = Returned s' \<Longrightarrow> pr_events s' = pr_events s"
  by (induction fs arbitrary: s) (auto simp: obind_Returned_iff dest: virgl_write_fence_events)

lemma virgl_poll_events: "virgl_poll ops s = Returned s' \<Longrightarrow> pr_events s' = pr_events s"
  by (auto simp: virgl_poll_def split: prod.splits dest: write_fences_events)

lemma poll_wait_events:
  "poll_wait ops es s = Returned ((r, hup), s') \<Longrightarrow>
     es = [] \<and> r = Some (Chunk []) \<and> pr_events s' = [] \<or>
     events_size (pr_events s') + event_size (Poll_ready r hup) \<le> events_size es"
proof (induction ops es s rule: poll_wait.induct)
  case (3 ops es s)
  then show ?case
    by (fastforce simp: obind_Returned_iff split: if_splits)
qed auto

lemma rvgpu_pr_readbuf_decreases:
  assumes "rvgpu_pr_readbuf ops s = Returned (True, s')"
  shows "events_size (pr_events s') < events_size (pr_events s)"
proof -
  obtain r hup s1 where w: "poll_wait ops (pr_events s) s = Returned ((r, hup), s1)"
    using assms by (auto simp: rvgpu_pr_readbuf_def obind_Returned_iff)
  from poll_wait_events [OF w] w assms event_size_pos [of "Poll_ready r hup"] show ?thesis
    by (auto simp: rvgpu_pr_readbuf_def split: option.splits read_result.splits if_splits)
qed

lemma obind_cong [fundef_cong]:
  "m = m' \<Longrightarrow> (\<And>x. m' = Returned x \<Longrightarrow> f x = f' x) \<Longrightarrow> obind m f = obind m' f'"
  by (cases m') simp_all

text \<open>\<open>rvgpu_pr_read\<close> on the command stream: the bytes that were read, fewer on a closed connection.\<close>

function rvgpu_pr_read :: "'v virgl_ops \<Rightarrow> nat \<Rightarrow> 'v pr_state \<Rightarrow> (byte list \<times> 'v pr_state) outcome" where
  "rvgpu_pr_read ops n s =
     (let avail = min (length (pr_buffer s) - pr_bufpos s) n;
          got = take avail (drop (pr_bufpos s) (pr_buffer s));
          s1 = s\<lparr>pr_bufpos := pr_bufpos s + avail\<rparr>
      in if n - avail = 0 then Returned (got, s1)
         else if pr_bufpos s1 \<noteq> length (pr_buffer s1)
         then Exited ''assert(p->bufpos[stream] == p->bufcurlen[stream])''
         else obind (rvgpu_pr_readbuf ops s1) (\<lambda>(ok, s2).
           if ok then obind (rvgpu_pr_read ops (n - avail) s2) (\<lambda>(bs, s3). Returned (got @ bs, s3))
           else Returned (got, s2)))"
  by pat_completeness auto

termination rvgpu_pr_read
  by (relation "measure (\<lambda>(ops, n, s). events_size (pr_events s))")
    (auto dest!: rvgpu_pr_readbuf_decreases)

declare rvgpu_pr_read.simps [simp del]

text \<open>What the state can still deliver: every byte read is one less.\<close>

definition stream_size :: "'v pr_state \<Rightarrow> nat" where
  "stream_size s = length (pr_buffer s) - pr_bufpos s + events_size (pr_events s)"

definition same_input :: "'v pr_state \<Rightarrow> 'v pr_state \<Rightarrow> bool" where
  "same_input s s' = (pr_buffer s' = pr_buffer s \<and> pr_bufpos s' = pr_bufpos s)"

lemma write_fences_input: "write_fences fs s = Returned s' \<Longrightarrow> same_input s s'"
  by (induction fs arbitrary: s)
    (fastforce simp: same_input_def obind_Returned_iff virgl_write_fence_def Let_def
      split: prod.splits if_splits)+

lemma virgl_poll_input: "virgl_poll ops s = Returned s' \<Longrightarrow> same_input s s'"
  by (auto simp: virgl_poll_def same_input_def split: prod.splits dest!: write_fences_input)

lemma poll_wait_input: "poll_wait ops es s = Returned (r, s') \<Longrightarrow> same_input s s'"
proof (induction ops es s rule: poll_wait.induct)
  case (3 ops es s)
  show ?case
  proof (cases "fence_received s = fence_sent s")
    case False
    with 3(3) obtain s1 where "virgl_poll ops s = Returned s1" "poll_wait ops es s1 = Returned (r, s')"
      by (auto simp: obind_Returned_iff)
    with 3(1) False virgl_poll_input [of ops s s1] show ?thesis
      by (simp add: same_input_def)
  qed (use 3 in simp)
qed (auto simp: same_input_def)

lemma rvgpu_pr_readbuf_size:
  assumes "rvgpu_pr_readbuf ops s = Returned (ok, s')" "pr_bufpos s = length (pr_buffer s)"
  shows "stream_size s' \<le> stream_size s"
proof -
  obtain r hup s1 where w: "poll_wait ops (pr_events s) s = Returned ((r, hup), s1)"
    using assms by (auto simp: rvgpu_pr_readbuf_def obind_Returned_iff)
  from poll_wait_events [OF w] poll_wait_input [OF w] w assms show ?thesis
    by (auto simp: rvgpu_pr_readbuf_def stream_size_def same_input_def min_def
        split: option.splits read_result.splits if_splits)
qed

lemma rvgpu_pr_read_size:
  "rvgpu_pr_read ops n s = Returned (bs, s') \<Longrightarrow> stream_size s' + length bs \<le> stream_size s"
proof (induction ops n s arbitrary: bs s' rule: rvgpu_pr_read.induct)
  case (1 ops n s)
  define avail where "avail = min (length (pr_buffer s) - pr_bufpos s) n"
  define s1 where "s1 = s\<lparr>pr_bufpos := pr_bufpos s + avail\<rparr>"
  let ?got = "take avail (drop (pr_bufpos s) (pr_buffer s))"
  have s1: "stream_size s1 + length ?got = stream_size s"
    by (simp add: s1_def stream_size_def avail_def)
  note run = 1(2) [unfolded rvgpu_pr_read.simps [of ops n s] Let_def, folded avail_def, folded s1_def]
  show ?case
  proof (cases "n - avail = 0")
    case True
    with run s1 show ?thesis
      by auto
  next
    case False
    with run obtain ok s2 where r: "pr_bufpos s1 = length (pr_buffer s1)"
      "rvgpu_pr_readbuf ops s1 = Returned (ok, s2)"
      by (auto simp: obind_Returned_iff split: if_splits)
    have s2: "stream_size s2 \<le> stream_size s1"
      by (rule rvgpu_pr_readbuf_size [OF r(2,1)])
    show ?thesis
    proof (cases ok)
      case True
      with run False r obtain bs2 where "rvgpu_pr_read ops (n - avail) s2 = Returned (bs2, s')"
        "bs = ?got @ bs2"
        by (auto simp: obind_Returned_iff)
      with 1(1) [OF avail_def refl s1_def False _ r(2) refl, of bs2 s'] True r(1) s1 s2 show ?thesis
        by simp
    next
      case no: False
      with run False r have "bs = ?got" "s' = s2"
        by auto
      with s1 s2 show ?thesis
        by simp
    qed
  qed
qed

section \<open>Resources\<close>

definition virgl_do :: "'v virgl_ops \<Rightarrow> virgl_call \<Rightarrow> 'v pr_state \<Rightarrow> 'v pr_state" where
  "virgl_do ops c s = s\<lparr>pr_virgl := vo_call ops (pr_virgl s) (pr_heap s) c\<rparr>"

definition detach_iov :: "'v virgl_ops \<Rightarrow> u32 \<Rightarrow> 'v pr_state \<Rightarrow> nat option \<times> 'v pr_state" where
  "detach_iov ops i s =
     (case vo_detach_iov ops (pr_virgl s) i of (p, v) \<Rightarrow> (p, s\<lparr>pr_virgl := v\<rparr>))"

definition attach_iov :: "'v virgl_ops \<Rightarrow> u32 \<Rightarrow> nat \<Rightarrow> 'v pr_state \<Rightarrow> int \<times> 'v pr_state" where
  "attach_iov ops i p s =
     (case vo_attach_iov ops (pr_virgl s) i p of (rc, v) \<Rightarrow> (rc, s\<lparr>pr_virgl := v\<rparr>))"

fun entries_length :: "(nat \<Rightarrow> mem_entry) \<Rightarrow> nat \<Rightarrow> u64" where
  "entries_length mem 0 = 0"
| "entries_length mem (Suc n) = entries_length mem n + ucast (mem_length (mem n))"

text \<open>One buffer of zeros for all the pages of the guest; \<open>malloc\<close> is assumed to succeed.\<close>

definition resource_attach_backing_host ::
  "'v virgl_ops \<Rightarrow> resource_attach_backing \<Rightarrow> (nat \<Rightarrow> mem_entry) \<Rightarrow> 'v pr_state \<Rightarrow> 'v pr_state outcome" where
  "resource_attach_backing_host ops r entries s =
     (let len = entries_length entries (unat (att_nr_entries r)) in
      if len = 0 then Exited ''invalid length of backing storage''
      else
        let p = pr_next s;
            s1 = s\<lparr>pr_heap := (pr_heap s)(p \<mapsto> replicate (unat len) 0), pr_next := p + 1\<rparr>
        in case attach_iov ops (att_resource_id r) p s1 of
             (rc, s2) \<Rightarrow> if rc \<noteq> 0 then Exited ''Failed to attach resource backing'' else Returned s2)"

text \<open>A store into a heap buffer, which must not pass its end.\<close>

definition store_bytes :: "nat \<Rightarrow> nat \<Rightarrow> byte list \<Rightarrow> 'v pr_state \<Rightarrow> 'v pr_state outcome" where
  "store_bytes p off bs s =
     (case pr_heap s p of
        None \<Rightarrow> Crashed ''iov_base''
      | Some old \<Rightarrow>
          if off + length bs > length old then Crashed ''iov_base''
          else Returned (s\<lparr>pr_heap := (pr_heap s)(p \<mapsto> take off old @ bs @ drop (off + length bs) old)\<rparr>))"

text \<open>
  \<open>load_resource_patched\<close>: patches until the empty one.  The bytes of a patch arrive in place, also
  when the connection breaks in their middle.
\<close>

function load_resource_patched ::
  "'v virgl_ops \<Rightarrow> nat \<Rightarrow> 'v pr_state \<Rightarrow> (bool \<times> 'v pr_state) outcome" where
  "load_resource_patched ops p s =
     obind (rvgpu_pr_read ops 12 s) (\<lambda>(hb, s1).
       let off = un_le32 (drop 4 hb); len = un_le32 (drop 8 hb) in
       if length hb \<noteq> 12 then Returned (True, s1)
       else if len = 0 then Returned (True, s1)
       else case pr_heap s1 p of
         None \<Rightarrow> Crashed ''iov_base''
       | Some old \<Rightarrow>
           if unat off + unat len > length old then Exited ''Wrong patch format!''
           else obind (rvgpu_pr_read ops (unat len) s1) (\<lambda>(bs, s2).
             obind (store_bytes p (unat off) bs s2) (\<lambda>s3.
               if length bs \<noteq> unat len then Returned (False, s3)
               else load_resource_patched ops p s3)))"
  by pat_completeness auto

lemma store_bytes_size: "store_bytes p off bs s = Returned s' \<Longrightarrow> stream_size s' = stream_size s"
  by (auto simp: store_bytes_def stream_size_def split: option.splits if_splits)

termination load_resource_patched
proof (relation "measure (\<lambda>(ops, p, s). stream_size s)", goal_cases)
  case (2 ops p s x hb s1 off len old y bs s2 s3)
  then show ?case
    using rvgpu_pr_read_size [of ops 12 s hb s1] rvgpu_pr_read_size [of ops "unat len" s1 bs s2]
      store_bytes_size [of p "unat off" bs s2 s3]
    by simp
qed simp

declare load_resource_patched.simps [simp del]

definition load_resource :: "'v virgl_ops \<Rightarrow> u32 \<Rightarrow> 'v pr_state \<Rightarrow> (bool \<times> 'v pr_state) outcome" where
  "load_resource ops i s =
     (case detach_iov ops i s of
        (None, s1) \<Rightarrow> Returned (False, s1)
      | (Some p, s1) \<Rightarrow>
          obind (load_resource_patched ops p s1) (\<lambda>(ok, s2). Returned (ok, snd (attach_iov ops i p s2))))"

section \<open>Sending a resource back\<close>

definition send_res :: "byte list \<Rightarrow> 'v pr_state \<Rightarrow> 'v pr_state outcome" where
  "send_res bs s =
     obind (write_to_socket (pr_res_writes s) bs (pr_res_out s))
       (\<lambda>(ws, out). Returned (s\<lparr>pr_res_writes := ws, pr_res_out := out\<rparr>))"

fun send_res_list :: "byte list list \<Rightarrow> 'v pr_state \<Rightarrow> 'v pr_state outcome" where
  "send_res_list [] s = Returned s"
| "send_res_list (bs # bss) s = obind (send_res bs s) (send_res_list bss)"

text \<open>The length of the patch; the sums and products are those of 32-bit integers.\<close>

definition upload_patch_len :: "transfer_host_3d \<Rightarrow> u32 \<Rightarrow> u32 \<Rightarrow> u64 \<Rightarrow> u32" where
  "upload_patch_len t bpp stride iovlen =
     (let off = ucast (t3d_offset t) :: u32;
          len = ucast (iovlen - ucast off) :: u32;
          need = (box_h (t3d_box t) - 1) * stride + box_w (t3d_box t) * bpp
      in if (ucast len :: u64) > ucast need then need else len)"

text \<open>The bytes of the transfer structure are those of the command in \<open>r\<close>.\<close>

definition upload_resource ::
  "'v pr_env \<Rightarrow> transfer_host_3d \<Rightarrow> u32 \<Rightarrow> u32 \<Rightarrow> 'v pr_state \<Rightarrow> 'v pr_state outcome" where
  "upload_resource env t bpp stride s =
     (case detach_iov (pe_ops env) (t3d_resource_id t) s of
        (None, s1) \<Rightarrow> Exited ''invalid resource transfer''
      | (Some p, s1) \<Rightarrow>
          (let tsize = unat (sz_t_h3d (pe_sizes env)) in
           obind (send_res_list
             [res_message_bytes RVGPU_RES_TRANSFER 0, rvgpu_header_bytes (of_nat tsize) 0 0 bpp stride,
              take tsize (pr_r s1)] s1)
             (\<lambda>s2. case pr_heap s2 p of
                None \<Rightarrow> Crashed ''iov_base''
              | Some buf \<Rightarrow>
                  (let off = unat (ucast (t3d_offset t) :: u32);
                       len = upload_patch_len t bpp stride (of_nat (length buf))
                   in obind (send_res (patch_bytes 0 (of_nat off) len) s2) (\<lambda>s3.
                        if off + unat len > length buf then Crashed ''iov_base + offset''
                        else obind (send_res (take (unat len) (drop off buf)) s3)
                               (\<lambda>s4. Returned (snd (attach_iov (pe_ops env) (t3d_resource_id t) p s4))))))))"

section \<open>Scanouts\<close>

definition update_scanout :: "nat \<Rightarrow> rvgpu_virgl_params \<Rightarrow> 'v pr_state \<Rightarrow> 'v pr_state" where
  "update_scanout i vp s =
     s\<lparr>pr_scanouts := (pr_scanouts s)[i := (pr_scanouts s ! i)\<lparr>ps_virgl := vp\<rparr>]\<rparr>"

definition clear_scanout :: "nat \<Rightarrow> 'v pr_state \<Rightarrow> 'v pr_state" where
  "clear_scanout i s =
     (let sp = pr_scanouts s ! i in
      update_scanout i
        \<lparr> vp_box = (if ps_boxed sp then ps_box sp else \<lparr> bx_x = 0, bx_y = 0, bx_w = 100, bx_h = 100 \<rparr>),
          vp_res_id = 0, vp_tex_id = 0, vp_tex_w = 0, vp_tex_h = 0, vp_y0_top = 0 \<rparr> s)"

definition set_scanout_host ::
  "'v virgl_ops \<Rightarrow> set_scanout \<Rightarrow> nat \<Rightarrow> 'v pr_state \<Rightarrow> 'v pr_state outcome" where
  "set_scanout_host ops st i s =
     (case (if set_resource_id st \<noteq> 0 then vo_get_info ops (pr_virgl s) (set_resource_id st) else None) of
        None \<Rightarrow> Returned (clear_scanout i s)
      | Some info \<Rightarrow>
          (let sp = pr_scanouts s ! i;
               r = set_r st;
               box = \<lparr> bx_x = rect_x r, bx_y = rect_y r, bx_w = rect_width r, bx_h = rect_height r \<rparr>;
               box' = (if ps_boxed sp then ps_box sp
                       else if rect_width r = 0 \<or> rect_height r = 0
                       then box\<lparr>bx_w := vi_width info, bx_h := vi_height info\<rparr> else box)
           in if \<not> sanity_check_resource_rect r (vi_width info) (vi_height info)
              then Exited ''Invalid rectangle for set scanout''
              else Returned (update_scanout i
                \<lparr> vp_box = box', vp_res_id = set_resource_id st, vp_tex_id = vi_tex_id info,
                  vp_tex_w = vi_width info, vp_tex_h = vi_height info, vp_y0_top = vi_flags info AND 1 \<rparr> s)))"

definition check_rect :: "'v virgl_ops \<Rightarrow> 'v pr_state \<Rightarrow> u32 \<Rightarrow> virtio_gpu_rect \<Rightarrow> bool" where
  "check_rect ops s i r =
     (case vo_get_info ops (pr_virgl s) i of
        None \<Rightarrow> False
      | Some info \<Rightarrow> sanity_check_resource_rect r (vi_width info) (vi_height info))"

definition check_box :: "'v virgl_ops \<Rightarrow> 'v pr_state \<Rightarrow> u32 \<Rightarrow> virtio_gpu_box \<Rightarrow> bool" where
  "check_box ops s i b =
     (case vo_get_info ops (pr_virgl s) i of
        None \<Rightarrow> False
      | Some info \<Rightarrow> sanity_check_resource_box b (vi_width info) (vi_height info) (vi_depth info))"

definition rvgpu_serve_update_cursor :: "'v pr_env \<Rightarrow> update_cursor \<Rightarrow> 'v pr_state \<Rightarrow> 'v pr_state" where
  "rvgpu_serve_update_cursor env c s =
     (if \<not> pe_set_cursor env then s
      else case vo_cursor_data (pe_ops env) (pr_virgl s) (cur_resource_id c) of
             None \<Rightarrow> s
           | Some (w, h) \<Rightarrow> s\<lparr>pr_cursor := pr_cursor s @ [Set_cursor w h]\<rparr>)"

definition rvgpu_serve_move_cursor :: "'v pr_env \<Rightarrow> update_cursor \<Rightarrow> 'v pr_state \<Rightarrow> 'v pr_state" where
  "rvgpu_serve_move_cursor env c s =
     (if \<not> pe_move_cursor env then s
      else s\<lparr>pr_cursor := pr_cursor s @ [Move_cursor (cur_x c) (cur_y c)]\<rparr>)"

section \<open>Command buffers\<close>

definition submit_load_step ::
  "'v virgl_ops \<Rightarrow> (nat \<Rightarrow> u32) \<Rightarrow> nat \<Rightarrow> 'v pr_state \<Rightarrow> 'v pr_state outcome" where
  "submit_load_step ops buf k s =
     (if buf k = CCMD_TRANSFER3D then obind (load_resource ops (buf (k + 1)) s) (\<lambda>r. Returned (snd r))
      else if buf k = CCMD_COPY_TRANSFER3D
      then obind (load_resource ops (buf (k + 12)) s) (\<lambda>r. Returned (snd r))
      else Returned s)"

function submit_load_loop ::
  "'v virgl_ops \<Rightarrow> (nat \<Rightarrow> u32) \<Rightarrow> u32 \<Rightarrow> u32 \<Rightarrow> 'v pr_state \<Rightarrow> 'v pr_state outcome" where
  "submit_load_loop ops buf size4 off s =
     (if \<not> off < size4 div 4 then Returned s
      else obind (submit_load_step ops buf (unat off) s)
             (submit_load_loop ops buf size4 (off + (drop_bit 16 (buf (unat off)) + 1))))"
  by pat_completeness auto

termination submit_load_loop
  by (relation "measure (\<lambda>(ops, buf, size4, off, s). unat (size4 div 4) - unat off)")
    (auto simp: submit_offset_increases word_less_nat_alt)

declare submit_load_loop.simps [simp del]

definition rvgpu_handle_submit_3d ::
  "'v virgl_ops \<Rightarrow> virtio_gpu_cmd \<Rightarrow> 'v pr_state \<Rightarrow> 'v pr_state outcome" where
  "rvgpu_handle_submit_3d ops cmd s =
     obind (submit_load_loop ops (c_cmdbuf cmd) (c_submit_size cmd) 0 s) (\<lambda>s1.
       Returned ((virgl_do ops (Submit_cmd (map (c_cmdbuf cmd) [0..<unat (c_submit_size cmd div 4)])
         (hdr_ctx_id (hdr cmd))) s1)\<lparr>has_submit_3d_draw := True\<rparr>))"

section \<open>The capset file\<close>

text \<open>
  The sets of each id in every version.  The loop over versions compares 32-bit integers: a largest
  version of \<open>2 ^ 32 - 1\<close>, on which it would not end, is not modelled.
\<close>

definition capset_entry :: "'v virgl_ops \<Rightarrow> u32 \<Rightarrow> u32 \<Rightarrow> u32 \<Rightarrow> byte list" where
  "capset_entry ops i ver maxsize =
     le32 i @ le32 ver @ le32 maxsize @
     take (unat maxsize) (vo_fill_caps ops i ver @ replicate (unat maxsize) 0)"

fun dump_capsets :: "'v virgl_ops \<Rightarrow> u32 list \<Rightarrow> byte list" where
  "dump_capsets ops [] = []"
| "dump_capsets ops (i # ids) =
     (case vo_cap_set ops i of
        (maxver, maxsize) \<Rightarrow>
          if maxsize = 0 \<or> maxsize \<ge> CAPSET_MAX_SIZE then []
          else concat (map (\<lambda>v. capset_entry ops i (of_nat v) maxsize) [0..<Suc (unat maxver)]) @
            dump_capsets ops ids)"

definition first_cmd :: "'v virgl_ops \<Rightarrow> 'v pr_state \<Rightarrow> 'v pr_state" where
  "first_cmd ops s =
     (if \<not> waiting_first_cmd s then s
      else s\<lparr>capset_out := (if capset_open s then capset_out s @ dump_capsets ops [1, 2] else capset_out s),
             capset_open := False, waiting_first_cmd := False\<rparr>)"

section \<open>Commands\<close>

definition detach_free :: "'v virgl_ops \<Rightarrow> u32 \<Rightarrow> 'v pr_state \<Rightarrow> 'v pr_state" where
  "detach_free ops i s =
     (case detach_iov ops i s of
        (None, s1) \<Rightarrow> s1
      | (Some p, s1) \<Rightarrow> s1\<lparr>pr_heap := (pr_heap s1)(p := None)\<rparr>)"

definition rect_box :: "virtio_gpu_rect \<Rightarrow> virtio_gpu_box" where
  "rect_box r = \<lparr> box_x = rect_x r, box_y = rect_y r, box_z = 0, box_w = rect_width r,
     box_h = rect_height r, box_d = 1 \<rparr>"

definition transfer_args_3d :: "virtio_gpu_cmd \<Rightarrow> virgl_transfer" where
  "transfer_args_3d cmd =
     (let t = t_h3d cmd in
      \<lparr> vt_res = t3d_resource_id t, vt_ctx = hdr_ctx_id (hdr cmd), vt_level = t3d_level t,
        vt_stride = t3d_stride t, vt_layer_stride = t3d_layer_stride t, vt_box = t3d_box t,
        vt_offset = t3d_offset t \<rparr>)"

definition transfer_args_2d :: "virtio_gpu_cmd \<Rightarrow> virgl_transfer" where
  "transfer_args_2d cmd =
     (let t = t_2h2d cmd in
      \<lparr> vt_res = t2d_resource_id t, vt_ctx = 0, vt_level = 0, vt_stride = 0, vt_layer_stride = 0,
        vt_box = rect_box (t2d_r t), vt_offset = t2d_offset t \<rparr>)"

text \<open>
  The switch of \<open>rvgpu_pr_dispatch\<close>: the resource to draw (0 for none) and the state; no result is
  the unknown command, on which the function returns 0.
\<close>

definition pr_execute ::
  "'v pr_env \<Rightarrow> virtio_gpu_cmd \<Rightarrow> u32 \<Rightarrow> u32 \<Rightarrow> 'v pr_state \<Rightarrow> (u32 option \<times> 'v pr_state) outcome" where
  "pr_execute env cmd bpp stride s =
     (let ops = pe_ops env;
          run = (\<lambda>c. Returned (Some 0, virgl_do ops c s))
      in case hdr_type (hdr cmd) of
        VIRTIO_GPU_CMD_CTX_CREATE \<Rightarrow> run (Context_create (hdr_ctx_id (hdr cmd)) (c_create_nlen cmd))
      | VIRTIO_GPU_CMD_CTX_DESTROY \<Rightarrow> run (Context_destroy (hdr_ctx_id (hdr cmd)))
      | VIRTIO_GPU_CMD_RESOURCE_CREATE_2D \<Rightarrow> run (Resource_create_2d (r_c2d cmd))
      | VIRTIO_GPU_CMD_RESOURCE_CREATE_3D \<Rightarrow> run (Resource_create_3d (r_c3d cmd))
      | VIRTIO_GPU_CMD_SUBMIT_3D \<Rightarrow>
          obind (rvgpu_handle_submit_3d ops cmd s) (\<lambda>s'. Returned (Some 0, s'))
      | VIRTIO_GPU_CMD_TRANSFER_TO_HOST_2D \<Rightarrow>
          obind (load_resource ops (t2d_resource_id (t_2h2d cmd)) s) (\<lambda>(ok, s').
            if \<not> ok then Returned (Some 0, s')
            else if check_rect ops s' (t2d_resource_id (t_2h2d cmd)) (t2d_r (t_2h2d cmd))
            then Returned (Some 0, virgl_do ops (Transfer_write_iov (transfer_args_2d cmd)) s')
            else Exited ''Invalid rectangle transfer'')
      | VIRTIO_GPU_CMD_TRANSFER_TO_HOST_3D \<Rightarrow>
          obind (load_resource ops (t3d_resource_id (t_h3d cmd)) s) (\<lambda>(ok, s').
            if \<not> ok then Returned (Some 0, s')
            else if check_box ops s' (t3d_resource_id (t_h3d cmd)) (t3d_box (t_h3d cmd))
            then Returned (Some 0, virgl_do ops (Transfer_write_iov (transfer_args_3d cmd)) s')
            else Exited ''Invalid box transfer'')
      | VIRTIO_GPU_CMD_TRANSFER_FROM_HOST_3D \<Rightarrow>
          if check_box ops s (t3d_resource_id (t_h3d cmd)) (t3d_box (t_h3d cmd))
          then (case vo_transfer_read_iov ops (pr_virgl s) (pr_heap s) (transfer_args_3d cmd) of
                  (heap, v) \<Rightarrow>
                    obind (upload_resource env (t_h3d cmd) bpp stride (s\<lparr>pr_heap := heap, pr_virgl := v\<rparr>))
                      (\<lambda>s'. Returned (Some 0, s')))
          else Exited ''Invalid box transfer''
      | VIRTIO_GPU_CMD_RESOURCE_ATTACH_BACKING \<Rightarrow>
          obind (resource_attach_backing_host ops (r_att cmd) (r_mem cmd) s) (\<lambda>s'. Returned (Some 0, s'))
      | VIRTIO_GPU_CMD_RESOURCE_DETACH_BACKING \<Rightarrow> Returned (Some 0, detach_free ops (r_det cmd) s)
      | VIRTIO_GPU_CMD_SET_SCANOUT \<Rightarrow>
          (let i = unat (set_scanout_id (s_set cmd)) in
           if i \<ge> length (pr_scanouts s) then Crashed ''scanouts''
           else if \<not> ps_enabled (pr_scanouts s ! i) then Returned (Some 0, s)
           else obind (set_scanout_host ops (s_set cmd) i s)
                  (\<lambda>s'. Returned (Some 0, s'\<lparr>current_scanout_id := set_scanout_id (s_set cmd)\<rparr>)))
      | VIRTIO_GPU_CMD_RESOURCE_FLUSH \<Rightarrow> Returned (Some (flush_resource_id (r_flush cmd)), s)
      | VIRTIO_GPU_CMD_RESOURCE_UNREF \<Rightarrow>
          Returned (Some 0, virgl_do ops (Resource_unref (r_unref cmd)) (detach_free ops (r_unref cmd) s))
      | VIRTIO_GPU_CMD_CTX_ATTACH_RESOURCE \<Rightarrow> run (Ctx_attach_resource (hdr_ctx_id (hdr cmd)) (c_res cmd))
      | VIRTIO_GPU_CMD_CTX_DETACH_RESOURCE \<Rightarrow> run (Ctx_detach_resource (hdr_ctx_id (hdr cmd)) (c_res cmd))
      | VIRTIO_GPU_CMD_GET_CAPSET \<Rightarrow> Returned (Some 0, s)
      | VIRTIO_GPU_CMD_GET_CAPSET_INFO \<Rightarrow> Returned (Some 0, s)
      | VIRTIO_GPU_CMD_GET_DISPLAY_INFO \<Rightarrow> Returned (Some 0, s)
      | VIRTIO_GPU_CMD_UPDATE_CURSOR \<Rightarrow> Returned (Some 0, rvgpu_serve_update_cursor env (cursor cmd) s)
      | VIRTIO_GPU_CMD_MOVE_CURSOR \<Rightarrow> Returned (Some 0, rvgpu_serve_move_cursor env (cursor cmd) s)
      | _ \<Rightarrow> Returned (None, s))"

text \<open>The fence that follows a command; the comparison is that of 64-bit integers.\<close>

definition pr_fence :: "'v pr_env \<Rightarrow> virtio_gpu_cmd \<Rightarrow> 'v pr_state \<Rightarrow> 'v pr_state outcome" where
  "pr_fence env cmd s =
     (if hdr_flags (hdr cmd) AND VIRTIO_GPU_FLAG_FENCE = 0 then Returned s
      else
        let fence = hdr_fence_id (hdr cmd) in
        case vo_create_fence (pe_ops env) (pr_virgl s) (ucast fence) (hdr_type (hdr cmd)) of
          (ret, v) \<Rightarrow>
            (let s1 = s\<lparr>pr_virgl := v\<rparr> in
             if ret \<noteq> 0 then Returned s1
             else virgl_poll (pe_ops env)
               (if fence > ucast (fence_received s1) then s1\<lparr>fence_received := ucast fence\<rparr> else s1)))"

text \<open>
  One turn of the loop after its header was read: a result is what \<open>rvgpu_pr_dispatch\<close> returns, none
  is the next turn.
\<close>

definition pr_command :: "'v pr_env \<Rightarrow> byte list \<Rightarrow> 'v pr_state \<Rightarrow> (u32 option \<times> 'v pr_state) outcome" where
  "pr_command env uhdr s =
     (let sz = pe_sizes env; ops = pe_ops env;
          usize = un_le32 uhdr; uflags = un_le16 (drop 6 uhdr);
          bpp = un_le32 (drop 8 uhdr); stride = un_le32 (drop 12 uhdr);
          hlen = unat (sz_hdr sz);
          blank = replicate hlen 0 @ drop hlen (pr_r s)
      in if (ucast usize :: u64) > sz_cmd sz then Exited ''Too long read''
         else obind (rvgpu_pr_read ops (unat usize) s) (\<lambda>(bs, s1).
           if length bs \<noteq> unat usize
           then (if bs = [] then Returned (Some 0, s1\<lparr>pr_r := blank\<rparr>) else Exited ''Too short read'')
           else
             let r = bs @ drop (length bs) blank;
                 cmd = pe_decode env r;
                 sane = (if uflags AND 16 \<noteq> 0 then sanity_check_gpu_cursor sz cmd (ucast usize) False
                         else sanity_check_gpu_ctrl sz cmd (ucast usize) False)
             in if sane \<noteq> VIRTIO_GPU_RESP_OK_NODATA then Exited ''insane command issued''
                else obind (virgl_poll ops (virgl_do ops Force_ctx_0 (s1\<lparr>pr_r := r\<rparr>)))
                  (\<lambda>s2. obind (pr_execute env cmd bpp stride s2)
                    (\<lambda>(draw, s3). case draw of
                       None \<Rightarrow> Returned (Some 0, s3)
                     | Some d \<Rightarrow> obind (pr_fence env cmd s3)
                         (\<lambda>s4. Returned (if d \<noteq> 0 then Some d else None, s4))))))"

text \<open>
  \<open>rvgpu_pr_dispatch\<close>: every turn takes at least the sixteen bytes of a header, so the loop with one
  unit of fuel more than the stream can deliver is the code's loop (\<open>rvgpu_pr_dispatch_ends\<close>).
\<close>

fun pr_dispatch_loop :: "'v pr_env \<Rightarrow> nat \<Rightarrow> 'v pr_state \<Rightarrow> (u32 \<times> 'v pr_state) outcome" where
  "pr_dispatch_loop env 0 s = Diverged"
| "pr_dispatch_loop env (Suc n) s =
     obind (rvgpu_pr_read (pe_ops env) 16 s) (\<lambda>(uhdr, s1).
       if length uhdr \<noteq> 16 then Returned (0, s1)
       else obind (pr_command env uhdr s1) (\<lambda>(res, s2).
         case res of Some d \<Rightarrow> Returned (d, s2) | None \<Rightarrow> pr_dispatch_loop env n s2))"

definition rvgpu_pr_dispatch :: "'v pr_env \<Rightarrow> 'v pr_state \<Rightarrow> (u32 \<times> 'v pr_state) outcome" where
  "rvgpu_pr_dispatch env s =
     (let s1 = (first_cmd (pe_ops env) s)\<lparr>has_submit_3d_draw := False\<rparr>
      in pr_dispatch_loop env (stream_size s1 + 1) s1)"

section \<open>The start\<close>

text \<open>
  \<open>rvgpu_pr_init\<close> on the scanouts of the EGL state and the \<open>boxed\<close> flags of the parameters: the
  boxed scanouts are cleared, the input buffer is empty; the state of the library is the one that
  \<open>virgl_renderer_init\<close> left.
\<close>

fun clear_boxed :: "nat \<Rightarrow> bool list \<Rightarrow> 'v pr_state \<Rightarrow> 'v pr_state" where
  "clear_boxed i [] s = s"
| "clear_boxed i (boxed # sps) s = clear_boxed (Suc i) sps (if boxed then clear_scanout i s else s)"

definition rvgpu_pr_init ::
  "'v \<Rightarrow> pr_scanout list \<Rightarrow> bool list \<Rightarrow> bool \<Rightarrow> pr_event list \<Rightarrow> write_result list \<Rightarrow> 'v pr_state" where
  "rvgpu_pr_init v scanouts boxed capset cmd_socket res_socket =
     clear_boxed 0 boxed
       \<lparr> pr_buffer = [], pr_bufpos = 0, pr_events = cmd_socket, pr_res_out = [], pr_res_writes = res_socket,
         fence_received = 0, fence_sent = 0, pr_virgl = v, pr_heap = (\<lambda>_. None), pr_next = 0,
         pr_scanouts = scanouts, current_scanout_id = 0, waiting_first_cmd = True, capset_open = capset,
         capset_out = [], has_submit_3d_draw = False, pr_r = [], pr_cursor = [] \<rparr>"

end
