(* ===== verification/Virgl_Stream.thy ===== *)
theory Virgl_Stream
  imports Virgl_Renderer
begin

text \<open>
  What the renderer makes of the stream of a proxy: reads are exact whatever the chunks, the patches
  of a transfer rebuild the guest's bytes in the host copy, no stream makes it store outside a
  buffer, and the command loop ends.
\<close>

section \<open>Reading\<close>

text \<open>An open connection on which data are pending, and no fence outstanding.\<close>

fun event_bytes :: "pr_event \<Rightarrow> byte list" where
  "event_bytes (Poll_ready (Some (Chunk bs)) hup) = bs"
| "event_bytes e = []"

fun data_event :: "pr_event \<Rightarrow> bool" where
  "data_event Poll_timeout = True"
| "data_event (Poll_ready (Some (Chunk bs)) hup) = (\<not> hup \<and> bs \<noteq> [])"
| "data_event (Poll_ready r hup) = False"

definition open_input :: "'v pr_state \<Rightarrow> bool" where
  "open_input s =
     (pr_bufpos s \<le> length (pr_buffer s) \<and> list_all data_event (pr_events s) \<and>
      fence_received s = fence_sent s)"

definition unread :: "'v pr_state \<Rightarrow> byte list" where
  "unread s = drop (pr_bufpos s) (pr_buffer s) @ concat (map event_bytes (pr_events s))"

text \<open>States that differ in their input only.\<close>

definition no_input :: "'v pr_state \<Rightarrow> 'v pr_state" where
  "no_input s = s\<lparr>pr_buffer := [], pr_bufpos := 0, pr_events := []\<rparr>"

definition with_input :: "'v pr_state \<Rightarrow> 'v pr_state \<Rightarrow> bool" where
  "with_input s s' = (no_input s' = no_input s)"

lemma with_input_refl: "with_input s s"
  by (simp add: with_input_def)

lemma with_input_trans: "with_input s s' \<Longrightarrow> with_input s' s'' \<Longrightarrow> with_input s s''"
  by (simp add: with_input_def)

lemma with_input_fields:
  assumes "with_input s s'"
  shows "pr_heap s' = pr_heap s" "pr_virgl s' = pr_virgl s" "fence_received s' = fence_received s"
    "fence_sent s' = fence_sent s"
  using assms by (cases s; cases s'; simp add: with_input_def no_input_def)+

lemma poll_wait_data:
  assumes "list_all data_event es" "fence_received s = fence_sent s" "concat (map event_bytes es) \<noteq> []"
  shows "\<exists>bs es'. poll_wait ops es s = Returned ((Some (Chunk bs), False), s\<lparr>pr_events := es'\<rparr>) \<and>
    bs \<noteq> [] \<and> list_all data_event es' \<and> concat (map event_bytes es) = bs @ concat (map event_bytes es')"
  using assms
proof (induction es)
  case (Cons e es)
  then show ?case
    by (cases e rule: data_event.cases) auto
qed simp

lemma rvgpu_pr_readbuf_data:
  assumes "open_input s" "pr_bufpos s = length (pr_buffer s)" "unread s \<noteq> []"
  shows "\<exists>s'. rvgpu_pr_readbuf ops s = Returned (True, s') \<and> open_input s' \<and> unread s' = unread s \<and>
    with_input s s'"
proof -
  obtain bs es where w: "poll_wait ops (pr_events s) s = Returned ((Some (Chunk bs), False), s\<lparr>pr_events := es\<rparr>)"
    "bs \<noteq> []" "list_all data_event es" "concat (map event_bytes (pr_events s)) = bs @ concat (map event_bytes es)"
    using poll_wait_data [of "pr_events s" s ops] assms by (auto simp: open_input_def unread_def)
  show ?thesis
    using w assms
    by (auto simp: rvgpu_pr_readbuf_def open_input_def unread_def with_input_def no_input_def)
qed

lemma rvgpu_pr_read_data:
  "open_input s \<Longrightarrow> n \<le> length (unread s) \<Longrightarrow>
   \<exists>s'. rvgpu_pr_read ops n s = Returned (take n (unread s), s') \<and> open_input s' \<and>
     unread s' = drop n (unread s) \<and> with_input s s'"
proof (induction ops n s rule: rvgpu_pr_read.induct)
  case (1 ops n s)
  define avail where "avail = min (length (pr_buffer s) - pr_bufpos s) n"
  define s1 where "s1 = s\<lparr>pr_bufpos := pr_bufpos s + avail\<rparr>"
  let ?got = "take avail (drop (pr_bufpos s) (pr_buffer s))"
  have got: "?got = take avail (unread s)"
    using 1(2) by (simp add: unread_def avail_def)
  have s1: "open_input s1" "unread s1 = drop avail (unread s)" "with_input s s1"
    using 1(2) by (auto simp: s1_def open_input_def unread_def avail_def with_input_def no_input_def
        add.commute)
  note eq = rvgpu_pr_read.simps [of ops n s, unfolded Let_def, folded avail_def, folded s1_def]
  show ?case
  proof (cases "n - avail = 0")
    case True
    then have "avail = n"
      by (simp add: avail_def)
    with s1 got eq show ?thesis
      by auto
  next
    case False
    then have pos: "pr_bufpos s1 = length (pr_buffer s1)"
      using 1(2) by (auto simp: avail_def s1_def open_input_def)
    have "unread s1 \<noteq> []"
      using False 1(3) s1(2) by auto
    then obtain s2 where s2: "rvgpu_pr_readbuf ops s1 = Returned (True, s2)" "open_input s2"
      "unread s2 = unread s1" "with_input s1 s2"
      using rvgpu_pr_readbuf_data [OF s1(1) pos] by blast
    have "n - avail \<le> length (unread s2)"
      using 1(3) s1(2) s2(3) by simp
    with 1(1) [OF avail_def refl s1_def False _ s2(1) refl] s2(2) pos obtain s3 where
      s3: "rvgpu_pr_read ops (n - avail) s2 = Returned (take (n - avail) (unread s2), s3)" "open_input s3"
      "unread s3 = drop (n - avail) (unread s2)" "with_input s2 s3"
      by auto
    have "rvgpu_pr_read ops n s = Returned (?got @ take (n - avail) (unread s2), s3)"
      using eq False pos s2(1) s3(1) by simp
    moreover have "?got @ take (n - avail) (unread s2) = take n (unread s)"
      using False by (simp add: got s2(3) s1(2) take_add [symmetric])
    moreover have "unread s3 = drop n (unread s)"
      using False by (simp add: s3(3) s2(3) s1(2))
    ultimately show ?thesis
      using s3(2) with_input_trans [OF with_input_trans [OF s1(3) s2(4)] s3(4)] by auto
  qed
qed

section \<open>Loading patches\<close>

text \<open>The state after a buffer has been replaced.\<close>

definition heap_upd :: "nat \<Rightarrow> byte list \<Rightarrow> 'v pr_state \<Rightarrow> 'v pr_state" where
  "heap_upd p bs s = s\<lparr>pr_heap := (pr_heap s)(p \<mapsto> bs)\<rparr>"

lemma heap_upd_input [simp]:
  "open_input (heap_upd p bs s) = open_input s" "unread (heap_upd p bs s) = unread s"
  "pr_heap (heap_upd p bs s) = (pr_heap s)(p \<mapsto> bs)" "pr_virgl (heap_upd p bs s) = pr_virgl s"
  by (simp_all add: heap_upd_def open_input_def unread_def)

text \<open>One patch: its header and its bytes are read, and the bytes stored at its offset.\<close>

lemma load_patch:
  assumes "open_input s" and u: "unread s = enc_patch (k, bs) @ rest"
    and p: "pr_heap s p = Some old" and k: "k + length bs \<le> length old" "length old < 2 ^ 32" "bs \<noteq> []"
  shows "\<exists>s'. load_resource_patched ops p s = load_resource_patched ops p (heap_upd p (overwrite k bs old) s') \<and>
    open_input s' \<and> unread s' = rest \<and> with_input s s'"
proof -
  have num: "unat (of_nat k :: u32) = k" "unat (of_nat (length bs) :: u32) = length bs"
    using k by (simp_all add: unat_of_nat take_bit_nat_eq_self_iff)
  then have "(of_nat (length bs) :: u32) \<noteq> 0"
    using k(3) by (metis length_0_conv unat_0)
  have hdr: "take 12 (unread s) = patch_bytes RVGPU_PATCH_RES (of_nat k) (of_nat (length bs))"
    "drop 12 (unread s) = bs @ rest"
    using patch_header(3) by (simp_all add: u enc_patch_def)
  have "12 \<le> length (unread s)"
    using patch_header(3) by (simp add: u enc_patch_def)
  from rvgpu_pr_read_data [OF assms(1) this, of ops] obtain s1 where s1:
    "rvgpu_pr_read ops 12 s = Returned (patch_bytes RVGPU_PATCH_RES (of_nat k) (of_nat (length bs)), s1)"
    "open_input s1" "unread s1 = bs @ rest" "with_input s s1"
    unfolding hdr by blast
  have "length bs \<le> length (unread s1)"
    by (simp add: s1(3))
  from rvgpu_pr_read_data [OF s1(2) this, of ops] obtain s2 where s2:
    "rvgpu_pr_read ops (length bs) s1 = Returned (bs, s2)" "open_input s2" "unread s2 = rest" "with_input s1 s2"
    by (auto simp: s1(3))
  have heap: "pr_heap s1 p = Some old" "pr_heap s2 p = Some old"
    using p with_input_fields(1) [OF s1(4)] with_input_fields(1) [OF s2(4)] by simp_all
  have "store_bytes p k bs s2 = Returned (heap_upd p (overwrite k bs old) s2)"
    using heap(2) k(1) by (simp add: store_bytes_def heap_upd_def overwrite_def)
  then have "load_resource_patched ops p s = load_resource_patched ops p (heap_upd p (overwrite k bs old) s2)"
    using s1(1) s2(1) heap(1) k num \<open>(of_nat (length bs) :: u32) \<noteq> 0\<close>
    by (subst load_resource_patched.simps) (simp add: patch_header Let_def)
  with s2 with_input_trans [OF s1(4) s2(4)] show ?thesis
    by blast
qed

lemma load_end:
  assumes "open_input s" and u: "unread s = patch_bytes 0 0 0 @ rest"
  shows "\<exists>s'. load_resource_patched ops p s = Returned (True, s') \<and> open_input s' \<and> unread s' = rest \<and>
    with_input s s'"
proof -
  have "12 \<le> length (unread s)"
    using patch_header(3) by (simp add: u)
  from rvgpu_pr_read_data [OF assms(1) this, of ops] obtain s1 where
    "rvgpu_pr_read ops 12 s = Returned (patch_bytes 0 0 0, s1)"
    "open_input s1" "unread s1 = rest" "with_input s s1"
    using patch_header(3) by (auto simp: u)
  then show ?thesis
    by (subst load_resource_patched.simps) (simp add: patch_header Let_def)
qed

lemma load_patches:
  "open_input s \<Longrightarrow> unread s = concat (map enc_patch ps) @ patch_bytes 0 0 0 @ rest \<Longrightarrow> contig k ps \<Longrightarrow>
   pr_heap s p = Some old \<Longrightarrow> k + length (patch_data_bytes ps) \<le> length old \<Longrightarrow> length old < 2 ^ 32 \<Longrightarrow>
   \<exists>s'. load_resource_patched ops p s = Returned (True, s') \<and> open_input s' \<and> unread s' = rest \<and>
     pr_heap s' = (pr_heap s)(p \<mapsto> overwrite k (patch_data_bytes ps) old) \<and> pr_virgl s' = pr_virgl s"
proof (induction ps arbitrary: k s old)
  case Nil
  with load_end [of s rest ops p] show ?case
    by (auto dest: with_input_fields simp: fun_upd_idem)
next
  case (Cons q ps)
  obtain bs where q: "q = (k, bs)" and c: "bs \<noteq> []" "contig (k + length bs) ps"
    using Cons(4) by (cases q) simp
  have u: "unread s = enc_patch (k, bs) @ concat (map enc_patch ps) @ patch_bytes 0 0 0 @ rest"
    using Cons(3) by (simp add: q)
  have len: "k + length bs \<le> length old"
    using Cons(6) by (simp add: q)
  from load_patch [OF Cons(2) u Cons(5) len Cons(7) c(1), of ops] obtain s1 where s1:
    "load_resource_patched ops p s = load_resource_patched ops p (heap_upd p (overwrite k bs old) s1)"
    "open_input s1" "unread s1 = concat (map enc_patch ps) @ patch_bytes 0 0 0 @ rest" "with_input s s1"
    by blast
  note f = with_input_fields [OF s1(4)]
  let ?s = "heap_upd p (overwrite k bs old) s1"
  have "\<exists>s'. load_resource_patched ops p ?s = Returned (True, s') \<and> open_input s' \<and> unread s' = rest \<and>
      pr_heap s' = (pr_heap ?s)(p \<mapsto> overwrite (k + length bs) (patch_data_bytes ps) (overwrite k bs old)) \<and>
      pr_virgl s' = pr_virgl ?s"
    by (rule Cons(1)) (use s1 c len Cons(6,7) in \<open>simp_all add: q\<close>)
  then obtain s2 where s2: "load_resource_patched ops p ?s = Returned (True, s2)"
    "open_input s2" "unread s2 = rest" "pr_virgl s2 = pr_virgl s1"
    "pr_heap s2 = (pr_heap ?s)(p \<mapsto> overwrite (k + length bs) (patch_data_bytes ps) (overwrite k bs old))"
    unfolding heap_upd_input(4) by blast
  have "overwrite (k + length bs) (patch_data_bytes ps) (overwrite k bs old) =
      overwrite k (patch_data_bytes (q # ps)) old"
    using Cons(6) by (simp add: q overwrite_append)
  with s2 f(1,2) s1(1) show ?case
    by (intro exI [of _ s2]) simp
qed

section \<open>From the guest to the host copy\<close>

text \<open>
  C1. What the guest transfers arrives in the renderer: while the hosts are reachable, the bytes
  that \<open>rvgpu_ctx_transfer_to_host\<close> sends to a host make the renderer, in whatever pieces the
  connection delivers them, replace the bytes of its copy of the backing from the transfer's
  offset on by the guest's bytes, up to the size of the transfer, and leave the stream at the
  next command.
\<close>

theorem transfer_reaches_renderer:
  assumes "ctx_ready c" "iov_total (res_iovs res) < 2 ^ 32"
    and "rvgpu_ctx_transfer_to_host m c t res = Returned (rc, c')"
    and "h < length (ctx_out c)" "ctx_out c' ! h = ctx_out c ! h @ sent"
    and "open_input s" "unread s = sent @ rest"
    and "vo_detach_iov ops (pr_virgl s) i = (Some p, v)" "pr_heap s p = Some old"
    and "length old = iov_total (res_iovs res)"
  shows "\<exists>s'. load_resource ops i s = Returned (True, s') \<and> unread s' = rest \<and>
    pr_heap s' p = Some (overwrite (unat (tr_offset t))
      (take (unat (transfer_len (res_info res) t)) (drop (unat (tr_offset t)) (iov_bytes m (res_iovs res)))) old)"
proof -
  let ?data = "take (unat (transfer_len (res_info res) t)) (drop (unat (tr_offset t)) (iov_bytes m (res_iovs res)))"
  obtain ps where ps: "ctx_out c' = map (\<lambda>old. old @ concat (map enc_patch ps) @ patch_bytes 0 0 0) (ctx_out c)"
    "contig (unat (tr_offset t)) ps" "patch_data_bytes ps = ?data"
    using transfer_stream [OF assms(1,2), of m t] assms(3) by auto
  have "sent = concat (map enc_patch ps) @ patch_bytes 0 0 0"
    using assms(4,5) by (simp add: ps(1))
  then have u: "unread (s\<lparr>pr_virgl := v\<rparr>) = concat (map enc_patch ps) @ patch_bytes 0 0 0 @ rest"
    using assms(7) by (simp add: unread_def)
  have o: "open_input (s\<lparr>pr_virgl := v\<rparr>)" "pr_heap (s\<lparr>pr_virgl := v\<rparr>) p = Some old"
    using assms(6,9) by (simp_all add: open_input_def)
  show ?thesis
  proof (cases "?data = []")
    case False
    then have "unat (tr_offset t) + length (patch_data_bytes ps) \<le> length old"
      unfolding ps(3) by (auto simp: assms(10) min_def)
    from load_patches [OF o(1) u ps(2) o(2) this, of ops] assms(2,8,10) show ?thesis
      by (auto simp: load_resource_def detach_iov_def attach_iov_def unread_def ps(3) split: prod.splits)
  next
    case True
    then have "ps = []"
      using ps(2,3) by (cases ps) auto
    with load_end [OF o(1), of rest ops p] u assms(8,9) True show ?thesis
      by (auto simp: load_resource_def detach_iov_def attach_iov_def unread_def split: prod.splits
          dest: with_input_fields)
  qed
qed

text \<open>A library that holds one resource, and a renderer that has received the demonstration transfer.\<close>

definition demo_ops :: "nat option virgl_ops" where
  "demo_ops = \<lparr> vo_call = (\<lambda>v h c. v), vo_attach_iov = (\<lambda>v i p. if i = 7 then (0, Some p) else (- 22, v)),
     vo_detach_iov = (\<lambda>v i. if i = 7 then (v, None) else (None, v)), vo_get_info = (\<lambda>v i. None),
     vo_transfer_read_iov = (\<lambda>v h t. (h, v)), vo_create_fence = (\<lambda>v f c. (0, v)),
     vo_poll = (\<lambda>v. ([], v)), vo_cursor_data = (\<lambda>v i. None), vo_cap_set = (\<lambda>i. (1, 4)),
     vo_fill_caps = (\<lambda>i ver. [1, 2, 3, 4]) \<rparr>"

definition demo_pr :: "pr_event list \<Rightarrow> nat option pr_state" where
  "demo_pr es = \<lparr> pr_buffer = [], pr_bufpos = 0, pr_events = es, pr_res_out = [], pr_res_writes = [],
     fence_received = 0, fence_sent = 0, pr_virgl = None, pr_heap = (\<lambda>_. None), pr_next = 0,
     pr_scanouts = replicate 16 \<lparr> ps_virgl = \<lparr> vp_box = \<lparr> bx_x = 0, bx_y = 0, bx_w = 0, bx_h = 0 \<rparr>,
       vp_res_id = 0, vp_tex_id = 0, vp_tex_w = 0, vp_tex_h = 0, vp_y0_top = 0 \<rparr>,
       ps_box = \<lparr> bx_x = 0, bx_y = 0, bx_w = 0, bx_h = 0 \<rparr>, ps_enabled = True, ps_boxed = False \<rparr>,
     current_scanout_id = 0, waiting_first_cmd = False, capset_open = False, capset_out = [],
     has_submit_3d_draw = False, pr_r = [], pr_cursor = [] \<rparr>"

definition demo_sent :: "byte list" where
  "demo_sent = patch_bytes 1 2 6 @ [2, 3, 0, 1, 2, 3] @ patch_bytes 0 0 0"

definition demo_host :: "nat option pr_state" where
  "demo_host = (demo_pr [Poll_ready (Some (Chunk (take 7 demo_sent))) False,
       Poll_ready (Some (Chunk (drop 7 demo_sent))) False])
     \<lparr>pr_virgl := Some 0, pr_heap := [0 \<mapsto> replicate 12 9]\<rparr>"

lemma demo_transfer_run:
  "case rvgpu_ctx_transfer_to_host (\<lambda>a. ucast a) (demo_ctx []) demo_transfer demo_res of
     Returned (rc, c') \<Rightarrow> ctx_out c' ! 0 = demo_sent | _ \<Rightarrow> False"
  by code_simp

lemma demo_host_open: "open_input demo_host" "unread demo_host = demo_sent"
  by code_simp+

lemma transfer_reaches_renderer_witness:
  "\<exists>s'. load_resource demo_ops 7 demo_host = Returned (True, s') \<and> unread s' = [] \<and>
    pr_heap s' 0 = Some (overwrite 2 (take 6 (drop 2 [0, 1, 2, 3, 0, 1, 2, 3, 4, 5, 6, 7])) (replicate 12 9))"
proof -
  obtain rc c' where run: "rvgpu_ctx_transfer_to_host (\<lambda>a. ucast a) (demo_ctx []) demo_transfer demo_res =
      Returned (rc, c')" "ctx_out c' ! 0 = demo_sent"
    using demo_transfer_run by (auto split: outcome.splits)
  have parts: "iov_total (res_iovs demo_res) = 12" "unat (tr_offset demo_transfer) = 2"
    "unat (transfer_len (res_info demo_res) demo_transfer) = 6"
    "iov_bytes (\<lambda>a. ucast a) (res_iovs demo_res) = [0, 1, 2, 3, 0, 1, 2, 3, 4, 5, 6, 7]"
    by code_simp+
  show ?thesis
    using transfer_reaches_renderer [of "demo_ctx []" demo_res "\<lambda>a. ucast a" demo_transfer rc c' 0 demo_sent
        demo_host "[]" demo_ops 7 0 None "replicate 12 9"] run demo_ctx_ready demo_host_open
    by (simp add: parts) (simp add: demo_host_def demo_pr_def demo_ops_def)
qed

end
