(* ===== verification/Capset_Exchange.thy ===== *)
theory Capset_Exchange
  imports Virgl_Stream Gpu_Properties
begin

text \<open>
  The capability sets, from virglrenderer through the capset file that the renderer writes on the
  first command (\<open>rvgpu_pr_dispatch\<close>) and the proxy reads on start (\<open>gpu_capset_init\<close>) to the answers
  of the guest's \<open>GET_CAPSET\<close>.
\<close>

definition capset_data :: "'v virgl_ops \<Rightarrow> u32 \<Rightarrow> u32 \<Rightarrow> u32 \<Rightarrow> byte list" where
  "capset_data ops i ver maxsize = take (unat maxsize) (vo_fill_caps ops i ver @ replicate (unat maxsize) 0)"

definition capset_versions :: "'v virgl_ops \<Rightarrow> u32 \<Rightarrow> u32 \<Rightarrow> u32 \<Rightarrow> (capset \<times> byte list) list" where
  "capset_versions ops i maxver maxsize =
     map (\<lambda>v. (\<lparr> cap_id = i, cap_version = of_nat v, cap_size = maxsize \<rparr>, capset_data ops i (of_nat v) maxsize))
       [0..<Suc (unat maxver)]"

lemma capset_versions_file:
  "concat (map (\<lambda>v. capset_entry ops i (of_nat v) maxsize) [0..<Suc (unat maxver)]) =
     capset_file (capset_versions ops i maxver maxsize)"
  by (simp add: capset_file_def capset_versions_def capset_entry_def capset_data_def o_def del: upt_Suc)

lemma capset_file_append: "capset_file (cs @ ds) = capset_file cs @ capset_file ds"
  by (simp add: capset_file_def)

lemma capset_versions_ok: "maxsize < CAPSET_MAX_SIZE \<Longrightarrow> list_all capset_ok (capset_versions ops i maxver maxsize)"
  by (auto simp: capset_versions_def capset_ok_def list_all_iff capset_data_def)

lemma of_nat_version: "v \<le> unat (maxver :: u32) \<Longrightarrow> unat (of_nat v :: u32) = v"
  using unat_u32_less [of maxver] by (simp add: unat_of_nat take_bit_nat_eq_self_iff)

lemma capset_versions_distinct:
  "distinct (map (\<lambda>(h, d). (cap_id h, cap_version h)) (capset_versions ops i maxver maxsize))"
proof -
  have "inj_on (\<lambda>v. of_nat v :: u32) {0..<Suc (unat maxver)}"
    by (rule inj_on_inverseI [where g = unat]) (auto intro: of_nat_version [of _ maxver])
  then show ?thesis
    by (auto simp: capset_versions_def distinct_map inj_on_def o_def simp del: upt_Suc)
qed

text \<open>
  C40. The guest is offered what the host can do: when virglrenderer reports both capability sets,
  with sizes the renderer accepts and at most sixteen versions in all, the file the renderer writes
  on its first command makes the proxy answer \<open>GET_CAPSET\<close> for each of the two ids and each version
  up to the largest with exactly the bytes virglrenderer filled in, padded with zeros.
\<close>

theorem capsets_reach_guest:
  assumes "waiting_first_cmd s" "capset_open s" "capset_out s = []"
    and "vo_cap_set ops 1 = (mv1, ms1)" "vo_cap_set ops 2 = (mv2, ms2)"
    and "0 < ms1" "ms1 < CAPSET_MAX_SIZE" "0 < ms2" "ms2 < CAPSET_MAX_SIZE"
    and "unat mv1 + unat mv2 + 2 \<le> GPU_MAX_CAPDATA"
    and "i = 1 \<and> ver \<le> mv1 \<and> ms = ms1 \<or> i = 2 \<and> ver \<le> mv2 \<and> ms = ms2"
  shows "\<exists>c2. gpu_device_capset env (gpu_capset_init g (capset_out (first_cmd ops s))) i ver c =
      (e_sz_c env + unat ms, c2) \<and> hdr_type (resp_hdr c2) = VIRTIO_GPU_RESP_OK_CAPSET \<and>
    take (unat ms) (resp_body c2) = capset_data ops i ver ms"
proof -
  let ?v1 = "capset_versions ops 1 mv1 ms1" and ?v2 = "capset_versions ops 2 mv2 ms2"
  have out: "capset_out (first_cmd ops s) = capset_file (?v1 @ ?v2)"
  proof -
    have "ms1 \<noteq> 0" "\<not> CAPSET_MAX_SIZE \<le> ms1" "ms2 \<noteq> 0" "\<not> CAPSET_MAX_SIZE \<le> ms2"
      using assms(6-9) by auto
    with assms(1-5) show ?thesis
      by (simp add: first_cmd_def capset_versions_file capset_file_append del: upt_Suc)
  qed
  have ok: "list_all capset_ok (?v1 @ ?v2)"
    unfolding list_all_append by (intro conjI capset_versions_ok assms(7,9))
  have dist: "distinct (map (\<lambda>(h, d). (cap_id h, cap_version h)) (?v1 @ ?v2))"
  proof -
    have "(\<lambda>(h, d). (cap_id h, cap_version h)) ` set ?v1 \<inter> (\<lambda>(h, d). (cap_id h, cap_version h)) ` set ?v2 = {}"
      by (auto simp: capset_versions_def simp del: upt_Suc)
    then show ?thesis
      by (simp add: distinct_append capset_versions_distinct)
  qed
  have len: "length ?v1 = unat mv1 + 1" "length ?v2 = unat mv2 + 1"
    by (simp_all add: capset_versions_def)
  have nth: "capset_versions ops j maxver maxsize ! unat v =
      (\<lparr> cap_id = j, cap_version = v, cap_size = maxsize \<rparr>, capset_data ops j v maxsize)"
    if "v \<le> maxver" for j v maxver maxsize
    using that by (simp add: capset_versions_def word_le_nat_alt less_Suc_eq_le del: upt_Suc)
  define k where "k = (if i = 1 then unat ver else unat mv1 + 1 + unat ver)"
  let ?h = "\<lparr> cap_id = i, cap_version = ver, cap_size = ms \<rparr>"
  have k: "k < length (?v1 @ ?v2)" "k < GPU_MAX_CAPDATA" "(?v1 @ ?v2) ! k = (?h, capset_data ops i ver ms)"
    using assms(10,11) len nth by (auto simp: k_def word_le_nat_alt nth_append)
  have "unat (of_nat k :: u32) = k"
    using k(2) by (simp add: unat_of_nat take_bit_nat_eq_self_iff)
  from capset_answers [OF ok k dist this refl, of g c env]
  obtain c2 where "gpu_device_capset env (gpu_capset_init g (capset_file (?v1 @ ?v2))) (cap_id ?h) (cap_version ?h) c =
      (e_sz_c env + length (capset_data ops i ver ms), c2)"
    "take (length (capset_data ops i ver ms)) (resp_body c2) = capset_data ops i ver ms"
    "hdr_type (resp_hdr c2) = VIRTIO_GPU_RESP_OK_CAPSET"
    by blast
  moreover have "length (capset_data ops i ver ms) = unat ms"
    by (simp add: capset_data_def)
  ultimately show ?thesis
    by (simp add: out)
qed

definition capset_ops :: "nat option virgl_ops" where
  "capset_ops = demo_ops\<lparr>vo_cap_set := (\<lambda>i. (1, 4)), vo_fill_caps := (\<lambda>i ver. [ucast i, ucast ver, 9])\<rparr>"

lemma capsets_reach_guest_witness:
  "\<exists>c2. gpu_device_capset (demo_env zero_cmd) (gpu_capset_init (demo_gpu 48 None)
      (capset_out (first_cmd capset_ops ((demo_pr [])\<lparr>waiting_first_cmd := True, capset_open := True\<rparr>)))) 2 1
        \<lparr> resp_hdr = zero_hdr, resp_body = [] \<rparr> = (28, c2) \<and> take 4 (resp_body c2) = [2, 1, 9, 0]"
proof -
  let ?s = "(demo_pr [])\<lparr>waiting_first_cmd := True, capset_open := True\<rparr>"
  have "capset_data capset_ops 2 1 4 = [2, 1, 9, 0]" "e_sz_c (demo_env zero_cmd) = 24"
    by (simp_all add: capset_data_def capset_ops_def demo_env_def take_Cons')
  then show ?thesis
    using capsets_reach_guest [of ?s capset_ops 1 4 1 4 2 1 4 "demo_env zero_cmd" "demo_gpu 48 None"
        "\<lparr> resp_hdr = zero_hdr, resp_body = [] \<rparr>"]
    by (auto simp: capset_ops_def demo_pr_def)
qed

end
