(* ===== verification/Resource_Thread.thy ===== *)
theory Resource_Thread
  imports Gpu_Device
begin

text \<open>
  The resource thread of the proxy (\<open>resource_thread_func\<close> of
  \<open>src/rvgpu-proxy/gpu/rvgpu-gpu-device.c\<close>): the messages the hosts send back on their resource
  streams, which are fences and the contents of resources, and the writes of those contents into the
  guest's backing pages.  A write outside the region of an iovec, or a read past the received data,
  is a crash.
\<close>

section \<open>Reading a resource stream\<close>

function read_from_pipe_loop :: "nat \<Rightarrow> nat \<Rightarrow> rvgpu_scanout \<Rightarrow> (byte list \<times> rvgpu_scanout) outcome" where
  "read_from_pipe_loop size' offset s =
     (if \<not> offset < size' then Returned ([], s)
      else case rvgpu_recv s RESOURCE (size' - offset) of
        (Inl e, s') \<Rightarrow> Exited ''Short read res pipe''
      | (Inr bs, s') \<Rightarrow>
          if length bs = size' then Returned (bs, s')
          else if bs = [] then Exited ''Short read res pipe''
          else if offset + length bs > size' then Exited ''Buffer overflow''
          else obind (read_from_pipe_loop size' (offset + length bs) s')
                 (\<lambda>(rest, s''). Returned (bs @ rest, s'')))"
  by pat_completeness auto

termination read_from_pipe_loop
  by (relation "measure (\<lambda>(size', offset, s). size' - offset)") (auto intro!: diff_less_mono2)

declare read_from_pipe_loop.simps [simp del]

definition read_from_pipe :: "rvgpu_scanout \<Rightarrow> nat \<Rightarrow> (byte list \<times> rvgpu_scanout) outcome" where
  "read_from_pipe s size' = read_from_pipe_loop size' 0 s"

section \<open>Writing a resource\<close>

text \<open>The whole width and height of a resource: the data are one range of the backing.\<close>

fun resource_update ::
  "rvgpu_scanout \<Rightarrow> hmem \<Rightarrow> iovec list \<Rightarrow> u64 \<Rightarrow> u64 \<Rightarrow> (hmem \<times> rvgpu_scanout) outcome" where
  "resource_update s m [] skip len = Returned (m, s)"
| "resource_update s m (v # vs) skip len =
     (if \<not> 0 < len then Returned (m, s)
      else if skip \<ge> iov_len v then resource_update s m vs (skip - iov_len v) len
      else
        let l = (if iov_len v - skip > len then len else iov_len v - skip)
        in obind (read_from_pipe s (unat l)) (\<lambda>(bs, s').
             resource_update s' (mem_write m (iov_base v + skip) bs) vs 0 (len - l)))"

text \<open>
  A part of a resource: line by line.  The position in the backing is the list of the regions from
  the current one on and the offset of its start.
\<close>

fun seek_line :: "u64 \<Rightarrow> iovec list \<Rightarrow> u64 \<Rightarrow> iovec list \<times> u64" where
  "seek_line pos [] base = ([], base)"
| "seek_line pos (v # vs) base =
     (let iov_end = base + iov_len v
      in if pos < iov_end then (v # vs, base) else seek_line pos vs iov_end)"

definition store_chunk :: "hmem \<Rightarrow> byte list \<Rightarrow> u64 \<Rightarrow> iovec \<Rightarrow> u64 \<Rightarrow> u64 \<Rightarrow> hmem outcome" where
  "store_chunk m data dpos v offset chunk =
     (if unat dpos + unat chunk > length data then Crashed ''res_data''
      else if unat offset + unat chunk > unat (iov_len v) then Crashed ''iov_base''
      else Returned (mem_write m (iov_base v + offset) (take (unat chunk) (drop (unat dpos) data))))"

function copy_line ::
  "byte list \<Rightarrow> u64 \<Rightarrow> hmem \<Rightarrow> iovec list \<Rightarrow> u64 \<Rightarrow> u64 \<Rightarrow> u64 \<Rightarrow> u64 \<Rightarrow>
     (hmem \<times> iovec list \<times> u64 \<times> u64) outcome" where
  "copy_line data dpos m [] base pos line_len copied = Returned (m, [], base, line_len)"
| "copy_line data dpos m (v # vs) base pos line_len copied =
     (if \<not> 0 < line_len then Returned (m, v # vs, base, line_len)
      else
        let iov_end = base + iov_len v;
            offset = pos - base;
            chunk = (if iov_len v - offset > line_len then line_len else iov_len v - offset)
        in obind (store_chunk m data (dpos + copied) v offset chunk) (\<lambda>m'.
             if offset + chunk = iov_len v
             then copy_line data dpos m' vs iov_end (pos + chunk) (line_len - chunk) (copied + chunk)
             else copy_line data dpos m' (v # vs) base (pos + chunk) (line_len - chunk) (copied + chunk)))"
  by pat_completeness auto

termination copy_line
proof (relation "measures [\<lambda>(data, dpos, m, vs, base, pos, line_len, copied). length vs,
    \<lambda>(data, dpos, m, vs, base, pos, line_len, copied). unat line_len]", goal_cases)
  case (3 data dpos m v vs base pos line_len copied iov_end offset chunk m')
  then have "chunk = line_len"
    by (auto split: if_splits)
  with 3 show ?case
    by (simp add: word_less_nat_alt)
qed simp_all

declare copy_line.simps(2) [simp del]

fun copy_lines ::
  "byte list \<Rightarrow> u64 \<Rightarrow> u64 \<Rightarrow> u64 \<Rightarrow> nat \<Rightarrow> nat \<Rightarrow> hmem \<Rightarrow> iovec list \<Rightarrow> u64 \<Rightarrow> hmem outcome" where
  "copy_lines data start stride line_len line 0 m vs base = Returned m"
| "copy_lines data start stride line_len line (Suc n) m vs base =
     (let dpos = of_nat line * stride; pos = start + of_nat line * stride
      in case seek_line pos vs base of
           (vs1, base1) \<Rightarrow>
             obind (copy_line data dpos m vs1 base1 pos line_len 0) (\<lambda>(m', vs2, base2, missing).
               if missing > 0 then Returned m'
               else copy_lines data start stride line_len (line + 1) n m' vs2 base2))"

text \<open>
  \<open>resource_transfer\<close> on the stream of scanout \<open>s\<close>: the memory and the scanout.  The bytes of the
  transfer structure decode as the transfer of a command; \<open>malloc\<close> is assumed to succeed.
\<close>

definition resource_transfer ::
  "gpu_env \<Rightarrow> ctx_priv \<Rightarrow> hmem \<Rightarrow> rvgpu_scanout \<Rightarrow> (hmem \<times> rvgpu_scanout) outcome" where
  "resource_transfer env c m s =
     obind (read_from_pipe s 16) (\<lambda>(h, s1).
       if (ucast (un_le32 h) :: u64) \<noteq> sz_t_h3d (e_sizes env) then Exited ''Resource transfer protocol error''
       else obind (read_from_pipe s1 (unat (sz_t_h3d (e_sizes env)))) (\<lambda>(tb, s2).
         obind (read_from_pipe s2 12) (\<lambda>(pb, s3).
           let t = t_h3d (e_decode env tb);
               off = un_le32 (drop 4 pb); len = un_le32 (drop 8 pb)
           in case rvgpu_ctx_res_find c (t3d_resource_id t) of
                None \<Rightarrow> Returned (m, s3)
              | Some res \<Rightarrow>
                  (case backing res of
                     None \<Rightarrow> Returned (m, s3)
                   | Some iovs \<Rightarrow>
                       if box_w (t3d_box t) = ri_width (res_info res) \<and> box_h (t3d_box t) = ri_height (res_info res)
                       then resource_update s3 m iovs (ucast off) (ucast len)
                       else
                         let width = drop_bit (unat (t3d_level t)) (ri_width (res_info res));
                             bpp = of_nat (get_format_bpp (ri_format (res_info res))) :: u32;
                             stride = (if t3d_stride t \<noteq> 0 then t3d_stride t else bpp * width);
                             line_len = box_w (t3d_box t) * bpp
                         in obind (read_from_pipe s3 (unat len)) (\<lambda>(data, s4).
                              obind (copy_lines data (ucast off) (ucast stride) (ucast line_len) 0
                                       (unat (box_h (t3d_box t))) m iovs 0)
                                (\<lambda>m'. Returned (m', s4)))))))"

section \<open>The thread\<close>

text \<open>
  One message of host \<open>i\<close>: a fence may be passed on to the device's fence pipe, a transfer is
  written to the guest, other types are ignored.  A host whose stream has ended trips the assertion.
\<close>

definition resource_message :: "gpu_env \<Rightarrow> nat \<Rightarrow> fence_sync \<times> gpu_device \<Rightarrow> (fence_sync \<times> gpu_device) outcome" where
  "resource_message env i st =
     (case st of (fs, g) \<Rightarrow>
        (case rvgpu_recv_all (sc (ctx g) ! i) RESOURCE 8 of
           (Inl e, s) \<Rightarrow> Exited ''assert(ret > 0)''
         | (Inr msg, s) \<Rightarrow>
             let g1 = g\<lparr>ctx := (ctx g)\<lparr>sc := (sc (ctx g))[i := s]\<rparr>\<rparr>
             in if msg ! 0 = 8
                then (case resource_thread_fence fs i (un_le32 (drop 4 msg)) of
                        (fs', out) \<Rightarrow>
                          Returned (fs', case out of None \<Rightarrow> g1 | Some f \<Rightarrow> g1\<lparr>fence_pipe := fence_pipe g1 @ [f]\<rparr>))
                else if msg ! 0 = 16
                then obind (resource_transfer env (ctx g1) (vs_mem g1) s) (\<lambda>(m, s').
                       Returned (fs, g1\<lparr>vs_mem := m, ctx := (ctx g1)\<lparr>sc := (sc (ctx g1))[i := s']\<rparr>\<rparr>))
                else Returned (fs, g1)))"

text \<open>One round after \<open>poll\<close>: the hosts that have something to read.\<close>

fun resource_round ::
  "gpu_env \<Rightarrow> nat \<Rightarrow> bool list \<Rightarrow> fence_sync \<times> gpu_device \<Rightarrow> (fence_sync \<times> gpu_device) outcome" where
  "resource_round env i [] st = Returned st"
| "resource_round env i (pollin # revents) st =
     (if pollin then obind (resource_message env i st) (resource_round env (i + 1) revents)
      else resource_round env (i + 1) revents st)"

section \<open>Reading exactly\<close>

text \<open>An active scanout whose resource stream delivers data without end or error so far.\<close>

definition open_pipe :: "rvgpu_scanout \<Rightarrow> bool" where
  "open_pipe s = (activated s \<and>
     list_all (\<lambda>r. case r of Chunk bs \<Rightarrow> bs \<noteq> [] | _ \<Rightarrow> False) (rcv_pipe s RESOURCE))"

definition pending :: "rvgpu_scanout \<Rightarrow> byte list" where
  "pending s = stream_bytes (rcv_pipe s RESOURCE)"

lemma recv_open:
  assumes "open_pipe s" "0 < n" "pending s \<noteq> []"
  shows "\<exists>bs s'. rvgpu_recv s RESOURCE n = (Inr bs, s') \<and> bs \<noteq> [] \<and> length bs \<le> n \<and> open_pipe s' \<and>
    pending s = bs @ pending s'"
proof -
  from assms obtain bs rs where "rcv_pipe s RESOURCE = Chunk bs # rs" "bs \<noteq> []"
    by (cases "rcv_pipe s RESOURCE") (auto simp: open_pipe_def pending_def split: read_result.splits)
  with assms show ?thesis
    by (auto simp: rvgpu_recv_def open_pipe_def pending_def)
qed

lemma read_from_pipe_loop_ok:
  "open_pipe s \<Longrightarrow> k \<le> n \<Longrightarrow> n - k \<le> length (pending s) \<Longrightarrow>
   \<exists>s'. read_from_pipe_loop n k s = Returned (take (n - k) (pending s), s') \<and> open_pipe s' \<and>
     pending s' = drop (n - k) (pending s)"
proof (induction n k s rule: read_from_pipe_loop.induct)
  case (1 n k s)
  show ?case
  proof (cases "k < n")
    case True
    with 1(4) have "pending s \<noteq> []"
      by auto
    with recv_open [OF 1(2), of "n - k"] True obtain bs s' where r:
      "rvgpu_recv s RESOURCE (n - k) = (Inr bs, s')" "bs \<noteq> []" "length bs \<le> n - k" "open_pipe s'"
      "pending s = bs @ pending s'"
      by auto
    show ?thesis
    proof (cases "length bs = n")
      case True
      with r \<open>k < n\<close> show ?thesis
        by (subst read_from_pipe_loop.simps) simp
    next
      case False
      have "\<exists>s''. read_from_pipe_loop n (k + length bs) s' =
          Returned (take (n - (k + length bs)) (pending s'), s'') \<and> open_pipe s'' \<and>
          pending s'' = drop (n - (k + length bs)) (pending s')"
        by (rule 1(1) [OF _ r(1) [symmetric] refl False r(2)]) (use True r 1(4) in auto)
      moreover have "n - k = length bs + (n - (k + length bs))"
        using r(3) by simp
      ultimately show ?thesis
        using True False r by (subst read_from_pipe_loop.simps) auto
    qed
  next
    case False
    with 1 show ?thesis
      by (subst read_from_pipe_loop.simps) simp
  qed
qed

lemma read_from_pipe_ok:
  "open_pipe s \<Longrightarrow> n \<le> length (pending s) \<Longrightarrow>
   \<exists>s'. read_from_pipe s n = Returned (take n (pending s), s') \<and> open_pipe s' \<and>
     pending s' = drop n (pending s)"
  using read_from_pipe_loop_ok [of s 0 n] by (simp add: read_from_pipe_def)

section \<open>Writing into the backing\<close>

lemma mem_read_write_part:
  assumes "k + length bs \<le> n" "n \<le> 2 ^ 64"
  shows "mem_read (mem_write m (a + of_nat k) bs) a n = overwrite k bs (mem_read m a n)"
proof (rule nth_equalityI)
  fix i assume "i < length (mem_read (mem_write m (a + of_nat k) bs) a n)"
  then have i: "i < n" by simp
  have "unat (a + of_nat i - (a + of_nat k) :: u64) = (if k \<le> i then i - k else 2 ^ 64 - (k - i))"
  proof (cases "k \<le> i")
    case True
    then have "a + of_nat i - (a + of_nat k) = (of_nat (i - k) :: u64)"
      by (simp add: of_nat_diff)
    with i assms(2) True show ?thesis
      by (simp add: unat_of_nat take_bit_nat_eq_self_iff del: of_nat_diff)
  next
    case False
    then have "a + of_nat i - (a + of_nat k) = - (of_nat (k - i) :: u64)"
      by (simp add: of_nat_diff)
    also have "\<dots> = of_nat (2 ^ 64 - (k - i))"
      using assms False by (simp add: of_nat_diff)
    finally show ?thesis
      using assms False by (simp add: unat_of_nat take_bit_nat_eq_self_iff del: of_nat_diff)
  qed
  then show "mem_read (mem_write m (a + of_nat k) bs) a n ! i = overwrite k bs (mem_read m a n) ! i"
    using assms i by (auto simp: nth_overwrite mem_write_def)
qed (use assms in simp)

lemma iov_bytes_other:
  "region a (length bs) \<inter> \<Union> (iov_region ` set vs) = {} \<Longrightarrow> iov_bytes (mem_write m a bs) vs = iov_bytes m vs"
proof (induction vs)
  case (Cons v vs)
  have "mem_read (mem_write m a bs) (iov_base v) (unat (iov_len v)) = mem_read m (iov_base v) (unat (iov_len v))"
    using Cons(2) unat_u64_less [of "iov_len v"]
    by (intro mem_read_write_other) (auto simp: iov_region_def)
  with Cons show ?case
    by auto
qed simp

text \<open>A write into one region is a replacement in the concatenation of all.\<close>

lemma iov_bytes_write:
  assumes "iov_disjoint (pre @ v # vs)" "unat off + length bs \<le> unat (iov_len v)"
  shows "iov_bytes (mem_write m (iov_base v + off) bs) (pre @ v # vs) =
    overwrite (iov_total pre + unat off) bs (iov_bytes m (pre @ v # vs))"
    and "x \<notin> iov_region v \<Longrightarrow> mem_write m (iov_base v + off) bs x = m x"
proof -
  let ?m = "mem_write m (iov_base v + off) bs"
  have sub: "region (iov_base v + off) (length bs) \<subseteq> iov_region v"
  proof
    fix x assume "x \<in> region (iov_base v + off) (length bs)"
    then have x: "unat (x - (iov_base v + off)) < length bs"
      by (simp add: region_def)
    have "x - iov_base v = (x - (iov_base v + off)) + off"
      by simp
    moreover have "unat ((x - (iov_base v + off)) + off) = unat (x - (iov_base v + off)) + unat off"
      using x assms(2) unat_u64_less [of "iov_len v"] by (subst unat_add_lem [THEN iffD1]) simp_all
    ultimately show "x \<in> iov_region v"
      using x assms(2) by (simp add: iov_region_def region_def)
  qed
  have "iov_bytes ?m pre = iov_bytes m pre" "iov_bytes ?m vs = iov_bytes m vs"
    using assms(1) sub by (auto intro!: iov_bytes_other simp: iov_disjoint_def sorted_wrt_append)
  moreover have "mem_read ?m (iov_base v) (unat (iov_len v)) =
      overwrite (unat off) bs (mem_read m (iov_base v) (unat (iov_len v)))"
    using mem_read_write_part [of "unat off" bs "unat (iov_len v)" m "iov_base v"] assms(2)
      unat_u64_less [of "iov_len v"] by simp
  moreover have "iov_bytes m' (pre @ v # vs) = iov_bytes m' pre @ mem_read m' (iov_base v) (unat (iov_len v)) @ iov_bytes m' vs" for m'
    by (simp add: iov_bytes_def)
  ultimately show "iov_bytes ?m (pre @ v # vs) = overwrite (iov_total pre + unat off) bs (iov_bytes m (pre @ v # vs))"
    using overwrite_middle [of "unat off" bs "mem_read m (iov_base v) (unat (iov_len v))" "iov_bytes m pre"]
      assms(2) by simp
  show "x \<notin> iov_region v \<Longrightarrow> ?m x = m x"
    using sub by (intro mem_write_outside) auto
qed

section \<open>A range of the backing\<close>

lemma resource_update_ok:
  "iov_disjoint (pre @ vs) \<Longrightarrow> open_pipe s \<Longrightarrow> unat skip + unat len \<le> iov_total vs \<Longrightarrow>
   unat len \<le> length (pending s) \<Longrightarrow>
   \<exists>m' s'. resource_update s m vs skip len = Returned (m', s') \<and> open_pipe s' \<and>
     pending s' = drop (unat len) (pending s) \<and>
     iov_bytes m' (pre @ vs) =
       overwrite (iov_total pre + unat skip) (take (unat len) (pending s)) (iov_bytes m (pre @ vs)) \<and>
     (\<forall>x. x \<notin> \<Union> (iov_region ` set vs) \<longrightarrow> m' x = m x)"
proof (induction s m vs skip len arbitrary: pre rule: resource_update.induct)
  case (2 s m v vs skip len)
  show ?case
  proof (cases "len = 0")
    case False
    then have pos: "0 < len"
      by (simp add: word_neq_0_conv)
    have tot: "iov_total (pre @ [v]) = iov_total pre + unat (iov_len v)"
      by (simp add: iov_total_def)
    show ?thesis
    proof (cases "iov_len v \<le> skip")
      case True
      then have skip: "unat (skip - iov_len v) = unat skip - unat (iov_len v)" "unat (iov_len v) \<le> unat skip"
        by (simp_all add: unat_sub word_le_nat_alt)
      from 2(1) [of "pre @ [v]"] 2(3-6) pos True skip show ?thesis
        by (fastforce simp: tot)
    next
      case False
      define l where "l = (if iov_len v - skip > len then len else iov_len v - skip)"
      have d: "unat (iov_len v - skip) = unat (iov_len v) - unat skip"
        using False by (simp add: unat_sub word_le_nat_alt)
      then have l: "unat l = min (unat len) (unat (iov_len v) - unat skip)"
        by (auto simp: l_def word_less_nat_alt)
      then have rest: "unat (len - l) = unat len - unat l"
        by (simp add: unat_sub word_le_nat_alt)
      have "unat l \<le> length (pending s)"
        using 2(6) l by simp
      from read_from_pipe_ok [OF 2(4) this] obtain s1 where s1: "read_from_pipe s (unat l) = Returned (take (unat l) (pending s), s1)"
        "open_pipe s1" "pending s1 = drop (unat l) (pending s)"
        by blast
      let ?bs = "take (unat l) (pending s)"
      let ?m = "mem_write m (iov_base v + skip) ?bs"
      have fits: "unat skip + length ?bs \<le> unat (iov_len v)"
        using l False by (simp add: word_le_nat_alt)
      note w = iov_bytes_write [OF 2(3) fits, where m = m]
      have more: "unat (len - l) \<le> iov_total vs" "unat (len - l) \<le> length (pending s1)"
        "length ?bs = unat l" "unat l + unat (len - l) = unat len"
        using 2(5,6) l rest s1(3) by (auto simp: min_def)
      obtain m' s' where rec: "resource_update s1 ?m vs 0 (len - l) = Returned (m', s')" "open_pipe s'"
        "pending s' = drop (unat (len - l)) (pending s1)"
        "iov_bytes m' (pre @ v # vs) = overwrite (iov_total pre + unat (iov_len v))
          (take (unat (len - l)) (pending s1)) (iov_bytes ?m (pre @ v # vs))"
        "\<forall>x. x \<notin> \<Union> (iov_region ` set vs) \<longrightarrow> m' x = ?m x"
        using 2(2) [OF _ False l_def, of "pre @ [v]" s1 ?bs] 2(3) pos s1(2) more
        by (auto simp: tot)
      have data: "take (unat len) (pending s) = ?bs @ take (unat (len - l)) (pending s1)"
        unfolding more(4) [symmetric] take_add s1(3) by simp
      have "iov_bytes m' (pre @ v # vs) =
          overwrite (iov_total pre + unat skip) (take (unat len) (pending s)) (iov_bytes m (pre @ v # vs))"
      proof (cases "unat (len - l) = 0")
        case True
        then show ?thesis
          unfolding rec(4) w(1) data by simp
      next
        case more': False
        then have "unat (iov_len v) = unat skip + length ?bs"
          using l False more(3,4) by (auto simp: word_le_nat_alt)
        moreover have "length (pending s1) \<ge> unat (len - l)"
          by (rule more(2))
        ultimately show ?thesis
          unfolding rec(4) w(1) data using more(1)
          by (simp add: overwrite_append [symmetric] iov_total_def add.assoc)
      qed
      with rec(1,2,3,5) s1 more(4) w(2) False pos show ?thesis
        by (auto simp: l_def [symmetric] add.commute)
    qed
  qed (use 2 in simp)
qed simp

section \<open>Lines of the backing\<close>

lemma copy_line_ok:
  "iov_disjoint (pre @ vs) \<Longrightarrow> unat base = iov_total pre \<Longrightarrow> iov_total (pre @ vs) < 2 ^ 64 \<Longrightarrow>
   unat base \<le> unat pos \<Longrightarrow> (\<And>v ws. vs = v # ws \<Longrightarrow> unat pos \<le> unat base + unat (iov_len v)) \<Longrightarrow>
   unat pos + unat len \<le> iov_total (pre @ vs) \<Longrightarrow>
   unat dpos + unat copied + unat len \<le> length data \<Longrightarrow> length data < 2 ^ 64 \<Longrightarrow>
   \<exists>m' pre' vs' base'. copy_line data dpos m vs base pos len copied = Returned (m', vs', base', 0) \<and>
     pre' @ vs' = pre @ vs \<and> unat base' = iov_total pre' \<and> unat base' \<le> unat pos + unat len \<and>
     iov_bytes m' (pre @ vs) =
       overwrite (unat pos) (take (unat len) (drop (unat dpos + unat copied) data)) (iov_bytes m (pre @ vs)) \<and>
     (\<forall>x. x \<notin> \<Union> (iov_region ` set (pre @ vs)) \<longrightarrow> m' x = m x)"
proof (induction data dpos m vs base pos len copied arbitrary: pre rule: copy_line.induct)
  case (1 data dpos m base pos len copied)
  then have "len = 0"
    by (simp add: unat_eq_0 [symmetric])
  with 1 show ?case
    by auto
next
  case (2 data dpos m v vs base pos len copied)
  let ?all = "pre @ v # vs" and ?d = "unat dpos + unat copied"
  show ?case
  proof (cases "len = 0")
    case True
    with 2 show ?thesis
      by (intro exI [of _ m] exI [of _ pre] exI [of _ "v # vs"] exI [of _ base])
        (simp add: copy_line.simps)
  next
    case False
    then have pos: "0 < len"
      by (simp add: word_neq_0_conv)
    define off where "off = pos - base"
    define chunk where "chunk = (if iov_len v - off > len then len else iov_len v - off)"
    have off: "unat off = unat pos - unat base" "unat off \<le> unat (iov_len v)"
      using 2(6,7) by (simp_all add: off_def unat_sub word_le_nat_alt)
    have sub: "unat (iov_len v - off) = unat (iov_len v) - unat off"
      using off(2) by (simp add: unat_sub word_le_nat_alt)
    then have chunk: "unat chunk = min (unat len) (unat (iov_len v) - unat off)"
      by (auto simp: chunk_def word_less_nat_alt)
    have small: "?d + unat len < 2 ^ 64" "unat pos + unat len < 2 ^ 64" "unat base + unat (iov_len v) < 2 ^ 64"
      using 2(4,5,8,9,10) by (simp_all add: iov_total_def)
    have w: "unat (len - chunk) = unat len - unat chunk" "unat (pos + chunk) = unat pos + unat chunk"
      "unat (copied + chunk) = unat copied + unat chunk" "unat (dpos + copied) = ?d"
      "unat (base + iov_len v) = unat base + unat (iov_len v)"
      using chunk small by (simp_all add: unat_sub word_le_nat_alt unat_word_ariths)
    define cs where "cs = take (unat chunk) (drop ?d data)"
    define m1 where "m1 = mem_write m (iov_base v + off) cs"
    have cs: "length cs = unat chunk" "unat off + length cs \<le> unat (iov_len v)" "unat chunk \<le> unat len"
      using chunk 2(9) off(2) by (simp_all add: cs_def)
    have store: "store_chunk m data (dpos + copied) v off chunk = Returned m1"
      using cs 2(9) by (simp add: store_chunk_def w(4) m1_def cs_def)
    note wr = iov_bytes_write [OF 2(3) cs(2), where m = m, folded m1_def]
    have all: "iov_bytes m1 ?all = overwrite (unat pos) cs (iov_bytes m ?all)"
      using wr(1) off(1) 2(4,6) by simp
    note eq = copy_line.simps(2) [of data dpos m v vs base pos len copied, unfolded Let_def,
        folded off_def, folded chunk_def, unfolded store, simplified]
    show ?thesis
    proof (cases "off + chunk = iov_len v")
      case True
      have "unat (off + chunk) = unat off + unat chunk"
        using cs(1,2) unat_u64_less [of "iov_len v"] by (subst unat_add_lem [THEN iffD1]) simp_all
      with True have end': "unat off + unat chunk = unat (iov_len v)"
        by simp
      have tot: "iov_total (pre @ [v]) = iov_total pre + unat (iov_len v)"
        by (simp add: iov_total_def)
      note IH = 2(1) [OF _ refl off_def chunk_def True, of "pre @ [v]" m1, unfolded w tot append_assoc append_Cons append_Nil]
      have "\<exists>m' pre' vs' base'. copy_line data dpos m1 vs (base + iov_len v) (pos + chunk) (len - chunk)
          (copied + chunk) = Returned (m', vs', base', 0) \<and> pre' @ vs' = ?all \<and> unat base' = iov_total pre' \<and>
        unat base' \<le> unat pos + unat chunk + (unat len - unat chunk) \<and>
        iov_bytes m' ?all = overwrite (unat pos + unat chunk)
          (take (unat len - unat chunk) (drop (unat dpos + (unat copied + unat chunk)) data)) (iov_bytes m1 ?all) \<and>
        (\<forall>x. x \<notin> \<Union> (iov_region ` set ?all) \<longrightarrow> m' x = m1 x)"
        by (rule IH) (use 2(3-6,8-10) pos end' off cs(3) in \<open>simp_all\<close>)
      then obtain m' pre' vs' base' where rec: "copy_line data dpos m1 vs (base + iov_len v) (pos + chunk) (len - chunk)
          (copied + chunk) = Returned (m', vs', base', 0)" "pre' @ vs' = ?all" "unat base' = iov_total pre'"
        "unat base' \<le> unat pos + unat len"
        "iov_bytes m' ?all = overwrite (unat pos + unat chunk)
          (take (unat len - unat chunk) (drop (?d + unat chunk) data)) (iov_bytes m1 ?all)"
        "\<forall>x. x \<notin> \<Union> (iov_region ` set ?all) \<longrightarrow> m' x = m1 x"
        using cs(3) by (auto simp: add.assoc)
      have "take (unat len) (drop ?d data) =
          cs @ take (unat len - unat chunk) (drop (?d + unat chunk) data)"
        using cs(3) take_add [of "unat chunk" "unat len - unat chunk" "drop ?d data"]
        by (simp add: cs_def add.commute)
      then have "iov_bytes m' ?all = overwrite (unat pos) (take (unat len) (drop ?d data)) (iov_bytes m ?all)"
        unfolding rec(5) all using 2(8) cs 2(9)
        by (simp add: overwrite_append [symmetric])
      with rec wr(2) eq pos True show ?thesis
        by auto
    next
      case no: False
      then have "chunk = len"
        using off by (auto simp: chunk_def)
      with eq no pos all wr(2) cs_def 2(4,6) show ?thesis
        by (intro exI [of _ m1] exI [of _ pre] exI [of _ "v # vs"] exI [of _ base])
          (auto simp: copy_line.simps)
    qed
  qed
qed

lemma seek_line_ok:
  "unat base = iov_total pre \<Longrightarrow> iov_total (pre @ vs) < 2 ^ 64 \<Longrightarrow> unat base \<le> unat pos \<Longrightarrow>
   \<exists>pre' vs' base'. seek_line pos vs base = (vs', base') \<and> pre' @ vs' = pre @ vs \<and>
     unat base' = iov_total pre' \<and> unat base' \<le> unat pos \<and>
     (\<forall>v ws. vs' = v # ws \<longrightarrow> unat pos \<le> unat base' + unat (iov_len v))"
proof (induction pos vs base arbitrary: pre rule: seek_line.induct)
  case (2 pos v vs base)
  have e: "unat (base + iov_len v) = iov_total (pre @ [v])"
    using 2(2,3) by (simp add: iov_total_def unat_word_ariths)
  show ?case
  proof (cases "pos < base + iov_len v")
    case True
    with 2(2,4) e show ?thesis
      by (intro exI [of _ pre] exI [of _ "v # vs"] exI [of _ base])
        (simp add: iov_total_def word_less_nat_alt)
  next
    case False
    then have "unat (base + iov_len v) \<le> unat pos"
      by (simp add: word_less_nat_alt)
    from 2(1) [OF refl False e _ this] 2(3) False show ?thesis
      by simp
  qed
qed auto

text \<open>The backing after some lines of the data have been copied.\<close>

definition lines_written :: "nat \<Rightarrow> nat \<Rightarrow> nat \<Rightarrow> byte list \<Rightarrow> nat \<Rightarrow> nat \<Rightarrow> byte list \<Rightarrow> byte list" where
  "lines_written start stride w data line n old =
     foldl (\<lambda>bs l. overwrite (start + l * stride) (take w (drop (l * stride) data)) bs) old [line..<line + n]"

lemma lines_written_Suc:
  "lines_written start stride w data line (Suc n) old =
     lines_written start stride w data (Suc line) n
       (overwrite (start + line * stride) (take w (drop (line * stride) data)) old)"
  by (simp add: lines_written_def upt_conv_Cons del: upt_Suc)

lemma lines_written_nth:
  assumes "\<And>l. l < n \<Longrightarrow> start + l * stride + w \<le> length old" "\<And>l. l < n \<Longrightarrow> l * stride + w \<le> length data"
    and "j < length old"
  shows "length (lines_written start stride w data 0 n old) = length old \<and>
    lines_written start stride w data 0 n old ! j =
      (if \<exists>l<n. start + l * stride \<le> j \<and> j < start + l * stride + w then data ! (j - start) else old ! j)"
  using assms(1,2)
proof (induction n)
  case (Suc n)
  let ?line = "take w (drop (n * stride) data)" and ?prev = "lines_written start stride w data 0 n old"
  have len: "length ?line = w" "start + n * stride + w \<le> length old"
    using Suc(2,3) [of n] by auto
  have step: "lines_written start stride w data 0 (Suc n) old = overwrite (start + n * stride) ?line ?prev"
    by (simp add: lines_written_def)
  have IH: "length ?prev = length old"
    "?prev ! j = (if \<exists>l<n. start + l * stride \<le> j \<and> j < start + l * stride + w then data ! (j - start) else old ! j)"
    using Suc by auto
  have "?line ! (j - (start + n * stride)) = data ! (j - start)"
    if "start + n * stride \<le> j" "j < start + n * stride + w"
    using that len by (simp add: nth_append)
  with IH len assms(3) show ?case
    unfolding step by (auto simp: nth_overwrite less_Suc_eq)
qed (simp add: lines_written_def)

lemma copy_lines_ok:
  "iov_disjoint (pre @ vs) \<Longrightarrow> unat base = iov_total pre \<Longrightarrow> iov_total (pre @ vs) < 2 ^ 64 \<Longrightarrow>
   unat w \<le> unat stride \<Longrightarrow> length data < 2 ^ 64 \<Longrightarrow>
   (0 < n \<Longrightarrow> unat base \<le> unat start + line * unat stride) \<Longrightarrow>
   (\<And>l. l < line + n \<Longrightarrow> unat start + l * unat stride + unat w \<le> iov_total (pre @ vs)) \<Longrightarrow>
   (\<And>l. l < line + n \<Longrightarrow> l * unat stride + unat w \<le> length data) \<Longrightarrow>
   \<exists>m'. copy_lines data start stride w line n m vs base = Returned m' \<and>
     iov_bytes m' (pre @ vs) =
       lines_written (unat start) (unat stride) (unat w) data line n (iov_bytes m (pre @ vs)) \<and>
     (\<forall>x. x \<notin> \<Union> (iov_region ` set (pre @ vs)) \<longrightarrow> m' x = m x)"
proof (induction data start stride w line n m vs base arbitrary: pre rule: copy_lines.induct)
  case (1 data start stride w line m vs base)
  then show ?case
    by (simp add: lines_written_def)
next
  case (2 data start stride w line n m vs base)
  let ?all = "pre @ vs" and ?dpos = "of_nat line * stride"
  have fit: "unat start + line * unat stride + unat w \<le> iov_total ?all" "line * unat stride + unat w \<le> length data"
    using 2(8,9) [of line] by auto
  have d: "unat ?dpos = line * unat stride"
    using fit(2) 2(6) by (simp add: unat_word_ariths(2) unat_of_nat take_bit_eq_mod mod_mult_left_eq)
  have p: "unat (start + ?dpos) = unat start + line * unat stride"
    using fit 2(4) by (simp add: unat_word_ariths(1) d)
  obtain pre1 vs1 base1 where seek: "seek_line (start + ?dpos) vs base = (vs1, base1)" "pre1 @ vs1 = ?all"
    "unat base1 = iov_total pre1" "unat base1 \<le> unat (start + ?dpos)"
    "\<And>v ws. vs1 = v # ws \<Longrightarrow> unat (start + ?dpos) \<le> unat base1 + unat (iov_len v)"
    using seek_line_ok [OF 2(3,4), of "start + ?dpos"] 2(7) p by auto
  obtain m1 pre2 vs2 base2 where line: "copy_line data ?dpos m vs1 base1 (start + ?dpos) w 0 =
      Returned (m1, vs2, base2, 0)" "pre2 @ vs2 = ?all" "unat base2 = iov_total pre2"
    "unat base2 \<le> unat (start + ?dpos) + unat w"
    "iov_bytes m1 ?all = overwrite (unat (start + ?dpos)) (take (unat w) (drop (unat ?dpos) data)) (iov_bytes m ?all)"
    "\<forall>x. x \<notin> \<Union> (iov_region ` set ?all) \<longrightarrow> m1 x = m x"
    using copy_line_ok [of pre1 vs1 base1 "start + ?dpos" w ?dpos 0 data m] 2(2,4,6) seek fit p d by auto
  have "\<exists>m'. copy_lines data start stride w (line + 1) n m1 vs2 base2 = Returned m' \<and>
     iov_bytes m' (pre2 @ vs2) =
       lines_written (unat start) (unat stride) (unat w) data (line + 1) n (iov_bytes m1 (pre2 @ vs2)) \<and>
     (\<forall>x. x \<notin> \<Union> (iov_region ` set (pre2 @ vs2)) \<longrightarrow> m' x = m1 x)"
    by (rule 2(1) [OF refl refl seek(1) [symmetric], where xf = 0])
      (use 2(2,4,5,6,8,9) line p in auto)
  with seek(1) line d p show ?case
    by (auto simp: lines_written_Suc Let_def)
qed

section \<open>A transfer back to the guest\<close>

text \<open>The stream of a transfer, and the state of the thread when its header has been read.\<close>

definition transfer_bytes :: "u32 \<Rightarrow> u32 \<Rightarrow> byte list \<Rightarrow> u32 \<Rightarrow> byte list \<Rightarrow> byte list" where
  "transfer_bytes bpp stride tb off data =
     rvgpu_header_bytes (of_nat (length tb)) 0 0 bpp stride @ tb @ patch_bytes 0 off (of_nat (length data)) @ data"

lemma header_size: "un_le32 (rvgpu_header_bytes sz idx flags bpp stride) = sz"
  "length (rvgpu_header_bytes sz idx flags bpp stride) = 16"
  by (simp_all add: rvgpu_header_bytes_def)

lemma resource_transfer_read:
  assumes "open_pipe s" "pending s = transfer_bytes bpp stride tb off data @ rest"
    and "length tb = unat (sz_t_h3d (e_sizes env))" "length tb < 2 ^ 32" "length data < 2 ^ 32"
    and "rvgpu_ctx_res_find c (t3d_resource_id (t_h3d (e_decode env tb))) = Some res" "backing res = Some iovs"
  shows "\<exists>s3. open_pipe s3 \<and> pending s3 = data @ rest \<and> resource_transfer env c m s =
    (let t = t_h3d (e_decode env tb) in
     if box_w (t3d_box t) = ri_width (res_info res) \<and> box_h (t3d_box t) = ri_height (res_info res)
     then resource_update s3 m iovs (ucast off) (of_nat (length data))
     else
       let width = drop_bit (unat (t3d_level t)) (ri_width (res_info res));
           bpp = of_nat (get_format_bpp (ri_format (res_info res))) :: u32;
           stride = (if t3d_stride t \<noteq> 0 then t3d_stride t else bpp * width);
           line_len = box_w (t3d_box t) * bpp
       in obind (read_from_pipe s3 (length data)) (\<lambda>(data, s4).
            obind (copy_lines data (ucast off) (ucast stride) (ucast line_len) 0
                     (unat (box_h (t3d_box t))) m iovs 0)
              (\<lambda>m'. Returned (m', s4))))"
proof -
  let ?h = "rvgpu_header_bytes (of_nat (length tb)) 0 0 bpp stride"
  let ?p = "patch_bytes 0 off (of_nat (length data))"
  have num: "unat (of_nat (length data) :: u32) = length data" "unat (of_nat (length tb) :: u32) = length tb"
    "(ucast (of_nat (length tb) :: u32) :: u64) = sz_t_h3d (e_sizes env)"
    "(ucast (of_nat (length data) :: u32) :: u64) = of_nat (length data)"
    using assms(3,4,5) by (simp_all add: unat_of_nat take_bit_nat_eq_self_iff word_unat_eq_iff
        unsigned_ucast_eq unsigned_take_bit_eq)
  have all: "pending s = ?h @ tb @ ?p @ data @ rest"
    using assms(2) by (simp add: transfer_bytes_def)
  obtain s1 where s1: "read_from_pipe s 16 = Returned (?h, s1)" "open_pipe s1" "pending s1 = tb @ ?p @ data @ rest"
    using read_from_pipe_ok [OF assms(1), of 16] by (auto simp: all header_size)
  obtain s2 where s2: "read_from_pipe s1 (length tb) = Returned (tb, s2)" "open_pipe s2" "pending s2 = ?p @ data @ rest"
    using read_from_pipe_ok [OF s1(2), of "length tb"] by (auto simp: s1(3))
  obtain s3 where s3: "read_from_pipe s2 12 = Returned (?p, s3)" "open_pipe s3" "pending s3 = data @ rest"
    using read_from_pipe_ok [OF s2(2), of 12] by (auto simp: s2(3) patch_header)
  show ?thesis
    using s1 s2 s3 num assms(3,6,7)
    by (intro exI [of _ s3]) (simp add: resource_transfer_def header_size patch_header Let_def)
qed

text \<open>
  C39. A resource read back in full arrives in the guest: for a message that covers the width and
  height of the resource, \<open>resource_transfer\<close> replaces the bytes of the backing from the patch's
  offset on by the bytes the host sent, across all the pages it spans, writes nowhere else, and
  leaves the stream at the next message.
\<close>

theorem resource_transfer_full:
  assumes "open_pipe s" "pending s = transfer_bytes bpp stride tb off data @ rest"
    and "length tb = unat (sz_t_h3d (e_sizes env))" "length tb < 2 ^ 32" "length data < 2 ^ 32"
    and "rvgpu_ctx_res_find c (t3d_resource_id (t_h3d (e_decode env tb))) = Some res" "backing res = Some iovs"
    and "box_w (t3d_box (t_h3d (e_decode env tb))) = ri_width (res_info res)"
      "box_h (t3d_box (t_h3d (e_decode env tb))) = ri_height (res_info res)"
    and "iov_disjoint iovs" "unat off + length data \<le> iov_total iovs"
  shows "\<exists>m' s'. resource_transfer env c m s = Returned (m', s') \<and> pending s' = rest \<and>
    iov_bytes m' iovs = overwrite (unat off) data (iov_bytes m iovs) \<and>
    (\<forall>x. x \<notin> \<Union> (iov_region ` set iovs) \<longrightarrow> m' x = m x)"
proof -
  obtain s3 where s3: "open_pipe s3" "pending s3 = data @ rest"
    "resource_transfer env c m s = resource_update s3 m iovs (ucast off) (of_nat (length data))"
    using resource_transfer_read [OF assms(1-7), of m] assms(8,9) by (auto simp: Let_def)
  have "unat (of_nat (length data) :: u64) = length data"
    using assms(5) by (simp add: unat_of_nat take_bit_nat_eq_self_iff)
  with resource_update_ok [of "[]" iovs s3 "ucast off" "of_nat (length data)" m] s3 assms(10,11)
  show ?thesis
    by auto
qed

text \<open>
  A part of a resource read back arrives line by line: for a box smaller than the resource, with
  a stride of at least a line, every byte of the backing that belongs to a line of the box becomes
  the byte of the received data at the same distance from the offset, all other bytes of the backing
  keep their values, and nothing outside the backing changes, wherever the page boundaries lie.
\<close>

theorem resource_transfer_box:
  assumes "open_pipe s" "pending s = transfer_bytes bpp stride tb off data @ rest"
    and "length tb = unat (sz_t_h3d (e_sizes env))" "length tb < 2 ^ 32" "length data < 2 ^ 32"
    and "rvgpu_ctx_res_find c (t3d_resource_id t) = Some res" "backing res = Some iovs"
    and t: "t = t_h3d (e_decode env tb)"
    and "\<not> (box_w (t3d_box t) = ri_width (res_info res) \<and> box_h (t3d_box t) = ri_height (res_info res))"
    and w: "w = unat (box_w (t3d_box t) * of_nat (get_format_bpp (ri_format (res_info res))) :: u32)"
    and st: "st = unat (t3d_stride t)" "0 < st" "w \<le> st"
    and "iov_disjoint iovs" "iov_total iovs < 2 ^ 64"
    and "\<And>l. l < unat (box_h (t3d_box t)) \<Longrightarrow> unat off + l * st + w \<le> iov_total iovs"
    and "\<And>l. l < unat (box_h (t3d_box t)) \<Longrightarrow> l * st + w \<le> length data"
  shows "\<exists>m' s'. resource_transfer env c m s = Returned (m', s') \<and> pending s' = rest \<and>
    (\<forall>j < iov_total iovs. iov_bytes m' iovs ! j =
      (if \<exists>l < unat (box_h (t3d_box t)). unat off + l * st \<le> j \<and> j < unat off + l * st + w
       then data ! (j - unat off) else iov_bytes m iovs ! j)) \<and>
    (\<forall>x. x \<notin> \<Union> (iov_region ` set iovs) \<longrightarrow> m' x = m x)"
proof -
  let ?w = "box_w (t3d_box t) * of_nat (get_format_bpp (ri_format (res_info res))) :: u32"
  let ?h = "unat (box_h (t3d_box t))"
  have "t3d_stride t \<noteq> 0"
    using st by auto
  with resource_transfer_read [OF assms(1-5) assms(6,7) [unfolded t], of m] assms(9)
  obtain s3 where s3: "open_pipe s3" "pending s3 = data @ rest"
    "resource_transfer env c m s = obind (read_from_pipe s3 (length data)) (\<lambda>(data, s4).
       obind (copy_lines data (ucast off) (ucast (t3d_stride t)) (ucast ?w) 0 ?h m iovs 0)
         (\<lambda>m'. Returned (m', s4)))"
    unfolding t by (auto simp: Let_def)
  obtain s4 where s4: "read_from_pipe s3 (length data) = Returned (data, s4)" "pending s4 = rest"
    using read_from_pipe_ok [OF s3(1), of "length data"] by (auto simp: s3(2))
  obtain m' where m': "copy_lines data (ucast off) (ucast (t3d_stride t)) (ucast ?w) 0 ?h m iovs 0 = Returned m'"
    "iov_bytes m' iovs = lines_written (unat off) st w data 0 ?h (iov_bytes m iovs)"
    "\<forall>x. x \<notin> \<Union> (iov_region ` set iovs) \<longrightarrow> m' x = m x"
    using copy_lines_ok [of "[]" iovs 0 "ucast ?w" "ucast (t3d_stride t)" data ?h "ucast off" 0 m]
      assms(5,14-17) st w by auto
  have "iov_bytes m' iovs ! j = (if \<exists>l < ?h. unat off + l * st \<le> j \<and> j < unat off + l * st + w
      then data ! (j - unat off) else iov_bytes m iovs ! j)" if "j < iov_total iovs" for j
    unfolding m'(2) using lines_written_nth [of ?h "unat off" st w "iov_bytes m iovs" data j] assms(16,17) that
    by simp
  with s3 s4 m' show ?thesis
    by auto
qed

text \<open>A resource of two by two pixels on two regions that split its first line.\<close>

lemma region_disjoint:
  assumes "unat a + n \<le> unat b" "unat b + k \<le> 2 ^ 64"
  shows "region a n \<inter> region b k = {}"
proof -
  have False if "unat (x - a) < n" "unat (x - b) < k" for x
  proof -
    have "unat x = unat (a + (x - a))" "unat x = unat (b + (x - b))"
      by simp_all
    moreover have "unat (a + (x - a)) = unat a + unat (x - a)"
      using assms that unat_u64_less [of b] by (subst unat_add_lem [THEN iffD1]) simp_all
    moreover have "unat (b + (x - b)) = unat b + unat (x - b)"
      using assms that by (subst unat_add_lem [THEN iffD1]) simp_all
    ultimately show False
      using assms that by linarith
  qed
  then show ?thesis
    by (auto simp: region_def)
qed

definition back_iovs :: "iovec list" where
  "back_iovs = [\<lparr> iov_base = 0x1000, iov_len = 6 \<rparr>, \<lparr> iov_base = 0x8000, iov_len = 10 \<rparr>]"

definition back_ctx :: ctx_priv where
  "back_ctx = (demo_ctx [])\<lparr>reslist := [\<lparr> resid = 7, backing = Some back_iovs,
     res_info = \<lparr> ri_target = 2, ri_format = VIRGL_FORMAT_R8G8B8A8_UNORM, ri_width = 2, ri_height = 2,
       ri_depth = 1, ri_array_size = 1, ri_last_level = 0, ri_flags = 0, ri_bpp = 4 \<rparr> \<rparr>]\<rparr>"

definition back_cmd :: "u32 \<Rightarrow> virtio_gpu_cmd" where
  "back_cmd width = zero_cmd\<lparr>t_h3d := \<lparr> t3d_box = \<lparr> box_x = 0, box_y = 0, box_z = 0, box_w = width, box_h = 2, box_d = 1 \<rparr>,
     t3d_offset = 0, t3d_resource_id = 7, t3d_level = 0, t3d_stride = 8, t3d_layer_stride = 0 \<rparr>\<rparr>"

definition back_env :: "u32 \<Rightarrow> gpu_env" where
  "back_env width =
     \<lparr> e_mmap = (\<lambda>_ _ _. None), e_sizes = linux_sizes, e_decode = (\<lambda>_. back_cmd width),
       e_hdr_bytes = (\<lambda>h. replicate 24 0), e_sz_rdi = 408, e_sz_ci = 40, e_sz_c = 24, e_dpys = [] \<rparr>"

definition back_host :: "byte list \<Rightarrow> rvgpu_scanout" where
  "back_host data = \<lparr> activated = True, snd_pipe = (\<lambda>_. []),
     rcv_pipe = (\<lambda>_. [Chunk (take 20 (transfer_bytes 4 8 (replicate 72 0) 0 data)),
       Chunk (drop 20 (transfer_bytes 4 8 (replicate 72 0) 0 data))]) \<rparr>"

lemma back_facts:
  "iov_disjoint back_iovs" "iov_total back_iovs = 16"
  "open_pipe (back_host data)" "pending (back_host data) = transfer_bytes 4 8 (replicate 72 0) 0 data"
proof -
  show "iov_disjoint back_iovs"
    by (simp add: back_iovs_def iov_disjoint_def iov_region_def region_disjoint)
  have "20 < length (transfer_bytes 4 8 (replicate 72 0) 0 data)"
    by (simp add: transfer_bytes_def header_size)
  then show "open_pipe (back_host data)" "pending (back_host data) = transfer_bytes 4 8 (replicate 72 0) 0 data"
    by (auto simp: open_pipe_def pending_def back_host_def)
qed (simp add: back_iovs_def)

lemma back_res:
  "\<exists>res. rvgpu_ctx_res_find back_ctx 7 = Some res \<and> backing res = Some back_iovs \<and>
     ri_width (res_info res) = 2 \<and> ri_height (res_info res) = 2 \<and> get_format_bpp (ri_format (res_info res)) = 4"
  by (simp add: back_ctx_def rvgpu_ctx_res_find_def get_format_bpp_def format_bpp_groups_def string_facts)

lemma back_env_facts:
  "sz_t_h3d (e_sizes (back_env n)) = 72" "e_decode (back_env n) tb = back_cmd n"
  "t3d_resource_id (t_h3d (back_cmd n)) = 7" "t3d_stride (t_h3d (back_cmd n)) = 8"
  "box_w (t3d_box (t_h3d (back_cmd n))) = n" "box_h (t3d_box (t_h3d (back_cmd n))) = 2"
  by (simp_all add: back_env_def linux_sizes_def back_cmd_def)

lemma back_zero: "iov_bytes (\<lambda>_. 0) back_iovs = [0, 0, 0, 0, 0, 0, 0, 0, 0, 0, 0, 0, 0, 0, 0, 0]"
  by code_simp

lemma resource_transfer_full_witness:
  "\<exists>m' s'. resource_transfer (back_env 2) back_ctx (\<lambda>_. 0) (back_host [1, 2, 3, 4, 5, 6, 7, 8, 9, 10]) =
      Returned (m', s') \<and> pending s' = [] \<and>
    iov_bytes m' back_iovs = [1, 2, 3, 4, 5, 6, 7, 8, 9, 10, 0, 0, 0, 0, 0, 0]"
proof -
  let ?data = "[1, 2, 3, 4, 5, 6, 7, 8, 9, 10]"
  obtain res where res: "rvgpu_ctx_res_find back_ctx 7 = Some res" "backing res = Some back_iovs"
    "ri_width (res_info res) = 2" "ri_height (res_info res) = 2"
    using back_res by blast
  have "\<exists>m' s'. resource_transfer (back_env 2) back_ctx (\<lambda>_. 0) (back_host ?data) = Returned (m', s') \<and>
    pending s' = [] \<and> iov_bytes m' back_iovs = overwrite (unat (0 :: u32)) ?data (iov_bytes (\<lambda>_. 0) back_iovs) \<and>
    (\<forall>x. x \<notin> \<Union> (iov_region ` set back_iovs) \<longrightarrow> m' x = 0)"
    by (rule resource_transfer_full [where bpp = 4 and stride = 8 and tb = "replicate 72 0" and res = res])
      (simp_all add: back_facts back_env_facts res)
  then show ?thesis
    by (simp add: back_zero overwrite_def) blast
qed

lemma resource_transfer_box_witness:
  "\<exists>m' s'. resource_transfer (back_env 1) back_ctx (\<lambda>_. 0) (back_host [1, 2, 3, 4, 5, 6, 7, 8, 9, 10, 11, 12]) =
      Returned (m', s') \<and> pending s' = [] \<and>
    iov_bytes m' back_iovs ! 3 = 4 \<and> iov_bytes m' back_iovs ! 4 = 0 \<and> iov_bytes m' back_iovs ! 8 = 9"
proof -
  let ?data = "[1, 2, 3, 4, 5, 6, 7, 8, 9, 10, 11, 12]"
  obtain res where res: "rvgpu_ctx_res_find back_ctx 7 = Some res" "backing res = Some back_iovs"
    "ri_width (res_info res) = 2" "get_format_bpp (ri_format (res_info res)) = 4"
    using back_res by blast
  have two: "(\<exists>l<2. P l) \<longleftrightarrow> P 0 \<or> P (1 :: nat)" for P
    by (auto simp: numeral_2_eq_2 less_Suc_eq)
  have "\<exists>m' s'. resource_transfer (back_env 1) back_ctx (\<lambda>_. 0) (back_host ?data) = Returned (m', s') \<and>
    pending s' = [] \<and>
    (\<forall>j < iov_total back_iovs. iov_bytes m' back_iovs ! j =
      (if \<exists>l < unat (box_h (t3d_box (t_h3d (back_cmd 1)))). unat (0 :: u32) + l * 8 \<le> j \<and> j < unat (0 :: u32) + l * 8 + 4
       then ?data ! (j - unat (0 :: u32)) else iov_bytes (\<lambda>_. 0) back_iovs ! j)) \<and>
    (\<forall>x. x \<notin> \<Union> (iov_region ` set back_iovs) \<longrightarrow> m' x = 0)"
    by (rule resource_transfer_box [where bpp = 4 and stride = 8 and tb = "replicate 72 0" and res = res])
      (simp_all add: back_facts back_env_facts res)
  then obtain m' s' where "resource_transfer (back_env 1) back_ctx (\<lambda>_. 0) (back_host ?data) = Returned (m', s')"
    "pending s' = []"
    "\<And>j. j < 16 \<Longrightarrow> iov_bytes m' back_iovs ! j =
      (if j < 4 \<or> 8 \<le> j \<and> j < 12 then ?data ! j else iov_bytes (\<lambda>_. 0) back_iovs ! j)"
    by (auto simp: back_env_facts back_facts two)
  then show ?thesis
    by (intro exI [of _ m'] exI [of _ s']) (simp add: back_zero)
qed

section \<open>What goes wrong\<close>

text \<open>
  A message for a resource that has no backing any more is left in the middle: its data stay in the
  stream and are read as the next message.
\<close>

lemma resource_transfer_unknown:
  assumes "open_pipe s" "pending s = transfer_bytes bpp stride tb off data @ rest"
    and "length tb = unat (sz_t_h3d (e_sizes env))" "length tb < 2 ^ 32"
    and "rvgpu_ctx_res_find c (t3d_resource_id (t_h3d (e_decode env tb))) = None"
  shows "\<exists>s'. resource_transfer env c m s = Returned (m, s') \<and> pending s' = data @ rest"
proof -
  let ?h = "rvgpu_header_bytes (of_nat (length tb)) 0 0 bpp stride"
  let ?p = "patch_bytes 0 off (of_nat (length data))"
  have num: "(ucast (of_nat (length tb) :: u32) :: u64) = sz_t_h3d (e_sizes env)"
    using assms(3,4) by (simp add: word_unat_eq_iff unsigned_ucast_eq unsigned_take_bit_eq
        unat_of_nat take_bit_nat_eq_self_iff)
  have all: "pending s = ?h @ tb @ ?p @ data @ rest"
    using assms(2) by (simp add: transfer_bytes_def)
  obtain s1 where s1: "read_from_pipe s 16 = Returned (?h, s1)" "open_pipe s1" "pending s1 = tb @ ?p @ data @ rest"
    using read_from_pipe_ok [OF assms(1), of 16] by (auto simp: all header_size)
  obtain s2 where s2: "read_from_pipe s1 (length tb) = Returned (tb, s2)" "open_pipe s2" "pending s2 = ?p @ data @ rest"
    using read_from_pipe_ok [OF s1(2), of "length tb"] by (auto simp: s1(3))
  obtain s3 where s3: "read_from_pipe s2 12 = Returned (?p, s3)" "open_pipe s3" "pending s3 = data @ rest"
    using read_from_pipe_ok [OF s2(2), of 12] by (auto simp: s2(3) patch_header)
  show ?thesis
    using s1 s2 s3 num assms(3,5)
    by (intro exI [of _ s3]) (simp add: resource_transfer_def header_size patch_header Let_def)
qed

text \<open>
  A stride shorter than a line moves the position back below the current region, and the offset in
  the region wraps: the second line of four bytes, two bytes after the first, on regions of three and
  thirteen bytes.
\<close>

lemma copy_line_0: "copy_line data dpos m vs base pos 0 copied = Returned (m, vs, base, 0)"
  by (cases vs) (simp_all add: copy_line.simps)

lemma copy_lines_short_stride:
  "copy_lines [1, 2, 3, 4, 5, 6] 0 2 4 0 2 (\<lambda>_. 0)
     [\<lparr> iov_base = 0x1000, iov_len = 3 \<rparr>, \<lparr> iov_base = 0x8000, iov_len = 13 \<rparr>] 0 = Crashed ''iov_base''"
proof -
  let ?v = "\<lparr> iov_base = 0x1000, iov_len = 3 \<rparr>" and ?w = "\<lparr> iov_base = 0x8000, iov_len = 13 \<rparr>"
  let ?data = "[1, 2, 3, 4, 5, 6]"
  have first: "\<exists>m'. copy_line ?data 0 m [?v, ?w] 0 0 4 0 = Returned (m', [?w], 3, 0)" for m
    by (subst copy_line.simps, simp add: store_chunk_def, subst copy_line.simps)
      (simp add: store_chunk_def copy_line_0)
  have second: "copy_line ?data 2 m [?w] 3 2 4 0 = Crashed ''iov_base''" for m
    by (subst copy_line.simps) (simp add: store_chunk_def Let_def unsigned_minus_1_eq_mask mask_eq_exp_minus_1)
  have "copy_lines ?data 0 2 4 0 (Suc (Suc 0)) (\<lambda>_. 0) [?v, ?w] 0 = Crashed ''iov_base''"
    using first [of "\<lambda>_. 0"] second by auto
  then show ?thesis
    unfolding numeral_2_eq_2 .
qed

end
