(* ===== verification/Virgl_Safety.thy ===== *)
theory Virgl_Safety
  imports Virgl_Stream
begin

text \<open>
  The command loop of the renderer as a whole: it comes to an end on every stream, and it keeps the
  host copies of the backings alive and within their bounds.
\<close>

section \<open>The loop ends\<close>

text \<open>\<open>ends m P\<close>: \<open>m\<close> is over at some time, and its result, if it has one, satisfies \<open>P\<close>.\<close>

definition ends :: "'a outcome \<Rightarrow> ('a \<Rightarrow> bool) \<Rightarrow> bool" where
  "ends m P = (case m of Returned x \<Rightarrow> P x | Diverged \<Rightarrow> False | _ \<Rightarrow> True)"

lemma ends_simps [simp]:
  "ends (Returned x) P = P x" "ends (Exited e) P" "ends (Crashed e) P"
  by (simp_all add: ends_def)

lemma ends_bind: "ends m Q \<Longrightarrow> (\<And>x. m = Returned x \<Longrightarrow> Q x \<Longrightarrow> ends (f x) P) \<Longrightarrow> ends (obind m f) P"
  by (cases m) (simp_all add: ends_def)

lemma ends_mono: "ends m Q \<Longrightarrow> (\<And>x. Q x \<Longrightarrow> P x) \<Longrightarrow> ends m P"
  by (cases m) (simp_all add: ends_def)

lemma ends_result: "ends m (\<lambda>_. True) \<Longrightarrow> (\<And>x. m = Returned x \<Longrightarrow> P x) \<Longrightarrow> ends m P"
  by (cases m) (simp_all add: ends_def)

lemma ends_write_fences: "ends (write_fences fs s) (\<lambda>s'. stream_size s' = stream_size s)"
proof (induction fs arbitrary: s)
  case (Cons f fs)
  have "ends (virgl_write_fence f s) (\<lambda>s'. stream_size s' = stream_size s)"
    by (simp add: virgl_write_fence_def Let_def stream_size_def split: prod.split)
  then show ?case
    by (auto intro!: ends_bind [OF \<open>ends (virgl_write_fence f s) _\<close>] ends_mono [OF Cons])
qed simp

lemma ends_virgl_poll: "ends (virgl_poll ops s) (\<lambda>s'. stream_size s' = stream_size s)"
  using ends_write_fences [of _ "s\<lparr>pr_virgl := _\<rparr>"]
  by (auto simp: virgl_poll_def stream_size_def split: prod.split)

lemma ends_poll_wait: "ends (poll_wait ops es s) (\<lambda>_. True)"
  by (induction ops es s rule: poll_wait.induct) (auto intro: ends_bind ends_virgl_poll)

lemma ends_readbuf: "ends (rvgpu_pr_readbuf ops s) (\<lambda>_. True)"
  by (auto simp: rvgpu_pr_readbuf_def intro!: ends_bind [OF ends_poll_wait]
      split: option.split read_result.split)

lemma ends_pr_read:
  "ends (rvgpu_pr_read ops n s) (\<lambda>(bs, s'). stream_size s' + length bs \<le> stream_size s)"
proof (rule ends_result)
  show "ends (rvgpu_pr_read ops n s) (\<lambda>_. True)"
  proof (induction ops n s rule: rvgpu_pr_read.induct)
    case (1 ops n s)
    define avail where "avail = min (length (pr_buffer s) - pr_bufpos s) n"
    define s1 where "s1 = s\<lparr>pr_bufpos := pr_bufpos s + avail\<rparr>"
    note IH = 1 [OF avail_def refl s1_def]
    show ?case
      by (subst rvgpu_pr_read.simps, unfold Let_def, fold avail_def, fold s1_def)
        (auto intro!: ends_bind [OF ends_readbuf] ends_bind [OF IH])
  qed
qed (auto dest: rvgpu_pr_read_size)

lemma ends_load_patched:
  "ends (load_resource_patched ops p s) (\<lambda>(ok, s'). stream_size s' \<le> stream_size s)"
proof (induction ops p s rule: load_resource_patched.induct)
  case (1 ops p s)
  show ?case
  proof (subst load_resource_patched.simps, unfold Let_def, rule ends_bind [OF ends_pr_read], clarsimp split: option.split)
    fix hb s1 old
    assume hb: "rvgpu_pr_read ops 12 s = Returned (hb, s1)" "stream_size s1 + 12 \<le> stream_size s"
      "length hb = 12"
    let ?off = "un_le32 (drop 4 hb)" and ?len = "un_le32 (drop 8 hb)"
    assume h: "?len \<noteq> 0" "pr_heap s1 p = Some old" "\<not> length old < unat ?off + unat ?len"
    show "ends (obind (rvgpu_pr_read ops (unat ?len) s1) (\<lambda>(bs, s2).
        obind (store_bytes p (unat ?off) bs s2) (\<lambda>s3.
          if length bs \<noteq> unat ?len then Returned (False, s3) else load_resource_patched ops p s3)))
        (\<lambda>(ok, s'). stream_size s' \<le> stream_size s)"
    proof (rule ends_bind [OF ends_pr_read], clarify)
      fix bs s2
      assume bs: "rvgpu_pr_read ops (unat ?len) s1 = Returned (bs, s2)" "stream_size s2 + length bs \<le> stream_size s1"
      show "ends (obind (store_bytes p (unat ?off) bs s2) (\<lambda>s3.
          if length bs \<noteq> unat ?len then Returned (False, s3) else load_resource_patched ops p s3))
          (\<lambda>(ok, s'). stream_size s' \<le> stream_size s)"
      proof (cases "store_bytes p (unat ?off) bs s2")
        case (Returned s3)
        with store_bytes_size [OF Returned] bs hb h
          ends_mono [OF 1 [OF hb(1) refl refl refl _ h(1) h(2) _ bs(1) refl Returned]] show ?thesis
          by auto
      next
        case Diverged
        then show ?thesis
          by (simp add: store_bytes_def split: option.splits if_splits)
      qed simp_all
    qed
  qed
qed

lemma stream_size_updates [simp]:
  "stream_size (s\<lparr>pr_virgl := v\<rparr>) = stream_size s"
  "stream_size (s\<lparr>pr_heap := h\<rparr>) = stream_size s"
  "stream_size (s\<lparr>pr_next := n\<rparr>) = stream_size s"
  "stream_size (s\<lparr>pr_scanouts := sp\<rparr>) = stream_size s"
  "stream_size (s\<lparr>pr_res_writes := ws\<rparr>) = stream_size s"
  "stream_size (s\<lparr>pr_res_out := out\<rparr>) = stream_size s"
  "stream_size (s\<lparr>pr_r := r\<rparr>) = stream_size s"
  "stream_size (s\<lparr>pr_cursor := cs\<rparr>) = stream_size s"
  "stream_size (s\<lparr>has_submit_3d_draw := b\<rparr>) = stream_size s"
  "stream_size (s\<lparr>current_scanout_id := i\<rparr>) = stream_size s"
  "stream_size (s\<lparr>fence_received := f\<rparr>) = stream_size s"
  by (simp_all add: stream_size_def)

lemma detach_iov_size [simp]: "stream_size (snd (detach_iov ops i s)) = stream_size s"
  by (simp add: detach_iov_def split: prod.split)

lemma attach_iov_size [simp]: "stream_size (snd (attach_iov ops i p s)) = stream_size s"
  by (simp add: attach_iov_def split: prod.split)

lemma virgl_do_size [simp]: "stream_size (virgl_do ops c s) = stream_size s"
  by (simp add: virgl_do_def)

lemma ends_load_resource: "ends (load_resource ops i s) (\<lambda>(ok, s'). stream_size s' \<le> stream_size s)"
  using detach_iov_size [of ops i s]
  by (auto simp: load_resource_def intro!: ends_bind [OF ends_load_patched]
      simp del: detach_iov_size split: prod.split option.split)

lemma ends_write_to_socket: "ends (write_to_socket ws bs out) (\<lambda>_. True)"
  by (induction ws bs out rule: write_to_socket.induct) simp_all

lemma ends_send_res: "ends (send_res bs s) (\<lambda>s'. stream_size s' = stream_size s)"
  by (auto simp: send_res_def intro!: ends_bind [OF ends_write_to_socket])

lemma ends_send_res_list: "ends (send_res_list bss s) (\<lambda>s'. stream_size s' = stream_size s)"
proof (induction bss arbitrary: s)
  case (Cons bs bss)
  show ?case
    by (auto intro!: ends_bind [OF ends_send_res] ends_mono [OF Cons])
qed simp

lemma ends_upload_resource:
  "ends (upload_resource env t bpp stride s) (\<lambda>s'. stream_size s' = stream_size s)"
  using detach_iov_size [of "pe_ops env" "t3d_resource_id t" s]
  by (auto simp: upload_resource_def Let_def simp del: detach_iov_size send_res_list.simps
      intro!: ends_bind [OF ends_send_res_list] ends_bind [OF ends_send_res]
      split: prod.split option.split)

lemma ends_attach_backing:
  "ends (resource_attach_backing_host ops r entries s) (\<lambda>s'. stream_size s' = stream_size s)"
  by (auto simp: resource_attach_backing_host_def Let_def attach_iov_def split: prod.split)

lemma ends_set_scanout: "ends (set_scanout_host ops st i s) (\<lambda>s'. stream_size s' = stream_size s)"
  by (auto simp: set_scanout_host_def clear_scanout_def update_scanout_def Let_def split: option.split)

lemma ends_submit_load_step:
  "ends (submit_load_step ops buf k s) (\<lambda>s'. stream_size s' \<le> stream_size s)"
  by (auto simp: submit_load_step_def intro!: ends_bind [OF ends_load_resource])

lemma ends_submit_load_loop:
  "ends (submit_load_loop ops buf size4 off s) (\<lambda>s'. stream_size s' \<le> stream_size s)"
proof (induction ops buf size4 off s rule: submit_load_loop.induct)
  case (1 ops buf size4 off s)
  show ?case
    by (subst submit_load_loop.simps)
      (auto intro!: ends_bind [OF ends_submit_load_step] ends_mono [OF 1])
qed

lemma ends_submit_3d:
  "ends (rvgpu_handle_submit_3d ops cmd s) (\<lambda>s'. stream_size s' \<le> stream_size s)"
  by (auto simp: rvgpu_handle_submit_3d_def intro!: ends_bind [OF ends_submit_load_loop])

lemma cursor_size [simp]:
  "stream_size (rvgpu_serve_update_cursor env c s) = stream_size s"
  "stream_size (rvgpu_serve_move_cursor env c s) = stream_size s"
  by (simp_all add: rvgpu_serve_update_cursor_def rvgpu_serve_move_cursor_def split: option.split)

lemma detach_free_size [simp]: "stream_size (detach_free ops i s) = stream_size s"
  by (simp add: detach_free_def detach_iov_def split: prod.split option.split)

lemma ends_pr_execute:
  "ends (pr_execute env cmd bpp stride s) (\<lambda>(d, s'). stream_size s' \<le> stream_size s)"
  by (cases "hdr_type (hdr cmd)")
    (auto simp: pr_execute_def Let_def split: prod.split
      intro!: ends_bind [OF ends_submit_3d] ends_bind [OF ends_load_resource]
        ends_bind [OF ends_upload_resource] ends_bind [OF ends_attach_backing]
        ends_bind [OF ends_set_scanout])

lemma ends_pr_fence: "ends (pr_fence env cmd s) (\<lambda>s'. stream_size s' = stream_size s)"
  by (auto simp: pr_fence_def Let_def split: prod.split intro!: ends_mono [OF ends_virgl_poll])

lemma ends_pr_command:
  "ends (pr_command env uhdr s) (\<lambda>(res, s'). stream_size s' \<le> stream_size s)"
  by (auto simp: pr_command_def Let_def split: option.split
      intro!: ends_bind [OF ends_pr_read] ends_bind [OF ends_virgl_poll] ends_bind [OF ends_pr_execute]
        ends_bind [OF ends_pr_fence])

text \<open>Each turn of the loop takes sixteen bytes at least, so the fuel is enough.\<close>

lemma ends_pr_dispatch_loop: "stream_size s < n \<Longrightarrow> ends (pr_dispatch_loop env n s) (\<lambda>_. True)"
proof (induction n arbitrary: s)
  case (Suc n)
  have "ends (case res of Some d \<Rightarrow> Returned (d, s2) | None \<Rightarrow> pr_dispatch_loop env n s2) (\<lambda>_. True)"
    if "stream_size s2 < n" for res s2
    using Suc(1) [OF that] by (simp split: option.split)
  with Suc(2) show ?case
    by (auto intro!: ends_bind [OF ends_pr_read] ends_bind [OF ends_pr_command])
qed simp

lemma ends_rvgpu_pr_dispatch: "ends (rvgpu_pr_dispatch env s) (\<lambda>_. True)"
  by (simp add: rvgpu_pr_dispatch_def Let_def ends_pr_dispatch_loop del: pr_dispatch_loop.simps)

text \<open>
  C7. The command loop of the renderer ends whatever the proxy sends: \<open>rvgpu_pr_dispatch\<close> returns a
  resource to draw or 0, or ends the process, once the connection has delivered what it will;
  it does not loop on patches, command buffers or commands.
\<close>

theorem rvgpu_pr_dispatch_ends: "rvgpu_pr_dispatch env s \<noteq> Diverged"
  using ends_rvgpu_pr_dispatch [of env s] by (auto simp: ends_def)

section \<open>The buffers\<close>

text \<open>
  What the renderer relies on in virglrenderer: \<open>iov v i\<close> is the iovec attached to resource \<open>i\<close>.
  Attaching adds at most the given iovec, detaching hands out the attached one and forgets it, no
  other call attaches anything, and reading a resource back fills buffers without resizing them.
\<close>

definition virgl_contract :: "'v virgl_ops \<Rightarrow> ('v \<Rightarrow> u32 \<Rightarrow> nat option) \<Rightarrow> bool" where
  "virgl_contract ops iov =
     ((\<forall>v i p. iov (snd (vo_attach_iov ops v i p)) \<subseteq>\<^sub>m (iov v)(i \<mapsto> p)) \<and>
      (\<forall>v i. fst (vo_detach_iov ops v i) = iov v i) \<and>
      (\<forall>v i. iov (snd (vo_detach_iov ops v i)) \<subseteq>\<^sub>m (iov v)(i := None)) \<and>
      (\<forall>v h c. iov (vo_call ops v h c) \<subseteq>\<^sub>m iov v) \<and>
      (\<forall>v f c. iov (snd (vo_create_fence ops v f c)) \<subseteq>\<^sub>m iov v) \<and>
      (\<forall>v. iov (snd (vo_poll ops v)) \<subseteq>\<^sub>m iov v) \<and>
      (\<forall>v h t. iov (snd (vo_transfer_read_iov ops v h t)) \<subseteq>\<^sub>m iov v \<and>
         map_option length \<circ> fst (vo_transfer_read_iov ops v h t) = map_option length \<circ> h))"

text \<open>Every attached iovec is a live buffer of its own.\<close>

definition mem_ok :: "('v \<Rightarrow> u32 \<Rightarrow> nat option) \<Rightarrow> 'v pr_state \<Rightarrow> bool" where
  "mem_ok iov s =
     ((\<forall>i p. iov (pr_virgl s) i = Some p \<longrightarrow> pr_heap s p \<noteq> None) \<and>
      (\<forall>i j p. iov (pr_virgl s) i = Some p \<longrightarrow> iov (pr_virgl s) j = Some p \<longrightarrow> i = j) \<and>
      (\<forall>p. pr_heap s p \<noteq> None \<longrightarrow> p < pr_next s) \<and>
      length (pr_scanouts s) = unat VIRTIO_GPU_MAX_SCANOUTS)"

text \<open>A buffer that is in nobody's hands but the renderer's.\<close>

definition owned :: "('v \<Rightarrow> u32 \<Rightarrow> nat option) \<Rightarrow> nat \<Rightarrow> 'v pr_state \<Rightarrow> bool" where
  "owned iov p s = (pr_heap s p \<noteq> None \<and> (\<forall>i. iov (pr_virgl s) i \<noteq> Some p))"

text \<open>Steps that attach, allocate and free nothing.\<close>

definition keeps :: "('v \<Rightarrow> u32 \<Rightarrow> nat option) \<Rightarrow> 'v pr_state \<Rightarrow> 'v pr_state \<Rightarrow> bool" where
  "keeps iov s s' =
     (iov (pr_virgl s') \<subseteq>\<^sub>m iov (pr_virgl s) \<and>
      map_option length \<circ> pr_heap s' = map_option length \<circ> pr_heap s \<and>
      pr_next s' = pr_next s \<and> length (pr_scanouts s') = length (pr_scanouts s))"

lemma keeps_refl [simp]: "keeps iov s s"
  by (simp add: keeps_def)

lemma keeps_trans: "keeps iov s s' \<Longrightarrow> keeps iov s' s'' \<Longrightarrow> keeps iov s s''"
  by (auto simp: keeps_def intro: map_le_trans)

lemma keeps_live: "keeps iov s s' \<Longrightarrow> pr_heap s' p \<noteq> None \<longleftrightarrow> pr_heap s p \<noteq> None"
  by (cases "pr_heap s p"; cases "pr_heap s' p")
    (auto simp: keeps_def fun_eq_iff dest!: spec [where x = p])

lemma keeps_mem_ok: "keeps iov s s' \<Longrightarrow> mem_ok iov s \<Longrightarrow> mem_ok iov s'"
  using keeps_live [of iov s s'] unfolding mem_ok_def keeps_def map_le_def
  by (metis domI)

lemma keeps_owned: "keeps iov s s' \<Longrightarrow> owned iov p s \<Longrightarrow> owned iov p s'"
  using keeps_live [of iov s s' p] unfolding owned_def keeps_def map_le_def
  by (metis domI)

text \<open>\<open>sound m P\<close>: \<open>m\<close> leaves no buffer, but for the source of an upload, and its result satisfies \<open>P\<close>.\<close>

definition sound :: "'a outcome \<Rightarrow> ('a \<Rightarrow> bool) \<Rightarrow> bool" where
  "sound m P = (case m of Returned x \<Rightarrow> P x | Crashed e \<Rightarrow> e = ''iov_base + offset'' | _ \<Rightarrow> True)"

lemma sound_simps [simp]: "sound (Returned x) P = P x" "sound (Exited e) P" "sound Diverged P"
  by (simp_all add: sound_def)

lemma sound_Crashed: "sound (Crashed e) P \<longleftrightarrow> e = ''iov_base + offset''"
  by (simp add: sound_def)

lemma sound_bind: "sound m Q \<Longrightarrow> (\<And>x. m = Returned x \<Longrightarrow> Q x \<Longrightarrow> sound (f x) P) \<Longrightarrow> sound (obind m f) P"
  by (cases m) (simp_all add: sound_def)

lemma sound_mono: "sound m Q \<Longrightarrow> (\<And>x. Q x \<Longrightarrow> P x) \<Longrightarrow> sound m P"
  by (cases m) (simp_all add: sound_def)

lemma contract:
  assumes "virgl_contract ops iov"
  shows contract_call: "iov (vo_call ops v h c) \<subseteq>\<^sub>m iov v"
    and contract_fence: "iov (snd (vo_create_fence ops v f ty)) \<subseteq>\<^sub>m iov v"
    and contract_poll: "iov (snd (vo_poll ops v)) \<subseteq>\<^sub>m iov v"
    and contract_read: "iov (snd (vo_transfer_read_iov ops v h t)) \<subseteq>\<^sub>m iov v"
      "map_option length \<circ> fst (vo_transfer_read_iov ops v h t) = map_option length \<circ> h"
    and contract_detach: "fst (vo_detach_iov ops v i) = iov v i"
      "iov (snd (vo_detach_iov ops v i)) \<subseteq>\<^sub>m (iov v)(i := None)"
    and contract_attach: "iov (snd (vo_attach_iov ops v i p)) \<subseteq>\<^sub>m (iov v)(i \<mapsto> p)"
  using assms by (simp_all add: virgl_contract_def)

lemma keeps_virgl:
  "iov v \<subseteq>\<^sub>m iov (pr_virgl s) \<Longrightarrow> keeps iov s0 s \<Longrightarrow> keeps iov s0 (s\<lparr>pr_virgl := v\<rparr>)"
  by (auto simp: keeps_def intro: map_le_trans)

lemma keeps_update [simp]:
  "keeps iov s (s'\<lparr>pr_res_writes := ws\<rparr>) = keeps iov s s'"
  "keeps iov s (s'\<lparr>pr_res_out := out\<rparr>) = keeps iov s s'"
  "keeps iov s (s'\<lparr>fence_sent := f\<rparr>) = keeps iov s s'"
  "keeps iov s (s'\<lparr>fence_received := f\<rparr>) = keeps iov s s'"
  "keeps iov s (s'\<lparr>pr_events := es\<rparr>) = keeps iov s s'"
  "keeps iov s (s'\<lparr>pr_r := r\<rparr>) = keeps iov s s'"
  "keeps iov s (s'\<lparr>pr_buffer := buf\<rparr>) = keeps iov s s'"
  "keeps iov s (s'\<lparr>pr_bufpos := k\<rparr>) = keeps iov s s'"
  "keeps iov s (s'\<lparr>has_submit_3d_draw := b\<rparr>) = keeps iov s s'"
  "keeps iov s (s'\<lparr>current_scanout_id := i\<rparr>) = keeps iov s s'"
  "keeps iov s (s'\<lparr>pr_cursor := cs\<rparr>) = keeps iov s s'"
  by (simp_all add: keeps_def)

lemma sound_write_fences: "keeps iov s0 s \<Longrightarrow> sound (write_fences fs s) (keeps iov s0)"
proof (induction fs arbitrary: s)
  case (Cons f fs)
  have "sound (virgl_write_fence f s) (keeps iov s0)"
    using Cons(2) by (auto simp: virgl_write_fence_def Let_def split: prod.split)
  with Cons(1) show ?case
    by (auto intro: sound_bind)
qed simp

lemma sound_virgl_poll:
  "virgl_contract ops iov \<Longrightarrow> keeps iov s0 s \<Longrightarrow> sound (virgl_poll ops s) (keeps iov s0)"
  by (simp add: virgl_poll_def split_beta sound_write_fences keeps_virgl contract_poll)

lemma sound_poll_wait:
  "virgl_contract ops iov \<Longrightarrow> keeps iov s0 s \<Longrightarrow> sound (poll_wait ops es s) (\<lambda>(r, s'). keeps iov s0 s')"
  by (induction ops es s rule: poll_wait.induct) (auto intro: sound_bind sound_virgl_poll)

lemma sound_readbuf:
  "virgl_contract ops iov \<Longrightarrow> keeps iov s0 s \<Longrightarrow>
   sound (rvgpu_pr_readbuf ops s) (\<lambda>(ok, s'). keeps iov s0 s')"
  by (auto simp: rvgpu_pr_readbuf_def intro!: sound_bind [OF sound_poll_wait]
      split: option.split read_result.split)

lemma sound_pr_read:
  "virgl_contract ops iov \<Longrightarrow> keeps iov s0 s \<Longrightarrow>
   sound (rvgpu_pr_read ops n s) (\<lambda>(bs, s'). keeps iov s0 s' \<and> length bs \<le> n)"
proof (induction ops n s rule: rvgpu_pr_read.induct)
  case (1 ops n s)
  define avail where "avail = min (length (pr_buffer s) - pr_bufpos s) n"
  define s1 where "s1 = s\<lparr>pr_bufpos := pr_bufpos s + avail\<rparr>"
  have "keeps iov s0 s1"
    using 1(3) by (simp add: s1_def)
  moreover have "avail \<le> n"
    by (simp add: avail_def)
  ultimately show ?case
    using 1(2) by (subst rvgpu_pr_read.simps, unfold Let_def, fold avail_def, fold s1_def)
      (auto intro!: sound_bind [OF sound_readbuf] sound_bind [OF 1(1) [OF avail_def refl s1_def]])
qed

lemma keeps_length: "keeps iov s s' \<Longrightarrow> pr_heap s p = Some old \<Longrightarrow> \<exists>new. pr_heap s' p = Some new \<and> length new = length old"
  by (cases "pr_heap s' p") (auto simp: keeps_def fun_eq_iff dest!: spec [where x = p])

lemma sound_store:
  assumes "pr_heap s p = Some old" "off + length bs \<le> length old" "keeps iov s0 s"
  shows "sound (store_bytes p off bs s) (\<lambda>s'. keeps iov s0 s' \<and> pr_heap s' p \<noteq> None)"
proof -
  have "map_option length (pr_heap s p) = map_option length (pr_heap s0 p)"
    using assms(3) by (simp add: keeps_def fun_eq_iff)
  then obtain z where "pr_heap s0 p = Some z" "length z = length old"
    using assms(1) by (cases "pr_heap s0 p") auto
  with assms show ?thesis
    by (auto simp: store_bytes_def keeps_def fun_eq_iff)
qed

lemma sound_load_patched:
  "virgl_contract ops iov \<Longrightarrow> keeps iov s0 s \<Longrightarrow> pr_heap s p \<noteq> None \<Longrightarrow>
   sound (load_resource_patched ops p s) (\<lambda>(ok, s'). keeps iov s0 s')"
proof (induction ops p s rule: load_resource_patched.induct)
  case (1 ops p s)
  note read = sound_pr_read [OF 1(2) keeps_refl]
  show ?case
  proof (subst load_resource_patched.simps, unfold Let_def, rule sound_bind [OF read], clarify)
    fix hb s1
    let ?off = "un_le32 (drop 4 hb)" and ?len = "un_le32 (drop 8 hb)"
    assume hb: "rvgpu_pr_read ops 12 s = Returned (hb, s1)" "keeps iov s s1"
    have k: "keeps iov s0 s1"
      using 1(3) hb(2) by (rule keeps_trans)
    obtain old where old: "pr_heap s1 p = Some old"
      using 1(4) keeps_live [OF hb(2)] by auto
    let ?store = "\<lambda>(bs, s2). obind (store_bytes p (unat ?off) bs s2) (\<lambda>s3.
      if length bs \<noteq> unat ?len then Returned (False, s3) else load_resource_patched ops p s3)"
    have "sound (obind (rvgpu_pr_read ops (unat ?len) s1) ?store) (\<lambda>(ok, s'). keeps iov s0 s')"
      if "length hb = 12" "?len \<noteq> 0" and fits: "\<not> unat ?off + unat ?len > length old"
    proof (rule sound_bind [OF sound_pr_read [OF 1(2) keeps_refl]], clarify)
      fix bs s2
      assume bs: "rvgpu_pr_read ops (unat ?len) s1 = Returned (bs, s2)" "keeps iov s1 s2"
        "length bs \<le> unat ?len"
      obtain new where new: "pr_heap s2 p = Some new" "length new = length old"
        using keeps_length [OF bs(2) old] by blast
      have "unat ?off + length bs \<le> length new"
        using bs(3) fits new(2) by simp
      note store = sound_store [OF new(1) this keeps_trans [OF k bs(2)]]
      show "sound (obind (store_bytes p (unat ?off) bs s2) (\<lambda>s3.
          if length bs \<noteq> unat ?len then Returned (False, s3) else load_resource_patched ops p s3))
          (\<lambda>(ok, s'). keeps iov s0 s')"
        by (rule sound_bind [OF store])
          (auto intro: 1(1) [OF hb(1) refl refl refl _ _ old _ bs(1) refl] 1(2) simp: that)
    qed
    with k old show "sound (if length hb \<noteq> 12 then Returned (True, s1)
        else if ?len = 0 then Returned (True, s1)
        else case pr_heap s1 p of None \<Rightarrow> Crashed ''iov_base'' | Some old \<Rightarrow>
          if unat ?off + unat ?len > length old then Exited ''Wrong patch format!''
          else obind (rvgpu_pr_read ops (unat ?len) s1) ?store) (\<lambda>(ok, s'). keeps iov s0 s')"
      by simp
  qed
qed

lemma map_le_SomeD: "m \<subseteq>\<^sub>m m' \<Longrightarrow> m a = Some b \<Longrightarrow> m' a = Some b"
  by (metis domI map_le_def)

lemma detach_iov_mem_ok:
  assumes "virgl_contract ops iov" "mem_ok iov s" "detach_iov ops i s = (r, s')"
  shows "mem_ok iov s'" "r = Some p \<Longrightarrow> owned iov p s'"
proof -
  let ?v = "snd (vo_detach_iov ops (pr_virgl s) i)"
  have s': "s' = s\<lparr>pr_virgl := ?v\<rparr>" "r = iov (pr_virgl s) i"
    using assms(1,3) by (auto simp: detach_iov_def contract_detach(1) [symmetric] split: prod.splits)
  have le: "iov ?v \<subseteq>\<^sub>m (iov (pr_virgl s))(i := None)"
    by (rule contract_detach(2) [OF assms(1)])
  have sub: "j \<noteq> i \<and> iov (pr_virgl s) j = Some q" if "iov ?v j = Some q" for j q
    using map_le_SomeD [OF le that] by (simp split: if_splits)
  then have "iov ?v \<subseteq>\<^sub>m iov (pr_virgl s)"
    by (auto simp: map_le_def)
  then show "mem_ok iov s'"
    using keeps_mem_ok [OF keeps_virgl [OF _ keeps_refl] assms(2)] s'(1) by simp
  show "owned iov p s'" if "r = Some p"
    using assms(2) that s' unfolding owned_def mem_ok_def by (auto dest!: sub)
qed

lemma attach_iov_mem_ok:
  assumes "virgl_contract ops iov" "mem_ok iov s" "owned iov p s"
  shows "mem_ok iov (snd (attach_iov ops i p s))"
proof -
  let ?v = "snd (vo_attach_iov ops (pr_virgl s) i p)"
  have le: "iov ?v \<subseteq>\<^sub>m (iov (pr_virgl s))(i \<mapsto> p)"
    by (rule contract_attach [OF assms(1)])
  have sub: "j = i \<and> q = p \<or> iov (pr_virgl s) j = Some q" if "iov ?v j = Some q" for j q
    using map_le_SomeD [OF le that] by (simp split: if_splits)
  have "\<forall>j q. iov ?v j = Some q \<longrightarrow> pr_heap s q \<noteq> None"
    using sub assms(2,3) unfolding mem_ok_def owned_def by blast
  moreover have "\<forall>j k q. iov ?v j = Some q \<longrightarrow> iov ?v k = Some q \<longrightarrow> j = k"
    using sub assms(2,3) unfolding mem_ok_def owned_def by metis
  moreover have "snd (attach_iov ops i p s) = s\<lparr>pr_virgl := ?v\<rparr>"
    by (simp add: attach_iov_def split: prod.split)
  ultimately show ?thesis
    using assms(2) by (simp add: mem_ok_def)
qed

lemma reattach_mem_ok:
  "virgl_contract ops iov \<Longrightarrow> mem_ok iov s \<Longrightarrow> owned iov p s \<Longrightarrow> keeps iov s s' \<Longrightarrow>
   mem_ok iov (snd (attach_iov ops i p s'))"
  by (blast intro: attach_iov_mem_ok keeps_mem_ok keeps_owned)

lemma sound_load_resource:
  assumes "virgl_contract ops iov" "mem_ok iov s"
  shows "sound (load_resource ops i s) (\<lambda>(ok, s'). mem_ok iov s')"
proof -
  obtain r s1 where d: "detach_iov ops i s = (r, s1)"
    by fastforce
  note m = detach_iov_mem_ok [OF assms d]
  show ?thesis
  proof (cases r)
    case (Some p)
    with m have o: "mem_ok iov s1" "owned iov p s1"
      by auto
    then have "pr_heap s1 p \<noteq> None"
      by (simp add: owned_def)
    from sound_load_patched [OF assms(1) keeps_refl this] show ?thesis
      using reattach_mem_ok [OF assms(1) o] by (auto simp: load_resource_def d Some intro!: sound_bind)
  qed (use m in \<open>simp add: load_resource_def d\<close>)
qed

lemma sound_send_res: "keeps iov s0 s \<Longrightarrow> sound (send_res bs s) (keeps iov s0)"
proof -
  have "sound (write_to_socket ws bs out) (\<lambda>_. True)" for ws bs out
    by (induction ws bs out rule: write_to_socket.induct) simp_all
  then show "keeps iov s0 s \<Longrightarrow> ?thesis"
    by (auto simp: send_res_def intro!: sound_bind)
qed

lemma sound_send_res_list: "keeps iov s0 s \<Longrightarrow> sound (send_res_list bss s) (keeps iov s0)"
  by (induction bss arbitrary: s) (auto intro: sound_bind sound_send_res)

lemma sound_upload_resource:
  assumes "virgl_contract (pe_ops env) iov" "mem_ok iov s"
  shows "sound (upload_resource env t bpp stride s) (mem_ok iov)"
proof -
  obtain r s1 where d: "detach_iov (pe_ops env) (t3d_resource_id t) s = (r, s1)"
    by fastforce
  note m = detach_iov_mem_ok [OF assms d]
  show ?thesis
  proof (cases r)
    case (Some p)
    with m have o: "mem_ok iov s1" "owned iov p s1"
      by auto
    have live: "keeps iov s1 s2 \<Longrightarrow> \<exists>buf. pr_heap s2 p = Some buf" for s2
      using o(2) keeps_live [of iov s1 s2 p] by (simp add: owned_def)
    show ?thesis
      using reattach_mem_ok [OF assms(1) o]
      by (auto simp: upload_resource_def d Some Let_def sound_Crashed
          simp del: send_res_list.simps
          intro!: sound_bind [OF sound_send_res_list [OF keeps_refl]] sound_bind [OF sound_send_res]
          split: option.split intro!: live)
  qed (simp add: upload_resource_def d)
qed

lemma sound_attach_backing:
  assumes "virgl_contract ops iov" "mem_ok iov s"
  shows "sound (resource_attach_backing_host ops r entries s) (mem_ok iov)"
proof -
  let ?s = "\<lambda>bs. s\<lparr>pr_heap := (pr_heap s)(pr_next s \<mapsto> bs), pr_next := pr_next s + 1\<rparr>"
  have new: "pr_heap s (pr_next s) = None"
    using assms(2) unfolding mem_ok_def by blast
  then have "mem_ok iov (?s bs)" "owned iov (pr_next s) (?s bs)" for bs
    using assms(2) unfolding mem_ok_def owned_def by (force simp: less_Suc_eq)+
  from attach_iov_mem_ok [OF assms(1) this] show ?thesis
    by (auto simp: resource_attach_backing_host_def Let_def split_beta)
qed

lemma detach_free_mem_ok:
  assumes "virgl_contract ops iov" "mem_ok iov s"
  shows "mem_ok iov (detach_free ops i s)"
proof -
  obtain r s1 where d: "detach_iov ops i s = (r, s1)"
    by fastforce
  from detach_iov_mem_ok [OF assms d] show ?thesis
    by (auto simp: detach_free_def d mem_ok_def owned_def split: option.split)
qed

lemma sound_submit_load_loop:
  "virgl_contract ops iov \<Longrightarrow> mem_ok iov s \<Longrightarrow> sound (submit_load_loop ops buf size4 off s) (mem_ok iov)"
proof (induction ops buf size4 off s rule: submit_load_loop.induct)
  case (1 ops buf size4 off s)
  have "sound (submit_load_step ops buf (unat off) s) (mem_ok iov)"
    using 1(2,3) by (auto simp: submit_load_step_def intro!: sound_bind [OF sound_load_resource])
  with 1 show ?case
    by (subst submit_load_loop.simps) (auto intro!: sound_bind)
qed

lemma sound_set_scanout:
  "mem_ok iov s \<Longrightarrow> sound (set_scanout_host ops st i s) (mem_ok iov)"
  by (auto simp: set_scanout_host_def clear_scanout_def update_scanout_def Let_def mem_ok_def
      split: option.split)

lemma mem_ok_update [simp]:
  "mem_ok iov (s\<lparr>pr_r := r\<rparr>) = mem_ok iov s"
  "mem_ok iov (s\<lparr>pr_cursor := cs\<rparr>) = mem_ok iov s"
  "mem_ok iov (s\<lparr>has_submit_3d_draw := b\<rparr>) = mem_ok iov s"
  "mem_ok iov (s\<lparr>current_scanout_id := i\<rparr>) = mem_ok iov s"
  "mem_ok iov (s\<lparr>fence_received := f\<rparr>) = mem_ok iov s"
  by (simp_all add: mem_ok_def)

lemma mem_ok_virgl:
  "iov v \<subseteq>\<^sub>m iov (pr_virgl s) \<Longrightarrow> mem_ok iov s \<Longrightarrow> mem_ok iov (s\<lparr>pr_virgl := v\<rparr>)"
  by (rule keeps_mem_ok [OF keeps_virgl]) auto

lemma mem_ok_virgl_do: "virgl_contract ops iov \<Longrightarrow> mem_ok iov s \<Longrightarrow> mem_ok iov (virgl_do ops c s)"
  by (simp add: virgl_do_def mem_ok_virgl contract_call)

lemma mem_ok_cursor:
  "mem_ok iov s \<Longrightarrow> mem_ok iov (rvgpu_serve_update_cursor env c s)"
  "mem_ok iov s \<Longrightarrow> mem_ok iov (rvgpu_serve_move_cursor env c s)"
  by (auto simp: rvgpu_serve_update_cursor_def rvgpu_serve_move_cursor_def split: option.split)

lemma mem_ok_transfer_read:
  assumes "virgl_contract ops iov" "mem_ok iov s" "vo_transfer_read_iov ops (pr_virgl s) (pr_heap s) t = (h, v)"
  shows "mem_ok iov (s\<lparr>pr_heap := h, pr_virgl := v\<rparr>)"
  by (rule keeps_mem_ok [OF _ assms(2)])
    (use contract_read [OF assms(1), of "pr_virgl s" "pr_heap s" t] assms(3) in \<open>simp add: keeps_def\<close>)

lemma sound_pr_execute:
  assumes "virgl_contract (pe_ops env) iov" "mem_ok iov s"
    and "hdr_type (hdr cmd) = VIRTIO_GPU_CMD_SET_SCANOUT \<Longrightarrow>
      set_scanout_id (s_set cmd) < VIRTIO_GPU_MAX_SCANOUTS"
  shows "sound (pr_execute env cmd bpp stride s) (\<lambda>(d, s'). mem_ok iov s')"
proof (cases "hdr_type (hdr cmd) = VIRTIO_GPU_CMD_SET_SCANOUT")
  case True
  have "unat (set_scanout_id (s_set cmd)) < length (pr_scanouts s)"
    using assms(2,3) True by (simp add: mem_ok_def word_less_nat_alt)
  with True assms(2) show ?thesis
    by (auto simp: pr_execute_def Let_def intro!: sound_bind [OF sound_set_scanout])
next
  case False
  note intros = mem_ok_virgl_do [OF assms(1)] mem_ok_cursor detach_free_mem_ok [OF assms(1)] assms(2)
    sound_bind [OF sound_submit_load_loop [OF assms(1)]] sound_bind [OF sound_load_resource [OF assms(1)]]
    sound_bind [OF sound_upload_resource [OF assms(1)]] mem_ok_transfer_read [OF assms(1,2)]
    sound_bind [OF sound_attach_backing [OF assms(1)]]
  show ?thesis
    using False by (cases "hdr_type (hdr cmd)")
      (auto simp: pr_execute_def Let_def rvgpu_handle_submit_3d_def obind_assoc split: prod.split intro!: intros)
qed

lemma sound_pr_fence:
  assumes "virgl_contract (pe_ops env) iov" "mem_ok iov s"
  shows "sound (pr_fence env cmd s) (mem_ok iov)"
proof -
  have poll: "sound (virgl_poll (pe_ops env) s') (mem_ok iov)" if "mem_ok iov s'" for s'
    using sound_virgl_poll [OF assms(1) keeps_refl] that by (blast intro: sound_mono keeps_mem_ok)
  have "mem_ok iov (s\<lparr>pr_virgl := snd (vo_create_fence (pe_ops env) (pr_virgl s) f ty)\<rparr>)" for f ty
    by (rule mem_ok_virgl [OF contract_fence [OF assms(1)] assms(2)])
  with poll assms(2) show ?thesis
    by (auto simp: pr_fence_def Let_def split_beta)
qed

lemma sane_scanout:
  "sanity_check_gpu_ctrl sz cmd len strict = VIRTIO_GPU_RESP_OK_NODATA \<Longrightarrow>
   hdr_type (hdr cmd) = VIRTIO_GPU_CMD_SET_SCANOUT \<longrightarrow> set_scanout_id (s_set cmd) < VIRTIO_GPU_MAX_SCANOUTS"
  by (rule impI) (simp add: sanity_check_gpu_ctrl_def split: if_splits)

lemma sane_cursor_scanout:
  "sanity_check_gpu_cursor sz cmd len strict = VIRTIO_GPU_RESP_OK_NODATA \<Longrightarrow>
   hdr_type (hdr cmd) \<noteq> VIRTIO_GPU_CMD_SET_SCANOUT"
  by (auto simp: sanity_check_gpu_cursor_def split: if_splits)

lemma sound_pr_command:
  assumes c: "virgl_contract (pe_ops env) iov" and "mem_ok iov s"
  shows "sound (pr_command env uhdr s) (\<lambda>(res, s'). mem_ok iov s')"
proof -
  have poll: "sound (virgl_poll (pe_ops env) s') (mem_ok iov)" if "mem_ok iov s'" for s'
    using sound_virgl_poll [OF c keeps_refl] that by (blast intro: sound_mono keeps_mem_ok)
  have read: "sound (rvgpu_pr_read (pe_ops env) n s) (\<lambda>(bs, s'). mem_ok iov s')" for n
    using sound_pr_read [OF c keeps_refl, of n s] assms(2)
    by (auto elim!: sound_mono intro: keeps_mem_ok)
  show ?thesis
    by (auto simp: pr_command_def Let_def split: option.split dest!: sane_scanout sane_cursor_scanout
        intro!: sound_bind [OF read] sound_bind [OF poll] sound_bind [OF sound_pr_execute [OF c]]
          sound_bind [OF sound_pr_fence [OF c]] mem_ok_virgl_do [OF c])
qed

lemma sound_pr_dispatch_loop:
  assumes "virgl_contract (pe_ops env) iov"
  shows "mem_ok iov s \<Longrightarrow> sound (pr_dispatch_loop env n s) (\<lambda>(d, s'). mem_ok iov s')"
proof (induction n arbitrary: s)
  case (Suc n)
  have read: "sound (rvgpu_pr_read (pe_ops env) 16 s) (\<lambda>(bs, s'). mem_ok iov s')"
    using sound_pr_read [OF assms keeps_refl, of 16 s] Suc(2)
    by (auto elim!: sound_mono intro: keeps_mem_ok)
  show ?case
    by (auto intro!: sound_bind [OF read] sound_bind [OF sound_pr_command [OF assms]] Suc(1) split: option.split)
qed simp

lemma sound_pr_dispatch:
  assumes "virgl_contract (pe_ops env) iov" "mem_ok iov s"
  shows "sound (rvgpu_pr_dispatch env s) (\<lambda>(d, s'). mem_ok iov s')"
proof -
  have "mem_ok iov ((first_cmd (pe_ops env) s)\<lparr>has_submit_3d_draw := False\<rparr>)"
    using assms(2) by (simp add: first_cmd_def mem_ok_def)
  from sound_pr_dispatch_loop [OF assms(1) this] show ?thesis
    by (simp add: rvgpu_pr_dispatch_def Let_def del: pr_dispatch_loop.simps)
qed


text \<open>A proxy that attaches a backing of twelve bytes to resource 7 and closes the connection.\<close>

definition host_attach :: virtio_gpu_cmd where
  "host_attach = zero_cmd\<lparr>hdr := (hdr zero_cmd)\<lparr>hdr_type := VIRTIO_GPU_CMD_RESOURCE_ATTACH_BACKING\<rparr>,
     r_att := \<lparr> att_resource_id = 7, att_nr_entries = 1 \<rparr>,
     r_mem := (\<lambda>_. \<lparr> mem_addr = 0x1000, mem_length = 12 \<rparr>)\<rparr>"

definition host_env :: "nat option pr_env" where
  "host_env = \<lparr> pe_ops = demo_ops, pe_sizes = linux_sizes, pe_decode = (\<lambda>_. host_attach),
     pe_set_cursor = False, pe_move_cursor = False \<rparr>"

definition host_stream :: "nat option pr_state" where
  "host_stream = (demo_pr [])\<lparr>pr_buffer := rvgpu_header_bytes 48 0 0 0 0 @ replicate 48 0\<rparr>"

definition host_iov :: "nat option \<Rightarrow> u32 \<Rightarrow> nat option" where
  "host_iov v i = (if i = 7 then v else None)"

lemma read_buffered:
  "pr_bufpos s + n \<le> length (pr_buffer s) \<Longrightarrow>
   rvgpu_pr_read ops n s =
     Returned (take n (drop (pr_bufpos s) (pr_buffer s)), s\<lparr>pr_bufpos := pr_bufpos s + n\<rparr>)"
  by (subst rvgpu_pr_read.simps) (auto simp: min_def Let_def)

lemma read_closed:
  "pr_bufpos s = length (pr_buffer s) \<Longrightarrow> pr_events s = [] \<Longrightarrow> 0 < n \<Longrightarrow>
   rvgpu_pr_read ops n s = Returned ([], s)"
  by (subst rvgpu_pr_read.simps) (simp add: rvgpu_pr_readbuf_def)

lemma pr_dispatch_loop_numeral:
  "pr_dispatch_loop env (numeral k) s =
     obind (rvgpu_pr_read (pe_ops env) 16 s) (\<lambda>(uhdr, s1).
       if length uhdr \<noteq> 16 then Returned (0, s1)
       else obind (pr_command env uhdr s1) (\<lambda>(res, s2).
         case res of Some d \<Rightarrow> Returned (d, s2) | None \<Rightarrow> pr_dispatch_loop env (pred_numeral k) s2))"
  by (simp add: numeral_eq_Suc)

lemma host_dispatch:
  "\<exists>s'. rvgpu_pr_dispatch host_env host_stream = Returned (0, s') \<and> pr_heap s' 0 = Some (replicate 12 0)"
proof -
  have u: "length (rvgpu_header_bytes 48 0 0 0 0) = 16" "un_le32 (rvgpu_header_bytes 48 0 0 0 0) = 48"
    "un_le16 (drop 6 (rvgpu_header_bytes 48 0 0 0 0)) = 0"
    by code_simp+
  note demo = host_stream_def demo_pr_def host_env_def demo_ops_def host_attach_def zero_cmd_def
    linux_sizes_def first_cmd_def
  note step = pr_command_def sanity_check_gpu_ctrl_def virgl_poll_def virgl_do_def pr_execute_def
    pr_fence_def resource_attach_backing_host_def attach_iov_def
  show ?thesis
    by (simp add: rvgpu_pr_dispatch_def demo step Let_def u read_buffered read_closed stream_size_def pr_dispatch_loop_numeral)
qed

lemma host_contract: "virgl_contract (pe_ops host_env) host_iov"
  by (auto simp: virgl_contract_def host_env_def demo_ops_def host_iov_def map_le_def split: if_splits)


section \<open>A session\<close>

text \<open>
  The states of a renderer: after its start, and after every return of the command loop, which the
  main loop calls again after drawing.
\<close>

inductive pr_reachable :: "'v pr_env \<Rightarrow> 'v pr_state \<Rightarrow> 'v pr_state \<Rightarrow> bool" for env s0 where
  start: "pr_reachable env s0 s0"
| dispatch: "pr_reachable env s0 s \<Longrightarrow> rvgpu_pr_dispatch env s = Returned (d, s') \<Longrightarrow> pr_reachable env s0 s'"

lemma clear_boxed_frame:
  "pr_heap (clear_boxed i boxed s) = pr_heap s \<and> pr_virgl (clear_boxed i boxed s) = pr_virgl s \<and>
   length (pr_scanouts (clear_boxed i boxed s)) = length (pr_scanouts s) \<and>
   pr_next (clear_boxed i boxed s) = pr_next s"
  by (induction i boxed s rule: clear_boxed.induct) (auto simp: clear_scanout_def update_scanout_def Let_def)

lemma mem_ok_init:
  "iov v = Map.empty \<Longrightarrow> length scanouts = unat VIRTIO_GPU_MAX_SCANOUTS \<Longrightarrow>
   mem_ok iov (rvgpu_pr_init v scanouts boxed capset es ws)"
  by (simp add: mem_ok_def rvgpu_pr_init_def clear_boxed_frame)

text \<open>
  A renderer keeps its memory for its whole life: from \<open>rvgpu_pr_init\<close> on, after any number of
  calls of the command loop on any stream, every backing attached in virglrenderer is a live buffer
  of the renderer, no two resources share one, and the buffers are those allocated so far.
\<close>

theorem pr_reachable_mem_ok:
  assumes "virgl_contract (pe_ops env) iov" "iov v = Map.empty" "length scanouts = unat VIRTIO_GPU_MAX_SCANOUTS"
    and "pr_reachable env (rvgpu_pr_init v scanouts boxed capset es ws) s"
  shows "mem_ok iov s"
  using assms(4)
proof (induction rule: pr_reachable.induct)
  case start
  show ?case
    using assms(2,3) by (rule mem_ok_init)
next
  case (dispatch s d s')
  from sound_pr_dispatch [OF assms(1) dispatch(3)] dispatch(2) show ?case
    by simp
qed

lemma pr_reachable_mem_ok_witness:
  "mem_ok host_iov (rvgpu_pr_init None (pr_scanouts (demo_pr [])) [True] False [] [])"
proof -
  have "host_iov None = Map.empty" "length (pr_scanouts (demo_pr [])) = unat VIRTIO_GPU_MAX_SCANOUTS"
    by (simp_all add: host_iov_def demo_pr_def fun_eq_iff)
  from pr_reachable_mem_ok [OF host_contract this pr_reachable.start] show ?thesis .
qed

end
