(* ===== verification/Read_Back.thy ===== *)
theory Read_Back
  imports Resource_Thread Virgl_Safety Gpu_Properties
begin

text \<open>
  A resource read back, from the renderer's copy of the backing (\<open>upload_resource\<close> of
  \<open>rvgpu-virgl.c\<close>) over the resource stream into the pages of the guest (\<open>resource_transfer\<close> of
  \<open>rvgpu-gpu-device.c\<close>).
\<close>

section \<open>What the renderer sends\<close>

lemma write_to_socket_all: "write_to_socket [] bs out = Returned ([], out @ bs)"
  by (cases bs) simp_all

lemma send_res_all: "pr_res_writes s = [] \<Longrightarrow> send_res bs s = Returned (s\<lparr>pr_res_out := pr_res_out s @ bs\<rparr>)"
  by (simp add: send_res_def write_to_socket_all)

lemma send_res_list_all:
  "pr_res_writes s = [] \<Longrightarrow> send_res_list bss s = Returned (s\<lparr>pr_res_out := pr_res_out s @ concat bss\<rparr>)"
  by (induction bss arbitrary: s) (simp_all add: send_res_all)

definition upload_need :: "transfer_host_3d \<Rightarrow> u32 \<Rightarrow> u32 \<Rightarrow> nat" where
  "upload_need t bpp stride = unat ((box_h (t3d_box t) - 1) * stride + box_w (t3d_box t) * bpp)"

lemma upload_patch_len_ok:
  assumes "unat (t3d_offset t) \<le> n" "n < 2 ^ 32"
  shows "unat (upload_patch_len t bpp stride (of_nat n)) = min (n - unat (t3d_offset t)) (upload_need t bpp stride)"
    and "unat (ucast (t3d_offset t) :: u32) = unat (t3d_offset t)"
proof -
  show off: "unat (ucast (t3d_offset t) :: u32) = unat (t3d_offset t)"
    using assms by (simp add: unsigned_ucast_eq unsigned_take_bit_eq take_bit_nat_eq_self_iff)
  have "unat (ucast ((of_nat n :: u64) - ucast (ucast (t3d_offset t) :: u32)) :: u32) = n - unat (t3d_offset t)"
  proof -
    have o64: "unat (ucast (ucast (t3d_offset t) :: u32) :: u64) = unat (t3d_offset t)"
      using off by simp
    have n64: "unat (of_nat n :: u64) = n"
      using assms(2) by (simp add: unat_of_nat take_bit_nat_eq_self_iff)
    have "unat ((of_nat n :: u64) - ucast (ucast (t3d_offset t) :: u32)) = n - unat (t3d_offset t)"
      using assms(1) by (subst unat_sub) (simp_all add: word_le_nat_alt o64 n64 off)
    then show ?thesis
      using assms(2) by (simp add: unsigned_ucast_eq unsigned_take_bit_eq take_bit_nat_eq_self_iff)
  qed
  then show "unat (upload_patch_len t bpp stride (of_nat n)) = min (n - unat (t3d_offset t)) (upload_need t bpp stride)"
    by (auto simp: upload_patch_len_def upload_need_def Let_def word_less_nat_alt)
qed

lemma upload_sends:
  assumes "vo_detach_iov (pe_ops env) (pr_virgl s) (t3d_resource_id t) = (Some p, v)" "pr_heap s p = Some buf"
    and "unat (t3d_offset t) \<le> length buf" "length buf < 2 ^ 32"
    and "pr_res_writes s = []" "unat (sz_t_h3d (pe_sizes env)) \<le> length (pr_r s)"
  shows "\<exists>s'. upload_resource env t bpp stride s = Returned s' \<and> pr_heap s' = pr_heap s \<and>
    pr_virgl s' = snd (vo_attach_iov (pe_ops env) v (t3d_resource_id t) p) \<and>
    pr_res_out s' = pr_res_out s @ res_message_bytes RVGPU_RES_TRANSFER 0 @
      transfer_bytes bpp stride (take (unat (sz_t_h3d (pe_sizes env))) (pr_r s)) (ucast (t3d_offset t))
        (take (upload_need t bpp stride) (drop (unat (t3d_offset t)) buf))"
proof -
  let ?off = "unat (t3d_offset t)" and ?sz = "unat (sz_t_h3d (pe_sizes env))"
  let ?len = "upload_patch_len t bpp stride (of_nat (length buf))"
  note len = upload_patch_len_ok(1) [OF assms(3,4), of bpp stride] upload_patch_len_ok(2) [OF assms(3,4)]
  have fits: "\<not> ?off + unat ?len > length buf" "length (take (unat ?len) (drop ?off buf)) = unat ?len"
    using assms(3) by (simp_all add: len(1))
  have data: "take (unat ?len) (drop ?off buf) = take (upload_need t bpp stride) (drop ?off buf)"
    by (simp add: len(1) min_def)
  have lb: "min (length (pr_r s)) ?sz = ?sz"
    using assms(6) by simp
  have num: "of_nat (length (take (upload_need t bpp stride) (drop ?off buf))) = ?len"
    "(of_nat ?off :: u32) = ucast (t3d_offset t)"
    unfolding data [symmetric] fits(2) by (simp_all add: len(2) [symmetric])
  show ?thesis
    unfolding upload_resource_def
    using assms(1,2,5) fits data
    by (auto simp: detach_iov_def Let_def send_res_list_all send_res_all attach_iov_def transfer_bytes_def lb num len(2)
        split: prod.split simp del: send_res_list.simps)
qed

text \<open>
  \<open>upload_resource\<close> sends the guest's part of the host copy: when the offset of a transfer lies
  within the copy, the renderer writes one message with the transfer as it came and one patch with
  the copy's bytes from the offset on, as many as the box takes but none past the end, and keeps the
  copy attached.
\<close>

theorem upload_resource_sends:
  assumes "vo_detach_iov (pe_ops env) (pr_virgl s) (t3d_resource_id t) = (Some p, v)" "pr_heap s p = Some buf"
    and "unat (t3d_offset t) \<le> length buf" "length buf < 2 ^ 32"
    and "pr_res_writes s = []" "unat (sz_t_h3d (pe_sizes env)) \<le> length (pr_r s)"
  shows "\<exists>s'. upload_resource env t bpp stride s = Returned s' \<and> pr_heap s' = pr_heap s \<and>
    pr_virgl s' = snd (vo_attach_iov (pe_ops env) v (t3d_resource_id t) p) \<and>
    pr_res_out s' = pr_res_out s @ res_message_bytes RVGPU_RES_TRANSFER 0 @
      transfer_bytes bpp stride (take (unat (sz_t_h3d (pe_sizes env))) (pr_r s)) (ucast (t3d_offset t))
        (take (upload_need t bpp stride) (drop (unat (t3d_offset t)) buf))"
  by (rule upload_sends [OF assms])

section \<open>From the host copy to the guest\<close>

lemma recv_all_open:
  assumes "open_pipe s" "n \<le> length (pending s)"
  shows "\<exists>s'. rvgpu_recv_all s RESOURCE n = (Inr (take n (pending s)), s') \<and> open_pipe s' \<and>
    pending s' = drop n (pending s)"
proof -
  let ?ok = "list_all (\<lambda>r. case r of Chunk bs \<Rightarrow> bs \<noteq> [] | _ \<Rightarrow> False)"
  have "?ok rs \<Longrightarrow> n \<le> length (stream_bytes rs) \<Longrightarrow> \<exists>rs'. recv_all_loop rs n =
      (Some (take n (stream_bytes rs)), rs') \<and> ?ok rs' \<and> stream_bytes rs' = drop n (stream_bytes rs)" for rs n
  proof (induction rs n rule: recv_all_loop.induct)
    case (3 bs rs n)
    show ?case
    proof (cases "Suc n < length bs")
      case False
      with 3 have "\<exists>rs'. recv_all_loop rs (Suc n - length bs) =
          (Some (take (Suc n - length bs) (stream_bytes rs)), rs') \<and> ?ok rs' \<and>
          stream_bytes rs' = drop (Suc n - length bs) (stream_bytes rs)"
        by auto
      with False 3(2) show ?thesis
        by auto
    qed (use 3(2) in auto)
  qed auto
  from this [of "rcv_pipe s RESOURCE" n] assms show ?thesis
    by (auto simp: rvgpu_recv_all_def open_pipe_def pending_def)
qed

text \<open>
  C6. What the host read back reaches the guest: when the resource stream of host \<open>i\<close> delivers what
  \<open>upload_resource\<close> sent for a transfer of the whole width and height, in whatever pieces, the
  resource thread replaces the bytes of the guest's backing from the transfer's offset on by those of
  the host copy, touches no other memory and no fence, and is left at the next message.
\<close>

theorem read_back_reaches_guest:
  assumes "vo_detach_iov (pe_ops env) (pr_virgl s) (t3d_resource_id t) = (Some p, v)" "pr_heap s p = Some buf"
    and "unat (t3d_offset t) \<le> length buf" "length buf < 2 ^ 32"
    and "pr_res_writes s = []" "length (pr_r s) \<ge> unat (sz_t_h3d (pe_sizes env))"
    and "upload_resource env t bpp stride s = Returned s'" "pr_res_out s' = pr_res_out s @ sent"
    and "i < length (sc (ctx g))" "open_pipe (sc (ctx g) ! i)" "pending (sc (ctx g) ! i) = sent @ rest"
    and "e_sizes genv = pe_sizes env" "unat (sz_t_h3d (pe_sizes env)) < 2 ^ 32"
    and "t_h3d (e_decode genv (take (unat (sz_t_h3d (pe_sizes env))) (pr_r s))) = t"
    and "rvgpu_ctx_res_find (ctx g) (t3d_resource_id t) = Some res" "backing res = Some iovs"
    and "box_w (t3d_box t) = ri_width (res_info res)" "box_h (t3d_box t) = ri_height (res_info res)"
    and "iov_disjoint iovs" "length buf = iov_total iovs"
  shows "\<exists>g'. resource_message genv i (fs, g) = Returned (fs, g') \<and>
    iov_bytes (vs_mem g') iovs = overwrite (unat (t3d_offset t))
      (take (upload_need t bpp stride) (drop (unat (t3d_offset t)) buf)) (iov_bytes (vs_mem g) iovs) \<and>
    (\<forall>x. x \<notin> \<Union> (iov_region ` set iovs) \<longrightarrow> vs_mem g' x = vs_mem g x) \<and>
    fence_pipe g' = fence_pipe g \<and> pending (sc (ctx g') ! i) = rest"
proof -
  let ?tb = "take (unat (sz_t_h3d (pe_sizes env))) (pr_r s)"
  define data where "data = take (upload_need t bpp stride) (drop (unat (t3d_offset t)) buf)"
  let ?off = "ucast (t3d_offset t) :: u32"
  have off: "unat ?off = unat (t3d_offset t)"
    by (rule upload_patch_len_ok(2) [OF assms(3,4)])
  have sent: "sent = res_message_bytes RVGPU_RES_TRANSFER 0 @ transfer_bytes bpp stride ?tb ?off data"
    using upload_sends [OF assms(1-6), of bpp stride] assms(7,8) by (auto simp: data_def)
  let ?m = "res_message_bytes RVGPU_RES_TRANSFER 0"
  have m: "length ?m = 8" "?m ! 0 = 16"
    by (simp_all add: res_message_bytes_def)
  obtain s1 where s1: "rvgpu_recv_all (sc (ctx g) ! i) RESOURCE 8 = (Inr ?m, s1)" "open_pipe s1"
    "pending s1 = transfer_bytes bpp stride ?tb ?off data @ rest"
    using recv_all_open [OF assms(10), of 8] by (auto simp: assms(11) sent m)
  define c1 where "c1 = (ctx g)\<lparr>sc := (sc (ctx g))[i := s1]\<rparr>"
  have find: "rvgpu_ctx_res_find c1 (t3d_resource_id t) = Some res"
    using assms(15) by (simp add: c1_def rvgpu_ctx_res_find_def)
  have lens: "length ?tb = unat (sz_t_h3d (e_sizes genv))" "length ?tb < 2 ^ 32" "length data < 2 ^ 32"
    using assms(4,6,12,13) by (auto simp: data_def)
  obtain s3 where s3: "open_pipe s3" "pending s3 = data @ rest"
    "resource_transfer genv c1 (vs_mem g) s1 = resource_update s3 (vs_mem g) iovs (ucast ?off) (of_nat (length data))"
    using resource_transfer_read [OF s1(2,3) lens, of c1 res iovs "vs_mem g"] assms(14,16,17,18) find
    by (auto simp: Let_def)
  have num: "unat (of_nat (length data) :: u64) = length data"
    using lens(3) by (simp add: unat_of_nat take_bit_nat_eq_self_iff)
  have fit: "unat (t3d_offset t) + length data \<le> iov_total iovs"
    using assms(3,20) by (auto simp: data_def min_def)
  obtain m' s4 where m': "resource_update s3 (vs_mem g) iovs (ucast ?off) (of_nat (length data)) = Returned (m', s4)"
    "pending s4 = rest" "iov_bytes m' iovs = overwrite (unat (t3d_offset t)) data (iov_bytes (vs_mem g) iovs)"
    "\<forall>x. x \<notin> \<Union> (iov_region ` set iovs) \<longrightarrow> m' x = vs_mem g x"
    using resource_update_ok [of "[]" iovs s3 "ucast ?off" "of_nat (length data)" "vs_mem g"] s3 assms(19) num fit off
    by auto
  show ?thesis
    using s1(1) s3(3) m' m assms(9) by (auto simp: resource_message_def c1_def Let_def data_def)
qed

text \<open>The two-by-two resource of the thread, filled on the host.\<close>

definition rb_data :: "byte list" where
  "rb_data = [1, 2, 3, 4, 5, 6, 7, 8, 9, 10, 11, 12, 13, 14, 15, 16]"

definition rb_state :: "nat option pr_state" where
  "rb_state = (demo_pr [])\<lparr>pr_virgl := Some 0, pr_heap := [0 \<mapsto> rb_data], pr_r := replicate 72 0\<rparr>"

definition rb_sent :: "byte list" where
  "rb_sent = res_message_bytes RVGPU_RES_TRANSFER 0 @ transfer_bytes 4 8 (replicate 72 0) 0 rb_data"

definition rb_gpu :: gpu_device where
  "rb_gpu = (demo_gpu 0 None)\<lparr>ctx := back_ctx\<lparr>sc := [\<lparr> activated = True, snd_pipe = (\<lambda>_. []),
     rcv_pipe = (\<lambda>_. [Chunk rb_sent]) \<rparr>]\<rparr>\<rparr>"

lemma rb_facts:
  "upload_need (t_h3d (back_cmd 2)) 4 8 = 16" "t3d_offset (t_h3d (back_cmd 2)) = 0"
  "vo_detach_iov (pe_ops host_env) (pr_virgl rb_state) 7 = (Some 0, None)"
  "pr_heap rb_state 0 = Some rb_data" "length rb_data = 16" "pr_res_writes rb_state = []"
  "pr_res_out rb_state = []" "pr_r rb_state = replicate 72 0" "sz_t_h3d (pe_sizes host_env) = 72"
  by (simp_all add: upload_need_def back_cmd_def host_env_def demo_ops_def rb_state_def demo_pr_def
      rb_data_def linux_sizes_def)

lemma upload_resource_sends_witness:
  "\<exists>s'. upload_resource host_env (t_h3d (back_cmd 2)) 4 8 rb_state = Returned s' \<and> pr_res_out s' = rb_sent"
  using upload_resource_sends [of host_env rb_state "t_h3d (back_cmd 2)" 0 None rb_data 4 8]
  by (auto simp: rb_facts back_env_facts rb_sent_def)

lemma read_back_reaches_guest_witness:
  "\<exists>g'. resource_message (back_env 2) 0 (fence_sync_init 1, rb_gpu) = Returned (fence_sync_init 1, g') \<and>
     iov_bytes (vs_mem g') back_iovs = rb_data \<and> pending (sc (ctx g') ! 0) = []"
proof -
  obtain s' where s': "upload_resource host_env (t_h3d (back_cmd 2)) 4 8 rb_state = Returned s'"
    "pr_res_out s' = pr_res_out rb_state @ rb_sent"
    using upload_sends [of host_env rb_state "t_h3d (back_cmd 2)" 0 None rb_data 4 8]
    by (auto simp: rb_facts back_env_facts rb_sent_def)
  have "sz_t_h3d (e_sizes (back_env 2)) = 72" "e_sizes (back_env 2) = pe_sizes host_env"
    by (simp_all add: back_env_def host_env_def linux_sizes_def)
  moreover have "rb_sent \<noteq> []"
    by (simp add: rb_sent_def res_message_bytes_def)
  then have "open_pipe (sc (ctx rb_gpu) ! 0)" "pending (sc (ctx rb_gpu) ! 0) = rb_sent @ []" "0 < length (sc (ctx rb_gpu))"
    by (simp_all add: rb_gpu_def open_pipe_def pending_def)
  moreover obtain res where "rvgpu_ctx_res_find (ctx rb_gpu) 7 = Some res" "backing res = Some back_iovs"
    "ri_width (res_info res) = 2" "ri_height (res_info res) = 2"
    using back_res by (auto simp: rb_gpu_def rvgpu_ctx_res_find_def)
  ultimately show ?thesis
    using read_back_reaches_guest [of host_env rb_state "t_h3d (back_cmd 2)" 0 None rb_data 4 8 s' rb_sent
        0 rb_gpu "[]" "back_env 2" res back_iovs "fence_sync_init 1"] s' back_facts(1,2)
    by (auto simp: rb_facts back_env_facts overwrite_def)
qed

section \<open>What goes wrong\<close>

text \<open>
  The offset of the guest's transfer is not compared with the length of the copy: past its end the
  difference wraps, the length becomes what the box takes, and the renderer sends memory that follows
  the copy.
\<close>

lemma upload_resource_overread:
  "upload_resource host_env ((t_h3d (back_cmd 2))\<lparr>t3d_offset := 20\<rparr>) 4 8 rb_state =
     Crashed ''iov_base + offset''"
  by (simp add: upload_resource_def detach_iov_def Let_def rb_facts back_env_facts send_res_list_all
      send_res_all upload_patch_len_def del: send_res_list.simps)

end
