(* ===== verification/Touch_Protocol.thy ===== *)
theory Touch_Protocol
  imports Prelude
begin

text \<open>
  The input events that travel from a renderer to the proxy and from there to the input devices of
  the guest (\<open>rvgpu_input_event\<close>, \<open>rvgpu_input_dev\<close> and \<open>rvgpu_input_header\<close> of
  rvgpu-protocol.h, with the event codes of linux/input.h), and what a stream of them means: the
  multi-touch protocol with slots, in which an event concerns the slot named last.  The meaning is
  the specification both ends are proved against.
\<close>

type_synonym i32 = "32 word"

section \<open>Events\<close>

datatype rvgpu_input_dev =
    RVGPU_INPUT_MOUSE | RVGPU_INPUT_MOUSE_ABS | RVGPU_INPUT_KEYBOARD | RVGPU_INPUT_TOUCH

record rvgpu_input_event =
  ev_type :: u16
  ev_code :: u16
  ev_value :: i32

abbreviation event :: "u16 \<Rightarrow> u16 \<Rightarrow> i32 \<Rightarrow> rvgpu_input_event" where
  "event t c v \<equiv> \<lparr> ev_type = t, ev_code = c, ev_value = v \<rparr>"

definition EV_SYN :: u16 where "EV_SYN = 0"
definition EV_KEY :: u16 where "EV_KEY = 1"
definition EV_REL :: u16 where "EV_REL = 2"
definition EV_ABS :: u16 where "EV_ABS = 3"
definition SYN_REPORT :: u16 where "SYN_REPORT = 0"
definition REL_X :: u16 where "REL_X = 0"
definition REL_Y :: u16 where "REL_Y = 1"
definition ABS_X :: u16 where "ABS_X = 0"
definition ABS_Y :: u16 where "ABS_Y = 1"
definition ABS_MISC :: u16 where "ABS_MISC = 0x28"
definition ABS_MT_SLOT :: u16 where "ABS_MT_SLOT = 0x2f"
definition ABS_MT_POSITION_X :: u16 where "ABS_MT_POSITION_X = 0x35"
definition ABS_MT_POSITION_Y :: u16 where "ABS_MT_POSITION_Y = 0x36"
definition ABS_MT_TRACKING_ID :: u16 where "ABS_MT_TRACKING_ID = 0x39"
definition BTN_TOUCH :: u16 where "BTN_TOUCH = 0x14a"

lemmas event_types = EV_SYN_def EV_KEY_def EV_REL_def EV_ABS_def

lemmas touch_codes = ABS_MISC_def ABS_MT_SLOT_def ABS_MT_POSITION_X_def ABS_MT_POSITION_Y_def
  ABS_MT_TRACKING_ID_def

text \<open>A tracking id of 16 bits is never the -1 that ends a contact.\<close>

lemma u16_not_minus: "(ucast (w :: u16) :: i32) \<noteq> - 1"
proof
  assume "(ucast w :: i32) = - 1"
  then have "unat (ucast w :: i32) = 2 ^ 32 - 1"
    by (simp add: unsigned_minus_1_eq_mask mask_eq_exp_minus_1)
  moreover have "unat (ucast w :: i32) = unat w"
    using unat_u16_less [of w] by (simp add: unsigned_ucast_eq take_bit_nat_eq_self_iff)
  ultimately show False
    using unat_u16_less [of w] by simp
qed

section \<open>The meaning of a stream\<close>

text \<open>
  What the reader of a touch device knows: the slot and the window named last, and for each slot the
  tracking id (-1: no contact) and the position reported last.
\<close>

record mt_state =
  mt_slot :: i32
  mt_window :: i32
  mt_track :: "i32 \<Rightarrow> i32"
  mt_x :: "i32 \<Rightarrow> i32"
  mt_y :: "i32 \<Rightarrow> i32"

definition mt_init :: mt_state where
  "mt_init = \<lparr> mt_slot = 0, mt_window = 0, mt_track = (\<lambda>_. - 1), mt_x = (\<lambda>_. 0), mt_y = (\<lambda>_. 0) \<rparr>"

definition mt_event :: "mt_state \<Rightarrow> rvgpu_input_event \<Rightarrow> mt_state" where
  "mt_event k e =
     (if ev_type e \<noteq> EV_ABS then k
      else if ev_code e = ABS_MT_SLOT then k\<lparr>mt_slot := ev_value e\<rparr>
      else if ev_code e = ABS_MISC then k\<lparr>mt_window := ev_value e\<rparr>
      else if ev_code e = ABS_MT_TRACKING_ID then k\<lparr>mt_track := (mt_track k)(mt_slot k := ev_value e)\<rparr>
      else if ev_code e = ABS_MT_POSITION_X then k\<lparr>mt_x := (mt_x k)(mt_slot k := ev_value e)\<rparr>
      else if ev_code e = ABS_MT_POSITION_Y then k\<lparr>mt_y := (mt_y k)(mt_slot k := ev_value e)\<rparr>
      else k)"

definition mt_run :: "mt_state \<Rightarrow> rvgpu_input_event list \<Rightarrow> mt_state" where
  "mt_run = foldl mt_event"

lemma mt_run_simps [simp]: "mt_run k [] = k" "mt_run k (e # es) = mt_run (mt_event k e) es"
  by (simp_all add: mt_run_def)

lemma mt_run_append [simp]: "mt_run k (es @ fs) = mt_run (mt_run k es) fs"
  by (simp add: mt_run_def)

lemma mt_event_other [simp]: "ev_type e \<noteq> EV_ABS \<Longrightarrow> mt_event k e = k"
  by (simp add: mt_event_def)

lemma mt_event_simps [simp]:
  "mt_event k (event EV_ABS ABS_MT_SLOT v) = k\<lparr>mt_slot := v\<rparr>"
  "mt_event k (event EV_ABS ABS_MISC v) = k\<lparr>mt_window := v\<rparr>"
  "mt_event k (event EV_ABS ABS_MT_TRACKING_ID v) = k\<lparr>mt_track := (mt_track k)(mt_slot k := v)\<rparr>"
  "mt_event k (event EV_ABS ABS_MT_POSITION_X v) = k\<lparr>mt_x := (mt_x k)(mt_slot k := v)\<rparr>"
  "mt_event k (event EV_ABS ABS_MT_POSITION_Y v) = k\<lparr>mt_y := (mt_y k)(mt_slot k := v)\<rparr>"
  "mt_event k (event EV_KEY c v) = k"
  "mt_event k (event EV_REL c v) = k"
  "mt_event k (event EV_SYN c v) = k"
  by (simp_all add: mt_event_def touch_codes event_types)

section \<open>A disciplined sender\<close>

text \<open>
  The slots in use and the slot named last.  A sender has 16 slots; it is disciplined when it only
  starts to use the lowest slot that is free, and reports on a slot it uses.
\<close>

definition lowest_free :: "nat set \<Rightarrow> nat \<Rightarrow> bool" where
  "lowest_free used n = (n < 16 \<and> n \<notin> used \<and> (\<forall>m < n. m \<in> used))"

definition disc_event :: "nat set \<times> nat \<Rightarrow> rvgpu_input_event \<Rightarrow> (nat set \<times> nat) option" where
  "disc_event d e =
     (case d of (used, cur) \<Rightarrow>
        if ev_type e \<noteq> EV_ABS then Some d
        else if ev_code e = ABS_MT_SLOT then
          (let n = unat (ev_value e) in
           if n \<in> used \<or> lowest_free used n then Some (insert n used, n) else None)
        else if cur \<notin> used \<or> ev_code e = ABS_MISC then None
        else if ev_code e = ABS_MT_TRACKING_ID \<and> ev_value e = - 1 then Some (used - {cur}, cur)
        else Some d)"

lemma disc_event_simps [simp]:
  "disc_event d (event EV_KEY c v) = Some d"
  "ev_type e \<noteq> EV_ABS \<Longrightarrow> disc_event d e = Some d"
  "disc_event (used, cur) (event EV_ABS ABS_MT_SLOT v) =
     (if unat v \<in> used \<or> lowest_free used (unat v) then Some (insert (unat v) used, unat v) else None)"
  "cur \<in> used \<Longrightarrow> disc_event (used, cur) (event EV_ABS ABS_MT_TRACKING_ID v) =
     Some (if v = - 1 then used - {cur} else used, cur)"
  "cur \<in> used \<Longrightarrow> disc_event (used, cur) (event EV_ABS ABS_MT_POSITION_X v) = Some (used, cur)"
  "cur \<in> used \<Longrightarrow> disc_event (used, cur) (event EV_ABS ABS_MT_POSITION_Y v) = Some (used, cur)"
  by (simp_all add: disc_event_def event_types touch_codes Let_def)

fun disc_run :: "nat set \<times> nat \<Rightarrow> rvgpu_input_event list \<Rightarrow> (nat set \<times> nat) option" where
  "disc_run d [] = Some d"
| "disc_run d (e # es) = (case disc_event d e of None \<Rightarrow> None | Some d' \<Rightarrow> disc_run d' es)"

lemma disc_run_append:
  "disc_run d (es @ fs) = (case disc_run d es of None \<Rightarrow> None | Some d' \<Rightarrow> disc_run d' fs)"
  by (induction es arbitrary: d) (simp_all split: option.splits)

end
