(* ===== verification/Touch_Slots.thy ===== *)
theory Touch_Slots
  imports Renderer_Input
begin

text \<open>
  What the events queued and sent by a renderer show of its touch slots.  A reader of the stream is
  given by an interface, \<open>touch_reader\<close>; the operations on the slots keep every such reader in
  step.  The readers are the multi-touch protocol itself and the check that the sender is
  disciplined.
\<close>

section \<open>Readers of a touch stream\<close>

text \<open>What a reader can see of a slot: whether it has a contact, and the position reported last.\<close>

type_synonym slot_key = "bool \<times> i32 \<times> i32"

definition slot_key :: "'d rvgpu_input_slot \<Rightarrow> slot_key" where
  "slot_key s = (sl_id s \<noteq> - 1, sl_last_x s, sl_last_y s)"

definition keys_ok :: "slot_key list \<Rightarrow> bool" where
  "keys_ok ks = (length ks = MAX_SLOTS \<and> (\<forall>i < MAX_SLOTS. \<not> fst (ks ! i) \<longrightarrow> snd (ks ! i) = (- 1, - 1)))"

text \<open>
  \<open>shows k ks slot w\<close>: a reader in state \<open>k\<close> sees the slots \<open>ks\<close>, with \<open>slot\<close> and the window \<open>w\<close>
  named last; \<open>W\<close> are the windows a sender may name.
\<close>

locale touch_reader =
  fixes read :: "'k \<Rightarrow> rvgpu_input_event list \<Rightarrow> 'k option"
    and shows_slots :: "'k \<Rightarrow> slot_key list \<Rightarrow> i32 \<Rightarrow> u32 \<Rightarrow> bool"
    and W :: "u32 set"
  assumes read_Nil: "read k [] = Some k"
    and read_append: "read k es = Some k' \<Longrightarrow> read k (es @ fs) = read k' fs"
    and read_other: "ev_type e \<noteq> EV_ABS \<Longrightarrow> read k [e] = Some k"
    and read_window: "shows_slots k ks sl w \<Longrightarrow> w \<in> W \<Longrightarrow> w' \<in> W \<Longrightarrow> w \<noteq> w' \<Longrightarrow>
      \<exists>k'. read k [event EV_ABS ABS_MISC w'] = Some k' \<and> shows_slots k' ks sl w'"
    and read_slot: "shows_slots k ks sl w \<Longrightarrow> keys_ok ks \<Longrightarrow> i < MAX_SLOTS \<Longrightarrow> fst (ks ! i) \<Longrightarrow>
      \<exists>k'. read k [event EV_ABS ABS_MT_SLOT (of_nat i)] = Some k' \<and> shows_slots k' ks (of_nat i) w"
    and read_start: "shows_slots k ks sl w \<Longrightarrow> keys_ok ks \<Longrightarrow> i < MAX_SLOTS \<Longrightarrow> \<not> fst (ks ! i) \<Longrightarrow>
      (\<forall>m < i. fst (ks ! m)) \<Longrightarrow> v \<noteq> - 1 \<Longrightarrow>
      \<exists>k'. read k [event EV_ABS ABS_MT_SLOT (of_nat i), event EV_ABS ABS_MT_TRACKING_ID v,
                   event EV_KEY BTN_TOUCH 1] = Some k' \<and>
           shows_slots k' (ks[i := (True, - 1, - 1)]) (of_nat i) w"
    and read_stop: "shows_slots k ks (of_nat i) w \<Longrightarrow> keys_ok ks \<Longrightarrow> i < MAX_SLOTS \<Longrightarrow> fst (ks ! i) \<Longrightarrow>
      \<exists>k'. read k [event EV_ABS ABS_MT_TRACKING_ID (- 1), event EV_KEY BTN_TOUCH 0] = Some k' \<and>
           shows_slots k' (ks[i := (False, - 1, - 1)]) (of_nat i) w"
    and read_x: "shows_slots k ks (of_nat i) w \<Longrightarrow> keys_ok ks \<Longrightarrow> i < MAX_SLOTS \<Longrightarrow> ks ! i = (True, x, y) \<Longrightarrow>
      \<exists>k'. read k [event EV_ABS ABS_MT_POSITION_X x'] = Some k' \<and>
           shows_slots k' (ks[i := (True, x', y)]) (of_nat i) w"
    and read_y: "shows_slots k ks (of_nat i) w \<Longrightarrow> keys_ok ks \<Longrightarrow> i < MAX_SLOTS \<Longrightarrow> ks ! i = (True, x, y) \<Longrightarrow>
      \<exists>k'. read k [event EV_ABS ABS_MT_POSITION_Y y'] = Some k' \<and>
           shows_slots k' (ks[i := (True, x, y')]) (of_nat i) w"

section \<open>The queue\<close>

definition touch_queue :: "'d rvgpu_input_state \<Rightarrow> rvgpu_input_queue" where
  "touch_queue s = in_iq s RVGPU_INPUT_TOUCH"

definition queued :: "'d rvgpu_input_state \<Rightarrow> rvgpu_input_event list" where
  "queued s = take (unat (iq_evnum (touch_queue s))) (iq_events (touch_queue s))"

definition sent :: "'d rvgpu_input_state \<Rightarrow> rvgpu_input_event list" where
  "sent s = concat (map snd (filter (\<lambda>m. fst m = RVGPU_INPUT_TOUCH) (in_out s)))"

definition queue_ok :: "'d rvgpu_input_state \<Rightarrow> bool" where
  "queue_ok s = (unat (iq_evnum (touch_queue s)) \<le> length (iq_events (touch_queue s)))"

text \<open>Room for \<open>n\<close> more events in the 16-bit count.\<close>

definition room :: "nat \<Rightarrow> 'd rvgpu_input_state \<Rightarrow> bool" where
  "room n s = (unat (iq_evnum (touch_queue s)) + n < 2 ^ 16)"

lemma unat_add_of_nat_u16: "unat (w :: u16) + n < 2 ^ 16 \<Longrightarrow> unat (w + of_nat n) = unat w + n"
  by (simp add: unat_word_ariths unat_of_nat)

lemma events_touch:
  assumes "\<And>n. grow n" "queue_ok s" "room (length evs) s"
  shows "queued (rvgpu_in_events grow RVGPU_INPUT_TOUCH evs s) = queued s @ evs"
    and "queue_ok (rvgpu_in_events grow RVGPU_INPUT_TOUCH evs s)"
    and "room n (rvgpu_in_events grow RVGPU_INPUT_TOUCH evs s) \<longleftrightarrow> room (length evs + n) s"
  using assms(2,3)
  by (simp_all add: rvgpu_in_events_def assms(1) queued_def queue_ok_def room_def touch_queue_def
      unat_add_of_nat_u16 Let_def add.assoc)

lemma events_frame [simp]:
  "in_slots (rvgpu_in_events grow d evs s) = in_slots s" "in_olds (rvgpu_in_events grow d evs s) = in_olds s"
  "last_slot (rvgpu_in_events grow d evs s) = last_slot s" "old_slot (rvgpu_in_events grow d evs s) = old_slot s"
  "last_window_id (rvgpu_in_events grow d evs s) = last_window_id s"
  "old_window_id (rvgpu_in_events grow d evs s) = old_window_id s"
  "track_seq (rvgpu_in_events grow d evs s) = track_seq s" "in_out (rvgpu_in_events grow d evs s) = in_out s"
  by (simp_all add: rvgpu_in_events_def Let_def)

lemma queue_frame [simp]:
  "queued (s\<lparr>in_slots := ss\<rparr>) = queued s" "queue_ok (s\<lparr>in_slots := ss\<rparr>) = queue_ok s"
  "room n (s\<lparr>in_slots := ss\<rparr>) = room n s"
  "queued (s\<lparr>last_slot := a\<rparr>) = queued s" "queued (s\<lparr>last_window_id := w\<rparr>) = queued s"
  "queued (s\<lparr>track_seq := q\<rparr>) = queued s" "queued (set_slot i f s) = queued s"
  "queue_ok (s\<lparr>last_slot := a\<rparr>) = queue_ok s" "queue_ok (s\<lparr>last_window_id := w\<rparr>) = queue_ok s"
  "queue_ok (s\<lparr>track_seq := q\<rparr>) = queue_ok s" "queue_ok (set_slot i f s) = queue_ok s"
  "room n (s\<lparr>last_slot := a\<rparr>) = room n s" "room n (s\<lparr>last_window_id := w\<rparr>) = room n s"
  "room n (s\<lparr>track_seq := q\<rparr>) = room n s" "room n (set_slot i f s) = room n s"
  by (simp_all add: queued_def queue_ok_def room_def touch_queue_def set_slot_def)

lemma set_slot_frame [simp]:
  "in_slots (set_slot i f s) = (in_slots s)[i := f (in_slots s ! i)]" "in_olds (set_slot i f s) = in_olds s"
  "last_slot (set_slot i f s) = last_slot s" "old_slot (set_slot i f s) = old_slot s"
  "last_window_id (set_slot i f s) = last_window_id s" "old_window_id (set_slot i f s) = old_window_id s"
  "track_seq (set_slot i f s) = track_seq s" "in_out (set_slot i f s) = in_out s"
  by (simp_all add: set_slot_def)

lemma room_mono: "room n s \<Longrightarrow> m \<le> n \<Longrightarrow> room m s"
  by (simp add: room_def)

section \<open>The slots\<close>

lemma slot_index_Some:
  "slot_index i ss t = Some j \<Longrightarrow>
   i \<le> j \<and> j - i < length ss \<and> sl_id (ss ! (j - i)) = t \<and> (\<forall>m < j - i. sl_id (ss ! m) \<noteq> t)"
proof (induction ss arbitrary: i)
  case (Cons s ss)
  show ?case
  proof (cases "sl_id s = t")
    case False
    then have *: "i + 1 \<le> j \<and> j - (i + 1) < length ss \<and> sl_id (ss ! (j - (i + 1))) = t \<and>
        (\<forall>m < j - (i + 1). sl_id (ss ! m) \<noteq> t)"
      using Cons.prems by (intro Cons.IH) simp
    have "j - i = Suc (j - (i + 1))" using * by linarith
    then show ?thesis
      using * False by (auto simp: less_Suc_eq_0_disj)
  qed (use Cons.prems in simp)
qed simp

lemma slot_index_None: "slot_index i ss t = None \<longleftrightarrow> (\<forall>s \<in> set ss. sl_id s \<noteq> t)"
  by (induction ss arbitrary: i) auto

lemma find_slot_Some:
  "find_slot s t = Some i \<Longrightarrow> i < length (in_slots s) \<and> sl_id (in_slots s ! i) = t"
  using slot_index_Some [of 0 "in_slots s" t i] by (simp add: find_slot_def)

lemma find_free_slot_Some:
  "find_free_slot s = Some i \<Longrightarrow>
   i < length (in_slots s) \<and> sl_id (in_slots s ! i) = - 1 \<and> (\<forall>m < i. sl_id (in_slots s ! m) \<noteq> - 1)"
  using slot_index_Some [of 0 "in_slots s" "- 1" i] by (simp add: find_free_slot_def)

abbreviation keys :: "'d rvgpu_input_slot list \<Rightarrow> slot_key list" where
  "keys ss \<equiv> map slot_key ss"

text \<open>The slots of the state and of its copy: well formed, and their windows are in \<open>W\<close>.\<close>

definition slots_ok :: "u32 set \<Rightarrow> 'd rvgpu_input_slot list \<Rightarrow> u32 \<Rightarrow> bool" where
  "slots_ok W ss w = (keys_ok (keys ss) \<and> w \<in> W \<and> (\<forall>s \<in> set ss. sl_id s \<noteq> - 1 \<longrightarrow> sl_window_id s \<in> W) \<and>
     (\<forall>i < MAX_SLOTS. \<forall>j < MAX_SLOTS. sl_id (ss ! i) = sl_id (ss ! j) \<longrightarrow> sl_id (ss ! i) \<noteq> - 1 \<longrightarrow> i = j))"

lemma slots_okD:
  assumes "slots_ok W ss w"
  shows "length ss = MAX_SLOTS" "keys_ok (keys ss)" "w \<in> W"
    "i < MAX_SLOTS \<Longrightarrow> sl_id (ss ! i) \<noteq> - 1 \<Longrightarrow> sl_window_id (ss ! i) \<in> W"
    "i < MAX_SLOTS \<Longrightarrow> sl_id (ss ! i) = - 1 \<Longrightarrow> slot_key (ss ! i) = (False, - 1, - 1)"
proof -
  have len: "length ss = MAX_SLOTS"
    using assms by (simp add: slots_ok_def keys_ok_def)
  then show "length ss = MAX_SLOTS" .
  show "keys_ok (keys ss)" "w \<in> W"
    using assms by (simp_all add: slots_ok_def)
  show "i < MAX_SLOTS \<Longrightarrow> sl_id (ss ! i) \<noteq> - 1 \<Longrightarrow> sl_window_id (ss ! i) \<in> W"
    using assms len by (simp add: slots_ok_def)
  show "i < MAX_SLOTS \<Longrightarrow> sl_id (ss ! i) = - 1 \<Longrightarrow> slot_key (ss ! i) = (False, - 1, - 1)"
    using assms len by (auto simp: slots_ok_def keys_ok_def slot_key_def)
qed

lemma map_key_update:
  "slot_key (f (ss ! i)) = c \<Longrightarrow> i < length ss \<Longrightarrow> keys (ss[i := f (ss ! i)]) = (keys ss)[i := c]"
  by (simp add: map_update)

lemma keys_ok_update:
  "keys_ok ks \<Longrightarrow> (\<not> fst c \<Longrightarrow> snd c = (- 1, - 1)) \<Longrightarrow> keys_ok (ks[i := c])"
  by (auto simp: keys_ok_def nth_update split: if_splits)

lemma slots_ok_update:
  assumes "slots_ok W ss w" "w' \<in> W"
    and "sl_id x = - 1 \<Longrightarrow> sl_last_x x = - 1 \<and> sl_last_y x = - 1"
    and "sl_id x \<noteq> - 1 \<Longrightarrow> sl_window_id x \<in> W"
    and "sl_id x \<noteq> - 1 \<Longrightarrow> (\<forall>j < MAX_SLOTS. j \<noteq> i \<longrightarrow> sl_id (ss ! j) \<noteq> sl_id x)"
  shows "slots_ok W (ss[i := x]) w'"
proof -
  have "keys_ok ((keys ss)[i := slot_key x])"
    using assms(1,3) by (intro keys_ok_update) (auto simp: slots_ok_def slot_key_def)
  moreover have "\<forall>s \<in> set (ss[i := x]). sl_id s \<noteq> - 1 \<longrightarrow> sl_window_id s \<in> W"
    using assms(1,4) set_update_subset_insert [of ss i x] by (auto simp: slots_ok_def)
  moreover have "length ss = MAX_SLOTS"
    using assms(1) by (rule slots_okD)
  ultimately show ?thesis
    using assms(1,2,5) unfolding slots_ok_def
    by (auto simp: map_update nth_update split: if_splits) (metis)
qed

section \<open>The operations keep a reader in step\<close>

text \<open>Seen from the reader state \<open>k\<close> of the sent events, the queued events show the slots.\<close>

definition follows ::
  "('k \<Rightarrow> rvgpu_input_event list \<Rightarrow> 'k option) \<Rightarrow> ('k \<Rightarrow> slot_key list \<Rightarrow> i32 \<Rightarrow> u32 \<Rightarrow> bool) \<Rightarrow> u32 set \<Rightarrow>
     'k \<Rightarrow> 'd rvgpu_input_state \<Rightarrow> bool" where
  "follows read shows_slots W k s =
     (queue_ok s \<and> slots_ok W (in_slots s) (last_window_id s) \<and>
      (\<exists>k'. read k (queued s) = Some k' \<and>
         shows_slots k' (keys (in_slots s)) (last_slot s) (last_window_id s)))"

text \<open>What only sending and clearing change.\<close>

definition same_sent :: "'d rvgpu_input_state \<Rightarrow> 'd rvgpu_input_state \<Rightarrow> bool" where
  "same_sent s s' =
     (in_out s' = in_out s \<and> in_olds s' = in_olds s \<and> old_slot s' = old_slot s \<and>
      old_window_id s' = old_window_id s)"

lemma last_slot_same: "last_slot s = a \<Longrightarrow> s\<lparr>last_slot := a\<rparr> = s"
  by (cases s) simp

lemma same_sent_refl [simp]: "same_sent s s"
  by (simp add: same_sent_def)

lemma same_sent_remove: "same_sent s (rvgpu_in_remove_slot grow t s)"
  by (simp add: same_sent_def rvgpu_in_remove_slot_def Let_def split: option.split)

lemma same_sent_add: "same_sent s (rvgpu_in_add_slot dbl grow t w b1 b2 b3 s)"
  using same_sent_remove [of "s\<lparr>track_seq := track_seq s + 1\<rparr>" grow t]
  by (simp add: same_sent_def rvgpu_in_add_slot_def Let_def split: option.split)

lemma same_sent_move: "same_sent s (rvgpu_in_move_slot dbl grow t x y s)"
  by (simp add: same_sent_def rvgpu_in_move_slot_def touch_event_def Let_def split: option.split)

context touch_reader
begin

lemma followsD:
  assumes "follows read shows_slots W k s"
  shows "queue_ok s" "slots_ok W (in_slots s) (last_window_id s)"
    "\<exists>k'. read k (queued s) = Some k' \<and> shows_slots k' (keys (in_slots s)) (last_slot s) (last_window_id s)"
  using assms by (simp_all add: follows_def)

lemma read_append2:
  "read k es = Some k' \<Longrightarrow> read k' fs = Some k'' \<Longrightarrow> read k (es @ fs) = Some k''"
  by (simp add: read_append)

lemma emit:
  assumes "\<And>n. grow n" "queue_ok s" "room (length evs) s"
    and "read k (queued s) = Some k'" "read k' evs = Some k''"
  shows "read k (queued (rvgpu_in_events grow RVGPU_INPUT_TOUCH evs s)) = Some k''"
  using assms by (simp add: events_touch read_append2)

lemma follows_remove:
  assumes grow: "\<And>n. grow n" and f: "follows read shows_slots W k s" and r: "room 3 s" and t: "t \<noteq> - 1"
  shows "follows read shows_slots W k (rvgpu_in_remove_slot grow t s)"
proof (cases "find_slot s t")
  case None
  then show ?thesis using f by (simp add: rvgpu_in_remove_slot_def)
next
  case (Some i)
  note ok = slots_okD [OF followsD(2) [OF f]]
  have i: "i < MAX_SLOTS" "sl_id (in_slots s ! i) \<noteq> - 1"
    using find_slot_Some [OF Some] t ok(1) by simp_all
  then have key: "fst (keys (in_slots s) ! i)"
    using ok(1) by (simp add: slot_key_def)
  obtain k' where k': "read k (queued s) = Some k'"
      "shows_slots k' (keys (in_slots s)) (last_slot s) (last_window_id s)"
    using followsD(3) [OF f] by blast
  define evs where "evs = (if last_slot s = of_nat i then [] else [event EV_ABS ABS_MT_SLOT (of_nat i)]) @
    [event EV_ABS ABS_MT_TRACKING_ID (- 1), event EV_KEY BTN_TOUCH 0]"
  have "\<exists>k1. read k' (if last_slot s = of_nat i then [] else [event EV_ABS ABS_MT_SLOT (of_nat i)]) = Some k1 \<and>
      shows_slots k1 (keys (in_slots s)) (of_nat i) (last_window_id s)"
    using read_slot [OF k'(2) ok(2) i(1) key] k'(2) by (auto simp: read_Nil)
  then obtain k2 where k2: "read k' evs = Some k2"
      "shows_slots k2 ((keys (in_slots s))[i := (False, - 1, - 1)]) (of_nat i) (last_window_id s)"
    using read_stop [OF _ ok(2) i(1) key] unfolding evs_def by (meson read_append2)
  define s1 where "s1 = rvgpu_in_events grow RVGPU_INPUT_TOUCH evs s"
  have r': "room (length evs) s"
    using r by (rule room_mono) (simp add: evs_def)
  have q: "read k (queued s1) = Some k2" "queue_ok s1"
    using emit [OF grow followsD(1) [OF f] r' k'(1) k2(1)] events_touch [OF grow followsD(1) [OF f] r']
    by (simp_all add: s1_def)
  have eq: "rvgpu_in_remove_slot grow t s =
      set_slot i (\<lambda>x. x\<lparr>sl_id := - 1, sl_last_x := - 1, sl_last_y := - 1\<rparr>) (s1\<lparr>last_slot := of_nat i\<rparr>)"
    using Some by (cases "last_slot s = of_nat i")
      (simp_all add: rvgpu_in_remove_slot_def s1_def evs_def last_slot_same)
  have "slots_ok W ((in_slots s)[i := (in_slots s ! i)\<lparr>sl_id := - 1, sl_last_x := - 1, sl_last_y := - 1\<rparr>])
      (last_window_id s)"
    by (rule slots_ok_update [OF followsD(2) [OF f] ok(3)]) simp_all
  then show ?thesis
    unfolding follows_def eq
    using q k2(2) ok(1) i by (simp add: map_update slot_key_def s1_def)
qed

lemma follows_touch:
  assumes "\<And>n. grow n" "follows read shows_slots W k s" "room 1 s"
    and "\<And>k'. shows_slots k' (keys (in_slots s)) (last_slot s) (last_window_id s) \<Longrightarrow>
      \<exists>k''. read k' [event EV_ABS c v] = Some k'' \<and> shows_slots k'' (keys ss) sl w"
    and "slots_ok W ss w"
  shows "follows read shows_slots W k
    ((touch_event grow c v s)\<lparr>in_slots := ss, last_slot := sl, last_window_id := w\<rparr>)"
proof -
  have r: "room (length [event EV_ABS c v]) s"
    using assms(3) by simp
  obtain k' where k': "read k (queued s) = Some k'"
      "shows_slots k' (keys (in_slots s)) (last_slot s) (last_window_id s)"
    using followsD(3) [OF assms(2)] by blast
  obtain k'' where k'': "read k' [event EV_ABS c v] = Some k''" "shows_slots k'' (keys ss) sl w"
    using assms(4) [OF k'(2)] by blast
  show ?thesis
    using emit [OF assms(1) followsD(1) [OF assms(2)] r k'(1) k''(1)] k''(2) assms(5)
      events_touch(2) [OF assms(1) followsD(1) [OF assms(2)] r]
    by (simp add: follows_def touch_event_def)
qed

lemma follows_window:
  assumes "\<And>n. grow n" "follows read shows_slots W k s" "room 1 s" "w \<in> W" "w \<noteq> last_window_id s"
  shows "follows read shows_slots W k ((touch_event grow ABS_MISC w s)\<lparr>last_window_id := w\<rparr>)"
proof -
  note ok = followsD(2) [OF assms(2)]
  have "slots_ok W (in_slots s) w"
    using ok assms(4) by (simp add: slots_ok_def)
  from follows_touch [OF assms(1-3) _ this]
  have "follows read shows_slots W k
      ((touch_event grow ABS_MISC w s)\<lparr>in_slots := in_slots s, last_slot := last_slot s, last_window_id := w\<rparr>)"
    using read_window [OF _ slots_okD(3) [OF ok] assms(4) not_sym [OF assms(5)]] .
  then show ?thesis
    by (simp add: follows_def touch_event_def)
qed

lemma follows_slot:
  assumes "\<And>n. grow n" "follows read shows_slots W k s" "room 1 s"
    and i: "i < MAX_SLOTS" "sl_id (in_slots s ! i) \<noteq> - 1"
  shows "follows read shows_slots W k ((touch_event grow ABS_MT_SLOT (of_nat i) s)\<lparr>last_slot := of_nat i\<rparr>)"
proof -
  note ok = followsD(2) [OF assms(2)]
  have "fst (keys (in_slots s) ! i)"
    using i slots_okD(1) [OF ok] by (simp add: slot_key_def)
  from follows_touch [OF assms(1-3) read_slot [OF _ slots_okD(2) [OF ok] i(1) this] ok]
  show ?thesis
    by (simp add: follows_def touch_event_def)
qed

lemma follows_pos:
  assumes "\<And>n. grow n" "follows read shows_slots W k s" "room 1 s"
    and i: "i < MAX_SLOTS" "sl_id (in_slots s ! i) \<noteq> - 1" "last_slot s = of_nat i"
  shows "follows read shows_slots W k
      (set_slot i (\<lambda>t. t\<lparr>sl_last_x := v\<rparr>) (touch_event grow ABS_MT_POSITION_X v s))"
    and "follows read shows_slots W k
      (set_slot i (\<lambda>t. t\<lparr>sl_last_y := v\<rparr>) (touch_event grow ABS_MT_POSITION_Y v s))"
proof -
  note ok = followsD(2) [OF assms(2)]
  note ids = ok [unfolded slots_ok_def, THEN conjunct2, THEN conjunct2, THEN conjunct2]
  have key: "keys (in_slots s) ! i = (True, sl_last_x (in_slots s ! i), sl_last_y (in_slots s ! i))"
    using i slots_okD(1) [OF ok] by (simp add: slot_key_def)
  have len: "i < length (in_slots s)"
    using i(1) slots_okD(1) [OF ok] by simp
  let ?x = "(in_slots s)[i := (in_slots s ! i)\<lparr>sl_last_x := v\<rparr>]"
  let ?y = "(in_slots s)[i := (in_slots s ! i)\<lparr>sl_last_y := v\<rparr>]"
  have "slots_ok W ?x (last_window_id s)"
    by (rule slots_ok_update [OF ok slots_okD(3) [OF ok]])
      (use i ids slots_okD(4) [OF ok] in auto)
  moreover have "keys ?x = (keys (in_slots s))[i := (True, v, sl_last_y (in_slots s ! i))]"
    using i by (simp add: map_update slot_key_def)
  ultimately show "follows read shows_slots W k
      (set_slot i (\<lambda>t. t\<lparr>sl_last_x := v\<rparr>) (touch_event grow ABS_MT_POSITION_X v s))"
    using follows_touch [OF assms(1-3), of ABS_MT_POSITION_X v ?x "of_nat i" "last_window_id s"]
      read_x [OF _ slots_okD(2) [OF ok] i(1) key] i(3)
    by (simp add: follows_def touch_event_def)
  have "slots_ok W ?y (last_window_id s)"
    by (rule slots_ok_update [OF ok slots_okD(3) [OF ok]])
      (use i ids slots_okD(4) [OF ok] in auto)
  moreover have "keys ?y = (keys (in_slots s))[i := (True, sl_last_x (in_slots s ! i), v)]"
    using i by (simp add: map_update slot_key_def)
  ultimately show "follows read shows_slots W k
      (set_slot i (\<lambda>t. t\<lparr>sl_last_y := v\<rparr>) (touch_event grow ABS_MT_POSITION_Y v s))"
    using follows_touch [OF assms(1-3), of ABS_MT_POSITION_Y v ?y "of_nat i" "last_window_id s"]
      read_y [OF _ slots_okD(2) [OF ok] i(1) key] i(3)
    by (simp add: follows_def touch_event_def)
qed

lemma room_touch:
  assumes "\<And>n. grow n" "follows read shows_slots W k s" "room (n + 1) s"
  shows "room n (touch_event grow c v s)"
proof -
  have "room (length [event EV_ABS c v]) s"
    using assms(3) by (rule room_mono) simp
  then show ?thesis
    using events_touch(3) [OF assms(1) followsD(1) [OF assms(2)], of _ n] assms(3)
    by (simp add: touch_event_def)
qed

lemma follows_move:
  assumes grow: "\<And>n. grow n" and f: "follows read shows_slots W k s" and r: "room 4 s" and t: "t \<noteq> - 1"
  shows "follows read shows_slots W k (rvgpu_in_move_slot dbl grow t x y s)"
proof (cases "find_slot s t")
  case None
  then show ?thesis using f by (simp add: rvgpu_in_move_slot_def)
next
  case (Some i)
  note ok = slots_okD [OF followsD(2) [OF f]]
  have i: "i < MAX_SLOTS" "sl_id (in_slots s ! i) \<noteq> - 1" "i < length (in_slots s)"
    using find_slot_Some [OF Some] t ok(1) by simp_all
  define sl where "sl = in_slots s ! i"
  define nx where "nx = d_to_i32 dbl (d_add dbl (d_mul dbl x (sl_ax sl)) (sl_bx sl))"
  define ny where "ny = d_to_i32 dbl (d_add dbl (d_mul dbl y (sl_ay sl)) (sl_by sl))"
  define s1 where "s1 = (if last_window_id s \<noteq> sl_window_id sl
    then (touch_event grow ABS_MISC (sl_window_id sl) s)\<lparr>last_window_id := sl_window_id sl\<rparr> else s)"
  define s2 where "s2 = (if last_slot s1 \<noteq> of_nat i
    then (touch_event grow ABS_MT_SLOT (of_nat i) s1)\<lparr>last_slot := of_nat i\<rparr> else s1)"
  define s3 where "s3 = (if sl_last_x sl \<noteq> nx
    then set_slot i (\<lambda>t. t\<lparr>sl_last_x := nx\<rparr>) (touch_event grow ABS_MT_POSITION_X nx s2) else s2)"
  define s4 where "s4 = (if sl_last_y sl \<noteq> ny
    then set_slot i (\<lambda>t. t\<lparr>sl_last_y := ny\<rparr>) (touch_event grow ABS_MT_POSITION_Y ny s3) else s3)"
  have r': "room (3 + 1) s" "room 1 s"
    using r by (simp_all add: room_mono [of 4])
  have 1: "follows read shows_slots W k s1" "room 3 s1" "in_slots s1 = in_slots s"
    using f r r' follows_window [OF grow f r'(2) ok(4) [OF i(1,2)]] room_touch [OF grow f r'(1)]
    by (auto simp: s1_def sl_def touch_event_def room_mono [of 4])
  then have r1: "room (2 + 1) s1" "room 1 s1"
    by (simp_all add: room_mono [of 3])
  have 2: "follows read shows_slots W k s2" "room 2 s2" "in_slots s2 = in_slots s" "last_slot s2 = of_nat i"
    using 1 r1 i(1,2) follows_slot [OF grow 1(1) r1(2) i(1)] room_touch [OF grow 1(1) r1(1)]
    by (auto simp: s2_def touch_event_def room_mono [of 3])
  then have r2: "room (1 + 1) s2" "room 1 s2"
    by (simp_all add: room_mono [of 2] numeral_2_eq_2)
  have 3: "follows read shows_slots W k s3" "room 1 s3" "last_slot s3 = of_nat i" "sl_id (in_slots s3 ! i) \<noteq> - 1"
    using 2 r2 i follows_pos(1) [OF grow 2(1) r2(2) i(1)] room_touch [OF grow 2(1) r2(1)]
    by (auto simp: s3_def touch_event_def)
  have 4: "follows read shows_slots W k s4"
    using 3 follows_pos(2) [OF grow 3(1,2) i(1) 3(4,3)] by (simp add: s4_def)
  have "rvgpu_in_move_slot dbl grow t x y s = (if nx \<noteq> sl_last_x sl \<or> ny \<noteq> sl_last_y sl then s4 else s)"
    using Some by (simp add: rvgpu_in_move_slot_def Let_def sl_def nx_def ny_def s1_def s2_def s3_def s4_def)
  then show ?thesis
    using 4 f by simp
qed

lemma remove_gone:
  assumes "follows read shows_slots W k s" "j < MAX_SLOTS" "t \<noteq> - 1"
  shows "sl_id (in_slots (rvgpu_in_remove_slot grow t s) ! j) \<noteq> t"
proof (cases "find_slot s t")
  case None
  then have "rvgpu_in_remove_slot grow t s = s"
    by (simp add: rvgpu_in_remove_slot_def)
  moreover have "\<forall>x \<in> set (in_slots s). sl_id x \<noteq> t"
    using None by (simp add: find_slot_def slot_index_None)
  ultimately show ?thesis
    using assms(2) slots_okD(1) [OF followsD(2) [OF assms(1)]] by simp
next
  case (Some i)
  note ok = followsD(2) [OF assms(1)]
  have i: "i < MAX_SLOTS" "sl_id (in_slots s ! i) = t"
    using find_slot_Some [OF Some] slots_okD(1) [OF ok] by simp_all
  then have "sl_id (in_slots s ! j) = t \<Longrightarrow> j = i"
    using ok assms(2,3) by (simp add: slots_ok_def)
  then show ?thesis
    using Some assms(2,3) i slots_okD(1) [OF ok]
    by (auto simp: rvgpu_in_remove_slot_def Let_def nth_update)
qed

lemma room_remove:
  assumes "\<And>n. grow n" "follows read shows_slots W k s" "room (n + 3) s"
  shows "room n (rvgpu_in_remove_slot grow t s)"
proof -
  have "room m s" if "m \<le> n + 3" for m
    using room_mono [OF assms(3) that] .
  then show ?thesis
    using events_touch(3) [OF assms(1) followsD(1) [OF assms(2)], where n = n]
    by (simp add: rvgpu_in_remove_slot_def Let_def split: option.split)
qed

lemma follows_track [simp]: "follows read shows_slots W k (s\<lparr>track_seq := q\<rparr>) = follows read shows_slots W k s"
  by (simp add: follows_def)

text \<open>Starting a contact in the lowest free slot.\<close>

lemma follows_start:
  assumes grow: "\<And>n. grow n" and f: "follows read shows_slots W k s" and r: "room 4 s"
    and w: "w \<in> W" and v: "v \<noteq> - 1" and free: "find_free_slot s = Some i"
    and x: "slot_key x = (True, - 1, - 1)" "sl_window_id x = w"
    and new: "\<And>j. j < MAX_SLOTS \<Longrightarrow> sl_id (in_slots s ! j) \<noteq> sl_id x"
    and s': "s' = (rvgpu_in_events grow RVGPU_INPUT_TOUCH
        ((if last_window_id s = w then [] else [event EV_ABS ABS_MISC w]) @
         [event EV_ABS ABS_MT_SLOT (of_nat i), event EV_ABS ABS_MT_TRACKING_ID v, event EV_KEY BTN_TOUCH 1]) s)
        \<lparr>in_slots := (in_slots s)[i := x], last_slot := of_nat i, last_window_id := w\<rparr>"
  shows "follows read shows_slots W k s'"
proof -
  note ok = slots_okD [OF followsD(2) [OF f]]
  let ?ks = "keys (in_slots s)" and ?start = "[event EV_ABS ABS_MT_SLOT (of_nat i),
    event EV_ABS ABS_MT_TRACKING_ID v, event EV_KEY BTN_TOUCH 1]"
  let ?win = "if last_window_id s = w then [] else [event EV_ABS ABS_MISC w]"
  have i: "i < MAX_SLOTS" "\<not> fst (?ks ! i)" "\<forall>m < i. fst (?ks ! m)"
    using find_free_slot_Some [OF free] ok(1) by (simp_all add: slot_key_def)
  obtain k' where k': "read k (queued s) = Some k'" "shows_slots k' ?ks (last_slot s) (last_window_id s)"
    using followsD(3) [OF f] by blast
  have "\<exists>k1. read k' ?win = Some k1 \<and> shows_slots k1 ?ks (last_slot s) w"
    using read_window [OF k'(2) ok(3) w] k'(2) by (auto simp: read_Nil)
  then obtain k1 where k1: "read k' ?win = Some k1" "shows_slots k1 ?ks (last_slot s) w" by blast
  obtain k2 where k2: "read k1 ?start = Some k2" "shows_slots k2 (?ks[i := (True, - 1, - 1)]) (of_nat i) w"
    using read_start [OF k1(2) ok(2) i v] by blast
  have len: "room (length (?win @ ?start)) s"
    using r by (rule room_mono) simp
  have "slots_ok W ((in_slots s)[i := x]) w"
    using x new by (intro slots_ok_update [OF followsD(2) [OF f] w]) (auto simp: slot_key_def w)
  then show ?thesis
    using emit [OF grow followsD(1) [OF f] len k'(1) read_append2 [OF k1(1) k2(1)]] k2(2)
      events_touch(2) [OF grow followsD(1) [OF f] len] x(1)
    by (simp add: s' follows_def map_update)
qed

lemma follows_add:
  assumes grow: "\<And>n. grow n" and f: "follows read shows_slots W k s" and r: "room 7 s" and t: "t \<noteq> - 1"
    and w: "w \<in> W"
  shows "follows read shows_slots W k (rvgpu_in_add_slot dbl grow t w b1 b2 b3 s)"
proof -
  define s2 where "s2 = (if find_slot s t \<noteq> None
    then rvgpu_in_remove_slot grow t (s\<lparr>track_seq := track_seq s + 1\<rparr>) else s\<lparr>track_seq := track_seq s + 1\<rparr>)"
  have f1: "follows read shows_slots W k (s\<lparr>track_seq := track_seq s + 1\<rparr>)"
    using f by simp
  have r1: "room (4 + 3) (s\<lparr>track_seq := track_seq s + 1\<rparr>)" "room 3 (s\<lparr>track_seq := track_seq s + 1\<rparr>)"
    using r room_mono [OF r, of 3] by simp_all
  have f2: "follows read shows_slots W k s2"
    using follows_remove [OF grow f1 r1(2) t] f1 by (auto simp: s2_def)
  have r2: "room 4 s2"
    using room_remove [OF grow f1 r1(1)] room_mono [OF r, of 4] by (simp add: s2_def)
  have gone: "sl_id (in_slots s2 ! j) \<noteq> t" if "j < MAX_SLOTS" for j
    using remove_gone [OF f1 that t] that slots_okD(1) [OF followsD(2) [OF f]]
    by (auto simp: s2_def find_slot_def slot_index_None)
  show ?thesis
  proof (cases "find_free_slot s2")
    case None
    then show ?thesis
      using f2 by (simp add: rvgpu_in_add_slot_def s2_def Let_def)
  next
    case (Some i)
    have i: "i < MAX_SLOTS" "sl_id (in_slots s2 ! i) = - 1"
      using find_free_slot_Some [OF Some] slots_okD(1) [OF followsD(2) [OF f2]] by simp_all
    have free: "sl_last_x (in_slots s2 ! i) = - 1" "sl_last_y (in_slots s2 ! i) = - 1"
      using slots_okD(5) [OF followsD(2) [OF f2] i] by (simp_all add: slot_key_def)
    define scale where "scale f sc wd = d_div dbl (d_div dbl (d_mul dbl (d_of_u32 dbl f) (d_4096 dbl))
      (d_of_u32 dbl sc)) (d_of_u32 dbl wd)" for f sc wd
    define shift where "shift f sc = d_div dbl (d_mul dbl (d_of_u32 dbl f) (d_4096 dbl)) (d_of_u32 dbl sc)" for f sc
    define x where "x = (in_slots s2 ! i)\<lparr>sl_id := t, sl_window_id := w,
      sl_ax := scale (bx_w b2) (bx_w b3) (bx_w b1), sl_bx := shift (bx_x b2) (bx_w b3),
      sl_ay := scale (bx_h b2) (bx_h b3) (bx_h b1), sl_by := shift (bx_y b2) (bx_h b3)\<rparr>"
    let ?v = "ucast (ucast (track_seq s) :: u16) :: i32"
    have v: "?v \<noteq> - 1"
      by (rule u16_not_minus)
    show ?thesis
    proof (rule follows_start [OF grow f2 r2 w v Some, where x = x])
      show "slot_key x = (True, - 1, - 1)"
        using t free by (simp add: x_def slot_key_def)
      show "sl_window_id x = w" by (simp add: x_def)
      show "sl_id (in_slots s2 ! j) \<noteq> sl_id x" if "j < MAX_SLOTS" for j
        using gone [OF that] by (simp add: x_def)
    next
      show "rvgpu_in_add_slot dbl grow t w b1 b2 b3 s = (rvgpu_in_events grow RVGPU_INPUT_TOUCH
          ((if last_window_id s2 = w then [] else [event EV_ABS ABS_MISC w]) @
           [event EV_ABS ABS_MT_SLOT (of_nat i), event EV_ABS ABS_MT_TRACKING_ID ?v, event EV_KEY BTN_TOUCH 1]) s2)
          \<lparr>in_slots := (in_slots s2)[i := x], last_slot := of_nat i, last_window_id := w\<rparr>"
        using Some i(1) slots_okD(1) [OF followsD(2) [OF f2]]
        unfolding rvgpu_in_add_slot_def Let_def s2_def [symmetric]
        by (intro rvgpu_input_state.equality)
          (simp_all add: grow set_slot_def x_def scale_def shift_def rvgpu_in_events_def Let_def)
    qed
  qed
qed

end

section \<open>Sending and clearing\<close>

text \<open>
  A reader of the sent events sees the slots as they were when the queue was last sent, and a reader
  of the sent and the queued events sees the slots.
\<close>

definition in_sync ::
  "('k \<Rightarrow> rvgpu_input_event list \<Rightarrow> 'k option) \<Rightarrow> ('k \<Rightarrow> slot_key list \<Rightarrow> i32 \<Rightarrow> u32 \<Rightarrow> bool) \<Rightarrow> u32 set \<Rightarrow>
     'k \<Rightarrow> 'd rvgpu_input_state \<Rightarrow> bool" where
  "in_sync read shows_slots W k0 s =
     (\<exists>k. read k0 (sent s) = Some k \<and> shows_slots k (keys (in_olds s)) (old_slot s) (old_window_id s) \<and>
        slots_ok W (in_olds s) (old_window_id s) \<and> follows read shows_slots W k s)"

lemma same_sent_in_sync:
  assumes "same_sent s s'" "in_sync read shows_slots W k0 s"
    and "\<And>k. follows read shows_slots W k s \<Longrightarrow> follows read shows_slots W k s'"
  shows "in_sync read shows_slots W k0 s'"
  using assms by (auto simp: in_sync_def same_sent_def sent_def)

text \<open>Operations on the queue of another device.\<close>

definition same_touch :: "'d rvgpu_input_state \<Rightarrow> 'd rvgpu_input_state \<Rightarrow> bool" where
  "same_touch s s' =
     (touch_queue s' = touch_queue s \<and> sent s' = sent s \<and> in_slots s' = in_slots s \<and> in_olds s' = in_olds s \<and>
      last_slot s' = last_slot s \<and> old_slot s' = old_slot s \<and> last_window_id s' = last_window_id s \<and>
      old_window_id s' = old_window_id s)"

lemma same_touch_in_sync:
  "same_touch s s' \<Longrightarrow> in_sync read shows_slots W k0 s \<Longrightarrow> in_sync read shows_slots W k0 s'"
  by (simp add: same_touch_def in_sync_def follows_def queue_ok_def queued_def)

lemma same_touch_trans: "same_touch s s' \<Longrightarrow> same_touch s' s'' \<Longrightarrow> same_touch s s''"
  by (simp add: same_touch_def)

lemma same_touch_other:
  assumes "dev \<noteq> RVGPU_INPUT_TOUCH"
  shows same_touch_events: "same_touch s (rvgpu_in_events grow dev evs s)"
    and same_touch_send: "same_touch s (rvgpu_in_send grow dev s)"
  using assms
  by (auto simp: same_touch_def rvgpu_in_events_def rvgpu_in_send_def touch_queue_def sent_def Let_def)

lemma same_touch_events_send:
  "dev \<noteq> RVGPU_INPUT_TOUCH \<Longrightarrow> same_touch s (rvgpu_in_send grow dev (rvgpu_in_events grow dev evs s))"
  by (rule same_touch_trans [OF same_touch_events same_touch_send])

context touch_reader
begin

lemma sync_remove:
  assumes "\<And>n. grow n" "in_sync read shows_slots W k0 s" "room 3 s" "t \<noteq> - 1"
  shows "in_sync read shows_slots W k0 (rvgpu_in_remove_slot grow t s)"
  by (rule same_sent_in_sync [OF same_sent_remove assms(2) follows_remove [OF assms(1) _ assms(3,4)]])

lemma sync_add:
  assumes "\<And>n. grow n" "in_sync read shows_slots W k0 s" "room 7 s" "t \<noteq> - 1" "w \<in> W"
  shows "in_sync read shows_slots W k0 (rvgpu_in_add_slot dbl grow t w b1 b2 b3 s)"
  by (rule same_sent_in_sync [OF same_sent_add assms(2) follows_add [OF assms(1) _ assms(3-5)]])

lemma sync_move:
  assumes "\<And>n. grow n" "in_sync read shows_slots W k0 s" "room 4 s" "t \<noteq> - 1"
  shows "in_sync read shows_slots W k0 (rvgpu_in_move_slot dbl grow t x y s)"
  by (rule same_sent_in_sync [OF same_sent_move assms(2) follows_move [OF assms(1) _ assms(3,4)]])

lemma sync_clear:
  "in_sync read shows_slots W k0 s \<Longrightarrow> in_sync read shows_slots W k0 (rvgpu_in_clear RVGPU_INPUT_TOUCH s)"
  by (auto simp: in_sync_def follows_def rvgpu_in_clear_def sent_def queued_def queue_ok_def touch_queue_def
      read_Nil Let_def)

lemma sync_send:
  assumes grow: "\<And>n. grow n" and s: "in_sync read shows_slots W k0 s" and r: "room 1 s"
  shows "in_sync read shows_slots W k0 (rvgpu_in_send grow RVGPU_INPUT_TOUCH s)"
proof -
  obtain k where k: "read k0 (sent s) = Some k" "follows read shows_slots W k s"
    using s by (auto simp: in_sync_def)
  obtain k' where k': "read k (queued s) = Some k'"
      "shows_slots k' (keys (in_slots s)) (last_slot s) (last_window_id s)"
    using followsD(3) [OF k(2)] by blast
  let ?syn = "event EV_SYN SYN_REPORT 0"
  let ?t = "rvgpu_in_events grow RVGPU_INPUT_TOUCH [?syn] s"
  have r1: "room (length [?syn]) s" using r by simp
  have q: "take (unat (iq_evnum (touch_queue ?t))) (iq_events (touch_queue ?t)) = queued s @ [?syn]"
    using events_touch(1) [OF grow followsD(1) [OF k(2)] r1] by (simp add: queued_def)
  have "read k' [?syn] = Some k'"
    by (rule read_other) (simp add: event_types)
  then have k1: "read k0 (sent s @ queued s @ [?syn]) = Some k'" "read k0 (sent s @ queued s) = Some k'"
    using read_append2 [OF k(1) read_append2 [OF k'(1)]] read_append2 [OF k(1) k'(1)] by blast+
  have "sent (rvgpu_in_send grow RVGPU_INPUT_TOUCH s) =
      sent s @ (if iq_evnum (touch_queue s) \<noteq> 0 then queued s @ [?syn] else queued s)"
    using q by (simp add: rvgpu_in_send_def sent_def touch_queue_def queued_def Let_def)
  then have "read k0 (sent (rvgpu_in_send grow RVGPU_INPUT_TOUCH s)) = Some k'"
    using k1 by simp
  moreover have "queued (rvgpu_in_send grow RVGPU_INPUT_TOUCH s) = []"
      "queue_ok (rvgpu_in_send grow RVGPU_INPUT_TOUCH s)"
    by (simp_all add: rvgpu_in_send_def queued_def queue_ok_def touch_queue_def Let_def)
  moreover have "in_slots (rvgpu_in_send grow RVGPU_INPUT_TOUCH s) = in_slots s"
      "in_olds (rvgpu_in_send grow RVGPU_INPUT_TOUCH s) = in_slots s"
      "last_slot (rvgpu_in_send grow RVGPU_INPUT_TOUCH s) = last_slot s"
      "old_slot (rvgpu_in_send grow RVGPU_INPUT_TOUCH s) = last_slot s"
      "last_window_id (rvgpu_in_send grow RVGPU_INPUT_TOUCH s) = last_window_id s"
      "old_window_id (rvgpu_in_send grow RVGPU_INPUT_TOUCH s) = last_window_id s"
    by (simp_all add: rvgpu_in_send_def Let_def)
  ultimately show ?thesis
    using k' followsD(2) [OF k(2)] by (simp add: in_sync_def follows_def read_Nil)
qed

end

section \<open>The two readers\<close>

lemma unat_slot [simp]: "i < MAX_SLOTS \<Longrightarrow> unat (of_nat i :: i32) = i"
  by (simp add: unat_of_nat MAX_SLOTS_def)

lemma slot_word_eq [simp]:
  "i < MAX_SLOTS \<Longrightarrow> j < MAX_SLOTS \<Longrightarrow> (of_nat i :: i32) = of_nat j \<longleftrightarrow> i = j"
  by (metis unat_slot)

text \<open>The multi-touch protocol: contacts, positions, and the slot and window named last.\<close>

definition mt_shows :: "mt_state \<Rightarrow> slot_key list \<Rightarrow> i32 \<Rightarrow> u32 \<Rightarrow> bool" where
  "mt_shows k ks slot w =
     (mt_slot k = slot \<and> mt_window k = w \<and>
      (\<forall>i < MAX_SLOTS. (mt_track k (of_nat i) \<noteq> - 1 \<longleftrightarrow> fst (ks ! i)) \<and>
         (fst (snd (ks ! i)) \<noteq> - 1 \<longrightarrow> mt_x k (of_nat i) = fst (snd (ks ! i))) \<and>
         (snd (snd (ks ! i)) \<noteq> - 1 \<longrightarrow> mt_y k (of_nat i) = snd (snd (ks ! i)))))"

interpretation mt: touch_reader "\<lambda>k es. Some (mt_run k es)" mt_shows UNIV
  by unfold_locales (auto simp: mt_shows_def keys_ok_def nth_update)

text \<open>The check of the discipline; only one window is named.\<close>

definition disc_shows :: "nat set \<times> nat \<Rightarrow> slot_key list \<Rightarrow> i32 \<Rightarrow> u32 \<Rightarrow> bool" where
  "disc_shows d ks slot w =
     (fst d = {i. i < MAX_SLOTS \<and> fst (ks ! i)} \<and> snd d = unat slot)"

lemma used_update:
  "length ks = MAX_SLOTS \<Longrightarrow> i < MAX_SLOTS \<Longrightarrow> {j. j < MAX_SLOTS \<and> fst (ks[i := c] ! j)} =
     (if fst c then insert i {j. j < MAX_SLOTS \<and> fst (ks ! j)} else {j. j < MAX_SLOTS \<and> fst (ks ! j)} - {i})"
  by (auto simp: nth_update split: if_splits)

lemma lowest_free_iff: "lowest_free used n \<longleftrightarrow> n < MAX_SLOTS \<and> n \<notin> used \<and> (\<forall>m < n. m \<in> used)"
  by (simp add: lowest_free_def MAX_SLOTS_def)

interpretation disc: touch_reader disc_run disc_shows "{0}"
  by unfold_locales
    (auto simp: disc_shows_def keys_ok_def used_update disc_run_append lowest_free_iff)

end
