(* ===== verification/Input_Loop.thy ===== *)
theory Input_Loop
  imports Touch_Slots
begin

text \<open>
  The input event loop of a renderer (\<open>rvgpu_input_event_loop\<close> of
  src/rvgpu-renderer/compositor/rvgpu-compositor.c): the JSON events of the compositor become
  operations on the touch slots and queued events of the other devices.  An event is given by the
  values of the variables after its members have been read.  Proved: whatever events come, the
  messages written and the events still queued show the touch slots.
\<close>

section \<open>The loop\<close>

record 'd input_json =
  js_event_id :: "i32 option"
  js_input_id :: i32
  js_x :: 'd
  js_y :: 'd
  js_key :: i32
  js_value :: i32
  js_src :: "'d \<times> 'd \<times> 'd \<times> 'd"
  js_dst :: "'d \<times> 'd \<times> 'd \<times> 'd"

text \<open>The boxes of scanout 0: its window, and the box and the texture size of its resource.\<close>

record scanout_boxes =
  so_window :: rvgpu_box
  so_box :: rvgpu_box
  so_tex :: rvgpu_box

text \<open>The input state and the static position of the pointer.\<close>

record 'd input_loop =
  el_in :: "'d rvgpu_input_state"
  el_pointer_x :: 'd
  el_pointer_y :: 'd

text \<open>The position of an event inside a surface that the layout has moved and scaled.\<close>

definition layout_point :: "'d double_ops \<Rightarrow> bool \<Rightarrow> 'd input_json \<Rightarrow> 'd \<times> 'd" where
  "layout_point dbl use_layout j =
     (case (js_src j, js_dst j) of ((src_x, src_y, src_w, src_h), (dst_x, dst_y, dst_w, dst_h)) \<Rightarrow>
        if use_layout \<and> d_pos dbl dst_w \<and> d_pos dbl dst_h
        then (d_add dbl (d_mul dbl (d_sub dbl (js_x j) dst_x) (d_div dbl src_w dst_w)) src_x,
              d_add dbl (d_mul dbl (d_sub dbl (js_y j) dst_y) (d_div dbl src_h dst_h)) src_y)
        else (js_x j, js_y j))"

definition upd_in :: "('d rvgpu_input_state \<Rightarrow> 'd rvgpu_input_state) \<Rightarrow> 'd input_loop \<Rightarrow> 'd input_loop" where
  "upd_in f e = e\<lparr>el_in := f (el_in e)\<rparr>"

definition send_events ::
  "(nat \<Rightarrow> bool) \<Rightarrow> rvgpu_input_dev \<Rightarrow> rvgpu_input_event list \<Rightarrow> 'd rvgpu_input_state \<Rightarrow>
     'd rvgpu_input_state" where
  "send_events grow dev evs s = rvgpu_in_send grow dev (rvgpu_in_events grow dev evs s)"

definition input_event_step ::
  "'d double_ops \<Rightarrow> (nat \<Rightarrow> bool) \<Rightarrow> bool \<Rightarrow> scanout_boxes \<Rightarrow> 'd input_json \<Rightarrow> 'd input_loop \<Rightarrow> 'd input_loop" where
  "input_event_step dbl grow use_layout so j e =
     (case js_event_id j of None \<Rightarrow> e | Some ev \<Rightarrow>
      case layout_point dbl use_layout j of (x, y) \<Rightarrow>
        if ev = 0 then
          upd_in (\<lambda>s. rvgpu_in_move_slot dbl grow (js_input_id j) x y
                        (rvgpu_in_add_slot dbl grow (js_input_id j) 0 (so_window so) (so_box so) (so_tex so) s)) e
        else if ev = 1 then
          upd_in (\<lambda>s. rvgpu_in_send grow RVGPU_INPUT_TOUCH (rvgpu_in_remove_slot grow (js_input_id j) s)) e
        else if ev = 2 then upd_in (rvgpu_in_move_slot dbl grow (js_input_id j) x y) e
        else if ev = 3 then upd_in (rvgpu_in_send grow RVGPU_INPUT_TOUCH) e
        else if ev = 4 then upd_in (rvgpu_in_clear RVGPU_INPUT_TOUCH) e
        else if ev = 5 then
          upd_in (send_events grow RVGPU_INPUT_MOUSE_ABS
                    [event EV_ABS ABS_X (d_to_i32 dbl x), event EV_ABS ABS_Y (d_to_i32 dbl y)])
            (e\<lparr>el_pointer_x := x, el_pointer_y := y\<rparr>)
        else if ev = 7 then
          let dx = d_to_i32 dbl (d_sub dbl x (el_pointer_x e));
              dy = d_to_i32 dbl (d_sub dbl y (el_pointer_y e));
              ex = event EV_REL REL_X dx; ey = event EV_REL REL_Y dy
          in upd_in (send_events grow RVGPU_INPUT_MOUSE
                       (if dx = 0 then [ey] else if dy = 0 then [ex] else [ex, ey]))
               (e\<lparr>el_pointer_x := d_add dbl (el_pointer_x e) (d_of_i32 dbl dx),
                  el_pointer_y := d_add dbl (el_pointer_y e) (d_of_i32 dbl dy)\<rparr>)
        else if ev = 8 then
          upd_in (send_events grow RVGPU_INPUT_MOUSE [event EV_KEY (ucast (js_key j)) (js_value j)]) e
        else if ev = 9 then
          upd_in (send_events grow RVGPU_INPUT_MOUSE [event EV_REL (ucast (js_key j)) (js_value j)]) e
        else if ev = 10 then
          upd_in (send_events grow RVGPU_INPUT_KEYBOARD [event EV_KEY (ucast (js_key j)) (js_value j)]) e
        else e)"

text \<open>
  The states of the loop: it has read some events, and the queue of touch events never held more
  than 65522 of them (it is emptied with every frame); no touch has the id -1, which marks a free
  slot.
\<close>

inductive loop_reach :: "'d double_ops \<Rightarrow> (nat \<Rightarrow> bool) \<Rightarrow> bool \<Rightarrow> 'd \<Rightarrow> 'd input_loop \<Rightarrow> bool"
  for dbl grow use_layout zero where
  start: "loop_reach dbl grow use_layout zero
    \<lparr> el_in = rvgpu_in_init zero, el_pointer_x = zero, el_pointer_y = zero \<rparr>"
| step: "loop_reach dbl grow use_layout zero e \<Longrightarrow> room 13 (el_in e) \<Longrightarrow> js_input_id j \<noteq> - 1 \<Longrightarrow>
    loop_reach dbl grow use_layout zero (input_event_step dbl grow use_layout so j e)"

section \<open>The stream shows the slots\<close>

lemma same_touch_send_events:
  "dev \<noteq> RVGPU_INPUT_TOUCH \<Longrightarrow> same_touch s (send_events grow dev evs s)"
  by (simp add: send_events_def same_touch_events_send)

context touch_reader
begin

lemma room_add:
  assumes grow: "\<And>n. grow n" and f: "follows read shows_slots W k s" and r: "room (n + 7) s"
    and t: "t \<noteq> - 1"
  shows "room n (rvgpu_in_add_slot dbl grow t w b1 b2 b3 s)"
proof -
  define s2 where "s2 = (if find_slot s t \<noteq> None
    then rvgpu_in_remove_slot grow t (s\<lparr>track_seq := track_seq s + 1\<rparr>) else s\<lparr>track_seq := track_seq s + 1\<rparr>)"
  have f1: "follows read shows_slots W k (s\<lparr>track_seq := track_seq s + 1\<rparr>)"
    using f by simp
  have r1: "room (n + 4 + 3) (s\<lparr>track_seq := track_seq s + 1\<rparr>)"
    using room_mono [OF r] by simp
  have r2: "room (n + 4) s2"
    using room_remove [OF grow f1 r1] room_mono [OF r] by (simp add: s2_def)
  then have r3: "room m s2" if "m \<le> n + 4" for m
    using that by (rule room_mono)
  have "room 3 (s\<lparr>track_seq := track_seq s + 1\<rparr>)"
    using room_mono [OF r1] by simp
  then have q2: "queue_ok s2"
    using followsD(1) [OF follows_remove [OF grow f1 _ t]] followsD(1) [OF f1] by (simp add: s2_def)
  have ev: "room n (rvgpu_in_events grow RVGPU_INPUT_TOUCH evs (set_slot a f s2))" if "length evs \<le> 4" for evs a f
    using events_touch(3) [OF grow, of "set_slot a f s2" evs n] q2 r3 that by simp
  show ?thesis
    using r3 ev unfolding rvgpu_in_add_slot_def Let_def s2_def [symmetric]
    by (cases "find_free_slot s2") auto
qed

lemma sync_follows: "in_sync read shows_slots W k0 s \<Longrightarrow> \<exists>k. follows read shows_slots W k s"
  by (auto simp: in_sync_def)

lemma sync_step:
  assumes grow: "\<And>n. grow n" and W: "0 \<in> W"
    and s: "in_sync read shows_slots W k0 (el_in e)" and r: "room 13 (el_in e)" and t: "js_input_id j \<noteq> - 1"
  shows "in_sync read shows_slots W k0 (el_in (input_event_step dbl grow use_layout so j e))"
proof -
  obtain k where k: "follows read shows_slots W k (el_in e)"
    using sync_follows [OF s] by blast
  have r': "room n (el_in e)" if "n \<le> 13" for n
    using r that by (rule room_mono)
  obtain x y where xy: "layout_point dbl use_layout j = (x, y)"
    by (cases "layout_point dbl use_layout j")
  have add: "in_sync read shows_slots W k0 (rvgpu_in_move_slot dbl grow (js_input_id j) x y
      (rvgpu_in_add_slot dbl grow (js_input_id j) 0 b1 b2 b3 (el_in e)))" for b1 b2 b3
    using sync_move [OF grow sync_add [OF grow s _ t W] room_add [OF grow k _ t] t] r' by simp
  have remove: "in_sync read shows_slots W k0
      (rvgpu_in_send grow RVGPU_INPUT_TOUCH (rvgpu_in_remove_slot grow (js_input_id j) (el_in e)))"
    using sync_send [OF grow sync_remove [OF grow s _ t] room_remove [OF grow k]] r' by simp
  have move: "in_sync read shows_slots W k0 (rvgpu_in_move_slot dbl grow (js_input_id j) x y (el_in e))"
    using sync_move [OF grow s _ t] r' by simp
  have send: "in_sync read shows_slots W k0 (rvgpu_in_send grow RVGPU_INPUT_TOUCH (el_in e))"
    using sync_send [OF grow s] r' by simp
  have other: "dev \<noteq> RVGPU_INPUT_TOUCH \<Longrightarrow> in_sync read shows_slots W k0 (send_events grow dev evs (el_in e))"
    for dev evs
    by (rule same_touch_in_sync [OF same_touch_send_events s])
  show ?thesis
    using s add remove move send sync_clear [OF s] other
    by (simp add: input_event_step_def xy upd_in_def Let_def split: option.split)
qed

lemma sync_init:
  assumes "0 \<in> W" "shows_slots k0 (replicate MAX_SLOTS (False, - 1, - 1)) 0 0"
  shows "in_sync read shows_slots W k0 (rvgpu_in_init zero)"
  using assms
  by (simp add: in_sync_def follows_def rvgpu_in_init_def sent_def queued_def queue_ok_def touch_queue_def
      slots_ok_def keys_ok_def slot_key_def read_Nil Let_def)

lemma loop_in_sync:
  assumes "loop_reach dbl grow use_layout zero e" "\<And>n. grow n" "0 \<in> W"
    and "shows_slots k0 (replicate MAX_SLOTS (False, - 1, - 1)) 0 0"
  shows "in_sync read shows_slots W k0 (el_in e)"
  using assms(1)
proof (induction rule: loop_reach.induct)
  case start
  then show ?case using sync_init [OF assms(3,4)] by simp
next
  case (step e j so)
  then show ?case by (intro sync_step [OF assms(2,3)])
qed

end

lemma mt_shows_init: "mt_shows mt_init (replicate MAX_SLOTS (False, - 1, - 1)) 0 0"
  by (simp add: mt_shows_def mt_init_def)

lemma disc_shows_init: "disc_shows ({}, 0) (replicate MAX_SLOTS (False, - 1, - 1)) 0 0"
  by (auto simp: disc_shows_def)

lemmas loop_mt = mt.loop_in_sync [OF _ _ UNIV_I mt_shows_init]

lemmas loop_disc = disc.loop_in_sync [OF _ _ singletonI disc_shows_init]

text \<open>
  C10. The touch messages of a renderer say what its slots say: after any input events, a reader of
  the messages written sees exactly the contacts and positions of the slots as of the last
  message, and with the events still queued those of the slots now.  Contacts of cancelled
  frames leave no trace.
\<close>

theorem touch_stream_shows_slots:
  assumes "loop_reach dbl grow use_layout zero e" and "\<And>n. grow n"
  shows "mt_shows (mt_run mt_init (sent (el_in e))) (keys (in_olds (el_in e)))
      (old_slot (el_in e)) (old_window_id (el_in e)) \<and>
    mt_shows (mt_run mt_init (sent (el_in e) @ queued (el_in e))) (keys (in_slots (el_in e)))
      (last_slot (el_in e)) (last_window_id (el_in e))"
  using loop_mt [OF assms] by (simp add: in_sync_def follows_def)

text \<open>A touch, a movement and a frame, with \<open>double\<close> read as integer arithmetic.\<close>

definition int_ops :: "int double_ops" where
  "int_ops = \<lparr> d_of_u32 = uint, d_of_i32 = sint, d_4096 = 4096, d_add = (+), d_sub = (-), d_mul = (*),
     d_div = (div), d_pos = (\<lambda>x. x > 0), d_to_i32 = of_int \<rparr>"

definition demo_json :: "i32 \<Rightarrow> i32 \<Rightarrow> int \<Rightarrow> int \<Rightarrow> int input_json" where
  "demo_json ev tid x y = \<lparr> js_event_id = Some ev, js_input_id = tid, js_x = x, js_y = y, js_key = 0,
     js_value = 0, js_src = (0, 0, 0, 0), js_dst = (0, 0, 0, 0) \<rparr>"

definition demo_boxes :: scanout_boxes where
  "demo_boxes = (let b = \<lparr> bx_x = 0, bx_y = 0, bx_w = 512, bx_h = 512 \<rparr>
     in \<lparr> so_window = b, so_box = b, so_tex = b \<rparr>)"

definition demo_start :: "int input_loop" where
  "demo_start = \<lparr> el_in = rvgpu_in_init 0, el_pointer_x = 0, el_pointer_y = 0 \<rparr>"

definition demo_down :: "int input_loop" where
  "demo_down = input_event_step int_ops (\<lambda>_. True) False demo_boxes (demo_json 0 7 100 50) demo_start"

definition demo_frame :: "int input_loop" where
  "demo_frame = input_event_step int_ops (\<lambda>_. True) False demo_boxes (demo_json 3 7 0 0) demo_down"

lemma demo_down_val:
  "in_slots (el_in demo_down) ! 0 = \<lparr> sl_id = 7, sl_window_id = 0, sl_ax = 8, sl_bx = 0, sl_ay = 8, sl_by = 0,
     sl_last_x = 800, sl_last_y = 400 \<rparr>"
  "touch_queue (el_in demo_down) = \<lparr> iq_evnum = 5, iq_events =
     [event EV_ABS ABS_MT_SLOT 0, event EV_ABS ABS_MT_TRACKING_ID 0, event EV_KEY BTN_TOUCH 1,
      event EV_ABS ABS_MT_POSITION_X 800, event EV_ABS ABS_MT_POSITION_Y 400] \<rparr>"
  "in_out (el_in demo_down) = []"
  by code_simp+

lemma demo_out:
  "in_out (el_in demo_frame) =
     [(RVGPU_INPUT_TOUCH,
       [event EV_ABS ABS_MT_SLOT 0, event EV_ABS ABS_MT_TRACKING_ID 0, event EV_KEY BTN_TOUCH 1,
        event EV_ABS ABS_MT_POSITION_X 800, event EV_ABS ABS_MT_POSITION_Y 400, event EV_SYN SYN_REPORT 0])]"
  by code_simp

lemma demo_keys: "keys (in_olds (el_in demo_frame)) ! 0 = (True, 800, 400)"
  by code_simp

lemma demo_rooms: "room 13 (el_in demo_start)" "room 13 (el_in demo_down)"
  by (simp_all add: room_def demo_down_val) (simp add: touch_queue_def demo_start_def rvgpu_in_init_def Let_def)

lemma demo_frame_reach: "loop_reach int_ops (\<lambda>_. True) False 0 demo_frame"
proof -
  have "loop_reach int_ops (\<lambda>_. True) False 0 demo_start"
    unfolding demo_start_def by (rule loop_reach.start)
  then have "loop_reach int_ops (\<lambda>_. True) False 0 demo_down"
    unfolding demo_down_def by (rule loop_reach.step) (simp_all add: demo_rooms demo_json_def)
  then show ?thesis
    unfolding demo_frame_def by (rule loop_reach.step) (simp_all add: demo_rooms demo_json_def)
qed


lemma touch_stream_shows_slots_witness:
  "loop_reach int_ops (\<lambda>_. True) False 0 demo_frame \<and>
   mt_shows (mt_run mt_init (sent (el_in demo_frame))) (keys (in_olds (el_in demo_frame)))
     (old_slot (el_in demo_frame)) (old_window_id (el_in demo_frame)) \<and>
   keys (in_olds (el_in demo_frame)) ! 0 = (True, 800, 400)"
  using touch_stream_shows_slots [OF demo_frame_reach] demo_frame_reach demo_keys by simp

end
