(* ===== verification/Input_Device.thy ===== *)
theory Input_Device
  imports Touch_Protocol Rvgpu_Ctx
begin

text \<open>
  The input devices of the proxy (src/rvgpu-proxy/gpu/rvgpu-input-device.c): events of several
  renderers are read from their connections and written to the uinput devices of the guest.  Touch
  events are merged: every pair of a renderer and one of its slots is given one of 64 slots of the
  touch device, and the events that name the slot and the window are inserted where the renderer of
  the events changes.
\<close>

section \<open>State\<close>

definition TOUCH_MAX_SLOTS :: nat where "TOUCH_MAX_SLOTS = 64"
definition MAX_HOSTS :: nat where "MAX_HOSTS = 16"

text \<open>The source of a slot: -1 for a free one.\<close>

record input_slot =
  is_src :: int
  is_slot :: u32

text \<open>\<open>dv_out\<close> holds what was written to the devices.\<close>

record input_device =
  dv_slot :: u32
  dv_slots :: "input_slot list"
  src_slots :: "u32 list"
  src_window_id :: "u32 list"
  tracking_id :: u16
  dv_window_id :: u32
  dv_out :: "(rvgpu_input_dev \<times> rvgpu_input_event list) list"

definition input_device_init :: input_device where
  "input_device_init =
     \<lparr> dv_slot = 0, dv_slots = replicate TOUCH_MAX_SLOTS \<lparr> is_src = - 1, is_slot = 0 \<rparr>,
       src_slots = replicate MAX_HOSTS 0, src_window_id = replicate MAX_HOSTS 0, tracking_id = 0,
       dv_window_id = 0, dv_out = [] \<rparr>"

section \<open>Slots\<close>

definition free_slot :: "input_device \<Rightarrow> u32 \<Rightarrow> input_device" where
  "free_slot g slot =
     g\<lparr>dv_slots := (dv_slots g)[unat slot := (dv_slots g ! unat slot)\<lparr>is_src := - 1\<rparr>]\<rparr>"

text \<open>The walk of \<open>get_slot\<close>: the slot of the pair, or else the first free one.\<close>

fun get_slot_loop :: "nat \<Rightarrow> input_slot list \<Rightarrow> int \<Rightarrow> u32 \<Rightarrow> nat option \<Rightarrow> nat + nat option" where
  "get_slot_loop i [] src s first_free = Inr first_free"
| "get_slot_loop i (t # ts) src s first_free =
     (if is_src t = src \<and> is_slot t = s then Inl i
      else get_slot_loop (i + 1) ts src s
             (if first_free = None \<and> is_src t = - 1 then Some i else first_free))"

definition get_slot :: "input_device \<Rightarrow> u8 \<Rightarrow> u32 \<Rightarrow> (u32 \<times> input_device) outcome" where
  "get_slot g src s =
     (if \<not> unat src < MAX_HOSTS then Exited ''assert(src < MAX_HOSTS)''
      else
        let g1 = g\<lparr>src_slots := (src_slots g)[unat src := s]\<rparr>
        in case get_slot_loop 0 (dv_slots g1) (uint src) s None of
             Inl i \<Rightarrow> Returned (of_nat i, g1)
           | Inr None \<Rightarrow> Exited ''assert(first_free >= 0)''
           | Inr (Some i) \<Rightarrow>
               Returned (of_nat i,
                 g1\<lparr>dv_slots := (dv_slots g1)[i := \<lparr> is_src = uint src, is_slot = s \<rparr>]\<rparr>))"

definition get_current_slot :: "input_device \<Rightarrow> u8 \<Rightarrow> (u32 \<times> input_device) outcome" where
  "get_current_slot g src =
     (if \<not> unat src < MAX_HOSTS then Exited ''assert(src < MAX_HOSTS)''
      else get_slot g src (src_slots g ! unat src))"

section \<open>Events\<close>

text \<open>
  \<open>touch_translate\<close>: \<open>ie\<close> are the events before the position \<open>*ev\<close>, \<open>e\<close> is the one at it, and the
  result holds the events before the new position.  When the array is full the position is left
  as it was.
\<close>

definition touch_translate ::
  "input_device \<Rightarrow> u8 \<Rightarrow> rvgpu_input_event list \<Rightarrow> rvgpu_input_event \<Rightarrow> nat \<Rightarrow>
     (input_device \<times> rvgpu_input_event list) outcome" where
  "touch_translate g src ie e mx =
     (if \<not> unat src < MAX_HOSTS then Crashed ''src_window_id''
      else obind (if ev_code e = ABS_MT_SLOT then get_slot g src (ev_value e) else get_current_slot g src)
        (\<lambda>(slot, g1).
          let g2 = (if ev_code e = ABS_MISC
                    then g1\<lparr>src_window_id := (src_window_id g1)[unat src := ev_value e]\<rparr> else g1);
              window = (if ev_code e = ABS_MISC then ev_value e else src_window_id g ! unat src);
              ie1 = (if window \<noteq> dv_window_id g2 \<and> ev_code e \<noteq> ABS_MISC \<and> length ie + 1 < mx
                     then ie @ [e\<lparr>ev_code := ABS_MISC, ev_value := window\<rparr>] else ie);
              g3 = g2\<lparr>dv_window_id := window\<rparr>;
              e1 = (if slot \<noteq> dv_slot g3 \<and> ev_code e = ABS_MT_SLOT then e\<lparr>ev_value := slot\<rparr> else e);
              ie2 = (if slot \<noteq> dv_slot g3 \<and> ev_code e \<noteq> ABS_MT_SLOT \<and> length ie1 + 1 < mx
                     then ie1 @ [e\<lparr>ev_code := ABS_MT_SLOT, ev_value := slot\<rparr>] else ie1);
              g4 = g3\<lparr>dv_slot := slot\<rparr>;
              ends = (ev_code e1 = ABS_MT_TRACKING_ID \<and> ev_value e1 = - 1);
              starts = (ev_code e1 = ABS_MT_TRACKING_ID \<and> ev_value e1 \<noteq> - 1);
              g5 = (if ends then free_slot g4 slot
                    else if starts then g4\<lparr>tracking_id := tracking_id g4 + 1\<rparr> else g4);
              e2 = (if starts then e1\<lparr>ev_value := ucast (tracking_id g4)\<rparr> else e1)
          in Returned (g5, if length ie2 + 1 < mx then ie2 @ [e2] else ie)))"

text \<open>The loop of \<open>input_device_serve\<close> over the events of a message; the array has 65535 elements.\<close>

fun serve_events ::
  "bool \<Rightarrow> u8 \<Rightarrow> rvgpu_input_event list \<Rightarrow> rvgpu_input_event list \<Rightarrow> input_device \<Rightarrow>
     (input_device \<times> rvgpu_input_event list) outcome" where
  "serve_events touch src [] ie g = Returned (g, ie)"
| "serve_events touch src (e # es) ie g =
     (if \<not> length ie < 65535 then Crashed ''ie''
      else if ev_type e = EV_ABS \<and> touch
      then obind (touch_translate g src ie e 65535) (\<lambda>(g', ie'). serve_events touch src es ie' g')
      else serve_events touch src es (ie @ [e]) g)"

text \<open>\<open>input_device_serve\<close>: \<open>dev\<close> is \<open>None\<close> for a number that names no device.\<close>

definition input_device_serve ::
  "rvgpu_input_dev option \<Rightarrow> u8 \<Rightarrow> rvgpu_input_event list \<Rightarrow> input_device \<Rightarrow> input_device outcome" where
  "input_device_serve dev src events g =
     obind (serve_events (dev = Some RVGPU_INPUT_TOUCH) src events [] g) (\<lambda>(g', ie).
       Returned (case dev of None \<Rightarrow> g' | Some d \<Rightarrow> g'\<lparr>dv_out := dv_out g' @ [(d, ie)]\<rparr>))"

section \<open>Reading the connections\<close>

text \<open>
  \<open>input_read\<close>: \<open>ready\<close> is what \<open>poll\<close> reports.  The result is the host and the bytes, or \<open>None\<close> for 0.
\<close>

fun input_read_loop ::
  "nat \<Rightarrow> rvgpu_scanout list \<Rightarrow> (nat \<Rightarrow> bool) \<Rightarrow> nat \<Rightarrow> (nat \<times> byte list) option \<times> rvgpu_scanout list" where
  "input_read_loop i [] ready len = (None, [])"
| "input_read_loop i (s # ss) ready len =
     (if \<not> ready i then map_prod id ((#) s) (input_read_loop (i + 1) ss ready len)
      else case rvgpu_recv_all s COMMAND len of
             (Inr (b # bs), s') \<Rightarrow> (Some (i, b # bs), s' # ss)
           | (_, s') \<Rightarrow> map_prod id ((#) s') (input_read_loop (i + 1) ss ready len))"

definition input_read ::
  "rvgpu_scanout list \<Rightarrow> (nat \<Rightarrow> bool) \<Rightarrow> nat \<Rightarrow> (nat \<times> byte list) option \<times> rvgpu_scanout list" where
  "input_read ss ready len = input_read_loop 0 ss ready len"

text \<open>The bytes of \<open>rvgpu_input_header\<close> and \<open>rvgpu_input_event\<close>.\<close>

fun dev_number :: "rvgpu_input_dev \<Rightarrow> byte" where
  "dev_number RVGPU_INPUT_MOUSE = 0"
| "dev_number RVGPU_INPUT_MOUSE_ABS = 1"
| "dev_number RVGPU_INPUT_KEYBOARD = 2"
| "dev_number RVGPU_INPUT_TOUCH = 3"

definition dev_of_number :: "byte \<Rightarrow> rvgpu_input_dev option" where
  "dev_of_number b =
     (if b = 0 then Some RVGPU_INPUT_MOUSE else if b = 1 then Some RVGPU_INPUT_MOUSE_ABS
      else if b = 2 then Some RVGPU_INPUT_KEYBOARD else if b = 3 then Some RVGPU_INPUT_TOUCH else None)"

definition header_bytes :: "rvgpu_input_dev \<Rightarrow> u16 \<Rightarrow> byte list" where
  "header_bytes dev n = [dev_number dev, 0] @ le16 n"

definition event_bytes :: "rvgpu_input_event \<Rightarrow> byte list" where
  "event_bytes e = le16 (ev_type e) @ le16 (ev_code e) @ le32 (ev_value e)"

fun un_events :: "nat \<Rightarrow> byte list \<Rightarrow> rvgpu_input_event list" where
  "un_events 0 bs = []"
| "un_events (Suc n) bs =
     event (un_le16 bs) (un_le16 (drop 2 bs)) (un_le32 (drop 4 bs)) # un_events n (drop 8 bs)"

text \<open>
  \<open>input_thread_func\<close> (src/rvgpu-proxy/rvgpu-proxy.c): a header, then its events, from whatever
  connection \<open>poll\<close> reports first each time.  The schedule holds what each \<open>poll\<close> reports; the thread
  waits for ever when it is used up.
\<close>

fun input_thread_func ::
  "(nat \<Rightarrow> bool) list \<Rightarrow> rvgpu_scanout list \<Rightarrow> input_device \<Rightarrow> (input_device \<times> rvgpu_scanout list) outcome" where
  "input_thread_func (r1 # r2 # rs) ss g =
     (case input_read ss r1 4 of
        (None, ss1) \<Rightarrow> Returned (g, ss1)
      | (Some (i, hdr), ss1) \<Rightarrow>
          let n = unat (un_le16 (drop 2 hdr)) in
          case input_read ss1 r2 (8 * n) of
            (res, ss2) \<Rightarrow>
              let bs = (case res of None \<Rightarrow> [] | Some (_, bs) \<Rightarrow> bs) in
              if length bs \<noteq> 8 * n then Returned (g, ss2)
              else obind (input_device_serve (dev_of_number (hdr ! 0)) (of_nat i) (un_events n bs) g)
                     (input_thread_func rs ss2))"
| "input_thread_func rs ss g = Returned (g, ss)"


section \<open>The slot table\<close>

text \<open>
  The invariant of the device: the arrays have their sizes, and no two slots of the touch device
  serve the same slot of the same renderer.
\<close>

definition dev_ok :: "input_device \<Rightarrow> bool" where
  "dev_ok g =
     (length (dv_slots g) = TOUCH_MAX_SLOTS \<and> length (src_slots g) = MAX_HOSTS \<and>
      length (src_window_id g) = MAX_HOSTS \<and>
      (\<forall>i < TOUCH_MAX_SLOTS. \<forall>j < TOUCH_MAX_SLOTS. dv_slots g ! i = dv_slots g ! j \<longrightarrow>
         is_src (dv_slots g ! i) \<noteq> - 1 \<longrightarrow> i = j))"

lemma dev_ok_init: "dev_ok input_device_init"
  by (simp add: dev_ok_def input_device_init_def)

abbreviation serves :: "input_slot \<Rightarrow> int \<Rightarrow> u32 \<Rightarrow> bool" where
  "serves t src s \<equiv> t = \<lparr> is_src = src, is_slot = s \<rparr>"

lemma serves_iff: "serves t src s \<longleftrightarrow> is_src t = src \<and> is_slot t = s"
  by (cases t) auto

lemma get_slot_loop_Inl:
  "get_slot_loop i ts src s ff = Inl j \<Longrightarrow> i \<le> j \<and> j - i < length ts \<and> serves (ts ! (j - i)) src s"
proof (induction ts arbitrary: i ff)
  case (Cons t ts)
  show ?case
  proof (cases "serves t src s")
    case True
    then show ?thesis using Cons.prems by (simp add: serves_iff)
  next
    case False
    then obtain ff' where "get_slot_loop (i + 1) ts src s ff' = Inl j"
      using Cons.prems by (auto simp: serves_iff split: if_splits)
    from Cons.IH [OF this] have *: "i + 1 \<le> j" "j - (i + 1) < length ts" "serves (ts ! (j - (i + 1))) src s"
      by simp_all
    have "j - i = Suc (j - (i + 1))" using *(1) by linarith
    then show ?thesis using * by simp
  qed
qed simp

lemma get_slot_loop_Inr:
  "get_slot_loop i ts src s ff = Inr r \<Longrightarrow>
   (\<forall>t \<in> set ts. \<not> serves t src s) \<and>
   (case ff of Some f \<Rightarrow> r = Some f
    | None \<Rightarrow> (case r of None \<Rightarrow> \<forall>t \<in> set ts. is_src t \<noteq> - 1
        | Some f \<Rightarrow> i \<le> f \<and> f - i < length ts \<and> is_src (ts ! (f - i)) = - 1 \<and>
            (\<forall>m < f - i. is_src (ts ! m) \<noteq> - 1)))"
proof (induction ts arbitrary: i ff)
  case (Cons t ts)
  let ?ff = "if ff = None \<and> is_src t = - 1 then Some i else ff"
  have ns: "\<not> serves t src s"
    using Cons.prems by (auto simp: serves_iff)
  then have "get_slot_loop (i + 1) ts src s ?ff = Inr r"
    using Cons.prems by (auto simp: serves_iff)
  note IH = Cons.IH [OF this]
  show ?case
  proof (cases "ff = None \<and> is_src t \<noteq> - 1")
    case True
    show ?thesis
    proof (cases r)
      case (Some f)
      then have *: "i + 1 \<le> f" "f - (i + 1) < length ts" "is_src (ts ! (f - (i + 1))) = - 1"
          "\<forall>m < f - (i + 1). is_src (ts ! m) \<noteq> - 1"
        using IH True by auto
      have "f - i = Suc (f - (i + 1))" using *(1) by linarith
      then show ?thesis
        using * True IH ns Some by (auto simp: less_Suc_eq_0_disj)
    qed (use IH True ns in auto)
  qed (use IH ns in \<open>auto split: option.splits if_splits\<close>)
qed (auto split: option.split)

lemma get_slot_loop_None:
  "get_slot_loop 0 ts src s None = Inr (Some f) \<Longrightarrow> f < length ts \<and> is_src (ts ! f) = - 1 \<and>
     (\<forall>m < f. is_src (ts ! m) \<noteq> - 1) \<and> (\<forall>t \<in> set ts. \<not> serves t src s)"
  "get_slot_loop 0 ts src s None = Inr None \<Longrightarrow>
     (\<forall>t \<in> set ts. is_src t \<noteq> - 1) \<and> (\<forall>t \<in> set ts. \<not> serves t src s)"
  using get_slot_loop_Inr [of 0 ts src s None "Some f"] get_slot_loop_Inr [of 0 ts src s None None] by simp_all

text \<open>What \<open>get_slot\<close> returns: the slot that serves the pair, which it may have just assigned.\<close>

lemma get_slot_Returned:
  assumes "get_slot g src s = Returned (t, g')" "dev_ok g"
  obtains i where "i < TOUCH_MAX_SLOTS" "t = of_nat i" "unat src < MAX_HOSTS"
    "g' = g\<lparr>src_slots := (src_slots g)[unat src := s],
            dv_slots := (dv_slots g)[i := \<lparr> is_src = uint src, is_slot = s \<rparr>]\<rparr>"
    "serves (dv_slots g ! i) (uint src) s \<or>
     is_src (dv_slots g ! i) = - 1 \<and> (\<forall>m < i. is_src (dv_slots g ! m) \<noteq> - 1) \<and>
     (\<forall>t \<in> set (dv_slots g). \<not> serves t (uint src) s)"
proof -
  have len: "length (dv_slots g) = TOUCH_MAX_SLOTS"
    using assms(2) by (simp add: dev_ok_def)
  have src: "unat src < MAX_HOSTS"
    using assms(1) by (auto simp: get_slot_def split: if_splits)
  show thesis
  proof (cases "get_slot_loop 0 (dv_slots g) (uint src) s None")
    case (Inl i)
    then have i: "i < length (dv_slots g)" "serves (dv_slots g ! i) (uint src) s"
      using get_slot_loop_Inl [OF Inl] by simp_all
    then have "(dv_slots g)[i := \<lparr> is_src = uint src, is_slot = s \<rparr>] = dv_slots g"
      by (metis list_update_id)
    then show thesis
      using that [of i] Inl i src assms(1) len by (simp add: get_slot_def)
  next
    case (Inr r)
    then obtain i where r: "r = Some i"
      using assms(1) src by (cases r) (auto simp: get_slot_def)
    show thesis
      using that [of i] get_slot_loop_None(1) [OF Inr [unfolded r]] Inr r src assms(1) len
      by (simp add: get_slot_def)
  qed
qed

lemma dev_ok_assign:
  assumes "dev_ok g" "i < TOUCH_MAX_SLOTS" "serves (dv_slots g ! i) (uint src) s \<or>
     (\<forall>t \<in> set (dv_slots g). \<not> serves t (uint src) s)"
  shows "dev_ok (g\<lparr>src_slots := (src_slots g)[unat src := q],
            dv_slots := (dv_slots g)[i := \<lparr> is_src = uint src, is_slot = s \<rparr>]\<rparr>)"
proof -
  have len: "length (dv_slots g) = TOUCH_MAX_SLOTS"
    using assms(1) by (simp add: dev_ok_def)
  have "\<not> serves (dv_slots g ! j) (uint src) s" if j: "j < TOUCH_MAX_SLOTS" "j \<noteq> i" for j
  proof
    assume s: "serves (dv_slots g ! j) (uint src) s"
    then have "serves (dv_slots g ! i) (uint src) s"
      using assms(3) j(1) len by auto
    moreover have "uint src \<noteq> - 1"
      using uint_ge_0 [of src] by linarith
    ultimately show False
      using assms(1,2) j s by (auto simp: dev_ok_def)
  qed
  then show ?thesis
    using assms(1) by (auto simp: dev_ok_def nth_update) metis+
qed


lemma dev_ok_slot:
  "get_slot g src s = Returned (t, g') \<Longrightarrow> dev_ok g \<Longrightarrow> dev_ok g'"
  by (erule get_slot_Returned) (auto intro!: dev_ok_assign)

lemma dev_ok_current_slot:
  "get_current_slot g src = Returned (t, g') \<Longrightarrow> dev_ok g \<Longrightarrow> dev_ok g'"
  by (auto simp: get_current_slot_def split: if_splits dest: dev_ok_slot)

lemma dev_ok_free: "dev_ok g \<Longrightarrow> dev_ok (free_slot g t)"
  by (cases "unat t < TOUCH_MAX_SLOTS") (auto simp: dev_ok_def free_slot_def nth_update list_update_beyond
      dest!: arg_cong [where f = is_src])

lemma dev_ok_frame [simp]:
  "dev_ok (g\<lparr>dv_slot := a\<rparr>) = dev_ok g" "dev_ok (g\<lparr>dv_window_id := b\<rparr>) = dev_ok g"
  "dev_ok (g\<lparr>tracking_id := c\<rparr>) = dev_ok g" "dev_ok (g\<lparr>dv_out := d\<rparr>) = dev_ok g"
  "dev_ok (g\<lparr>src_window_id := (src_window_id g)[i := w]\<rparr>) = dev_ok g"
  by (simp_all add: dev_ok_def)

lemma dev_ok_translate:
  assumes "touch_translate g src ie e mx = Returned (g', ie')" "dev_ok g"
  shows "dev_ok g'"
proof -
  obtain slot g1 where g1: "(if ev_code e = ABS_MT_SLOT then get_slot g src (ev_value e) else get_current_slot g src) =
      Returned (slot, g1)"
    using assms(1) by (auto simp: touch_translate_def obind_Returned_iff split: if_splits)
  have "dev_ok g1"
    using g1 assms(2) dev_ok_slot dev_ok_current_slot by (auto split: if_splits)
  then show ?thesis
    using assms(1) g1 by (auto simp: touch_translate_def Let_def dev_ok_free split: if_splits)
qed

lemma dev_ok_serve_events:
  "serve_events touch src es ie g = Returned (g', ie') \<Longrightarrow> dev_ok g \<Longrightarrow> dev_ok g'"
  by (induction touch src es ie g arbitrary: g' ie' rule: serve_events.induct)
    (auto simp: obind_Returned_iff split: if_splits dest: dev_ok_translate)

lemma dev_ok_serve:
  "input_device_serve dev src es g = Returned g' \<Longrightarrow> dev_ok g \<Longrightarrow> dev_ok g'"
  using dev_ok_serve_events [of "dev = Some RVGPU_INPUT_TOUCH" src es "[]" g]
  by (auto simp: input_device_serve_def obind_Returned_iff split: option.splits)

section \<open>Enough slots\<close>

text \<open>The pairs of renderers and slots that can occur with \<open>hosts\<close> renderers of \<open>n\<close> slots each.\<close>

definition within :: "nat \<Rightarrow> nat \<Rightarrow> input_device \<Rightarrow> bool" where
  "within hosts n g =
     ((\<forall>t \<in> set (dv_slots g). is_src t \<noteq> - 1 \<longrightarrow>
         0 \<le> is_src t \<and> is_src t < int hosts \<and> unat (is_slot t) < n) \<and>
      (\<forall>h < hosts. unat (src_slots g ! h) < n))"

text \<open>A pigeonhole: 64 slots cannot all be taken by pairs out of at most 64 when one pair has none.\<close>

lemma some_slot_free:
  assumes ok: "dev_ok g" and w: "within hosts n g" and few: "hosts * n \<le> TOUCH_MAX_SLOTS"
    and pair: "unat src < hosts" "unat s < n" and new: "\<forall>t \<in> set (dv_slots g). \<not> serves t (uint src) s"
  shows "\<exists>t \<in> set (dv_slots g). is_src t = - 1"
proof (rule ccontr)
  assume full: "\<not> ?thesis"
  have len: "length (dv_slots g) = TOUCH_MAX_SLOTS"
    using ok by (simp add: dev_ok_def)
  let ?p = "\<lambda>t. (nat (is_src t), unat (is_slot t))"
  have "inj_on (\<lambda>i. ?p (dv_slots g ! i)) {..<TOUCH_MAX_SLOTS}"
  proof (rule inj_onI)
    fix i j assume ij: "i \<in> {..<TOUCH_MAX_SLOTS}" "j \<in> {..<TOUCH_MAX_SLOTS}"
      and eq: "?p (dv_slots g ! i) = ?p (dv_slots g ! j)"
    have "0 \<le> is_src (dv_slots g ! i)" "0 \<le> is_src (dv_slots g ! j)"
      using w full len ij by (auto simp: within_def)
    then have "dv_slots g ! i = dv_slots g ! j"
      using eq by (intro input_slot.equality) (simp_all add: nat_eq_iff2 word_unat_eq_iff)
    then show "i = j"
      using ok full len ij by (auto simp: dev_ok_def)
  qed
  then have card: "card ((\<lambda>i. ?p (dv_slots g ! i)) ` {..<TOUCH_MAX_SLOTS}) = TOUCH_MAX_SLOTS"
    by (simp add: card_image)
  have "(\<lambda>i. ?p (dv_slots g ! i)) ` {..<TOUCH_MAX_SLOTS} \<subseteq> {..<hosts} \<times> {..<n} - {(unat src, unat s)}"
  proof (intro image_subsetI)
    fix i assume "i \<in> {..<TOUCH_MAX_SLOTS}"
    then have i: "dv_slots g ! i \<in> set (dv_slots g)"
      using len by simp
    then have b: "0 \<le> is_src (dv_slots g ! i)" "is_src (dv_slots g ! i) < int hosts"
        "unat (is_slot (dv_slots g ! i)) < n"
      using w full by (auto simp: within_def)
    have "?p (dv_slots g ! i) \<noteq> (unat src, unat s)"
    proof
      assume eq: "?p (dv_slots g ! i) = (unat src, unat s)"
      then have "int (nat (is_src (dv_slots g ! i))) = int (unat src)"
        by (simp only: prod.inject)
      then have "is_src (dv_slots g ! i) = uint src"
        using b(1) uint_nat [of src] by linarith
      moreover have "is_slot (dv_slots g ! i) = s"
        using eq by (simp add: word_unat_eq_iff)
      ultimately show False
        using new i by (auto simp: serves_iff)
    qed
    then show "?p (dv_slots g ! i) \<in> {..<hosts} \<times> {..<n} - {(unat src, unat s)}"
      using b by (simp add: nat_less_iff)
  qed
  then have "card ((\<lambda>i. ?p (dv_slots g ! i)) ` {..<TOUCH_MAX_SLOTS}) \<le>
      card ({..<hosts} \<times> {..<n} - {(unat src, unat s)})"
    by (intro card_mono) simp_all
  then have "TOUCH_MAX_SLOTS \<le> card ({..<hosts} \<times> {..<n} - {(unat src, unat s)})"
    by (simp only: card)
  also have "\<dots> = hosts * n - 1"
    using pair by (subst card_Diff_singleton) auto
  also have "\<dots> < hosts * n"
    using pair by simp
  finally show False
    using few by simp
qed


lemma get_slot_returns:
  assumes "dev_ok g" "within hosts n g" "hosts * n \<le> TOUCH_MAX_SLOTS" "hosts \<le> MAX_HOSTS"
    and "unat src < hosts" "unat s < n"
  shows "\<exists>t g'. get_slot g src s = Returned (t, g') \<and> dev_ok g' \<and> within hosts n g'"
proof -
  have "get_slot_loop 0 (dv_slots g) (uint src) s None \<noteq> Inr None"
    using get_slot_loop_None(2) [of "dv_slots g" "uint src" s] some_slot_free [OF assms(1-3,5,6)] by blast
  then have "\<exists>r. get_slot g src s = Returned r"
    using assms(4,5) by (auto simp: get_slot_def Let_def split: sum.splits option.splits)
  then obtain t g' where r: "get_slot g src s = Returned (t, g')"
    by auto
  obtain i where i: "i < TOUCH_MAX_SLOTS"
      "g' = g\<lparr>src_slots := (src_slots g)[unat src := s],
              dv_slots := (dv_slots g)[i := \<lparr> is_src = uint src, is_slot = s \<rparr>]\<rparr>"
    using get_slot_Returned [OF r assms(1)] by metis
  have u: "0 \<le> uint src" "uint src < int hosts"
    subgoal by simp
    subgoal using assms(5) uint_nat [of src] by linarith
    done
  have "within hosts n g'"
    unfolding within_def
  proof (intro conjI ballI impI allI)
    fix t assume "t \<in> set (dv_slots g')" "is_src t \<noteq> - 1"
    then have "serves t (uint src) s \<or> t \<in> set (dv_slots g) \<and> is_src t \<noteq> - 1"
      using i(2) set_update_subset_insert [of "dv_slots g" i] by auto
    then show "0 \<le> is_src t" "is_src t < int hosts" "unat (is_slot t) < n"
      using assms(2,6) u by (auto simp: within_def)
  next
    fix h assume "h < hosts"
    then show "unat (src_slots g' ! h) < n"
      using assms(1,2,4,6) i(2) by (auto simp: within_def dev_ok_def nth_update)
  qed
  then show ?thesis
    using r dev_ok_slot [OF r assms(1)] by blast
qed

lemma within_free: "within hosts n g \<Longrightarrow> within hosts n (free_slot g t)"
  using set_update_subset_insert [of "dv_slots g" "unat t"]
  by (fastforce simp: within_def free_slot_def)

lemma within_frame [simp]:
  "within h n (g\<lparr>dv_slot := a\<rparr>) = within h n g" "within h n (g\<lparr>dv_window_id := b\<rparr>) = within h n g"
  "within h n (g\<lparr>tracking_id := c\<rparr>) = within h n g" "within h n (g\<lparr>dv_out := d\<rparr>) = within h n g"
  "within h n (g\<lparr>src_window_id := w\<rparr>) = within h n g"
  by (simp_all add: within_def)

lemma touch_translate_returns:
  assumes "dev_ok g" "within hosts n g" "hosts * n \<le> TOUCH_MAX_SLOTS" "hosts \<le> MAX_HOSTS"
    and "unat src < hosts" "ev_code e = ABS_MT_SLOT \<longrightarrow> unat (ev_value e) < n"
  shows "\<exists>g' ie'. touch_translate g src ie e mx = Returned (g', ie') \<and> dev_ok g' \<and> within hosts n g' \<and>
    length ie' \<le> length ie + 3"
proof -
  have src: "unat src < MAX_HOSTS"
    using assms(4,5) by simp
  have "unat (src_slots g ! unat src) < n"
    using assms(2,5) by (simp add: within_def)
  then have "\<exists>t g1. (if ev_code e = ABS_MT_SLOT then get_slot g src (ev_value e) else get_current_slot g src) =
      Returned (t, g1) \<and> dev_ok g1 \<and> within hosts n g1"
    using get_slot_returns [OF assms(1-5)] assms(6) src by (auto simp: get_current_slot_def)
  then obtain t g1 where g1: "(if ev_code e = ABS_MT_SLOT then get_slot g src (ev_value e) else get_current_slot g src) =
      Returned (t, g1)" "dev_ok g1" "within hosts n g1"
    by blast
  then show ?thesis
    using src by (simp add: touch_translate_def Let_def dev_ok_free within_free)
qed

lemma serve_events_returns:
  assumes "hosts * n \<le> TOUCH_MAX_SLOTS" "hosts \<le> MAX_HOSTS" "unat src < hosts"
    and "dev_ok g" "within hosts n g"
    and "\<forall>e \<in> set es. ev_code e = ABS_MT_SLOT \<longrightarrow> unat (ev_value e) < n"
    and "length ie + 3 * length es \<le> 65535"
  shows "\<exists>g' ie'. serve_events touch src es ie g = Returned (g', ie') \<and> dev_ok g' \<and> within hosts n g'"
  using assms(4-7)
proof (induction es arbitrary: ie g)
  case (Cons e es)
  have len: "length ie < 65535"
    using Cons.prems(4) by simp
  show ?case
  proof (cases "ev_type e = EV_ABS \<and> touch")
    case True
    obtain g' ie' where t: "touch_translate g src ie e 65535 = Returned (g', ie')" "dev_ok g'" "within hosts n g'"
        "length ie' \<le> length ie + 3"
      using touch_translate_returns [OF Cons.prems(1,2) assms(1-3), of e] Cons.prems(3) by fastforce
    then show ?thesis
      using Cons.IH [OF t(2,3), of ie'] Cons.prems(3,4) True len by simp
  next
    case False
    then show ?thesis
      using Cons.IH [OF Cons.prems(1,2), of "ie @ [e]"] Cons.prems(3,4) len by auto
  qed
qed simp


lemma within_init: "0 < n \<Longrightarrow> hosts \<le> MAX_HOSTS \<Longrightarrow> within hosts n input_device_init"
  by (simp add: within_def input_device_init_def)


text \<open>
  A longer message can leave the array: the other events of a touch message are stored without a
  check of its size, so that one inserted event and 65534 button events are too many.
\<close>

lemma serve_keys_overrun:
  assumes "ev_type e \<noteq> EV_ABS"
  shows "65535 < length ie + n \<Longrightarrow> serve_events touch src (replicate n e) ie g = Crashed ''ie'' \<or> 65535 < length ie"
proof (induction n arbitrary: ie)
  case (Suc n)
  then show ?case
    using Suc.IH [of "ie @ [e]"] assms by (cases n) auto
qed simp

lemma touch_message_overrun:
  assumes "touch_translate g src [] t 65535 = Returned (g', [a, b])" "ev_type t = EV_ABS" "ev_type e \<noteq> EV_ABS"
  shows "serve_events True src (t # replicate 65534 e) [] g = Crashed ''ie''"
  using serve_keys_overrun [OF assms(3), of "[a, b]" 65534 True src g'] assms(1,2) by simp

end
