(* ===== verification/Touch_Path.thy ===== *)
theory Touch_Path
  imports Input_Loop Input_Device
begin

text \<open>
  The way of a touch: from the input state of a renderer over its connection to the touch device of
  the guest.  With one renderer the proxy gives every slot its own number, and a reader of the touch
  device sees what a reader of the renderer's messages sees.
\<close>

section \<open>One renderer\<close>

text \<open>
  The renderer's stream is in the disciplined state \<open>d\<close> and its reader in state \<open>k\<close>; the proxy is in
  state \<open>g\<close> and the reader of its touch device in state \<open>k'\<close>.
\<close>

definition path_rel :: "u8 \<Rightarrow> nat set \<times> nat \<Rightarrow> mt_state \<Rightarrow> input_device \<Rightarrow> mt_state \<Rightarrow> bool" where
  "path_rel h d k g k' =
     (dev_ok g \<and> unat h < MAX_HOSTS \<and> fst d \<subseteq> {..<16} \<and> snd d < 16 \<and>
      (\<forall>i < TOUCH_MAX_SLOTS.
         if i \<in> fst d then serves (dv_slots g ! i) (uint h) (of_nat i) else is_src (dv_slots g ! i) = - 1) \<and>
      src_slots g ! unat h = of_nat (snd d) \<and> dv_slot g = of_nat (snd d) \<and>
      dv_window_id g = 0 \<and> src_window_id g ! unat h = 0 \<and>
      mt_slot k = of_nat (snd d) \<and> mt_slot k' = of_nat (snd d) \<and> mt_window k = 0 \<and> mt_window k' = 0 \<and>
      mt_x k' = mt_x k \<and> mt_y k' = mt_y k \<and> (\<forall>v. mt_track k' v = - 1 \<longleftrightarrow> mt_track k v = - 1))"

lemma path_rel_init: "unat h < MAX_HOSTS \<Longrightarrow> path_rel h ({}, 0) mt_init input_device_init mt_init"
  by (simp add: path_rel_def dev_ok_init) (simp add: input_device_init_def mt_init_def)

lemma unat_of_nat_64: "i < 64 \<Longrightarrow> unat (of_nat i :: u32) = i"
  by (simp add: unat_of_nat)

lemma of_nat_64_eq [simp]: "i < 64 \<Longrightarrow> j < 64 \<Longrightarrow> (of_nat i :: u32) = of_nat j \<longleftrightarrow> i = j"
  by (metis unat_of_nat_64)

lemma uint_not_minus: "uint (w :: u8) \<noteq> - 1"
  using uint_ge_0 [of w] by linarith

lemma path_get_slot:
  assumes r: "path_rel h (used, cur) k g k'" and n: "n \<in> used \<or> lowest_free used n"
  shows "get_slot g h (of_nat n) = Returned (of_nat n,
    g\<lparr>src_slots := (src_slots g)[unat h := of_nat n],
      dv_slots := (dv_slots g)[n := \<lparr> is_src = uint h, is_slot = of_nat n \<rparr>]\<rparr>)"
proof -
  have ok: "dev_ok g" "unat h < MAX_HOSTS" "used \<subseteq> {..<16}"
    using r by (simp_all add: path_rel_def)
  have slots: "(i \<in> used \<longrightarrow> serves (dv_slots g ! i) (uint h) (of_nat i)) \<and>
      (i \<notin> used \<longrightarrow> is_src (dv_slots g ! i) = - 1)" if "i < 64" for i
    using r that by (simp add: path_rel_def TOUCH_MAX_SLOTS_def)
  have len: "length (dv_slots g) = 64"
    using ok(1) by (simp add: dev_ok_def TOUCH_MAX_SLOTS_def)
  have n16: "n < 64"
    using n ok(3) by (auto simp: lowest_free_def)
  have "\<exists>x. get_slot g h (of_nat n) = Returned x"
  proof -
    have "is_src (dv_slots g ! 63) = - 1"
      using slots [of 63] ok(3) by auto
    then have "get_slot_loop 0 (dv_slots g) (uint h) (of_nat n) None \<noteq> Inr None"
      using get_slot_loop_None(2) [of "dv_slots g" "uint h" "of_nat n"] len nth_mem [of 63 "dv_slots g"] by auto
    then show ?thesis
      using ok(2) by (auto simp: get_slot_def Let_def split: sum.splits option.splits)
  qed
  then obtain t g' where x: "get_slot g h (of_nat n) = Returned (t, g')" by auto
  then obtain i where i: "i < TOUCH_MAX_SLOTS" "t = of_nat i"
      "g' = g\<lparr>src_slots := (src_slots g)[unat h := of_nat n],
              dv_slots := (dv_slots g)[i := \<lparr> is_src = uint h, is_slot = of_nat n \<rparr>]\<rparr>"
      "serves (dv_slots g ! i) (uint h) (of_nat n) \<or>
       is_src (dv_slots g ! i) = - 1 \<and> (\<forall>m < i. is_src (dv_slots g ! m) \<noteq> - 1) \<and>
       (\<forall>t \<in> set (dv_slots g). \<not> serves t (uint h) (of_nat n))"
    using get_slot_Returned [OF x ok(1)] by metis
  have i64: "i < 64" using i(1) by (simp add: TOUCH_MAX_SLOTS_def)
  have "i = n"
    using i(4)
  proof
    assume s: "serves (dv_slots g ! i) (uint h) (of_nat n)"
    then have "i \<in> used"
      using slots [OF i64] uint_not_minus [of h] by auto
    then show ?thesis
      using slots [OF i64] s i64 n16 by auto
  next
    assume free: "is_src (dv_slots g ! i) = - 1 \<and> (\<forall>m < i. is_src (dv_slots g ! m) \<noteq> - 1) \<and>
       (\<forall>t \<in> set (dv_slots g). \<not> serves t (uint h) (of_nat n))"
    then have "n \<notin> used"
      using slots [OF n16] len n16 by auto
    then have low: "\<forall>m < n. m \<in> used" "n \<notin> used"
      using n by (auto simp: lowest_free_def)
    have "i \<notin> used"
      using slots [OF i64] free uint_not_minus [of h] by auto
    moreover have "\<forall>m < i. m \<in> used"
      using slots free i64 by (meson less_trans)
    ultimately show "i = n"
      using low by (meson linorder_neqE_nat)
  qed
  then show ?thesis
    using x i(2,3) by simp
qed


lemma path_relD:
  assumes "path_rel h d k g k'"
  shows "dev_ok g" "unat h < MAX_HOSTS" "src_slots g ! unat h = of_nat (snd d)" "dv_slot g = of_nat (snd d)"
    "dv_window_id g = 0" "src_window_id g ! unat h = 0"
  using assms by (simp_all add: path_rel_def)

lemma path_assign:
  assumes r: "path_rel h (used, cur) k g k'" and n: "n \<in> used \<or> lowest_free used n"
  shows "path_rel h (insert n used, n) (k\<lparr>mt_slot := of_nat n\<rparr>)
    (g\<lparr>src_slots := (src_slots g)[unat h := of_nat n],
       dv_slots := (dv_slots g)[n := \<lparr> is_src = uint h, is_slot = of_nat n \<rparr>],
       dv_window_id := 0, dv_slot := of_nat n\<rparr>) (k'\<lparr>mt_slot := of_nat n\<rparr>)"
proof -
  have "used \<subseteq> {..<16}"
    using r by (simp add: path_rel_def)
  then have n16: "n < 16"
    using n by (auto simp: lowest_free_def)
  have "dev_ok (g\<lparr>src_slots := (src_slots g)[unat h := of_nat n],
      dv_slots := (dv_slots g)[n := \<lparr> is_src = uint h, is_slot = of_nat n \<rparr>]\<rparr>)"
    by (rule dev_ok_slot [OF path_get_slot [OF r n] path_relD(1) [OF r]])
  then have "dev_ok (g\<lparr>src_slots := (src_slots g)[unat h := of_nat n],
       dv_slots := (dv_slots g)[n := \<lparr> is_src = uint h, is_slot = of_nat n \<rparr>],
       dv_window_id := 0, dv_slot := of_nat n\<rparr>)"
    by simp
  moreover have "length (dv_slots g) = TOUCH_MAX_SLOTS" "length (src_slots g) = MAX_HOSTS"
    using path_relD(1) [OF r] by (simp_all add: dev_ok_def)
  ultimately show ?thesis
    using r n16 by (auto simp: path_rel_def nth_update)
qed

lemma path_slot_event:
  assumes r: "path_rel h (used, cur) k g k'" and n: "unat v \<in> used \<or> lowest_free used (unat v)"
    and len: "length ie + 1 < mx"
  shows "\<exists>g'. touch_translate g h ie (event EV_ABS ABS_MT_SLOT v) mx =
      Returned (g', ie @ [event EV_ABS ABS_MT_SLOT v]) \<and>
    path_rel h (insert (unat v) used, unat v) (k\<lparr>mt_slot := v\<rparr>) g' (k'\<lparr>mt_slot := v\<rparr>)"
proof -
  have v: "of_nat (unat v) = v" by simp
  have c: "ABS_MT_SLOT \<noteq> ABS_MISC" "ABS_MT_SLOT \<noteq> ABS_MT_TRACKING_ID"
    by (simp_all add: touch_codes)
  show ?thesis
    using path_get_slot [OF r n] path_assign [OF r n] path_relD [OF r] len c unfolding v
    by (simp add: touch_translate_def Let_def)
qed

lemma path_same:
  assumes "path_rel h (used, cur) k g k'" "cur \<in> used"
  shows "get_current_slot g h = Returned (of_nat cur, g)"
proof -
  have "(src_slots g)[unat h := of_nat cur] = src_slots g"
    using path_relD(3) [OF assms(1)] by (metis list_update_id snd_conv)
  moreover have "cur < TOUCH_MAX_SLOTS"
    using assms by (auto simp: path_rel_def TOUCH_MAX_SLOTS_def)
  then have "serves (dv_slots g ! cur) (uint h) (of_nat cur)"
    using assms by (auto simp: path_rel_def)
  then have "(dv_slots g)[cur := \<lparr> is_src = uint h, is_slot = of_nat cur \<rparr>] = dv_slots g"
    by (metis list_update_id)
  ultimately show ?thesis
    using path_get_slot [OF assms(1) disjI1 [OF assms(2)]] path_relD [OF assms(1)]
    by (simp add: get_current_slot_def)
qed

lemma path_stop:
  assumes r: "path_rel h (used, cur) k g k'"
  shows "path_rel h (used - {cur}, cur) (k\<lparr>mt_track := (mt_track k)(mt_slot k := - 1)\<rparr>) (free_slot g (of_nat cur))
    (k'\<lparr>mt_track := (mt_track k')(mt_slot k' := - 1)\<rparr>)"
proof -
  have "cur < 64"
    using r by (simp add: path_rel_def)
  then have "unat (of_nat cur :: u32) = cur"
    by (rule unat_of_nat_64)
  moreover have "length (dv_slots g) = TOUCH_MAX_SLOTS"
    using path_relD(1) [OF r] by (simp add: dev_ok_def)
  moreover have "dev_ok (free_slot g (of_nat cur))"
    by (rule dev_ok_free [OF path_relD(1) [OF r]])
  ultimately show ?thesis
    using r by (auto simp: path_rel_def free_slot_def nth_update)
qed

text \<open>One event of a disciplined sender.\<close>

lemma path_event:
  assumes r: "path_rel h d k g k'" and abs: "ev_type e = EV_ABS" and disc: "disc_event d e = Some d'"
    and len: "length ie + 1 < mx"
  shows "\<exists>g' e'. touch_translate g h ie e mx = Returned (g', ie @ [e']) \<and>
    path_rel h d' (mt_event k e) g' (mt_event k' e')"
proof -
  obtain used cur where d: "d = (used, cur)" by (cases d)
  obtain c v where e: "e = event EV_ABS c v"
    using abs by (cases e) auto
  consider "c = ABS_MT_SLOT" | "c \<noteq> ABS_MT_SLOT" "c \<noteq> ABS_MISC" "cur \<in> used"
    using disc by (auto simp: disc_event_def d e split: if_splits)
  then show ?thesis
  proof cases
    case 1
    then have n: "unat v \<in> used \<or> lowest_free used (unat v)" and d': "d' = (insert (unat v) used, unat v)"
      using disc by (auto simp: d e split: if_splits)
    obtain g' where "touch_translate g h ie e mx = Returned (g', ie @ [e])"
        "path_rel h d' (mt_event k e) g' (mt_event k' e)"
      using path_slot_event [OF r [unfolded d] n len] 1 by (auto simp: e d')
    then show ?thesis by blast
  next
    case 2
    note cur = path_same [OF r [unfolded d] 2(3)] and D = path_relD [OF r [unfolded d]]
    have keep: "g\<lparr>dv_window_id := 0, dv_slot := of_nat cur\<rparr> = g"
      using D by (intro input_device.equality) simp_all
    consider "c = ABS_MT_TRACKING_ID" "v = - 1" | "c = ABS_MT_TRACKING_ID" "v \<noteq> - 1" | "c \<noteq> ABS_MT_TRACKING_ID"
      by blast
    then show ?thesis
    proof cases
      case 1
      have "d' = (used - {cur}, cur)"
        using disc 2 1 by (simp add: d e)
      then show ?thesis
        using path_stop [OF r [unfolded d]] cur D 2 1 len
        by (simp add: touch_translate_def Let_def e keep)
    next
      case t: 2
      have "d' = (used, cur)"
        using disc 2 t by (simp add: d e)
      moreover have "(ucast (tracking_id g) :: i32) \<noteq> - 1"
        by (rule u16_not_minus)
      ultimately show ?thesis
        using r cur D 2 t len keep by (simp add: touch_translate_def Let_def e d path_rel_def)
    next
      case 3
      have "d' = (used, cur)"
        using disc 2 3 by (simp add: d e disc_event_def)
      then show ?thesis
        using r cur D 2 3 len keep
        by (simp add: touch_translate_def Let_def e d path_rel_def mt_event_def)
    qed
  qed
qed


lemma path_events:
  assumes "path_rel h d k g k'" "disc_run d es = Some d'" "length ie + length es < 65535"
  shows "\<exists>g' es'. serve_events True h es ie g = Returned (g', ie @ es') \<and>
    path_rel h d' (mt_run k es) g' (mt_run k' es') \<and> length es' = length es"
  using assms
proof (induction es arbitrary: d k g k' ie)
  case (Cons e es)
  obtain d1 where d1: "disc_event d e = Some d1" "disc_run d1 es = Some d'"
    using Cons.prems(2) by (auto split: option.splits)
  have "\<exists>g1 e'. (if ev_type e = EV_ABS then touch_translate g h ie e 65535 = Returned (g1, ie @ [e'])
      else g1 = g \<and> e' = e) \<and> path_rel h d1 (mt_event k e) g1 (mt_event k' e')"
  proof (cases "ev_type e = EV_ABS")
    case True
    then show ?thesis
      using path_event [OF Cons.prems(1) True d1(1), of ie 65535] Cons.prems(3) by auto
  next
    case False
    then show ?thesis
      using Cons.prems(1) d1(1) by auto
  qed
  then obtain g1 e' where g1: "if ev_type e = EV_ABS then touch_translate g h ie e 65535 = Returned (g1, ie @ [e'])
      else g1 = g \<and> e' = e" "path_rel h d1 (mt_event k e) g1 (mt_event k' e')"
    by blast
  obtain g' es' where "serve_events True h es (ie @ [e']) g1 = Returned (g', (ie @ [e']) @ es')"
      "path_rel h d' (mt_run (mt_event k e) es) g' (mt_run (mt_event k' e') es')" "length es' = length es"
    using Cons.IH [OF g1(2) d1(2), of "ie @ [e']"] Cons.prems(3) by auto
  then show ?case
    using g1(1) Cons.prems(3) by (intro exI [of _ g'] exI [of _ "e' # es'"]) (auto split: if_splits)
qed simp

section \<open>Messages\<close>

text \<open>The messages of one renderer served one after the other, and what a reader of the touch device sees.\<close>

fun deliver :: "u8 \<Rightarrow> (rvgpu_input_dev \<times> rvgpu_input_event list) list \<Rightarrow> input_device \<Rightarrow> input_device outcome" where
  "deliver h [] g = Returned g"
| "deliver h ((dev, es) # ms) g = obind (input_device_serve (Some dev) h es g) (deliver h ms)"

definition touch_part :: "(rvgpu_input_dev \<times> rvgpu_input_event list) list \<Rightarrow> rvgpu_input_event list" where
  "touch_part ms = concat (map snd (filter (\<lambda>m. fst m = RVGPU_INPUT_TOUCH) ms))"

lemma touch_part_simps [simp]:
  "touch_part [] = []" "touch_part ((dev, es) # ms) = (if dev = RVGPU_INPUT_TOUCH then es else []) @ touch_part ms"
  "touch_part (ms @ ns) = touch_part ms @ touch_part ns"
  by (simp_all add: touch_part_def)

lemma sent_touch_part: "sent s = touch_part (in_out s)"
  by (simp add: sent_def touch_part_def)

lemma serve_events_plain:
  "length ie + length es \<le> 65535 \<Longrightarrow> serve_events False h es ie g = Returned (g, ie @ es)"
  by (induction es arbitrary: ie) auto

lemma path_rel_out [simp]: "path_rel h d k (g\<lparr>dv_out := x\<rparr>) k' = path_rel h d k g k'"
  by (simp add: path_rel_def)

lemma serve_events_out:
  "serve_events touch h es ie g = Returned (g', ie') \<Longrightarrow> dv_out g' = dv_out g"
proof (induction touch h es ie g arbitrary: g' ie' rule: serve_events.induct)
  case (2 touch src e es ie g)
  have "dv_out g1 = dv_out g" if t: "touch_translate g src ie e 65535 = Returned (g1, ie1)" for g1 ie1
  proof -
    have o: "get_slot g src s = Returned (x, g2) \<Longrightarrow> dv_out g2 = dv_out g" for s x g2
      by (auto simp: get_slot_def Let_def split: if_splits sum.splits option.splits)
    then show ?thesis
      using t by (auto simp: touch_translate_def obind_Returned_iff get_current_slot_def free_slot_def Let_def
          split: if_splits)
  qed
  then show ?case
    using 2 by (auto simp: obind_Returned_iff split: if_splits)
qed simp

lemma path_deliver:
  assumes "path_rel h d k g (mt_run mt_init (touch_part (dv_out g)))" "disc_run d (touch_part ms) = Some d'"
    and "\<forall>(dev, es) \<in> set ms. length es < 65535"
  shows "\<exists>g'. deliver h ms g = Returned g' \<and>
    path_rel h d' (mt_run k (touch_part ms)) g' (mt_run mt_init (touch_part (dv_out g')))"
  using assms
proof (induction ms arbitrary: d k g)
  case (Cons m ms)
  obtain dev es where m: "m = (dev, es)" by (cases m)
  have len: "length es < 65535" using Cons.prems(3) by (simp add: m)
  show ?case
  proof (cases "dev = RVGPU_INPUT_TOUCH")
    case True
    then obtain d1 where d1: "disc_run d es = Some d1" "disc_run d1 (touch_part ms) = Some d'"
      using Cons.prems(2) by (auto simp: m disc_run_append split: option.splits)
    obtain g1 es' where g1: "serve_events True h es [] g = Returned (g1, es')"
        "path_rel h d1 (mt_run k es) g1 (mt_run (mt_run mt_init (touch_part (dv_out g))) es')"
      using path_events [OF Cons.prems(1) d1(1), of "[]"] len by auto
    let ?g = "g1\<lparr>dv_out := dv_out g1 @ [(dev, es')]\<rparr>"
    have "path_rel h d1 (mt_run k es) ?g (mt_run mt_init (touch_part (dv_out ?g)))"
      using g1 serve_events_out [OF g1(1)] True by simp
    from Cons.IH [OF this d1(2)] Cons.prems(3) show ?thesis
      using g1(1) True by (simp add: m input_device_serve_def)
  next
    case False
    let ?g = "g\<lparr>dv_out := dv_out g @ [(dev, es)]\<rparr>"
    have "path_rel h d k ?g (mt_run mt_init (touch_part (dv_out ?g)))"
      using Cons.prems(1) False by simp
    from Cons.IH [OF this] Cons.prems(2,3) show ?thesis
      using False len by (simp add: m input_device_serve_def serve_events_plain)
  qed
qed simp

lemma path_rel_shows:
  "path_rel h d k g k' \<Longrightarrow> mt_shows k ks slot w \<Longrightarrow> mt_shows k' ks slot w"
  by (simp add: path_rel_def mt_shows_def)

section \<open>The connection\<close>

definition message_bytes :: "rvgpu_input_dev \<times> rvgpu_input_event list \<Rightarrow> byte list" where
  "message_bytes m = header_bytes (fst m) (of_nat (length (snd m))) @ concat (map event_bytes (snd m))"

lemma message_bytes_pair:
  "message_bytes (dev, es) = header_bytes dev (of_nat (length es)) @ concat (map event_bytes es)"
  by (simp add: message_bytes_def)

lemma un_events_bytes: "un_events (length es) (concat (map event_bytes es) @ bs) = es"
  by (induction es) (simp_all add: event_bytes_def)

lemma length_events_bytes [simp]: "length (concat (map event_bytes es)) = 8 * length es"
  by (induction es) (simp_all add: event_bytes_def)

lemma dev_of_number_dev [simp]: "dev_of_number (dev_number d) = Some d"
  by (cases d) (simp_all add: dev_of_number_def)

lemma header_bytes_parts:
  "length (header_bytes d n) = 4" "header_bytes d n ! 0 = dev_number d" "drop 2 (header_bytes d n) = le16 n"
  by (simp_all add: header_bytes_def)

lemma un_le16_le16_self: "un_le16 (le16 w) = w"
  using un_le16_le16 [of w "[]"] by simp

lemma recv_all_ok:
  assumes "activated s" "stream_bytes (rcv_pipe s COMMAND) = bs @ rest"
  shows "\<exists>s'. rvgpu_recv_all s COMMAND (length bs) = (Inr bs, s') \<and> activated s' \<and>
    stream_bytes (rcv_pipe s' COMMAND) = rest"
proof -
  obtain r rs where r: "recv_all_loop (rcv_pipe s COMMAND) (length bs) = (r, rs)"
    by (cases "recv_all_loop (rcv_pipe s COMMAND) (length bs)")
  from recv_all_loop_spec [OF r] show ?thesis
    using assms r by (cases r) (auto simp: rvgpu_recv_all_def)
qed

lemma input_read_ok:
  assumes "activated s" "stream_bytes (rcv_pipe s COMMAND) = bs @ rest"
  shows "\<exists>s'. input_read [s] (\<lambda>_. True) (length bs) = (if bs = [] then None else Some (0, bs), [s']) \<and>
    activated s' \<and> stream_bytes (rcv_pipe s' COMMAND) = rest"
proof -
  obtain s' where "rvgpu_recv_all s COMMAND (length bs) = (Inr bs, s')" "activated s'"
      "stream_bytes (rcv_pipe s' COMMAND) = rest"
    using recv_all_ok [OF assms] by blast
  then show ?thesis
    by (cases bs) (auto simp: input_read_def)
qed

lemma thread_step:
  assumes "input_read ss r1 4 = (Some (i, hdr), ss1)" "input_read ss1 r2 (8 * n) = (res, ss2)"
    and "n = unat (un_le16 (drop 2 hdr))" "bs = (case res of None \<Rightarrow> [] | Some (_, bs) \<Rightarrow> bs)" "length bs = 8 * n"
  shows "input_thread_func (r1 # r2 # rs) ss g =
    obind (input_device_serve (dev_of_number (hdr ! 0)) (of_nat i) (un_events n bs) g) (input_thread_func rs ss2)"
  using assms by (simp add: Let_def split: option.split)

lemma input_thread_delivers:
  assumes "activated s" "stream_bytes (rcv_pipe s COMMAND) = concat (map message_bytes ms)"
    and "\<forall>(dev, es) \<in> set ms. length es < 65535" "deliver 0 ms g = Returned g'"
  shows "\<exists>ss. input_thread_func (replicate (2 * length ms) (\<lambda>_. True)) [s] g = Returned (g', ss)"
  using assms
proof (induction ms arbitrary: s g)
  case (Cons m ms)
  obtain dev es where m: "m = (dev, es)" by (cases m)
  have len: "length es < 65535" using Cons.prems(3) by (simp add: m)
  obtain g1 where g1: "input_device_serve (Some dev) 0 es g = Returned g1" "deliver 0 ms g1 = Returned g'"
    using Cons.prems(4) by (auto simp: m obind_Returned_iff)
  let ?hdr = "header_bytes dev (of_nat (length es))" and ?evs = "concat (map event_bytes es)"
  have ne: "?hdr \<noteq> []"
    by (simp add: header_bytes_def)
  obtain s1 where s1: "input_read [s] (\<lambda>_. True) 4 = (Some (0, ?hdr), [s1])" "activated s1"
      "stream_bytes (rcv_pipe s1 COMMAND) = ?evs @ concat (map message_bytes ms)"
    using input_read_ok [OF Cons.prems(1), of ?hdr "?evs @ concat (map message_bytes ms)"] Cons.prems(2) ne
    by (auto simp: m message_bytes_pair header_bytes_parts)
  obtain s2 where s2: "input_read [s1] (\<lambda>_. True) (8 * length es) = (if ?evs = [] then None else Some (0, ?evs), [s2])"
      "activated s2" "stream_bytes (rcv_pipe s2 COMMAND) = concat (map message_bytes ms)"
    using input_read_ok [OF s1(2,3)] by auto
  have n: "unat (un_le16 (drop 2 ?hdr)) = length es"
    using len by (simp add: header_bytes_parts un_le16_le16_self unat_of_nat)
  have ev: "un_events (length es) ?evs = es"
    using un_events_bytes [of es "[]"] by simp
  obtain ss where ss: "input_thread_func (replicate (2 * length ms) (\<lambda>_. True)) [s2] g1 = Returned (g', ss)"
    using Cons.IH [OF s2(2,3) _ g1(2)] Cons.prems(3) by auto
  have rep: "replicate (2 * length (m # ms)) (\<lambda>_. True) =
      (\<lambda>_. True) # (\<lambda>_. True) # replicate (2 * length ms) (\<lambda>_. True)" for m :: "rvgpu_input_dev \<times> rvgpu_input_event list"
    by simp
  have bs: "?evs = (case (if ?evs = [] then None else Some (0 :: nat, ?evs)) of None \<Rightarrow> [] | Some (_, bs) \<Rightarrow> bs)"
    by simp
  have "input_thread_func (replicate (2 * length (m # ms)) (\<lambda>_. True)) [s] g =
      obind (input_device_serve (Some dev) 0 es g)
        (input_thread_func (replicate (2 * length ms) (\<lambda>_. True)) [s2])"
    using thread_step [OF s1(1) s2(1) n [symmetric] bs length_events_bytes,
        of "replicate (2 * length ms) (\<lambda>_. True)" g]
    by (simp only: rep header_bytes_parts dev_of_number_dev ev) simp
  then show ?case
    using g1(1) ss by simp
qed simp

text \<open>
  C9. A touch arrives: when one renderer is connected and its messages come over the connection in
  pieces of any size, the input thread of the proxy serves them all without failing, and a
  reader of the guest's touch device sees exactly the contacts and positions of the renderer's
  touch slots as of its last message.
\<close>

theorem touch_reaches_guest:
  assumes "loop_reach dbl grow use_layout zero e" and "\<And>n. grow n"
    and "\<forall>(dev, es) \<in> set (in_out (el_in e)). length es < 65535"
    and "activated s" "stream_bytes (rcv_pipe s COMMAND) = concat (map message_bytes (in_out (el_in e)))"
  shows "\<exists>g ss. input_thread_func (replicate (2 * length (in_out (el_in e))) (\<lambda>_. True)) [s] input_device_init =
      Returned (g, ss) \<and>
    mt_shows (mt_run mt_init (touch_part (dv_out g))) (keys (in_olds (el_in e)))
      (old_slot (el_in e)) (old_window_id (el_in e))"
proof -
  obtain d where d: "disc_run ({}, 0) (touch_part (in_out (el_in e))) = Some d"
    using loop_disc [OF assms(1,2)] by (auto simp: in_sync_def sent_touch_part)
  have "path_rel 0 ({}, 0) mt_init input_device_init (mt_run mt_init (touch_part (dv_out input_device_init)))"
    using path_rel_init [of 0] by (simp add: input_device_init_def MAX_HOSTS_def)
  from path_deliver [OF this d assms(3)] obtain g where
    g: "deliver 0 (in_out (el_in e)) input_device_init = Returned g"
      "path_rel 0 d (mt_run mt_init (touch_part (in_out (el_in e)))) g (mt_run mt_init (touch_part (dv_out g)))"
    by blast
  have "mt_shows (mt_run mt_init (touch_part (in_out (el_in e)))) (keys (in_olds (el_in e)))
      (old_slot (el_in e)) (old_window_id (el_in e))"
    using loop_mt [OF assms(1,2)] by (simp add: in_sync_def sent_touch_part)
  then show ?thesis
    using path_rel_shows [OF g(2)] input_thread_delivers [OF assms(4,5,3) g(1)] by blast
qed

lemma touch_reaches_guest_witness:
  "\<exists>g ss. input_thread_func (replicate (2 * length (in_out (el_in demo_frame))) (\<lambda>_. True))
      [empty_scanout\<lparr>activated := True, rcv_pipe := (\<lambda>_. [Read_again, Chunk (concat (map message_bytes (in_out (el_in demo_frame))))])\<rparr>]
      input_device_init = Returned (g, ss) \<and>
    mt_shows (mt_run mt_init (touch_part (dv_out g))) (keys (in_olds (el_in demo_frame)))
      (old_slot (el_in demo_frame)) (old_window_id (el_in demo_frame))"
proof (rule touch_reaches_guest [OF demo_frame_reach])
  show "\<forall>(dev, es) \<in> set (in_out (el_in demo_frame)). length es < 65535"
    by (simp add: demo_out)
qed simp_all

end
