(* ===== verification/Touch_Merge.thy ===== *)
theory Touch_Merge
  imports Touch_Path
begin

text \<open>
  The touches of several renderers on one device: where an event of a renderer arrives, the case in
  which it arrives in the slot of another renderer, and the reading of a message from the
  connection of another renderer.
\<close>

section \<open>Where an event arrives\<close>


lemma get_slot_loop_free:
  "src \<noteq> - 1 \<Longrightarrow> get_slot_loop i (replicate n \<lparr> is_src = - 1, is_slot = q \<rparr>) src s ff =
     Inr (if ff = None \<and> 0 < n then Some i else ff)"
  by (induction n arbitrary: i ff) auto

lemma init_slot:
  "\<exists>g1. get_slot input_device_init 1 0 = Returned (0, g1)"
  by (simp add: get_slot_def MAX_HOSTS_def Let_def)
    (simp add: input_device_init_def get_slot_loop_free TOUCH_MAX_SLOTS_def)


section \<open>The excluded case\<close>

text \<open>
  When the slot of the touch device that is assigned to the named slot is the one named last, the
  event is passed on as it is, and the reader goes to the slot with the renderer's own number while
  the proxy takes it to be in the assigned one.  This happens when renderer 0 keeps a touch on its
  slot 0 while renderer 1 touches, lifts and touches again on its own slot 0: its second touch is
  reported in slot 0 of the touch device, not in slot 1.
\<close>

lemma touch_in_wrong_slot:
  assumes "get_slot g src v = Returned (dv_slot g, g1)" "v \<noteq> dv_slot g"
    and "src_window_id g ! unat src = dv_window_id g" "length ie + 1 < mx"
  shows "\<exists>g'. touch_translate g src ie (event EV_ABS ABS_MT_SLOT v) mx =
      Returned (g', ie @ [event EV_ABS ABS_MT_SLOT v]) \<and>
    dv_slot g' = dv_slot g \<and> mt_slot (mt_run k [event EV_ABS ABS_MT_SLOT v]) \<noteq> dv_slot g'"
proof -
  have "unat src < MAX_HOSTS"
    using assms(1) by (auto simp: get_slot_def split: if_splits)
  moreover have "dv_slot g1 = dv_slot g" "dv_window_id g1 = dv_window_id g"
    using assms(1) by (auto simp: get_slot_def Let_def split: if_splits sum.splits option.splits)
  moreover have "ABS_MT_SLOT \<noteq> ABS_MISC" "ABS_MT_SLOT \<noteq> ABS_MT_TRACKING_ID"
    by (simp_all add: touch_codes)
  ultimately show ?thesis
    using assms by (simp add: touch_translate_def Let_def)
qed

text \<open>A contact of renderer 0 in slot 0, one of renderer 1 in slot 1 that has just ended: the case occurs.\<close>

definition held_device :: input_device where
  "held_device = input_device_init
     \<lparr>dv_slots := (dv_slots input_device_init)[0 := \<lparr> is_src = 0, is_slot = 0 \<rparr>], dv_slot := 1\<rparr>"

lemma held_device_slot: "\<exists>g1. get_slot held_device 1 0 = Returned (dv_slot held_device, g1)"
proof -
  have slots: "dv_slots held_device = \<lparr> is_src = 0, is_slot = 0 \<rparr> # replicate 63 \<lparr> is_src = - 1, is_slot = 0 \<rparr>"
    using replicate_Suc [of 63 "\<lparr> is_src = - 1, is_slot = 0 :: u32 \<rparr>"]
    by (simp add: held_device_def input_device_init_def TOUCH_MAX_SLOTS_def)
  have "get_slot_loop 0 (dv_slots held_device) 1 0 None = Inr (Some 1)"
    by (simp add: slots get_slot_loop_free)
  then show ?thesis
    by (simp add: get_slot_def MAX_HOSTS_def Let_def) (simp add: held_device_def)
qed

section \<open>Two connections\<close>

text \<open>
  The header of a message comes from renderer 1; when renderer 0 has become readable before its
  events are read, the bytes of renderer 0 are taken for the events.
\<close>

lemma events_of_another_renderer:
  assumes "rvgpu_recv_all s1 COMMAND 4 = (Inr hdr, s1')" "hdr \<noteq> []" "n = unat (un_le16 (drop 2 hdr))"
    and "rvgpu_recv_all s0 COMMAND (8 * n) = (Inr bs, s0')" "bs \<noteq> []" "length bs = 8 * n"
  shows "input_thread_func ((\<lambda>i. i = 1) # (\<lambda>_. True) # rs) [s0, s1] g =
    obind (input_device_serve (dev_of_number (hdr ! 0)) 1 (un_events n bs) g) (input_thread_func rs [s0', s1'])"
proof -
  have "input_read [s0, s1] (\<lambda>i. i = 1) 4 = (Some (1, hdr), [s0, s1'])"
    using assms(1,2) by (cases hdr) (simp_all add: input_read_def)
  moreover have "input_read [s0, s1'] (\<lambda>_. True) (8 * n) = (Some (0, bs), [s0', s1'])"
    using assms(4,5) by (cases bs) (simp_all add: input_read_def)
  ultimately show ?thesis
    using thread_step [of "[s0, s1]" "\<lambda>i. i = 1" 1 hdr "[s0, s1']" "\<lambda>_. True" n "Some (0, bs)" "[s0', s1']" bs rs g]
      assms(3,6) by simp
qed

end
