(* ===== verification/Tcp_Connect.thy ===== *)
theory Tcp_Connect
  imports Prelude "HOL-Library.Multiset"
begin

text \<open>
  How the TCP thread of the proxy connects to its hosts (\<open>reconnect_next\<close>, \<open>connect_hosts\<close> and
  \<open>reconnect_single\<close> of src/librvgpu/tcp/rvgpu-tcp.c).  The kernel is a script: what comes of each
  attempt to open and connect a socket, and what each \<open>poll\<close> reports.  Proved: every descriptor
  that was opened is either the socket of its host or closed again, the addresses of a host are
  tried in turn, and the search ends when \<open>poll\<close> is interrupted.
\<close>

section \<open>The kernel\<close>

text \<open>
  An attempt: \<open>socket\<close> fails, setting an option fails, \<open>connect\<close> fails at once, or the connection is
  made or under way; in the last three cases a descriptor was opened.
\<close>

datatype attempt = Socket_failed | Option_failed string | Connect_failed int | Connecting int

text \<open>The attempts to come (none are left when the script is used up) and the open descriptors.\<close>

record net =
  nt_script :: "attempt list"
  nt_open :: "int list"

definition close_fd :: "int \<Rightarrow> net \<Rightarrow> net" where
  "close_fd fd w = w\<lparr>nt_open := remove1 fd (nt_open w)\<rparr>"

section \<open>One address after the other\<close>

text \<open>The addresses of a host (0 when the name was not resolved: \<open>servinfo\<close> is \<open>NULL\<close>) and the current one.\<close>

record conninfo =
  ci_addrs :: nat
  ci_p :: "nat option"

definition next_address :: "conninfo \<Rightarrow> nat" where
  "next_address ci =
     (case ci_p ci of None \<Rightarrow> 0 | Some i \<Rightarrow> if i + 1 < ci_addrs ci then i + 1 else 0)"

definition reconnect_next :: "conninfo \<Rightarrow> net \<Rightarrow> (int \<times> conninfo \<times> net) outcome" where
  "reconnect_next ci w =
     (let ci' = ci\<lparr>ci_p := Some (next_address ci)\<rparr> in
      case nt_script w of
        [] \<Rightarrow> Returned (- 1, ci', w)
      | a # as \<Rightarrow>
          let w' = w\<lparr>nt_script := as\<rparr> in
          case a of
            Socket_failed \<Rightarrow> Returned (- 1, ci', w')
          | Option_failed e \<Rightarrow> Exited e
          | Connect_failed fd \<Rightarrow> Returned (- 1, ci', close_fd fd (w'\<lparr>nt_open := fd # nt_open w'\<rparr>))
          | Connecting fd \<Rightarrow> Returned (fd, ci', w'\<lparr>nt_open := fd # nt_open w'\<rparr>))"

section \<open>All hosts\<close>

text \<open>A host while it is connected: its socket, the descriptor that is polled, its addresses.\<close>

record host_conn =
  hc_sock :: int
  hc_pfd :: int
  hc_info :: conninfo

fun connect_start :: "nat list \<Rightarrow> net \<Rightarrow> (host_conn list \<times> net) outcome" where
  "connect_start [] w = Returned ([], w)"
| "connect_start (n # ns) w =
     (let ci = \<lparr> ci_addrs = n, ci_p = None \<rparr> in
      obind (if n = 0 then Returned (- 1, ci, w) else reconnect_next ci w) (\<lambda>(fd, ci', w1).
        obind (connect_start ns w1) (\<lambda>(hs, w2).
          Returned (\<lparr> hc_sock = - 1, hc_pfd = fd, hc_info = ci' \<rparr> # hs, w2))))"

text \<open>
  What \<open>poll\<close> does: it fails, or reports for every host whether the socket is writable and whether
  it has no pending error.
\<close>

datatype poll_result = Poll_failed | Poll_ready "(bool \<times> bool) list"

fun connect_round ::
  "(bool \<times> bool) list \<Rightarrow> host_conn list \<Rightarrow> net \<Rightarrow> (bool \<times> host_conn list \<times> net) outcome" where
  "connect_round rs [] w = Returned (False, [], w)"
| "connect_round rs (h # hs) w =
     (let (out, ok) = (case rs of [] \<Rightarrow> (False, False) | r # _ \<Rightarrow> r) in
      obind
        (if hc_pfd h = - 1 then Returned (False, h, w)
         else if out then
           if ok then Returned (False, h\<lparr>hc_sock := hc_pfd h, hc_pfd := - 1\<rparr>, w)
           else obind (reconnect_next (hc_info h) (close_fd (hc_pfd h) w)) (\<lambda>(fd, ci, w').
                  Returned (True, h\<lparr>hc_pfd := fd, hc_info := ci\<rparr>, w'))
         else Returned (True, h, w))
        (\<lambda>(again, h', w1). obind (connect_round (tl rs) hs w1) (\<lambda>(again', hs', w2).
           Returned (again \<or> again', h' # hs', w2))))"

text \<open>
  The loop; it ends when the time is up, which is the end of the script.  A failed \<open>poll\<close> continues
  with the condition of the loop, which is false at that point.
\<close>

fun connect_loop :: "poll_result list \<Rightarrow> host_conn list \<Rightarrow> net \<Rightarrow> (host_conn list \<times> net) outcome" where
  "connect_loop [] hs w = Returned (hs, w)"
| "connect_loop (Poll_failed # ps) hs w = Returned (hs, w)"
| "connect_loop (Poll_ready rs # ps) hs w =
     obind (connect_round rs hs w) (\<lambda>(again, hs', w').
       if again then connect_loop ps hs' w' else Returned (hs', w'))"

fun connect_end :: "host_conn list \<Rightarrow> net \<Rightarrow> net" where
  "connect_end [] w = w"
| "connect_end (h # hs) w =
     connect_end hs (if ci_addrs (hc_info h) \<noteq> 0 \<and> hc_pfd h \<noteq> - 1 then close_fd (hc_pfd h) w else w)"

text \<open>\<open>connect_hosts\<close>: the sockets of the hosts, -1 for those that were not reached.\<close>

definition connect_hosts :: "nat list \<Rightarrow> poll_result list \<Rightarrow> net \<Rightarrow> (int list \<times> net) outcome" where
  "connect_hosts addrs ps w =
     obind (connect_start addrs w) (\<lambda>(hs, w1).
       obind (connect_loop ps hs w1) (\<lambda>(hs', w2). Returned (map hc_sock hs', connect_end hs' w2)))"

text \<open>\<open>reconnect_single\<close>: one attempt, ten milliseconds.\<close>

definition reconnect_single :: "nat \<Rightarrow> bool \<times> bool \<Rightarrow> net \<Rightarrow> (int \<times> net) outcome" where
  "reconnect_single n r w =
     (if n = 0 then Returned (- 1, w)
      else obind (reconnect_next \<lparr> ci_addrs = n, ci_p = None \<rparr> w) (\<lambda>(fd, ci, w').
        if fd = - 1 then Returned (- 1, w')
        else if fst r \<and> snd r then Returned (fd, w') else Returned (- 1, close_fd fd w')))"

section \<open>No descriptor is lost\<close>

text \<open>The descriptors a host and a list of hosts hold.\<close>

definition fd_set :: "int \<Rightarrow> int multiset" where
  "fd_set fd = (if fd = - 1 then {#} else {#fd#})"

fun held :: "host_conn list \<Rightarrow> int multiset" where
  "held [] = {#}"
| "held (h # hs) = fd_set (hc_sock h) + fd_set (hc_pfd h) + held hs"

text \<open>A host polls only until it has a socket, and only if its name was resolved.\<close>

definition host_ok :: "host_conn \<Rightarrow> bool" where
  "host_ok h = ((hc_sock h = - 1 \<or> hc_pfd h = - 1) \<and> (ci_addrs (hc_info h) = 0 \<longrightarrow> hc_pfd h = - 1))"

text \<open>Descriptors are not -1.\<close>

definition real_fds :: "net \<Rightarrow> bool" where
  "real_fds w = (\<forall>a \<in> set (nt_script w). a \<noteq> Connecting (- 1))"

lemma fd_set_simps [simp]: "fd_set (- 1) = {#}" "fd \<noteq> - 1 \<Longrightarrow> fd_set fd = {#fd#}"
  by (simp_all add: fd_set_def)

lemma close_fd_simps [simp]:
  "nt_script (close_fd fd w) = nt_script w" "mset (nt_open (close_fd fd w)) = mset (nt_open w) - {#fd#}"
  "real_fds (close_fd fd w) = real_fds w"
  by (simp_all add: close_fd_def real_fds_def)

lemma reconnect_next_fds:
  assumes "reconnect_next ci w = Returned (fd, ci', w')" "real_fds w"
  shows "mset (nt_open w') = mset (nt_open w) + fd_set fd \<and> real_fds w' \<and> ci_addrs ci' = ci_addrs ci"
  using assms
  by (auto simp: reconnect_next_def real_fds_def Let_def split: list.splits attempt.splits)

lemma connect_start_fds:
  assumes "connect_start ns w = Returned (hs, w')" "real_fds w"
  shows "mset (nt_open w') = mset (nt_open w) + held hs \<and> real_fds w' \<and> list_all host_ok hs \<and>
    length hs = length ns"
  using assms
proof (induction ns arbitrary: w hs)
  case (Cons n ns)
  let ?ci = "\<lparr> ci_addrs = n, ci_p = None \<rparr>"
  obtain fd ci w1 hs1 where *: "(if n = 0 then Returned (- 1, ?ci, w) else reconnect_next ?ci w) = Returned (fd, ci, w1)"
      "connect_start ns w1 = Returned (hs1, w')" "hs = \<lparr> hc_sock = - 1, hc_pfd = fd, hc_info = ci \<rparr> # hs1"
    using Cons.prems(1) by (auto simp: Let_def obind_Returned_iff)
  have 1: "mset (nt_open w1) = mset (nt_open w) + fd_set fd \<and> real_fds w1 \<and> ci_addrs ci = n \<and> (n = 0 \<longrightarrow> fd = - 1)"
    using *(1) reconnect_next_fds [of ?ci w fd ci w1] Cons.prems(2) by (auto split: if_splits)
  show ?case
    using Cons.IH [OF *(2)] 1 by (simp add: *(3) host_ok_def)
qed simp

lemma connect_round_fds:
  assumes "connect_round rs hs w = Returned (again, hs', w')" "real_fds w" "list_all host_ok hs"
    and "mset (nt_open w) = B + held hs"
  shows "mset (nt_open w') = B + held hs' \<and> real_fds w' \<and> list_all host_ok hs' \<and> length hs' = length hs"
  using assms
proof (induction hs arbitrary: rs w again hs' B)
  case (Cons h hs)
  obtain out ok where r: "(case rs of [] \<Rightarrow> (False, False) | r # _ \<Rightarrow> r) = (out, ok)"
    by (cases "case rs of [] \<Rightarrow> (False, False) | r # _ \<Rightarrow> r")
  obtain m1 h1 w1 m2 hs1 where *: "(if hc_pfd h = - 1 then Returned (False, h, w)
         else if out then
           if ok then Returned (False, h\<lparr>hc_sock := hc_pfd h, hc_pfd := - 1\<rparr>, w)
           else obind (reconnect_next (hc_info h) (close_fd (hc_pfd h) w)) (\<lambda>(fd, ci, w').
                  Returned (True, h\<lparr>hc_pfd := fd, hc_info := ci\<rparr>, w'))
         else Returned (True, h, w)) = Returned (m1, h1, w1)"
      "connect_round (tl rs) hs w1 = Returned (m2, hs1, w')" "hs' = h1 # hs1"
    using Cons.prems(1) by (clarsimp simp: r Let_def obind_Returned_iff simp del: if_split)
  have ok: "host_ok h" "list_all host_ok hs"
    using Cons.prems(3) by simp_all
  have B: "mset (nt_open w) = (B + held hs) + (fd_set (hc_sock h) + fd_set (hc_pfd h))"
    using Cons.prems(4) by simp
  have 1: "mset (nt_open w1) = (B + held hs) + (fd_set (hc_sock h1) + fd_set (hc_pfd h1)) \<and> real_fds w1 \<and> host_ok h1"
  proof (cases "hc_pfd h = - 1 \<or> \<not> out \<or> ok")
    case True
    then show ?thesis
      using *(1) B Cons.prems(2) ok(1) by (auto simp: host_ok_def split: if_splits)
  next
    case False
    then obtain fd ci where n: "reconnect_next (hc_info h) (close_fd (hc_pfd h) w) = Returned (fd, ci, w1)"
        "h1 = h\<lparr>hc_pfd := fd, hc_info := ci\<rparr>"
      using *(1) by (auto simp: obind_Returned_iff)
    then show ?thesis
      using reconnect_next_fds [OF n(1)] B Cons.prems(2) ok(1) False by (auto simp: host_ok_def)
  qed
  then show ?case
    using Cons.IH [OF *(2) _ ok(2), of "B + (fd_set (hc_sock h1) + fd_set (hc_pfd h1))"]
    by (simp add: *(3) ac_simps)
qed simp

lemma connect_loop_fds:
  assumes "connect_loop ps hs w = Returned (hs', w')" "real_fds w" "list_all host_ok hs"
    and "mset (nt_open w) = B + held hs"
  shows "mset (nt_open w') = B + held hs' \<and> list_all host_ok hs' \<and> length hs' = length hs"
  using assms
proof (induction ps hs w rule: connect_loop.induct)
  case (3 rs ps hs w)
  obtain again hs1 w1 where r: "connect_round rs hs w = Returned (again, hs1, w1)"
      "(if again then connect_loop ps hs1 w1 else Returned (hs1, w1)) = Returned (hs', w')"
    using 3(2) by (auto simp: obind_Returned_iff)
  note * = connect_round_fds [OF r(1) 3(3-5)]
  show ?case
  proof (cases again)
    case True
    then show ?thesis
      using 3(1) [OF True] r * by auto
  qed (use r(2) * in simp)
qed auto

lemma connect_end_fds:
  "list_all host_ok hs \<Longrightarrow> mset (nt_open w) = B + held hs \<Longrightarrow>
   mset (nt_open (connect_end hs w)) = B + filter_mset (\<lambda>fd. fd \<noteq> - 1) (mset (map hc_sock hs))"
proof (induction hs arbitrary: w B)
  case (Cons h hs)
  let ?w = "if ci_addrs (hc_info h) \<noteq> 0 \<and> hc_pfd h \<noteq> - 1 then close_fd (hc_pfd h) w else w"
  have "mset (nt_open ?w) = (B + fd_set (hc_sock h)) + held hs"
    using Cons.prems by (auto simp: host_ok_def)
  from Cons.IH [OF _ this] Cons.prems(1) show ?case
    by (simp add: fd_set_def)
qed simp

text \<open>
  C15. Connecting to the hosts loses no descriptor: whatever sockets fail, time out or are refused,
  when \<open>connect_hosts\<close> returns the descriptors it has opened and not closed are exactly the sockets
  of the hosts that were reached.
\<close>

theorem connect_hosts_descriptors:
  assumes "connect_hosts addrs ps w = Returned (socks, w')" and "real_fds w"
  shows "mset (nt_open w') = mset (nt_open w) + filter_mset (\<lambda>fd. fd \<noteq> - 1) (mset socks) \<and>
    length socks = length addrs"
proof -
  obtain hs w1 hs' w2 where *: "connect_start addrs w = Returned (hs, w1)" "connect_loop ps hs w1 = Returned (hs', w2)"
      "socks = map hc_sock hs'" "w' = connect_end hs' w2"
    using assms(1) by (auto simp: connect_hosts_def obind_Returned_iff)
  note 1 = connect_start_fds [OF *(1) assms(2)]
  note 2 = connect_loop_fds [OF *(2), of "mset (nt_open w)"]
  show ?thesis
    using 1 2 connect_end_fds [of hs' w2 "mset (nt_open w)"] by (simp add: *(3,4))
qed

text \<open>Two hosts: the first is refused once and then reached, the second is not reached in time.\<close>

lemma connect_hosts_descriptors_witness:
  "\<exists>socks w'. connect_hosts [2, 1] [Poll_ready [(True, False), (False, False)], Poll_ready [(True, True), (False, False)]]
     \<lparr> nt_script = [Connecting 5, Connecting 6, Connecting 7], nt_open = [3] \<rparr> = Returned (socks, w') \<and>
   socks = [7, - 1] \<and> mset (nt_open w') = {#3, 7#}"
proof -
  let ?w = "\<lparr> nt_script = [Connecting 5, Connecting 6, Connecting 7], nt_open = [3] \<rparr>"
  let ?ps = "[Poll_ready [(True, False), (False, False)], Poll_ready [(True, True), (False, False)]]"
  obtain w' where r: "connect_hosts [2, 1] ?ps ?w = Returned ([7, - 1], w')"
    by (simp add: connect_hosts_def reconnect_next_def next_address_def close_fd_def)
  have "real_fds ?w" by (simp add: real_fds_def)
  from connect_hosts_descriptors [OF r this] r show ?thesis
    by auto
qed

text \<open>A \<open>poll\<close> that is interrupted ends the search for all hosts, however much time is left.\<close>

lemma connect_loop_interrupted: "connect_loop (Poll_failed # ps) hs w = Returned (hs, w)"
  by simp

text \<open>The addresses of a host are tried in turn.\<close>

lemma next_address_turn:
  "0 < n \<Longrightarrow> next_address \<lparr> ci_addrs = n, ci_p = Some (k mod n) \<rparr> = Suc k mod n"
  by (auto simp: next_address_def mod_Suc) (metis Suc_lessI mod_less_divisor)

end
