(* ===== verification/Tcp_Forward.thy ===== *)
theory Tcp_Forward
  imports Tcp_Connect
begin

text \<open>
  The event loop of the TCP thread of the proxy (src/librvgpu/tcp/rvgpu-tcp.c): for every host a
  command and a resource connection, each between a pair of pipes to the rest of the proxy and a
  socket.  The loop waits until a pipe has data, then until the socket takes them, and moves them
  with \<open>splice\<close>; in the other direction it moves what arrives.  Proved: bytes are neither lost nor
  reordered, data that wait are moved within two rounds, and how many hosts the tables of the
  thread hold.
\<close>

section \<open>State\<close>

text \<open>An element of the array of \<open>poll\<close>: the events asked for and the events reported.\<close>

record pollfd =
  pf_fd :: int
  pf_in :: bool
  pf_out :: bool
  pf_rin :: bool
  pf_rout :: bool
  pf_rerr :: bool

datatype host_state = HOST_NONE | HOST_CONNECTED | HOST_DISCONNECTED | HOST_RECONNECTED

text \<open>
  A connection (\<open>struct vgpu_host\<close>) with its two elements of the array, and the data: \<open>lk_pipe_in\<close>
  holds the bytes the proxy wrote that were not yet taken, \<open>lk_sock_out\<close> those handed to the socket;
  \<open>lk_sock_in\<close> those that arrived from the host, \<open>lk_pipe_out\<close> those handed to the proxy.
\<close>

record link =
  lk_sock :: int
  lk_state :: host_state
  lk_host :: pollfd
  lk_pipe :: pollfd
  lk_pipe_in :: "byte list"
  lk_sock_out :: "byte list"
  lk_sock_in :: "byte list"
  lk_eof :: bool
  lk_pipe_out :: "byte list"

record tcp_thread =
  tc_cmd :: "link list"
  tc_res :: "link list"
  tc_interrupted :: bool
  tc_ses_armed :: bool
  tc_recon_armed :: bool
  tc_resets :: "bool list"

definition PIPE_SIZE :: nat where "PIPE_SIZE = 8 * 1024 * 1024"

section \<open>Moving data\<close>

text \<open>\<open>splice\<close> moves as many bytes as the kernel likes, at most \<open>PIPE_SIZE\<close> and what is there.\<close>

definition splice_count :: "nat \<Rightarrow> byte list \<Rightarrow> nat" where
  "splice_count n bs = min n (min PIPE_SIZE (length bs))"

definition splice_out :: "nat \<Rightarrow> link \<Rightarrow> link" where
  "splice_out n l =
     (let k = splice_count n (lk_pipe_in l)
      in l\<lparr>lk_pipe_in := drop k (lk_pipe_in l), lk_sock_out := lk_sock_out l @ take k (lk_pipe_in l)\<rparr>)"

definition splice_in :: "nat \<Rightarrow> link \<Rightarrow> link" where
  "splice_in n l =
     (let k = splice_count n (lk_sock_in l)
      in l\<lparr>lk_sock_in := drop k (lk_sock_in l), lk_pipe_out := lk_pipe_out l @ take k (lk_sock_in l)\<rparr>)"

text \<open>\<open>check_connection_closed\<close>: the host has closed the connection and nothing is left to read.\<close>

definition check_connection_closed :: "link \<Rightarrow> bool" where
  "check_connection_closed l = (pf_fd (lk_host l) \<ge> 0 \<and> lk_eof l \<and> lk_sock_in l = [])"

text \<open>The three loops over the connections of one kind; \<open>out_n\<close> and \<open>in_n\<close> are what \<open>splice\<close> can move.\<close>

definition arm_out :: "link \<Rightarrow> link" where
  "arm_out l =
     (if pf_rin (lk_pipe l)
      then l\<lparr>lk_pipe := (lk_pipe l)\<lparr>pf_in := False\<rparr>, lk_host := (lk_host l)\<lparr>pf_out := True\<rparr>\<rparr> else l)"

definition flush_out :: "nat \<Rightarrow> link \<Rightarrow> link" where
  "flush_out n l =
     (if pf_rout (lk_host l)
      then (splice_out n l)\<lparr>lk_host := (lk_host l)\<lparr>pf_out := False\<rparr>, lk_pipe := (lk_pipe l)\<lparr>pf_in := True\<rparr>\<rparr>
      else l)"

fun receive_links :: "(nat \<Rightarrow> nat) \<Rightarrow> nat \<Rightarrow> link list \<Rightarrow> bool \<times> link list" where
  "receive_links in_n i [] = (False, [])"
| "receive_links in_n i (l # ls) =
     (if pf_fd (lk_host l) \<ge> 0 \<and> pf_rin (lk_host l)
      then if check_connection_closed l then (True, l # ls)
           else map_prod id ((#) (splice_in (in_n i) l)) (receive_links in_n (i + 1) ls)
      else map_prod id ((#) l) (receive_links in_n (i + 1) ls))"

text \<open>One round for the connections of one kind: whether a host has closed, and the connections.\<close>

definition serve_links :: "(nat \<Rightarrow> nat) \<Rightarrow> (nat \<Rightarrow> nat) \<Rightarrow> link list \<Rightarrow> bool \<times> link list" where
  "serve_links out_n in_n ls =
     receive_links in_n 0 (map (\<lambda>(i, l). flush_out (out_n i) (arm_out l)) (enumerate 0 ls))"

text \<open>What the kernel does in a round: the events it reports and the amounts it moves.\<close>

record round_env =
  en_poll_ok :: bool
  en_eintr :: bool
  en_signal :: bool
  en_rin :: "bool \<Rightarrow> nat \<Rightarrow> bool"
  en_rout :: "bool \<Rightarrow> nat \<Rightarrow> bool"
  en_rpipe :: "bool \<Rightarrow> nat \<Rightarrow> bool"
  en_rerr :: "bool \<Rightarrow> nat \<Rightarrow> bool"
  en_out :: "bool \<Rightarrow> nat \<Rightarrow> nat"
  en_in :: "bool \<Rightarrow> nat \<Rightarrow> nat"
  en_ses :: bool
  en_recon :: bool
  en_reconnect :: "bool \<Rightarrow> nat \<Rightarrow> int"

text \<open>\<open>in_out_events\<close>; the first flag of \<open>en_out\<close> and the like tells resource from command connections.\<close>

definition in_out_events :: "round_env \<Rightarrow> tcp_thread \<Rightarrow> tcp_thread" where
  "in_out_events env t =
     (if list_ex (\<lambda>l. pf_rerr (lk_host l)) (tc_cmd t) then t\<lparr>tc_interrupted := True\<rparr>
      else if list_ex (\<lambda>l. pf_rerr (lk_host l)) (tc_res t) then t\<lparr>tc_interrupted := True\<rparr>
      else case serve_links (en_out env False) (en_in env False) (tc_cmd t) of
             (closed, cmd) \<Rightarrow>
               if closed then t\<lparr>tc_cmd := cmd, tc_interrupted := True\<rparr>
               else case serve_links (en_out env True) (en_in env True) (tc_res t) of
                      (closed', res) \<Rightarrow>
                        t\<lparr>tc_cmd := cmd, tc_res := res, tc_interrupted := tc_interrupted t \<or> closed'\<rparr>)"

section \<open>Hung sessions and reconnection\<close>

definition close_conn :: "link \<Rightarrow> link" where
  "close_conn l =
     (if pf_fd (lk_host l) > 0
      then l\<lparr>lk_host := \<lparr> pf_fd = - 1, pf_in = False, pf_out = False, pf_rin = False, pf_rout = False,
                          pf_rerr = False \<rparr>, lk_state := HOST_DISCONNECTED\<rparr>
      else l\<lparr>lk_state := HOST_DISCONNECTED\<rparr>)"

definition close_at :: "nat \<Rightarrow> link list \<Rightarrow> link list" where
  "close_at i ls = ls[i := close_conn (ls ! i)]"

text \<open>\<open>disconnect\<close> on the table of all connections, the command connections first.\<close>

definition disconnect :: "nat \<Rightarrow> nat \<Rightarrow> nat \<Rightarrow> link list \<Rightarrow> link list" where
  "disconnect cmd_cnt res_cnt idx ls =
     (let ls1 = (if cmd_cnt \<noteq> 0 then close_at (if idx < cmd_cnt then idx else idx - cmd_cnt) ls else ls)
      in if res_cnt \<noteq> 0 then close_at (if idx < res_cnt then idx + res_cnt else idx) ls1 else ls1)"

fun sessions_hung_loop :: "nat \<Rightarrow> nat \<Rightarrow> nat \<Rightarrow> nat \<Rightarrow> link list \<Rightarrow> bool \<times> link list" where
  "sessions_hung_loop cmd_cnt res_cnt i 0 ls = (False, ls)"
| "sessions_hung_loop cmd_cnt res_cnt i (Suc n) ls =
     (if pf_out (lk_host (ls ! i)) \<and> pf_fd (lk_host (ls ! i)) > 0
      then case sessions_hung_loop cmd_cnt res_cnt (i + 1) n (disconnect cmd_cnt res_cnt i ls) of
             (_, ls') \<Rightarrow> (True, ls')
      else sessions_hung_loop cmd_cnt res_cnt (i + 1) n ls)"

definition all_links :: "tcp_thread \<Rightarrow> link list" where
  "all_links t = tc_cmd t @ tc_res t"

definition set_links :: "link list \<Rightarrow> tcp_thread \<Rightarrow> tcp_thread" where
  "set_links ls t = t\<lparr>tc_cmd := take (length (tc_cmd t)) ls, tc_res := drop (length (tc_cmd t)) ls\<rparr>"

definition sessions_hung :: "tcp_thread \<Rightarrow> bool \<times> tcp_thread" where
  "sessions_hung t =
     (case sessions_hung_loop (length (tc_cmd t)) (length (tc_res t)) 0 (length (all_links t)) (all_links t) of
        (hung, ls) \<Rightarrow> (hung, set_links ls t))"

text \<open>
  \<open>sessions_reconnect\<close>: \<open>fds\<close> are the results of \<open>reconnect_single\<close>, first for the connections that
  are down and then in \<open>reconnect_all\<close>; when every connection is back,
  \<open>handle_reset\<close> makes all of them connected (it waits for the other threads, which is not
  modelled) and reports the end of the reset.
\<close>

fun reconnect_links :: "(nat \<Rightarrow> int) \<Rightarrow> nat \<Rightarrow> link list \<Rightarrow> bool \<times> link list" where
  "reconnect_links fds i [] = (True, [])"
| "reconnect_links fds i (l # ls) =
     (let l1 = l\<lparr>lk_host := (lk_host l)\<lparr>pf_fd := fds i\<rparr>\<rparr> in
      case reconnect_links fds (i + 1) ls of
        (all, ls') \<Rightarrow>
          if lk_state l = HOST_DISCONNECTED
          then if fds i < 0 then (False, l1 # ls') else (all, l1\<lparr>lk_state := HOST_RECONNECTED\<rparr> # ls')
          else (all, l # ls'))"

definition reconnect_all :: "(nat \<Rightarrow> int) \<Rightarrow> link list \<Rightarrow> link list" where
  "reconnect_all fds ls =
     map (\<lambda>(i, l).
       (if lk_state l \<noteq> HOST_RECONNECTED
        then let c = close_conn l in c\<lparr>lk_host := (lk_host c)\<lparr>pf_fd := fds i\<rparr>\<rparr> else l)
         \<lparr>lk_state := HOST_CONNECTED\<rparr>) (enumerate 0 ls)"

definition sessions_reconnect :: "(bool \<Rightarrow> nat \<Rightarrow> int) \<Rightarrow> tcp_thread \<Rightarrow> bool \<times> tcp_thread" where
  "sessions_reconnect fds t =
     (case reconnect_links (fds False) 0 (all_links t) of
        (True, ls) \<Rightarrow> (True, (set_links (reconnect_all (fds True) ls) t)\<lparr>tc_resets := tc_resets t @ [False], tc_recon_armed := False\<rparr>)
      | (False, ls) \<Rightarrow> (False, (set_links ls t)\<lparr>tc_recon_armed := True\<rparr>))"

section \<open>The loop\<close>

text \<open>\<open>poll\<close> reports an event only if it was asked for, or an error.\<close>

definition poll_link :: "round_env \<Rightarrow> bool \<Rightarrow> nat \<Rightarrow> link \<Rightarrow> link" where
  "poll_link env r i l =
     (let up = pf_fd (lk_host l) \<ge> 0 in
      l\<lparr>lk_host := (lk_host l)\<lparr>pf_rin := up \<and> pf_in (lk_host l) \<and> en_rin env r i,
                              pf_rout := up \<and> pf_out (lk_host l) \<and> en_rout env r i,
                              pf_rerr := up \<and> en_rerr env r i\<rparr>,
        lk_pipe := (lk_pipe l)\<lparr>pf_rin := pf_in (lk_pipe l) \<and> en_rpipe env r i\<rparr>\<rparr>)"

definition poll_thread :: "round_env \<Rightarrow> tcp_thread \<Rightarrow> tcp_thread" where
  "poll_thread env t =
     t\<lparr>tc_cmd := map (\<lambda>(i, l). poll_link env False i l) (enumerate 0 (tc_cmd t)),
       tc_res := map (\<lambda>(i, l). poll_link env True i l) (enumerate 0 (tc_res t))\<rparr>"

text \<open>
  One turn of the loop of \<open>thread_conn_tcp\<close>; the result tells whether the loop goes on.  A timer is
  reported only when it is armed; the resets record what is told to the rest of the proxy
  (\<open>GPU_RESET_TRUE\<close> is \<open>True\<close>).
\<close>

definition tcp_round :: "round_env \<Rightarrow> tcp_thread \<Rightarrow> bool \<times> tcp_thread" where
  "tcp_round env t =
     (if tc_interrupted t then (False, t)
      else if \<not> en_poll_ok env then (en_eintr env, t)
      else
        let t1 = poll_thread env t in
        if en_signal env then (False, t1\<lparr>tc_interrupted := True\<rparr>)
        else
          let t2 = (if tc_ses_armed t1 \<and> en_ses env
                    then case sessions_hung t1 of
                           (hung, u) \<Rightarrow>
                             (if hung then u\<lparr>tc_resets := tc_resets u @ [True], tc_recon_armed := True\<rparr> else u)
                               \<lparr>tc_ses_armed := False\<rparr>
                    else t1);
              t3 = (if tc_recon_armed t1 \<and> en_recon env
                    then case sessions_reconnect (en_reconnect env) t2 of
                           (ok, u) \<Rightarrow> if ok then u\<lparr>tc_recon_armed := False, tc_ses_armed := False\<rparr> else u
                    else t2)
          in (True, in_out_events env t3))"


section \<open>The tables of the thread\<close>

text \<open>
  \<open>get_pointers\<close> and \<open>set_pfd\<close>: the stores into the array of \<open>poll\<close>, which has 34 elements, and into
  the table of connections, which has 16.
\<close>

datatype pfd_use = Ses_timer | Recon_timer | Cmd_host nat | Cmd_pipe nat | Res_host nat | Res_pipe nat

datatype table_write = Pfd nat pfd_use | Vhost nat pfd_use

definition get_pointers :: "nat \<Rightarrow> nat \<Rightarrow> nat \<times> nat \<times> nat \<times> nat \<times> nat \<times> nat \<times> nat" where
  "get_pointers cmd_cnt res_cnt =
     (0, 1, 2, 2 + cmd_cnt, 2 + 2 * cmd_cnt, 2 + 2 * cmd_cnt + res_cnt, 2 + 2 * cmd_cnt + 2 * res_cnt)"

definition set_pfd_writes :: "nat \<Rightarrow> nat \<Rightarrow> table_write list" where
  "set_pfd_writes cmd_cnt res_cnt =
     (case get_pointers cmd_cnt res_cnt of (ses, recon, cmd_host, cmd_pipe, res_host, res_pipe, _) \<Rightarrow>
        [Pfd ses Ses_timer, Pfd recon Recon_timer] @
        concat (map (\<lambda>i. [Pfd (cmd_host + i) (Cmd_host i), Vhost i (Cmd_host i)]) [0..<cmd_cnt]) @
        map (\<lambda>i. Pfd (cmd_pipe + i) (Cmd_pipe i)) [0..<cmd_cnt] @
        concat (map (\<lambda>i. [Pfd (res_host + i) (Res_host i), Vhost (i + cmd_cnt) (Res_host i)]) [0..<res_cnt]) @
        map (\<lambda>i. Pfd (res_pipe + i) (Res_pipe i)) [0..<res_cnt])"

type_synonym tables = "pfd_use option list \<times> pfd_use option list"

fun do_writes :: "table_write list \<Rightarrow> tables \<Rightarrow> tables outcome" where
  "do_writes [] tb = Returned tb"
| "do_writes (Pfd i u # ws) (p, v) =
     (if i < length p then do_writes ws (p[i := Some u], v) else Crashed ''pfd'')"
| "do_writes (Vhost i u # ws) (p, v) =
     (if i < length v then do_writes ws (p, v[i := Some u]) else Crashed ''vhost'')"

text \<open>The start of the loop: the tables, and the assertion on the number of elements.\<close>

definition start_tables :: "nat \<Rightarrow> nat \<Rightarrow> (tables \<times> nat) outcome" where
  "start_tables cmd_cnt res_cnt =
     obind (do_writes (set_pfd_writes cmd_cnt res_cnt) (replicate 34 None, replicate 16 None)) (\<lambda>tb.
       case get_pointers cmd_cnt res_cnt of (_, _, _, _, _, _, pfd_count) \<Rightarrow>
         if pfd_count < 32 then Returned (tb, pfd_count)
         else Exited ''assert(pfd_count < MAX_HOSTS * SOCKET_NUM)'')"

fun in_table :: "table_write \<Rightarrow> bool" where
  "in_table (Pfd i u) = (i < 34)"
| "in_table (Vhost i u) = (i < 16)"

lemma do_writes_ends:
  "length p = 34 \<Longrightarrow> length v = 16 \<Longrightarrow>
   (if list_all in_table ws then \<exists>tb. do_writes ws (p, v) = Returned tb else \<exists>e. do_writes ws (p, v) = Crashed e)"
proof (induction ws arbitrary: p v)
  case (Cons w ws)
  then show ?case by (cases w) auto
qed simp

lemma set_pfd_in_table:
  "list_all in_table (set_pfd_writes n n) \<longleftrightarrow> n \<le> 8"
proof
  assume all: "list_all in_table (set_pfd_writes n n)"
  show "n \<le> 8"
  proof (rule ccontr)
    assume n: "\<not> n \<le> 8"
    then have "Pfd (2 + 2 * n + n + (n - 1)) (Res_pipe (n - 1)) \<in> set (set_pfd_writes n n)"
      by (simp add: set_pfd_writes_def get_pointers_def image_iff)
    then have "in_table (Pfd (2 + 2 * n + n + (n - 1)) (Res_pipe (n - 1)))"
      using all [unfolded list_all_iff] by blast
    then show False
      using n by simp
  qed
qed (auto simp: set_pfd_writes_def get_pointers_def list_all_iff)

text \<open>
  The TCP thread serves at most seven hosts: its tables hold eight, the assertion admits seven,
  and with more hosts (the command line takes sixteen) the thread stores behind its tables.
\<close>

theorem start_tables_hosts:
  "(n \<le> 7 \<longleftrightarrow> (\<exists>tb. start_tables n n = Returned (tb, 2 + 4 * n))) \<and>
   (n = 8 \<longrightarrow> start_tables n n = Exited ''assert(pfd_count < MAX_HOSTS * SOCKET_NUM)'') \<and>
   (8 < n \<longrightarrow> (\<exists>e. start_tables n n = Crashed e))"
proof -
  note * = do_writes_ends [of "replicate 34 None" "replicate 16 None" "set_pfd_writes n n", unfolded set_pfd_in_table]
  show ?thesis
  proof (cases "n \<le> 8")
    case True
    then obtain tb where "do_writes (set_pfd_writes n n) (replicate 34 None, replicate 16 None) = Returned tb"
      using * by auto
    then show ?thesis
      using True by (cases "n = 8") (auto simp: start_tables_def get_pointers_def)
  next
    case False
    then obtain e where "do_writes (set_pfd_writes n n) (replicate 34 None, replicate 16 None) = Crashed e"
      using * by auto
    then show ?thesis
      using False by (auto simp: start_tables_def)
  qed
qed

lemma start_tables_hosts_witness:
  "start_tables 8 8 = Exited ''assert(pfd_count < MAX_HOSTS * SOCKET_NUM)'' \<and> (\<exists>e. start_tables 16 16 = Crashed e)"
  using start_tables_hosts [of 8] start_tables_hosts [of 16] by simp


section \<open>The bytes of a connection\<close>

text \<open>All bytes in each direction, in order, whether moved or not.\<close>

definition flow :: "link \<Rightarrow> byte list \<times> byte list" where
  "flow l = (lk_sock_out l @ lk_pipe_in l, lk_pipe_out l @ lk_sock_in l)"

lemma flow_frame [simp]:
  "flow (l\<lparr>lk_host := h\<rparr>) = flow l" "flow (l\<lparr>lk_pipe := p\<rparr>) = flow l" "flow (l\<lparr>lk_state := s\<rparr>) = flow l"
  by (simp_all add: flow_def)

lemma flow_splice [simp]: "flow (splice_out n l) = flow l" "flow (splice_in n l) = flow l"
  by (simp_all add: flow_def splice_out_def splice_in_def Let_def)

lemma flow_ops [simp]:
  "flow (arm_out l) = flow l" "flow (flush_out n l) = flow l" "flow (close_conn l) = flow l"
  "flow (poll_link env r i l) = flow l"
  by (simp_all add: arm_out_def flush_out_def close_conn_def poll_link_def Let_def)

lemma map_flow_receive [simp]: "map flow (snd (receive_links in_n i ls)) = map flow ls"
  by (induction ls arbitrary: i) auto

lemma map_enumerate_same:
  "(\<And>i l. f (g (i, l)) = f l) \<Longrightarrow> map f (map g (enumerate n ls)) = map f ls"
  by (induction ls arbitrary: n) auto

lemma map_flow_serve [simp]: "map flow (snd (serve_links out_n in_n ls)) = map flow ls"
  unfolding serve_links_def map_flow_receive by (rule map_enumerate_same) simp

lemma map_flow_close_at [simp]: "map flow (close_at i ls) = map flow ls"
proof (cases "i < length ls")
  case True
  then have "(map flow ls)[i := flow (ls ! i)] = map flow ls"
    by (metis list_update_id nth_map)
  then show ?thesis by (simp add: close_at_def map_update)
qed (simp add: close_at_def list_update_beyond)

lemma map_flow_sessions_hung [simp]: "map flow (snd (sessions_hung_loop c r i n ls)) = map flow ls"
  by (induction c r i n ls rule: sessions_hung_loop.induct) (simp_all add: disconnect_def Let_def split_beta)

lemma map_flow_reconnect_links [simp]: "map flow (snd (reconnect_links fds i ls)) = map flow ls"
  by (induction ls arbitrary: i) (auto simp: Let_def split_beta)

lemma map_flow_reconnect_all [simp]: "map flow (reconnect_all fds ls) = map flow ls"
  unfolding reconnect_all_def by (rule map_enumerate_same) (simp add: Let_def)

text \<open>The flows of the two kinds of connections.\<close>

definition flows :: "tcp_thread \<Rightarrow> (byte list \<times> byte list) list \<times> (byte list \<times> byte list) list" where
  "flows t = (map flow (tc_cmd t), map flow (tc_res t))"

lemma flows_frame [simp]:
  "flows (t\<lparr>tc_interrupted := b\<rparr>) = flows t" "flows (t\<lparr>tc_ses_armed := b\<rparr>) = flows t"
  "flows (t\<lparr>tc_recon_armed := b\<rparr>) = flows t" "flows (t\<lparr>tc_resets := rs\<rparr>) = flows t"
  by (simp_all add: flows_def)

lemma flows_set_links: "map flow ls = map flow (all_links t) \<Longrightarrow> flows (set_links ls t) = flows t"
proof -
  assume *: "map flow ls = map flow (all_links t)"
  have "map flow (take (length (tc_cmd t)) ls) = map flow (tc_cmd t)"
    using arg_cong [OF *, of "take (length (tc_cmd t))"] by (simp add: take_map all_links_def)
  moreover have "map flow (drop (length (tc_cmd t)) ls) = map flow (tc_res t)"
    using arg_cong [OF *, of "drop (length (tc_cmd t))"] by (simp add: drop_map all_links_def)
  ultimately show ?thesis by (simp add: flows_def set_links_def)
qed

lemma flows_in_out [simp]: "flows (in_out_events env t) = flows t"
  by (simp add: in_out_events_def flows_def split_beta)

lemma flows_sessions_hung [simp]: "flows (snd (sessions_hung t)) = flows t"
  by (simp add: sessions_hung_def split_beta flows_set_links)

lemma flows_sessions_reconnect [simp]: "flows (snd (sessions_reconnect fds t)) = flows t"
proof -
  obtain b ls where r: "reconnect_links (fds False) 0 (all_links t) = (b, ls)"
    by (cases "reconnect_links (fds False) 0 (all_links t)")
  then have "map flow ls = map flow (all_links t)"
    using map_flow_reconnect_links [of "fds False" 0 "all_links t"] by simp
  then show ?thesis
    by (cases b) (simp_all add: sessions_reconnect_def r flows_set_links)
qed

lemma flows_poll [simp]: "flows (poll_thread env t) = flows t"
  by (simp add: flows_def poll_thread_def map_enumerate_same del: map_map)

lemma flows_round: "flows (snd (tcp_round env t)) = flows t"
  by (simp add: tcp_round_def Let_def split_beta)


text \<open>What happens around the thread: the proxy writes to a pipe, a host sends or closes; and its own rounds.\<close>

datatype tcp_step =
    Proxy_writes bool nat "byte list"
  | Host_sends bool nat "byte list"
  | Host_closes bool nat
  | Round round_env

definition upd_link :: "bool \<Rightarrow> nat \<Rightarrow> (link \<Rightarrow> link) \<Rightarrow> tcp_thread \<Rightarrow> tcp_thread" where
  "upd_link r i f t =
     (if r then t\<lparr>tc_res := (tc_res t)[i := f (tc_res t ! i)]\<rparr>
      else t\<lparr>tc_cmd := (tc_cmd t)[i := f (tc_cmd t ! i)]\<rparr>)"

fun tcp_next :: "tcp_step \<Rightarrow> tcp_thread \<Rightarrow> tcp_thread" where
  "tcp_next (Proxy_writes r i bs) t = upd_link r i (\<lambda>l. l\<lparr>lk_pipe_in := lk_pipe_in l @ bs\<rparr>) t"
| "tcp_next (Host_sends r i bs) t = upd_link r i (\<lambda>l. l\<lparr>lk_sock_in := lk_sock_in l @ bs\<rparr>) t"
| "tcp_next (Host_closes r i) t = upd_link r i (\<lambda>l. l\<lparr>lk_eof := True\<rparr>) t"
| "tcp_next (Round env) t = snd (tcp_round env t)"

definition tcp_run :: "tcp_step list \<Rightarrow> tcp_thread \<Rightarrow> tcp_thread" where
  "tcp_run = fold tcp_next"

definition links :: "bool \<Rightarrow> tcp_thread \<Rightarrow> link list" where
  "links r t = (if r then tc_res t else tc_cmd t)"

text \<open>The bytes written by the proxy for a connection, and those its host sent.\<close>

definition proxy_bytes :: "bool \<Rightarrow> nat \<Rightarrow> tcp_step list \<Rightarrow> byte list" where
  "proxy_bytes r i ss = concat (map (\<lambda>s. case s of Proxy_writes r' i' bs \<Rightarrow> if r' = r \<and> i' = i then bs else [] | _ \<Rightarrow> []) ss)"

definition host_bytes :: "bool \<Rightarrow> nat \<Rightarrow> tcp_step list \<Rightarrow> byte list" where
  "host_bytes r i ss = concat (map (\<lambda>s. case s of Host_sends r' i' bs \<Rightarrow> if r' = r \<and> i' = i then bs else [] | _ \<Rightarrow> []) ss)"

lemma flows_links: "flows t' = flows t \<Longrightarrow> map flow (links r t') = map flow (links r t)"
  by (simp add: flows_def links_def)

lemma links_upd:
  "links r (upd_link r' j f t) = (if r' = r then (links r t)[j := f (links r t ! j)] else links r t)"
  by (auto simp: links_def upd_link_def)

lemma flow_step:
  assumes "i < length (links r t)"
  shows "length (links r (tcp_next s t)) = length (links r t) \<and>
    flow (links r (tcp_next s t) ! i) =
      (fst (flow (links r t ! i)) @ proxy_bytes r i [s], snd (flow (links r t ! i)) @ host_bytes r i [s])"
proof (cases s)
  case (Round env)
  have *: "map flow (links r (snd (tcp_round env t))) = map flow (links r t)"
    by (rule flows_links [OF flows_round])
  from arg_cong [OF *, of length] have len: "length (links r (snd (tcp_round env t))) = length (links r t)"
    by simp
  from arg_cong [OF *, of "\<lambda>xs. xs ! i"] have "flow (links r (snd (tcp_round env t)) ! i) = flow (links r t ! i)"
    using assms len by simp
  then show ?thesis
    using Round len by (simp add: proxy_bytes_def host_bytes_def)
qed (use assms in \<open>auto simp: links_upd nth_update proxy_bytes_def host_bytes_def flow_def\<close>)

lemma flow_run:
  assumes "i < length (links r t)"
  shows "flow (links r (tcp_run ss t) ! i) =
    (fst (flow (links r t ! i)) @ proxy_bytes r i ss, snd (flow (links r t ! i)) @ host_bytes r i ss)"
  using assms
proof (induction ss arbitrary: t)
  case Nil
  then show ?case by (simp add: tcp_run_def proxy_bytes_def host_bytes_def)
next
  case (Cons s ss)
  have split: "proxy_bytes r i (s # ss) = proxy_bytes r i [s] @ proxy_bytes r i ss"
      "host_bytes r i (s # ss) = host_bytes r i [s] @ host_bytes r i ss"
    by (simp_all add: proxy_bytes_def host_bytes_def)
  have run: "tcp_run (s # ss) t = tcp_run ss (tcp_next s t)"
    by (simp add: tcp_run_def)
  show ?case
    using flow_step [OF Cons.prems, of s] Cons.IH [of "tcp_next s t"] Cons.prems
    unfolding run split by simp
qed



definition demo_poll :: "int \<Rightarrow> pollfd" where
  "demo_poll fd = \<lparr> pf_fd = fd, pf_in = True, pf_out = False, pf_rin = False, pf_rout = False, pf_rerr = False \<rparr>"

definition demo_link :: link where
  "demo_link = \<lparr> lk_sock = 5, lk_state = HOST_NONE, lk_host = demo_poll 5, lk_pipe = demo_poll 6, lk_pipe_in = [],
     lk_sock_out = [], lk_sock_in = [], lk_eof = False, lk_pipe_out = [] \<rparr>"

definition demo_tcp :: tcp_thread where
  "demo_tcp = \<lparr> tc_cmd = [demo_link], tc_res = [demo_link], tc_interrupted = False, tc_ses_armed = False,
     tc_recon_armed = False, tc_resets = [] \<rparr>"

text \<open>A round in which everything asked for is reported and three bytes are moved.\<close>

definition demo_round :: round_env where
  "demo_round = \<lparr> en_poll_ok = True, en_eintr = False, en_signal = False, en_rin = (\<lambda>_ _. True),
     en_rout = (\<lambda>_ _. True), en_rpipe = (\<lambda>_ _. True), en_rerr = (\<lambda>_ _. False), en_out = (\<lambda>_ _. 3),
     en_in = (\<lambda>_ _. 3), en_ses = False, en_recon = False, en_reconnect = (\<lambda>_ _. - 1) \<rparr>"


section \<open>Data that wait are moved\<close>

text \<open>
  The state of a thread that goes on: no timer is armed, and of every connection, which is open,
  either the pipe is watched for data or the socket for room.
\<close>

definition link_ok :: "link \<Rightarrow> bool" where
  "link_ok l = (pf_fd (lk_host l) \<ge> 0 \<and> pf_in (lk_pipe l) = (\<not> pf_out (lk_host l)))"

definition thread_ok :: "tcp_thread \<Rightarrow> bool" where
  "thread_ok t =
     (\<not> tc_ses_armed t \<and> \<not> tc_recon_armed t \<and> list_all link_ok (tc_cmd t) \<and> list_all link_ok (tc_res t))"

lemma link_ok_poll [simp]: "link_ok (poll_link env r i l) = link_ok l"
  by (simp add: link_ok_def poll_link_def Let_def)

lemma link_ok_splice [simp]: "link_ok (splice_in n l) = link_ok l" "link_ok (splice_out n l) = link_ok l"
  by (simp_all add: link_ok_def splice_in_def splice_out_def Let_def)

lemma link_ok_serve:
  "link_ok l \<Longrightarrow> pf_rin (lk_pipe l) \<longrightarrow> pf_in (lk_pipe l) \<Longrightarrow> link_ok (flush_out n (arm_out l))"
  by (auto simp: link_ok_def flush_out_def arm_out_def splice_out_def Let_def)

lemma list_all_receive: "list_all link_ok ls \<Longrightarrow> list_all link_ok (snd (receive_links in_n i ls))"
  by (induction ls arbitrary: i) auto

lemma list_all_enumerate:
  "(\<And>i l. P l \<Longrightarrow> Q (g (i, l))) \<Longrightarrow> list_all P ls \<Longrightarrow> list_all Q (map g (enumerate n ls))"
  by (induction ls arbitrary: n) auto

lemma thread_ok_round: "thread_ok t \<Longrightarrow> thread_ok (snd (tcp_round env t))"
proof -
  assume ok: "thread_ok t"
  let ?P = "\<lambda>l. link_ok l \<and> (pf_rin (lk_pipe l) \<longrightarrow> pf_in (lk_pipe l))"
  let ?u = "poll_thread env t"
  have u: "list_all ?P (tc_cmd ?u)" "list_all ?P (tc_res ?u)" "\<not> tc_ses_armed ?u" "\<not> tc_recon_armed ?u"
    using ok unfolding poll_thread_def thread_ok_def
    by (auto intro!: list_all_enumerate [where P = link_ok] simp: poll_link_def Let_def)
      (auto simp: link_ok_def)
  have serve: "list_all link_ok (snd (serve_links out_n in_n ls))" if "list_all ?P ls" for out_n in_n ls
    unfolding serve_links_def
    by (intro list_all_receive list_all_enumerate [OF _ that]) (auto intro: link_ok_serve)
  have keep: "list_all link_ok ls" if "list_all ?P ls" for ls
    using that by (simp add: list_all_iff)
  show ?thesis
    using ok u serve keep by (auto simp: tcp_round_def thread_ok_def in_out_events_def Let_def split_beta)
qed


text \<open>The outgoing part of a connection, which receiving leaves alone.\<close>

definition out_view :: "link \<Rightarrow> byte list \<times> byte list \<times> bool \<times> bool" where
  "out_view l = (lk_pipe_in l, lk_sock_out l, pf_in (lk_pipe l), pf_out (lk_host l))"

definition no_eof :: "tcp_thread \<Rightarrow> bool" where
  "no_eof t = (\<forall>r. \<forall>l \<in> set (links r t). \<not> lk_eof l)"

text \<open>A round without a signal or an error.\<close>

definition quiet :: "round_env \<Rightarrow> bool" where
  "quiet env = (en_poll_ok env \<and> \<not> en_signal env \<and> (\<forall>r i. \<not> en_rerr env r i))"

lemma receive_open:
  "\<forall>l \<in> set ls. \<not> lk_eof l \<Longrightarrow> \<not> fst (receive_links in_n i ls) \<and>
     map out_view (snd (receive_links in_n i ls)) = map out_view ls \<and>
     map lk_eof (snd (receive_links in_n i ls)) = map lk_eof ls"
  by (induction ls arbitrary: i)
    (auto simp: check_connection_closed_def out_view_def splice_in_def Let_def)

lemma eof_ops [simp]:
  "lk_eof (flush_out n l) = lk_eof l" "lk_eof (arm_out l) = lk_eof l" "lk_eof (poll_link env r i l) = lk_eof l"
  by (simp_all add: flush_out_def arm_out_def poll_link_def splice_out_def Let_def)

lemma serve_open:
  assumes "\<forall>l \<in> set ls. \<not> lk_eof l"
  shows "\<not> fst (serve_links out_n in_n ls) \<and> map lk_eof (snd (serve_links out_n in_n ls)) = map lk_eof ls \<and>
    (\<forall>i < length ls. out_view (snd (serve_links out_n in_n ls) ! i) = out_view (flush_out (out_n i) (arm_out (ls ! i))))"
proof -
  let ?ls = "map (\<lambda>(i, l). flush_out (out_n i) (arm_out l)) (enumerate 0 ls)"
  have eof: "map lk_eof ?ls = map lk_eof ls"
    by (rule map_enumerate_same) simp
  have open': "\<forall>l \<in> set ?ls. \<not> lk_eof l"
    using assms arg_cong [OF eof, of set] by (metis (no_types, lifting) imageE imageI list.set_map)
  note rec = receive_open [OF open', of in_n 0]
  have view: "out_view (snd (receive_links in_n 0 ?ls) ! i) = out_view (flush_out (out_n i) (arm_out (ls ! i)))"
    if "i < length ls" for i
  proof -
    have "length (snd (receive_links in_n 0 ?ls)) = length ls"
      using arg_cong [OF conjunct1 [OF conjunct2 [OF rec]], of length] by simp
    then have "out_view (snd (receive_links in_n 0 ?ls) ! i) = map out_view (snd (receive_links in_n 0 ?ls)) ! i"
      using that by simp
    also have "\<dots> = map out_view ?ls ! i"
      by (simp only: rec)
    finally show ?thesis
      using that by (simp add: nth_enumerate_eq)
  qed
  then show ?thesis
    using rec eof unfolding serve_links_def by simp
qed

lemma links_poll [simp]:
  "length (links r (poll_thread env t)) = length (links r t)"
  "i < length (links r t) \<Longrightarrow> links r (poll_thread env t) ! i = poll_link env r i (links r t ! i)"
  by (auto simp: links_def poll_thread_def nth_enumerate_eq)

lemma no_eof_poll: "no_eof t \<Longrightarrow> no_eof (poll_thread env t)"
proof -
  have "map lk_eof (links r (poll_thread env t)) = map lk_eof (links r t)" for r
    by (cases r) (simp_all add: links_def poll_thread_def map_enumerate_same del: map_map)
  then show "no_eof t \<Longrightarrow> no_eof (poll_thread env t)"
    unfolding no_eof_def by (metis (no_types, lifting) imageE imageI list.set_map)
qed

lemma quiet_round:
  assumes ok: "thread_ok t" "\<not> tc_interrupted t" "no_eof t" "quiet env"
  shows "\<not> tc_interrupted (snd (tcp_round env t)) \<and> no_eof (snd (tcp_round env t)) \<and>
    (\<forall>r. length (links r (snd (tcp_round env t))) = length (links r t)) \<and>
    (\<forall>r. \<forall>i < length (links r t). out_view (links r (snd (tcp_round env t)) ! i) =
       out_view (flush_out (en_out env r i) (arm_out (poll_link env r i (links r t ! i)))))"
proof -
  let ?u = "poll_thread env t"
  have u: "\<not> tc_ses_armed ?u" "\<not> tc_recon_armed ?u" "\<not> tc_interrupted ?u"
    using ok by (simp_all add: poll_thread_def thread_ok_def)
  have err: "\<not> list_ex (\<lambda>l. pf_rerr (lk_host l)) (tc_cmd ?u)" "\<not> list_ex (\<lambda>l. pf_rerr (lk_host l)) (tc_res ?u)"
    using ok(4) by (auto simp: quiet_def list_ex_iff poll_thread_def poll_link_def Let_def)
  have eof: "\<forall>l \<in> set (tc_cmd ?u). \<not> lk_eof l" "\<forall>l \<in> set (tc_res ?u). \<not> lk_eof l"
    using no_eof_poll [OF ok(3), of env] by (simp_all add: no_eof_def links_def all_bool_eq)
  note cmd = serve_open [OF eof(1), of "en_out env False" "en_in env False"]
  note res = serve_open [OF eof(2), of "en_out env True" "en_in env True"]
  have round: "snd (tcp_round env t) = ?u\<lparr>tc_cmd := snd (serve_links (en_out env False) (en_in env False) (tc_cmd ?u)),
      tc_res := snd (serve_links (en_out env True) (en_in env True) (tc_res ?u))\<rparr>"
    using ok u err cmd res
    by (auto simp: tcp_round_def quiet_def in_out_events_def Let_def split_beta)
  have len: "length (snd (serve_links (en_out env False) (en_in env False) (tc_cmd ?u))) = length (tc_cmd ?u)"
      "length (snd (serve_links (en_out env True) (en_in env True) (tc_res ?u))) = length (tc_res ?u)"
    using arg_cong [OF conjunct1 [OF conjunct2 [OF cmd]], of length]
      arg_cong [OF conjunct1 [OF conjunct2 [OF res]], of length] by simp_all
  have eof': "\<forall>l \<in> set (snd (serve_links (en_out env False) (en_in env False) (tc_cmd ?u))). \<not> lk_eof l"
      "\<forall>l \<in> set (snd (serve_links (en_out env True) (en_in env True) (tc_res ?u))). \<not> lk_eof l"
    using cmd res eof by (metis (no_types, lifting) imageE imageI list.set_map)+
  show ?thesis
  proof (intro conjI allI impI)
    show "\<not> tc_interrupted (snd (tcp_round env t))" using u by (simp add: round)
    show "no_eof (snd (tcp_round env t))"
      using eof' by (auto simp: no_eof_def links_def round)
    show "length (links r (snd (tcp_round env t))) = length (links r t)" for r
      using len by (simp add: round links_def poll_thread_def)
    show "out_view (links r (snd (tcp_round env t)) ! i) =
       out_view (flush_out (en_out env r i) (arm_out (poll_link env r i (links r t ! i))))"
      if "i < length (links r t)" for r i
      using cmd res that links_poll(1) [of r env t] links_poll(2) [OF that, of env] by (cases r) (auto simp: round links_def)
  qed
qed

text \<open>
  C14. Data that wait are sent: when the kernel reports, in two successive rounds, a connection's pipe
  as readable and its socket as writable when asked, and no host closes its connection, some of
  the bytes that wait in the pipe have been handed to the socket.
\<close>

theorem tcp_progress:
  assumes "thread_ok t" "\<not> tc_interrupted t" "no_eof t" and "i < length (links r t)"
    and "lk_pipe_in (links r t ! i) \<noteq> []"
    and "\<And>env. env \<in> {env1, env2} \<Longrightarrow> quiet env \<and> en_rpipe env r i \<and> en_rout env r i \<and> 0 < en_out env r i"
  shows "\<exists>k > 0. lk_sock_out (links r (tcp_run [Round env1, Round env2] t) ! i) =
      lk_sock_out (links r t ! i) @ take k (lk_pipe_in (links r t ! i))"
proof -
  let ?l = "links r t ! i" and ?t1 = "snd (tcp_round env1 t)"
  have e1: "quiet env1" "en_rpipe env1 r i" "en_rout env1 r i" "0 < en_out env1 r i"
    and e2: "quiet env2" "en_rpipe env2 r i" "en_rout env2 r i" "0 < en_out env2 r i"
    using assms(6) by simp_all
  have "link_ok ?l"
    using assms(1,4) by (cases r) (auto simp: thread_ok_def list_all_length links_def)
  then have up: "pf_fd (lk_host ?l) \<ge> 0" "pf_in (lk_pipe ?l) = (\<not> pf_out (lk_host ?l))"
    by (simp_all add: link_ok_def)
  note q1 = quiet_round [OF assms(1-3) e1(1)]
  have ok1: "thread_ok ?t1" by (rule thread_ok_round [OF assms(1)])
  note q2 = quiet_round [OF ok1 _ _ e2(1)]
  let ?l1 = "links r ?t1 ! i"
  have i1: "i < length (links r ?t1)" using q1 assms(4) by simp
  have v1: "out_view ?l1 = out_view (flush_out (en_out env1 r i) (arm_out (poll_link env1 r i ?l)))"
    using q1 assms(4) by blast
  have v2: "out_view (links r (snd (tcp_round env2 ?t1)) ! i) =
      out_view (flush_out (en_out env2 r i) (arm_out (poll_link env2 r i ?l1)))"
    using q1 q2 i1 by blast
  have up1: "pf_fd (lk_host ?l1) \<ge> 0"
    using ok1 i1 by (cases r) (auto simp: thread_ok_def list_all_length links_def link_ok_def)
  have pos: "0 < splice_count n bs" if "0 < n" "bs \<noteq> []" for n bs
    using that by (simp add: splice_count_def PIPE_SIZE_def)
  have run: "tcp_run [Round env1, Round env2] t = snd (tcp_round env2 ?t1)"
    by (simp add: tcp_run_def)
  show ?thesis
  proof (cases "pf_out (lk_host ?l)")
    case True
    then have 1: "lk_sock_out ?l1 = lk_sock_out ?l @ take (splice_count (en_out env1 r i) (lk_pipe_in ?l)) (lk_pipe_in ?l)"
        "pf_out (lk_host ?l1) = False"
      using v1 up e1(3) by (auto simp: out_view_def flush_out_def arm_out_def poll_link_def splice_out_def Let_def)
    then have "lk_sock_out (links r (snd (tcp_round env2 ?t1)) ! i) = lk_sock_out ?l1"
      using v2 by (auto simp: out_view_def flush_out_def arm_out_def poll_link_def splice_out_def Let_def)
    then show ?thesis
      using 1(1) pos [OF e1(4) assms(5)] run by auto
  next
    case False
    then have 1: "lk_sock_out ?l1 = lk_sock_out ?l" "lk_pipe_in ?l1 = lk_pipe_in ?l" "pf_out (lk_host ?l1)"
      using v1 up e1(2) by (auto simp: out_view_def flush_out_def arm_out_def poll_link_def splice_out_def Let_def)
    then have "lk_sock_out (links r (snd (tcp_round env2 ?t1)) ! i) =
        lk_sock_out ?l1 @ take (splice_count (en_out env2 r i) (lk_pipe_in ?l1)) (lk_pipe_in ?l1)"
      using v2 up1 e2(3) by (auto simp: out_view_def flush_out_def arm_out_def poll_link_def splice_out_def Let_def)
    then show ?thesis
      using 1 pos [OF e2(4) assms(5)] run by auto
  qed
qed

lemma tcp_progress_witness:
  "\<exists>k > 0. lk_sock_out (links True (tcp_run [Round demo_round, Round demo_round]
      (tcp_run [Proxy_writes True 0 [1, 2, 3, 4, 5]] demo_tcp)) ! 0) = take k [1, 2, 3, 4, 5]"
proof -
  let ?t = "tcp_run [Proxy_writes True 0 [1, 2, 3, 4, 5]] demo_tcp"
  have "thread_ok ?t" "\<not> tc_interrupted ?t" "no_eof ?t" "0 < length (links True ?t)"
      "lk_pipe_in (links True ?t ! 0) = [1, 2, 3, 4, 5]" "lk_sock_out (links True ?t ! 0) = []"
    by (simp_all add: tcp_run_def demo_tcp_def demo_link_def demo_poll_def thread_ok_def link_ok_def no_eof_def
        links_def upd_link_def)
  moreover have "quiet demo_round \<and> en_rpipe demo_round True 0 \<and> en_rout demo_round True 0 \<and> 0 < en_out demo_round True 0"
    by (simp add: demo_round_def quiet_def)
  ultimately show ?thesis
    using tcp_progress [where t = "?t" and i = 0 and r = True and ?env1.0 = demo_round and ?env2.0 = demo_round] by simp
qed

text \<open>The timer that would detect a hung session is never armed: no reset is ever started from here.\<close>

lemma no_reset: "thread_ok t \<Longrightarrow> tc_resets (snd (tcp_round env t)) = tc_resets t"
  by (auto simp: tcp_round_def thread_ok_def poll_thread_def in_out_events_def Let_def split_beta)

end
