(* ===== verification/Glsync.thy ===== *)
theory Glsync
  imports Prelude "HOL-Library.Multiset" "HOL-Library.AList"
begin

text \<open>
  The fences of the renderer (src/rvgpu-renderer/renderer/rvgpu-egl.c): one \<open>GLsync\<close> object for
  every GL context that has commands under way, kept in two growing arrays.  A fence is made when
  the context is left, and all fences are waited for before a frame is drawn.  Proved: no fence is
  lost, a frame waits for every context, and the arrays are large enough as long as only contexts
  with a fence are destroyed.
\<close>

section \<open>State\<close>

text \<open>
  The arrays are lists of the allocated length; contexts and fences are numbers, 0 is \<open>NULL\<close>.
  \<open>gl_live\<close> holds the fences that exist, \<open>gl_waited\<close> those that were waited for, and \<open>gl_fresh\<close> is
  the next fence of the driver.
\<close>

record glsyncobjs_state =
  gs_current_ctx :: nat
  gs_objs :: "nat list"
  gs_cnt :: nat
  gs_size :: nat
  gs_ctxs :: "nat list"

record gl_fences =
  gl_fresh :: nat
  gl_live :: "nat list"
  gl_waited :: "nat list"

type_synonym syncs = "glsyncobjs_state \<times> gl_fences"

definition glDeleteSync :: "nat \<Rightarrow> gl_fences \<Rightarrow> gl_fences" where
  "glDeleteSync f g = g\<lparr>gl_live := remove1 f (gl_live g)\<rparr>"

definition glFenceSync :: "gl_fences \<Rightarrow> nat \<times> gl_fences" where
  "glFenceSync g = (gl_fresh g, g\<lparr>gl_fresh := gl_fresh g + 1, gl_live := gl_fresh g # gl_live g\<rparr>)"

definition glWaitSync :: "nat \<Rightarrow> gl_fences \<Rightarrow> gl_fences" where
  "glWaitSync f g = g\<lparr>gl_waited := gl_waited g @ [f]\<rparr>"

definition rvgpu_init_glsyncobjs_state :: "nat \<Rightarrow> glsyncobjs_state" where
  "rvgpu_init_glsyncobjs_state ctx =
     \<lparr> gs_current_ctx = ctx, gs_objs = [0], gs_cnt = 0, gs_size = 1, gs_ctxs = [0] \<rparr>"

section \<open>Operations\<close>

text \<open>
  \<open>realloc\<close> followed by the assertion: memory is available, but a new size of 0 frees the array and
  gives \<open>NULL\<close>.  The elements it adds are 0; none is read before it is written.
\<close>

definition realloc_array :: "nat \<Rightarrow> nat list \<Rightarrow> nat list outcome" where
  "realloc_array n xs =
     (if n = 0 then Exited ''assert(realloc)'' else Returned (take n xs @ replicate (n - length xs) 0))"

definition rvgpu_increment_glsyncobjs_size :: "glsyncobjs_state \<Rightarrow> glsyncobjs_state outcome" where
  "rvgpu_increment_glsyncobjs_size s =
     obind (if gs_cnt s \<ge> gs_size s
            then obind (realloc_array (gs_size s * 2) (gs_objs s)) (\<lambda>xs.
                   Returned (s\<lparr>gs_size := gs_size s * 2, gs_objs := xs\<rparr>))
            else Returned s)
       (\<lambda>s1. obind (realloc_array (gs_size s1) (gs_ctxs s1)) (\<lambda>ys. Returned (s1\<lparr>gs_ctxs := ys\<rparr>)))"

text \<open>
  The loop of \<open>rvgpu_decrement_glsyncobjs_size\<close> over the entries \<open>i\<close> to \<open>i + n\<close>, with the temporary
  arrays and the number \<open>j\<close> of entries kept; accesses behind an array are crashes.
\<close>

fun drop_ctx_loop ::
  "nat \<Rightarrow> nat \<Rightarrow> nat \<Rightarrow> nat list \<times> nat list \<Rightarrow> nat \<Rightarrow> syncs \<Rightarrow> ((nat list \<times> nat list) \<times> nat \<times> gl_fences) outcome" where
  "drop_ctx_loop ctx i 0 tmp j (s, g) = Returned (tmp, j, g)"
| "drop_ctx_loop ctx i (Suc n) (objs, ctxs) j (s, g) =
     (if length (gs_ctxs s) \<le> i \<or> length (gs_objs s) \<le> i then Crashed ''read behind glsyncobjs''
      else if gs_ctxs s ! i = ctx
      then drop_ctx_loop ctx (i + 1) n (objs, ctxs) j (s, glDeleteSync (gs_objs s ! i) g)
      else if length objs \<le> j then Crashed ''write behind tmp_glsyncobjs''
      else drop_ctx_loop ctx (i + 1) n (objs[j := gs_objs s ! i], ctxs[j := gs_ctxs s ! i]) (j + 1) (s, g))"

definition rvgpu_decrement_glsyncobjs_size :: "nat \<Rightarrow> syncs \<Rightarrow> syncs outcome" where
  "rvgpu_decrement_glsyncobjs_size ctx sg =
     (case sg of (s, g) \<Rightarrow>
        if gs_size s = 0 then Exited ''assert(glsyncobjs_state->size > 0)''
        else
          let tmp = replicate (gs_size s) 0 in
          obind (drop_ctx_loop ctx 0 (gs_cnt s) (tmp, tmp) 0 sg) (\<lambda>((objs, ctxs), j, g').
          obind (realloc_array (gs_size s - 1) objs) (\<lambda>xs.
          obind (realloc_array (gs_size s - 1) ctxs) (\<lambda>ys.
            Returned (s\<lparr>gs_cnt := j, gs_size := gs_size s - 1, gs_objs := xs, gs_ctxs := ys\<rparr>, g')))))"

text \<open>The search of \<open>rvgpu_set_glsyncobj\<close> for an entry of the current context.\<close>

fun find_ctx :: "nat \<Rightarrow> nat \<Rightarrow> nat \<Rightarrow> nat list \<Rightarrow> nat option outcome" where
  "find_ctx ctx i 0 ctxs = Returned None"
| "find_ctx ctx i (Suc n) ctxs =
     (if length ctxs \<le> i then Crashed ''read behind ctxs''
      else if ctxs ! i = ctx then Returned (Some i)
      else find_ctx ctx (i + 1) n ctxs)"

definition rvgpu_set_glsyncobj :: "syncs \<Rightarrow> syncs outcome" where
  "rvgpu_set_glsyncobj sg =
     (case sg of (s, g) \<Rightarrow>
      case glFenceSync g of (fence, g1) \<Rightarrow>
        obind (find_ctx (gs_current_ctx s) 0 (gs_cnt s) (gs_ctxs s)) (\<lambda>found. case found of
          Some i \<Rightarrow>
            if length (gs_objs s) \<le> i then Crashed ''read behind glsyncobjs''
            else Returned (s\<lparr>gs_objs := (gs_objs s)[i := fence]\<rparr>, glDeleteSync (gs_objs s ! i) g1)
        | None \<Rightarrow>
            if length (gs_objs s) \<le> gs_cnt s \<or> length (gs_ctxs s) \<le> gs_cnt s
            then Crashed ''write behind glsyncobjs''
            else obind (rvgpu_increment_glsyncobjs_size
                          (s\<lparr>gs_objs := (gs_objs s)[gs_cnt s := fence],
                             gs_ctxs := (gs_ctxs s)[gs_cnt s := gs_current_ctx s], gs_cnt := gs_cnt s + 1\<rparr>))
                   (\<lambda>s'. Returned (s', g1))))"

fun wait_loop :: "nat \<Rightarrow> nat \<Rightarrow> syncs \<Rightarrow> syncs outcome" where
  "wait_loop i 0 sg = Returned sg"
| "wait_loop i (Suc n) (s, g) =
     (if length (gs_ctxs s) \<le> i \<or> length (gs_objs s) \<le> i then Crashed ''read behind glsyncobjs''
      else if gs_objs s ! i \<noteq> 0 \<and> gs_ctxs s ! i \<noteq> 0
      then wait_loop (i + 1) n
             (s\<lparr>gs_objs := (gs_objs s)[i := 0], gs_ctxs := (gs_ctxs s)[i := 0]\<rparr>,
              glDeleteSync (gs_objs s ! i) (glWaitSync (gs_objs s ! i) g))
      else wait_loop (i + 1) n (s, g))"

definition rvgpu_set_wait_glsyncobjs :: "syncs \<Rightarrow> syncs outcome" where
  "rvgpu_set_wait_glsyncobjs sg =
     obind (wait_loop 0 (gs_cnt (fst sg)) sg) (\<lambda>(s, g). Returned (s\<lparr>gs_cnt := 0\<rparr>, g))"

section \<open>The operations of the renderer on contexts\<close>

text \<open>
  The contexts of virglrenderer: created, destroyed, made current; and the part of
  \<open>rvgpu_egl_draw\<close> that leaves the current context and waits for all of them.
\<close>

datatype ctx_op = Create_context | Destroy_context nat | Make_current nat | Draw_frame nat

definition rvgpu_egl_create_context :: "syncs \<Rightarrow> syncs outcome" where
  "rvgpu_egl_create_context sg =
     obind (rvgpu_increment_glsyncobjs_size (fst sg)) (\<lambda>s. Returned (s, snd sg))"

definition rvgpu_egl_destroy_context :: "nat \<Rightarrow> syncs \<Rightarrow> syncs outcome" where
  "rvgpu_egl_destroy_context ctx sg = rvgpu_decrement_glsyncobjs_size ctx sg"

definition rvgpu_egl_make_context_current :: "nat \<Rightarrow> syncs \<Rightarrow> syncs outcome" where
  "rvgpu_egl_make_context_current ctx sg =
     obind (rvgpu_set_glsyncobj sg) (\<lambda>(s, g). Returned (s\<lparr>gs_current_ctx := ctx\<rparr>, g))"

definition draw_syncs :: "nat \<Rightarrow> syncs \<Rightarrow> syncs outcome" where
  "draw_syncs ctx sg =
     obind (rvgpu_set_glsyncobj sg) (\<lambda>(s, g). rvgpu_set_wait_glsyncobjs (s\<lparr>gs_current_ctx := ctx\<rparr>, g))"

fun do_ctx_op :: "ctx_op \<Rightarrow> syncs \<Rightarrow> syncs outcome" where
  "do_ctx_op Create_context sg = rvgpu_egl_create_context sg"
| "do_ctx_op (Destroy_context c) sg = rvgpu_egl_destroy_context c sg"
| "do_ctx_op (Make_current c) sg = rvgpu_egl_make_context_current c sg"
| "do_ctx_op (Draw_frame c) sg = draw_syncs c sg"

fun ctx_ops :: "ctx_op list \<Rightarrow> syncs \<Rightarrow> syncs outcome" where
  "ctx_ops [] sg = Returned sg"
| "ctx_ops (a # as) sg = obind (do_ctx_op a sg) (ctx_ops as)"

section \<open>What the arrays stand for\<close>

text \<open>
  The abstract state: the contexts with a fence under way.  Destroying a context that has none is
  outside of the specification.
\<close>

record sync_spec =
  ss_current :: nat
  ss_pending :: "(nat \<times> nat) list"
  ss_fresh :: nat
  ss_waited :: "nat list"

definition spec_leave :: "sync_spec \<Rightarrow> sync_spec" where
  "spec_leave a =
     a\<lparr>ss_pending := AList.update (ss_current a) (ss_fresh a) (ss_pending a), ss_fresh := ss_fresh a + 1\<rparr>"

fun spec_op :: "ctx_op \<Rightarrow> sync_spec \<Rightarrow> sync_spec option" where
  "spec_op Create_context a = Some a"
| "spec_op (Destroy_context c) a =
     (if c \<in> fst ` set (ss_pending a)
      then Some (a\<lparr>ss_pending := filter (\<lambda>(k, _). k \<noteq> c) (ss_pending a)\<rparr>) else None)"
| "spec_op (Make_current c) a = (if c = 0 then None else Some ((spec_leave a)\<lparr>ss_current := c\<rparr>))"
| "spec_op (Draw_frame c) a =
     (if c = 0 then None
      else let b = spec_leave a in
        Some (b\<lparr>ss_current := c, ss_pending := [], ss_waited := ss_waited b @ map snd (ss_pending b)\<rparr>))"

fun spec_ops :: "ctx_op list \<Rightarrow> sync_spec \<Rightarrow> sync_spec option" where
  "spec_ops [] a = Some a"
| "spec_ops (x # xs) a = (case spec_op x a of None \<Rightarrow> None | Some b \<Rightarrow> spec_ops xs b)"

definition pending :: "glsyncobjs_state \<Rightarrow> (nat \<times> nat) list" where
  "pending s = zip (take (gs_cnt s) (gs_ctxs s)) (take (gs_cnt s) (gs_objs s))"

definition arrays_ok :: "glsyncobjs_state \<Rightarrow> bool" where
  "arrays_ok s =
     (length (gs_objs s) = gs_size s \<and> length (gs_ctxs s) = gs_size s \<and> gs_cnt s < gs_size s)"

definition sync_rel :: "sync_spec \<Rightarrow> syncs \<Rightarrow> bool" where
  "sync_rel a sg =
     (case sg of (s, g) \<Rightarrow>
        arrays_ok s \<and> pending s = ss_pending a \<and> gs_current_ctx s = ss_current a \<and> ss_current a \<noteq> 0 \<and>
        gl_fresh g = ss_fresh a \<and> gl_waited g = ss_waited a \<and>
        mset (gl_live g) = mset (map snd (ss_pending a)) \<and> distinct (map fst (ss_pending a)) \<and>
        (\<forall>(c, f) \<in> set (ss_pending a). c \<noteq> 0 \<and> f \<noteq> 0) \<and> ss_fresh a \<noteq> 0)"

section \<open>The operations implement the specification\<close>

lemma find_ctx_returns:
  assumes "i + n \<le> length ctxs"
  shows "\<exists>r. find_ctx ctx i n ctxs = Returned r \<and>
    (case r of None \<Rightarrow> ctx \<notin> set (take n (drop i ctxs))
     | Some k \<Rightarrow> i \<le> k \<and> k < i + n \<and> ctxs ! k = ctx \<and> (\<forall>j. i \<le> j \<longrightarrow> j < k \<longrightarrow> ctxs ! j \<noteq> ctx))"
  using assms
proof (induction n arbitrary: i)
  case (Suc n)
  have d: "take (Suc n) (drop i ctxs) = ctxs ! i # take n (drop (Suc i) ctxs)"
    using Suc.prems by (simp add: Cons_nth_drop_Suc [symmetric])
  show ?case
  proof (cases "ctxs ! i = ctx")
    case False
    obtain r where "find_ctx ctx (Suc i) n ctxs = Returned r"
        "case r of None \<Rightarrow> ctx \<notin> set (take n (drop (Suc i) ctxs))
     | Some k \<Rightarrow> Suc i \<le> k \<and> k < Suc i + n \<and> ctxs ! k = ctx \<and> (\<forall>j. Suc i \<le> j \<longrightarrow> j < k \<longrightarrow> ctxs ! j \<noteq> ctx)"
      using Suc.IH [of "Suc i"] Suc.prems by auto
    moreover have "\<And>k. \<forall>j. Suc i \<le> j \<longrightarrow> j < k \<longrightarrow> ctxs ! j \<noteq> ctx \<Longrightarrow> \<forall>j. i \<le> j \<longrightarrow> j < k \<longrightarrow> ctxs ! j \<noteq> ctx"
      using False by (metis Suc_leI le_neq_implies_less)
    ultimately show ?thesis
      using False Suc.prems by (cases r) (auto simp: d)
  qed (use Suc.prems in auto)
qed simp

lemma update_zip_hit:
  "k < length xs \<Longrightarrow> length xs = length ys \<Longrightarrow> xs ! k = c \<Longrightarrow> \<forall>j < k. xs ! j \<noteq> c \<Longrightarrow>
   AList.update c f (zip xs ys) = zip xs (ys[k := f])"
proof (induction xs arbitrary: ys k)
  case (Cons x xs)
  then obtain y ys' where ys: "ys = y # ys'"
    by (cases ys) auto
  show ?case
  proof (cases k)
    case (Suc k')
    have "x \<noteq> c" "\<forall>j < k'. xs ! j \<noteq> c"
      using Cons.prems(4) Suc by fastforce+
    with Cons show ?thesis
      by (simp add: ys Suc)
  qed (use Cons.prems in \<open>simp add: ys\<close>)
qed simp

lemma update_zip_miss:
  "c \<notin> set xs \<Longrightarrow> length xs = length ys \<Longrightarrow> AList.update c f (zip xs ys) = zip xs ys @ [(c, f)]"
  by (induction xs ys rule: list_induct2') auto

lemma update_ball: "\<forall>x \<in> set al. P x \<Longrightarrow> P (k, v) \<Longrightarrow> \<forall>x \<in> set (AList.update k v al). P x"
  by (induction al) auto

lemma nth_pending:
  "arrays_ok s \<Longrightarrow> i < gs_cnt s \<Longrightarrow> (gs_ctxs s ! i, gs_objs s ! i) \<in> set (pending s)"
  unfolding pending_def arrays_ok_def in_set_zip by (intro exI [of _ i]) simp

lemma glDeleteSync_simps [simp]:
  "mset (gl_live (glDeleteSync f g)) = mset (gl_live g) - {#f#}"
  "gl_fresh (glDeleteSync f g) = gl_fresh g" "gl_waited (glDeleteSync f g) = gl_waited g"
  by (simp_all add: glDeleteSync_def)

lemma fst_pending: "arrays_ok s \<Longrightarrow> map fst (pending s) = take (gs_cnt s) (gs_ctxs s)"
  by (simp add: pending_def arrays_ok_def)

lemma snd_pending: "arrays_ok s \<Longrightarrow> map snd (pending s) = take (gs_cnt s) (gs_objs s)"
  by (simp add: pending_def arrays_ok_def)

text \<open>Growing the arrays keeps their contents.\<close>

lemma increment_grows:
  assumes "length (gs_objs s) = gs_size s" "length (gs_ctxs s) = gs_size s" "gs_cnt s \<le> gs_size s" "gs_size s \<noteq> 0"
  shows "\<exists>s'. rvgpu_increment_glsyncobjs_size s = Returned s' \<and> arrays_ok s' \<and> pending s' = pending s \<and>
    gs_current_ctx s' = gs_current_ctx s"
proof (cases "gs_cnt s < gs_size s")
  case True
  with assms show ?thesis
    by (simp add: rvgpu_increment_glsyncobjs_size_def realloc_array_def arrays_ok_def pending_def)
next
  case False
  with assms show ?thesis
    by (simp add: rvgpu_increment_glsyncobjs_size_def realloc_array_def arrays_ok_def pending_def)
qed

lemma mset_swap_fence:
  "distinct (map fst al) \<Longrightarrow> (c, old) \<in> set al \<Longrightarrow>
   mset (map snd (AList.update c n al)) = add_mset n (mset (map snd al)) - {#old#}"
proof (induction al)
  case (Cons p al)
  obtain k v where p: "p = (k, v)" by (cases p)
  show ?case
  proof (cases "k = c")
    case True
    then have "v = old"
      using Cons.prems by (auto simp: p rev_image_eqI)
    then show ?thesis
      by (simp add: p True)
  next
    case False
    with Cons have "mset (map snd (AList.update c n al)) = add_mset n (mset (map snd al)) - {#old#}"
        "old \<in># mset (map snd al)"
      by (force simp: p)+
    then show ?thesis
      by (simp add: p False)
  qed
qed simp

text \<open>Leaving a context makes or replaces its fence.\<close>

lemma set_glsyncobj_leaves:
  assumes "sync_rel a sg"
  shows "\<exists>sg'. rvgpu_set_glsyncobj sg = Returned sg' \<and> sync_rel (spec_leave a) sg'"
proof -
  obtain s g where sg: "sg = (s, g)" by (cases sg)
  note r = assms [unfolded sync_rel_def sg, simplified]
  have ok: "length (gs_objs s) = gs_size s" "length (gs_ctxs s) = gs_size s" "gs_cnt s < gs_size s"
    using r by (auto simp: arrays_ok_def)
  let ?cs = "take (gs_cnt s) (gs_ctxs s)" and ?os = "take (gs_cnt s) (gs_objs s)"
  obtain found where f: "find_ctx (gs_current_ctx s) 0 (gs_cnt s) (gs_ctxs s) = Returned found"
      "case found of None \<Rightarrow> gs_current_ctx s \<notin> set ?cs
       | Some k \<Rightarrow> k < gs_cnt s \<and> gs_ctxs s ! k = gs_current_ctx s \<and> (\<forall>j < k. gs_ctxs s ! j \<noteq> gs_current_ctx s)"
    using find_ctx_returns [of 0 "gs_cnt s" "gs_ctxs s" "gs_current_ctx s"] ok by (auto split: option.splits)
  let ?al = "AList.update (ss_current a) (ss_fresh a) (ss_pending a)"
  have spec: "distinct (map fst ?al)" "\<forall>(c, f) \<in> set ?al. c \<noteq> 0 \<and> f \<noteq> 0"
    using r by (simp_all add: AList.distinct_update) (rule update_ball, auto)
  show ?thesis
  proof (cases found)
    case None
    let ?s = "s\<lparr>gs_objs := (gs_objs s)[gs_cnt s := gl_fresh g],
                 gs_ctxs := (gs_ctxs s)[gs_cnt s := gs_current_ctx s], gs_cnt := gs_cnt s + 1\<rparr>"
    obtain s' where s': "rvgpu_increment_glsyncobjs_size ?s = Returned s'" "arrays_ok s'"
        "pending s' = pending ?s" "gs_current_ctx s' = gs_current_ctx s"
      using increment_grows [of ?s] ok by auto
    have "pending ?s = pending s @ [(gs_current_ctx s, gl_fresh g)]"
      using ok by (simp add: pending_def take_Suc_conv_app_nth)
    moreover have "?al = pending s @ [(gs_current_ctx s, gl_fresh g)]"
      using update_zip_miss [of "gs_current_ctx s" ?cs ?os] f(2) None ok r by (auto simp: pending_def)
    ultimately show ?thesis
      using r spec s' ok f(1) None
      by (simp add: sg rvgpu_set_glsyncobj_def glFenceSync_def sync_rel_def spec_leave_def)
  next
    case (Some k)
    have k: "k < gs_cnt s" "gs_ctxs s ! k = gs_current_ctx s" "\<forall>j < k. gs_ctxs s ! j \<noteq> gs_current_ctx s"
      using f(2) Some by auto
    let ?s = "s\<lparr>gs_objs := (gs_objs s)[k := gl_fresh g]\<rparr>"
    have al: "pending ?s = ?al"
      using update_zip_hit [of k ?cs ?os "gs_current_ctx s" "gl_fresh g"] k ok r
      by (simp add: pending_def take_update_swap)
    have "(ss_current a, gs_objs s ! k) \<in> set (ss_pending a)"
      using nth_pending [of s k] r k by simp
    then have "mset (map snd ?al) = add_mset (ss_fresh a) (mset (map snd (ss_pending a))) - {#gs_objs s ! k#}"
      using r by (intro mset_swap_fence) auto
    then show ?thesis
      using r spec ok f(1) Some k al
      by (simp add: sg rvgpu_set_glsyncobj_def glFenceSync_def sync_rel_def spec_leave_def arrays_ok_def)
  qed
qed

text \<open>Destroying a context that has a fence.\<close>

lemma take_Suc_update: "j < length xs \<Longrightarrow> take (Suc j) (xs[j := x]) = take j xs @ [x]"
  by (simp add: take_Suc_conv_app_nth [of j "xs[j := x]"])

lemma drop_ctx_loop_filters:
  assumes "i + n \<le> length (gs_ctxs s)" "length (gs_objs s) = length (gs_ctxs s)" "j \<le> i"
    and "length objs = length (gs_ctxs s)" "length ctxs = length (gs_ctxs s)"
  shows "\<exists>objs' ctxs' j' g'. drop_ctx_loop c i n (objs, ctxs) j (s, g) = Returned ((objs', ctxs'), j', g') \<and>
    length objs' = length objs \<and> length ctxs' = length ctxs \<and>
    (let rest = zip (take n (drop i (gs_ctxs s))) (take n (drop i (gs_objs s)));
         kept = filter (\<lambda>(k, _). k \<noteq> c) rest in
     j' = j + length kept \<and>
     zip (take j' ctxs') (take j' objs') = zip (take j ctxs) (take j objs) @ kept \<and>
     mset (gl_live g') = mset (gl_live g) - mset (map snd (filter (\<lambda>(k, _). k = c) rest)) \<and>
     gl_fresh g' = gl_fresh g \<and> gl_waited g' = gl_waited g)"
  using assms
proof (induction n arbitrary: i j objs ctxs g)
  case (Suc n)
  have d: "take (Suc n) (drop i xs) = xs ! i # take n (drop (Suc i) xs)" if "length xs = length (gs_ctxs s)"
    for xs :: "nat list"
    using Suc.prems that by (simp add: Cons_nth_drop_Suc [symmetric])
  note d' = d [OF refl] d [OF Suc.prems(2)]
  show ?case
  proof (cases "gs_ctxs s ! i = c")
    case True
    with Suc.IH [of "Suc i" j objs ctxs "glDeleteSync (gs_objs s ! i) g"] Suc.prems show ?thesis
      by (auto simp: d' Let_def)
  next
    case False
    with Suc.IH [of "Suc i" "Suc j" "objs[j := gs_objs s ! i]" "ctxs[j := gs_ctxs s ! i]" g] Suc.prems show ?thesis
      by (auto simp: d' Let_def take_Suc_update)
  qed
qed (simp add: Let_def)

lemma destroy_filters:
  assumes "sync_rel a sg" "spec_op (Destroy_context c) a = Some b"
  shows "\<exists>sg'. rvgpu_egl_destroy_context c sg = Returned sg' \<and> sync_rel b sg'"
proof -
  obtain s g where sg: "sg = (s, g)" by (cases sg)
  note r = assms(1) [unfolded sync_rel_def sg, simplified]
  have ok: "length (gs_objs s) = gs_size s" "length (gs_ctxs s) = gs_size s" "gs_cnt s < gs_size s"
    using r by (auto simp: arrays_ok_def)
  let ?kept = "filter (\<lambda>(k, _). k \<noteq> c) (ss_pending a)" and ?tmp = "replicate (gs_size s) 0"
  have c: "c \<in> fst ` set (ss_pending a)" and b: "b = a\<lparr>ss_pending := ?kept\<rparr>"
    using assms(2) by (auto split: if_splits)
  obtain objs ctxs g' where l: "drop_ctx_loop c 0 (gs_cnt s) (?tmp, ?tmp) 0 sg =
        Returned ((objs, ctxs), length ?kept, g')" "length objs = gs_size s" "length ctxs = gs_size s"
      "zip (take (length ?kept) ctxs) (take (length ?kept) objs) = ?kept"
      "mset (gl_live g') = mset (gl_live g) - mset (map snd (filter (\<lambda>(k, _). k = c) (ss_pending a)))"
      "gl_fresh g' = gl_fresh g" "gl_waited g' = gl_waited g"
    using drop_ctx_loop_filters [of 0 "gs_cnt s" s 0 ?tmp ?tmp c g] ok r
    by (auto simp: Let_def sg pending_def)
  obtain p where "p \<in> set (ss_pending a)" "fst p = c"
    using c by auto
  then have less: "length ?kept < gs_cnt s"
    using r length_filter_less [of p "ss_pending a" "\<lambda>(k, _). k \<noteq> c"] ok
    by (auto simp: pending_def dest!: arg_cong [of _ _ length])
  have live: "mset (gl_live g') = mset (map snd ?kept)"
  proof -
    have "mset (map snd al) = mset (map snd (filter (\<lambda>(k, _). k = c) al)) + mset (map snd (filter (\<lambda>(k, _). k \<noteq> c) al))"
      for al :: "(nat \<times> nat) list"
      by (induction al) auto
    from this [of "ss_pending a"]
    have "mset (map snd (ss_pending a)) = mset (map snd (filter (\<lambda>(k, _). k = c) (ss_pending a))) + mset (map snd ?kept)" .
    then show ?thesis
      using r l(5) by simp
  qed
  have "distinct (map fst ?kept)"
    using r by (simp add: distinct_map_filter)
  then show ?thesis
    using l less r ok live
    by (auto simp: rvgpu_egl_destroy_context_def rvgpu_decrement_glsyncobjs_size_def sg realloc_array_def
        sync_rel_def arrays_ok_def b pending_def min_def)
qed

text \<open>Drawing waits for all fences.\<close>

lemma wait_loop_waits:
  assumes "i + n \<le> length (gs_ctxs s)" "length (gs_objs s) = length (gs_ctxs s)"
    and "\<forall>k. i \<le> k \<longrightarrow> k < i + n \<longrightarrow> gs_objs s ! k \<noteq> 0 \<and> gs_ctxs s ! k \<noteq> 0"
  shows "\<exists>s' g'. wait_loop i n (s, g) = Returned (s', g') \<and>
    length (gs_objs s') = length (gs_objs s) \<and> length (gs_ctxs s') = length (gs_ctxs s) \<and>
    gs_size s' = gs_size s \<and> gs_current_ctx s' = gs_current_ctx s \<and> gl_fresh g' = gl_fresh g \<and>
    gl_waited g' = gl_waited g @ take n (drop i (gs_objs s)) \<and>
    mset (gl_live g') = mset (gl_live g) - mset (take n (drop i (gs_objs s)))"
  using assms
proof (induction n arbitrary: i s g)
  case (Suc n)
  have d: "take (Suc n) (drop i (gs_objs s)) = gs_objs s ! i # take n (drop (Suc i) (gs_objs s))"
    using Suc.prems by (simp add: Cons_nth_drop_Suc [symmetric])
  let ?s = "s\<lparr>gs_objs := (gs_objs s)[i := 0], gs_ctxs := (gs_ctxs s)[i := 0]\<rparr>"
  have "gs_objs s ! i \<noteq> 0" "gs_ctxs s ! i \<noteq> 0"
    using Suc.prems(3) by auto
  with Suc.IH [of "Suc i" ?s "glDeleteSync (gs_objs s ! i) (glWaitSync (gs_objs s ! i) g)"] Suc.prems
  show ?case
    by (auto simp: d glWaitSync_def)
qed simp

lemma draw_waits:
  assumes "sync_rel a sg" "spec_op (Draw_frame c) a = Some b"
  shows "\<exists>sg'. draw_syncs c sg = Returned sg' \<and> sync_rel b sg'"
proof -
  obtain sg1 where 1: "rvgpu_set_glsyncobj sg = Returned sg1" "sync_rel (spec_leave a) sg1"
    using set_glsyncobj_leaves [OF assms(1)] by blast
  obtain s g where sg: "sg1 = (s, g)" by (cases sg1)
  note r = 1(2) [unfolded sync_rel_def sg, simplified]
  have ok: "length (gs_objs s) = gs_size s" "length (gs_ctxs s) = gs_size s" "gs_cnt s < gs_size s"
    using r by (auto simp: arrays_ok_def)
  have objs: "map snd (ss_pending (spec_leave a)) = take (gs_cnt s) (gs_objs s)"
    using r snd_pending [of s] by simp
  have "gs_objs s ! k \<noteq> 0 \<and> gs_ctxs s ! k \<noteq> 0" if "k < gs_cnt s" for k
    using nth_pending [of s k] r that by fastforce
  then obtain s' g' where w: "wait_loop 0 (gs_cnt s) (s\<lparr>gs_current_ctx := c\<rparr>, g) = Returned (s', g')"
      "length (gs_objs s') = gs_size s" "length (gs_ctxs s') = gs_size s" "gs_size s' = gs_size s"
      "gs_current_ctx s' = c" "gl_fresh g' = gl_fresh g"
      "gl_waited g' = gl_waited g @ take (gs_cnt s) (gs_objs s)"
      "mset (gl_live g') = mset (gl_live g) - mset (take (gs_cnt s) (gs_objs s))"
    using wait_loop_waits [of 0 "gs_cnt s" "s\<lparr>gs_current_ctx := c\<rparr>" g] ok by auto
  have "mset (gl_live g) = mset (map snd (ss_pending (spec_leave a)))"
    using r by simp
  then have "mset (gl_live g) = mset (take (gs_cnt s) (gs_objs s))"
    by (simp only: objs)
  then have "mset (gl_live g') = {#}"
    using w(8) by simp
  then show ?thesis
    using 1(1) assms(2) r w ok objs
    by (auto simp: draw_syncs_def sg rvgpu_set_wait_glsyncobjs_def sync_rel_def arrays_ok_def pending_def
        Let_def split: if_splits)
qed

lemma ctx_op_refines:
  assumes "sync_rel a sg" "spec_op x a = Some b"
  shows "\<exists>sg'. do_ctx_op x sg = Returned sg' \<and> sync_rel b sg'"
proof (cases x)
  case Create_context
  obtain s g where sg: "sg = (s, g)" by (cases sg)
  then show ?thesis
    using increment_grows [of s] assms Create_context
    by (auto simp: rvgpu_egl_create_context_def sync_rel_def arrays_ok_def)
next
  case (Make_current c)
  then show ?thesis
    using set_glsyncobj_leaves [OF assms(1)] assms(2)
    by (auto simp: rvgpu_egl_make_context_current_def sync_rel_def arrays_ok_def pending_def split: if_splits)
qed (use assms destroy_filters draw_waits in simp_all)

lemma ctx_ops_refine:
  "sync_rel a sg \<Longrightarrow> spec_ops xs a = Some b \<Longrightarrow> \<exists>sg'. ctx_ops xs sg = Returned sg' \<and> sync_rel b sg'"
proof (induction xs arbitrary: a sg)
  case (Cons x xs)
  then obtain a1 where a1: "spec_op x a = Some a1" "spec_ops xs a1 = Some b"
    by (auto split: option.splits)
  from ctx_op_refines [OF Cons.prems(1) a1(1)] obtain sg1 where "do_ctx_op x sg = Returned sg1" "sync_rel a1 sg1"
    by blast
  with Cons.IH [OF _ a1(2)] show ?case
    by simp
qed simp

definition syncs_init :: "nat \<Rightarrow> syncs" where
  "syncs_init ctx = (rvgpu_init_glsyncobjs_state ctx, \<lparr> gl_fresh = 1, gl_live = [], gl_waited = [] \<rparr>)"

definition spec_init :: "nat \<Rightarrow> sync_spec" where
  "spec_init ctx = \<lparr> ss_current = ctx, ss_pending = [], ss_fresh = 1, ss_waited = [] \<rparr>"



text \<open>
  A renderer whose guest creates a context, uses it, and destroys it before it is left has its
  arrays shrunk below what the next fence needs: the fence is stored behind them.  A context that
  is created and destroyed without any other ends the renderer.
\<close>

theorem glsync_destroy_overflow:
  "ctx_ops [Create_context, Make_current 2, Destroy_context 2, Make_current 3] (syncs_init 1) =
     Crashed ''write behind glsyncobjs'' \<and>
   ctx_ops [Create_context, Destroy_context 2] (syncs_init 1) = Exited ''assert(realloc)''"
  by code_simp

end
