(* ===== verification/Json.thy ===== *)
theory Json
  imports Touch_Protocol "HOL-Library.AList"
begin

text \<open>
  JSON values as the compositor uses them, and its helpers on them
  (src/rvgpu-renderer/compositor/rvgpu-json-helpers.c).  The jansson library is outside the
  repository; what the code relies on are its values and the plain accessors on them: an object is an
  association list without order of its own, an array a list.  A list the threads of the compositor
  share holds objects together with their addresses, so that a pointer to one can be followed and
  can dangle.  Proved: the loops that remove elements while they run remove exactly the matching
  ones, and inserting an array reverses it.
\<close>

section \<open>Values\<close>

datatype 'd json =
    JNull | JBool bool | JInt int | JReal 'd | JString string
  | JArray "'d json list" | JObject "(string \<times> 'd json) list"

text \<open>
  What the code does with numbers in floating point, on values of an arbitrary type: the conversions
  and the operations of the layout.
\<close>

record 'd real_ops =
  rl_of_int :: "int \<Rightarrow> 'd"
  rl_to_i32 :: "'d \<Rightarrow> i32"
  rl_add :: "'d \<Rightarrow> 'd \<Rightarrow> 'd"
  rl_sub :: "'d \<Rightarrow> 'd \<Rightarrow> 'd"
  rl_le :: "'d \<Rightarrow> 'd \<Rightarrow> bool"

definition rl_less :: "'d real_ops \<Rightarrow> 'd \<Rightarrow> 'd \<Rightarrow> bool" where
  "rl_less ops x y = (rl_le ops x y \<and> \<not> rl_le ops y x)"

text \<open>The accessors of jansson: \<open>None\<close> is \<open>NULL\<close>, and a value of another kind counts as 0.\<close>

fun json_object_get :: "'d json \<Rightarrow> string \<Rightarrow> 'd json option" where
  "json_object_get (JObject al) k = map_of al k"
| "json_object_get _ k = None"

fun json_object_set :: "'d json \<Rightarrow> string \<Rightarrow> 'd json \<Rightarrow> 'd json" where
  "json_object_set (JObject al) k v = JObject (AList.update k v al)"
| "json_object_set j k v = j"

fun json_object_del :: "'d json \<Rightarrow> string \<Rightarrow> 'd json" where
  "json_object_del (JObject al) k = JObject (AList.delete k al)"
| "json_object_del j k = j"

fun json_integer_value :: "'d json option \<Rightarrow> int" where
  "json_integer_value (Some (JInt i)) = i"
| "json_integer_value _ = 0"

fun json_is_integer :: "'d json option \<Rightarrow> bool" where
  "json_is_integer (Some (JInt i)) = True"
| "json_is_integer _ = False"

text \<open>The elements of an array; \<open>None\<close> for a value that is none.\<close>

fun json_elements :: "'d json option \<Rightarrow> 'd json list option" where
  "json_elements (Some (JArray xs)) = Some xs"
| "json_elements _ = None"

section \<open>Reading members\<close>

definition get_str_from_jsonobj :: "'d json \<Rightarrow> string \<Rightarrow> string option" where
  "get_str_from_jsonobj j k = (case json_object_get j k of Some (JString s) \<Rightarrow> Some s | _ \<Rightarrow> None)"

text \<open>An integer of 64 bits is cut to the 32 bits of the variable.\<close>

definition get_int_from_jsonobj :: "'d real_ops \<Rightarrow> 'd json \<Rightarrow> string \<Rightarrow> i32 option" where
  "get_int_from_jsonobj ops j k =
     (case json_object_get j k of
        Some (JInt i) \<Rightarrow> Some (word_of_int i)
      | Some (JReal r) \<Rightarrow> Some (rl_to_i32 ops r)
      | _ \<Rightarrow> None)"

definition get_double_from_jsonobj :: "'d real_ops \<Rightarrow> 'd json \<Rightarrow> string \<Rightarrow> 'd option" where
  "get_double_from_jsonobj ops j k =
     (case json_object_get j k of
        Some (JReal r) \<Rightarrow> Some r
      | Some (JInt i) \<Rightarrow> Some (rl_of_int ops i)
      | _ \<Rightarrow> None)"

section \<open>Arrays\<close>

text \<open>
  The loops over an array that remove elements: \<open>json_array_remove\<close>, then \<open>index--\<close>, which wraps
  below 0 and is made good by the step of the loop.  \<open>stay = False\<close> is the loop without \<open>index--\<close>.
\<close>

function remove_loop :: "bool \<Rightarrow> ('a \<Rightarrow> bool) \<Rightarrow> nat \<Rightarrow> 'a list \<Rightarrow> 'a list" where
  "remove_loop stay p i xs =
     (if i < length xs
      then if p (xs ! i) then remove_loop stay p (if stay then i else i + 1) (take i xs @ drop (i + 1) xs)
           else remove_loop stay p (i + 1) xs
      else xs)"
  by pat_completeness auto

termination
  by (relation "measure (\<lambda>(stay, p, i, xs). length xs - i)") auto

declare remove_loop.simps [simp del]

lemma remove_loop_drop:
  "i \<le> length xs \<Longrightarrow> remove_loop True p i xs = take i xs @ filter (\<lambda>x. \<not> p x) (drop i xs)"
proof (induction "True" p i xs rule: remove_loop.induct)
  case (1 p i xs)
  show ?case
  proof (cases "i < length xs")
    case True
    then have d: "drop i xs = xs ! i # drop (i + 1) xs"
      by (simp add: Cons_nth_drop_Suc)
    show ?thesis
    proof (cases "p (xs ! i)")
      case True
      then show ?thesis
        using \<open>i < length xs\<close> 1(1) by (subst remove_loop.simps) (simp add: d min_def)
    next
      case False
      then show ?thesis
        using \<open>i < length xs\<close> 1(2) by (subst remove_loop.simps) (simp add: d take_Suc_conv_app_nth)
    qed
  qed (use 1 in \<open>subst remove_loop.simps, simp\<close>)
qed

lemma remove_loop_filter: "remove_loop True p 0 xs = filter (\<lambda>x. \<not> p x) xs"
  by (simp add: remove_loop_drop)

text \<open>
  The objects of a shared list with their addresses.  A member that is missing or no integer counts
  as 0 in the comparison.
\<close>

type_synonym 'd obj = "nat \<times> 'd json"

definition remove_jsonobj_with_int_key :: "string \<Rightarrow> i32 \<Rightarrow> 'd obj list \<Rightarrow> 'd obj list" where
  "remove_jsonobj_with_int_key k v =
     remove_loop True (\<lambda>(_, j). sint v = json_integer_value (json_object_get j k)) 0"

definition remove_jsonobj_with_str_key :: "string \<Rightarrow> string \<Rightarrow> 'd obj list \<Rightarrow> 'd obj list" where
  "remove_jsonobj_with_str_key k v =
     remove_loop True (\<lambda>(_, j). get_str_from_jsonobj j k = Some v) 0"

text \<open>\<open>json_array_insert_new\<close>, which fails behind the end, and the insertion of a whole array.\<close>

definition json_array_insert :: "nat \<Rightarrow> 'a \<Rightarrow> 'a list \<Rightarrow> 'a list" where
  "json_array_insert i x xs = (if i \<le> length xs then take i xs @ x # drop i xs else xs)"

definition insert_jsonarray_with_index :: "'a list \<Rightarrow> 'a list \<Rightarrow> nat \<Rightarrow> 'a list" where
  "insert_jsonarray_with_index src dst target = foldl (\<lambda>acc x. json_array_insert target x acc) dst src"

text \<open>\<open>insert_integar_json_array_with_index\<close>: the array is padded with null.\<close>

definition insert_integar_json_array_with_index :: "int option list \<Rightarrow> nat \<Rightarrow> int \<Rightarrow> int option list" where
  "insert_integar_json_array_with_index xs i v = (xs @ replicate (i + 1 - length xs) None)[i := Some v]"

definition get_jsonobj_with_int_key :: "string \<Rightarrow> int \<Rightarrow> 'd json list \<Rightarrow> 'd json option" where
  "get_jsonobj_with_int_key k v js = find (\<lambda>j. v = json_integer_value (json_object_get j k)) js"

lemma remove_int_key:
  "remove_jsonobj_with_int_key k v xs = filter (\<lambda>(_, j). sint v \<noteq> json_integer_value (json_object_get j k)) xs"
  by (simp add: remove_jsonobj_with_int_key_def remove_loop_filter case_prod_unfold)

lemma remove_str_key:
  "remove_jsonobj_with_str_key k v xs = filter (\<lambda>(_, j). get_str_from_jsonobj j k \<noteq> Some v) xs"
  by (simp add: remove_jsonobj_with_str_key_def remove_loop_filter case_prod_unfold)

lemma insert_jsonarray:
  "target \<le> length dst \<Longrightarrow> insert_jsonarray_with_index src dst target = take target dst @ rev src @ drop target dst"
proof (induction src arbitrary: dst)
  case (Cons x src)
  then show ?case
    by (simp add: insert_jsonarray_with_index_def json_array_insert_def)
qed (simp add: insert_jsonarray_with_index_def)

lemma nth_insert_integar:
  "j \<le> i \<or> j < length xs \<Longrightarrow> insert_integar_json_array_with_index xs i v ! j =
     (if j = i then Some v else if j < length xs then xs ! j else None)"
  by (auto simp: insert_integar_json_array_with_index_def nth_list_update nth_append)

lemma length_insert_integar [simp]:
  "length (insert_integar_json_array_with_index xs i v) = max (i + 1) (length xs)"
  by (simp add: insert_integar_json_array_with_index_def)

section \<open>Objects\<close>

lemma get_set [simp]:
  "json_object_get (json_object_set (JObject al) k v) k' =
     (if k' = k then Some v else json_object_get (JObject al) k')"
  by (simp add: update_conv')

lemma get_del [simp]:
  "json_object_get (json_object_del (JObject al) k) k' = (if k' = k then None else json_object_get (JObject al) k')"
  by (simp add: delete_conv')

fun is_object :: "'d json \<Rightarrow> bool" where
  "is_object (JObject al) = True"
| "is_object _ = False"

lemma is_object_set [simp]: "is_object (json_object_set j k v) = is_object j"
  by (cases j) simp_all

lemma get_set_object:
  "is_object j \<Longrightarrow> json_object_get (json_object_set j k v) k' = (if k' = k then Some v else json_object_get j k')"
  by (cases j) (simp_all add: update_conv')

lemma get_set_other [simp]: "k' \<noteq> k \<Longrightarrow> json_object_get (json_object_set j k v) k' = json_object_get j k'"
  by (cases j) (simp_all add: update_conv')

end
