(* ===== verification/Layout.thy ===== *)
theory Layout
  imports Json
begin

text \<open>
  The layout of the compositor (\<open>layout_event_loop\<close> and its helpers, and the search for the surface
  under a point, in src/rvgpu-renderer/compositor/rvgpu-compositor.c).  A window manager sends
  commands that put surfaces into the layout list, change, move and remove them; later surfaces of
  the list are drawn over earlier ones.  Proved: where added surfaces go, that ids stay unique, that
  the focus goes to the topmost visible surface, and three ways in which the loop goes wrong.
\<close>

section \<open>Commands\<close>

text \<open>The layout list with the address of the next copy, and the safety areas.\<close>

record 'd layout_state =
  ly_list :: "'d obj list"
  ly_next :: nat
  ly_safety :: "'d json list"

definition layout_properties :: "string list" where
  "layout_properties =
     [''src_x'', ''src_y'', ''src_w'', ''src_h'', ''dst_x'', ''dst_y'', ''dst_w'', ''dst_h'',
      ''wl_surface_id'', ''visibility'']"

definition layout_key :: "'d real_ops \<Rightarrow> 'd json \<Rightarrow> (i32 \<times> string) option" where
  "layout_key ops j =
     (case (get_int_from_jsonobj ops j ''id'', get_str_from_jsonobj j ''rvgpu_surface_id'') of
        (Some i, Some s) \<Rightarrow> Some (i, s) | _ \<Rightarrow> None)"

definition set_properties :: "'d json \<Rightarrow> 'd json \<Rightarrow> 'd json" where
  "set_properties value =
     (\<lambda>j. foldl (\<lambda>j k. case json_object_get value k of None \<Rightarrow> j | Some p \<Rightarrow> json_object_set j k p) j
            layout_properties)"

text \<open>The inner loop, which stops at the first match.\<close>

fun update_first :: "('a \<Rightarrow> bool) \<Rightarrow> ('a \<Rightarrow> 'a) \<Rightarrow> 'a list \<Rightarrow> 'a list" where
  "update_first p f [] = []"
| "update_first p f (x # xs) = (if p x then f x # xs else x # update_first p f xs)"

definition modify_layout_surfaces :: "'d real_ops \<Rightarrow> 'd json list \<Rightarrow> 'd layout_state \<Rightarrow> 'd layout_state" where
  "modify_layout_surfaces ops surfaces st =
     st\<lparr>ly_list := foldl (\<lambda>ly value. case layout_key ops value of
            None \<Rightarrow> ly
          | Some k \<Rightarrow> update_first (\<lambda>(_, j). layout_key ops j = Some k) (map_prod id (set_properties value)) ly)
        (ly_list st) surfaces\<rparr>"

text \<open>Copies get addresses of their own.\<close>

definition copies :: "nat \<Rightarrow> 'd json list \<Rightarrow> 'd obj list" where
  "copies n js = zip [n..<n + length js] js"

text \<open>
  The first loop of \<open>add_layout_surfaces\<close>: a surface with the reference id is dropped, surfaces of
  the list with an id of the message are removed.
\<close>

fun replace_loop :: "'d real_ops \<Rightarrow> i32 \<Rightarrow> 'd json list \<Rightarrow> 'd obj list \<Rightarrow> 'd json list \<times> 'd obj list" where
  "replace_loop ops ref [] ly = ([], ly)"
| "replace_loop ops ref (v # vs) ly =
     (case get_int_from_jsonobj ops v ''id'' of
        None \<Rightarrow> map_prod ((#) v) id (replace_loop ops ref vs ly)
      | Some i \<Rightarrow>
          if i = ref then replace_loop ops ref vs ly
          else map_prod ((#) v) id (replace_loop ops ref vs (remove_jsonobj_with_int_key ''id'' i ly)))"

fun position_of :: "'d real_ops \<Rightarrow> i32 \<Rightarrow> nat \<Rightarrow> 'd obj list \<Rightarrow> nat option" where
  "position_of ops ref i [] = None"
| "position_of ops ref i ((_, j) # ly) =
     (if get_int_from_jsonobj ops j ''id'' = Some ref then Some i else position_of ops ref (i + 1) ly)"

definition add_target :: "'d real_ops \<Rightarrow> string option \<Rightarrow> i32 \<Rightarrow> 'd obj list \<Rightarrow> nat" where
  "add_target ops order ref ly =
     (if order = Some ''prepend'' then 0
      else if order = Some ''before'' \<or> order = Some ''after''
      then case position_of ops ref 0 ly of
             None \<Rightarrow> length ly
           | Some i \<Rightarrow> if order = Some ''after'' then i + 1 else i
      else length ly)"

definition reference_id :: "'d real_ops \<Rightarrow> 'd json \<Rightarrow> i32" where
  "reference_id ops msg = (case get_int_from_jsonobj ops msg ''referenceID'' of None \<Rightarrow> - 1 | Some i \<Rightarrow> i)"

definition add_layout_surfaces :: "'d real_ops \<Rightarrow> 'd json \<Rightarrow> 'd json list \<Rightarrow> 'd layout_state \<Rightarrow> 'd layout_state" where
  "add_layout_surfaces ops msg surfaces st =
     (let order = get_str_from_jsonobj msg ''insert_order'';
          ref = reference_id ops msg
      in case replace_loop ops ref surfaces (ly_list st) of
           (vs, ly) \<Rightarrow>
             st\<lparr>ly_list := insert_jsonarray_with_index (copies (ly_next st) vs) ly (add_target ops order ref ly),
                ly_next := ly_next st + length vs\<rparr>)"

definition remove_layout_surfaces :: "'d real_ops \<Rightarrow> 'd json list \<Rightarrow> 'd layout_state \<Rightarrow> 'd layout_state" where
  "remove_layout_surfaces ops surfaces st =
     st\<lparr>ly_list := foldl (\<lambda>ly v. case get_int_from_jsonobj ops v ''id'' of
            None \<Rightarrow> ly | Some i \<Rightarrow> remove_jsonobj_with_int_key ''id'' i ly) (ly_list st) surfaces\<rparr>"

definition initial_layout :: "'d json \<Rightarrow> 'd json list \<Rightarrow> 'd layout_state \<Rightarrow> 'd layout_state" where
  "initial_layout msg surfaces st =
     st\<lparr>ly_list := copies (ly_next st) surfaces, ly_next := ly_next st + length surfaces,
        ly_safety := ly_safety st @
          (case json_elements (json_object_get msg ''safety_areas'') of None \<Rightarrow> [] | Some as \<Rightarrow> as)\<rparr>"

text \<open>
  What is done with a message: \<open>None\<close> when it is dropped without an answer; otherwise the compositor
  is told, and the answer is sent.
\<close>

definition layout_command :: "'d real_ops \<Rightarrow> 'd json \<Rightarrow> 'd layout_state \<Rightarrow> 'd layout_state option" where
  "layout_command ops msg st =
     (case (json_object_get msg ''command'', json_elements (json_object_get msg ''surfaces'')) of
        (Some (JString c), Some surfaces) \<Rightarrow>
          if c = ''initial_layout'' then Some (initial_layout msg surfaces st)
          else if c = ''modify_surface'' then Some (modify_layout_surfaces ops surfaces st)
          else if c = ''add_surface'' then Some (add_layout_surfaces ops msg surfaces st)
          else if c = ''remove_surface'' then Some (remove_layout_surfaces ops surfaces st)
          else None
      | _ \<Rightarrow> None)"

section \<open>The loop\<close>

text \<open>
  What happens in a turn: \<open>poll\<close> fails; the end is signalled; a client connects (-1 when \<open>accept\<close>
  fails); the connection is readable, and then what \<open>recv_json\<close> gives.
\<close>

record 'd layout_env =
  le_poll_ok :: bool
  le_term :: bool
  le_accept :: "int option"
  le_data :: bool
  le_recv :: "'d json option"

text \<open>
  The descriptor of the client, the one that is polled, the open ones, and what was sent: layout
  events to the compositor and answers to the client.
\<close>

datatype layout_effect = Layout_event | Layout_complete int

record 'd layout_loop =
  ll_state :: "'d layout_state"
  ll_running :: bool
  ll_fd :: int
  ll_polled :: int
  ll_open :: "int list"
  ll_out :: "layout_effect list"

definition close_client :: "'d layout_loop \<Rightarrow> 'd layout_loop" where
  "close_client l = (if ll_fd l \<noteq> - 1 then l\<lparr>ll_open := remove1 (ll_fd l) (ll_open l)\<rparr> else l)"

definition layout_turn :: "'d real_ops \<Rightarrow> 'd layout_env \<Rightarrow> 'd layout_loop \<Rightarrow> 'd layout_loop" where
  "layout_turn ops env l =
     (if \<not> ll_running l \<or> \<not> le_poll_ok env then l
      else if le_term env then (close_client l)\<lparr>ll_running := False\<rparr>
      else
        let l1 = (case le_accept env of
                    None \<Rightarrow> l
                  | Some fd \<Rightarrow>
                      if fd = - 1 then l
                      else (close_client l)\<lparr>ll_fd := fd, ll_polled := fd, ll_open := fd # ll_open (close_client l)\<rparr>)
        in if ll_fd l1 \<noteq> - 1 \<and> ll_polled l \<ge> 0 \<and> le_data env
           then case le_recv env of
                  None \<Rightarrow> l1\<lparr>ll_fd := - 1\<rparr>
                | Some msg \<Rightarrow>
                    (case layout_command ops msg (ll_state l1) of
                       None \<Rightarrow> l1
                     | Some st \<Rightarrow> l1\<lparr>ll_state := st, ll_out := ll_out l1 @ [Layout_event, Layout_complete (ll_fd l1)]\<rparr>)
           else l1)"

section \<open>The surface under a point\<close>

definition check_in_square :: "'d real_ops \<Rightarrow> 'd \<Rightarrow> 'd \<Rightarrow> 'd \<times> 'd \<times> 'd \<times> 'd \<Rightarrow> bool" where
  "check_in_square ops x y sq =
     (case sq of (dst_x, dst_y, dst_w, dst_h) \<Rightarrow>
        rl_le ops dst_x x \<and> rl_le ops x (rl_add ops dst_x dst_w) \<and>
        rl_le ops dst_y y \<and> rl_le ops y (rl_add ops dst_y dst_h))"

text \<open>The destination of a surface; \<open>None\<close> when one of the four variables is left uninitialised.\<close>

definition dst_square :: "'d real_ops \<Rightarrow> 'd json \<Rightarrow> ('d \<times> 'd \<times> 'd \<times> 'd) option" where
  "dst_square ops j =
     (case map (get_double_from_jsonobj ops j) [''dst_x'', ''dst_y'', ''dst_w'', ''dst_h''] of
        [Some a, Some b, Some c, Some d] \<Rightarrow> Some (a, b, c, d) | _ \<Rightarrow> None)"

definition is_layout_surface_visible :: "'d real_ops \<Rightarrow> 'd json \<Rightarrow> bool" where
  "is_layout_surface_visible ops j =
     (case get_int_from_jsonobj ops j ''visibility'' of None \<Rightarrow> True | Some v \<Rightarrow> v \<noteq> 0)"

definition has_rvgpu_surface :: "string \<Rightarrow> 'd obj list \<Rightarrow> bool" where
  "has_rvgpu_surface s surfaces = list_ex (\<lambda>(_, j). get_str_from_jsonobj j ''rvgpu_surface_id'' = Some s) surfaces"

text \<open>The surfaces a search considers: visible, and known to the compositor.\<close>

definition shown :: "'d real_ops \<Rightarrow> 'd obj list \<Rightarrow> 'd json \<Rightarrow> bool" where
  "shown ops surfaces j =
     (case get_str_from_jsonobj j ''rvgpu_surface_id'' of
        None \<Rightarrow> False
      | Some s \<Rightarrow> is_layout_surface_visible ops j \<and> has_rvgpu_surface s surfaces)"

text \<open>The search, from the end of the list; the result is a pointer to the object.\<close>

fun focus_loop :: "'d real_ops \<Rightarrow> 'd \<Rightarrow> 'd \<Rightarrow> 'd obj list \<Rightarrow> 'd obj list \<Rightarrow> nat option outcome" where
  "focus_loop ops x y surfaces [] = Returned None"
| "focus_loop ops x y surfaces ((a, j) # rest) =
     (if \<not> shown ops surfaces j then focus_loop ops x y surfaces rest
      else case dst_square ops j of
             None \<Rightarrow> Crashed ''uninitialised dst''
           | Some sq \<Rightarrow> if check_in_square ops x y sq then Returned (Some a) else focus_loop ops x y surfaces rest)"

definition get_focus_rvgpu_layout :: "'d real_ops \<Rightarrow> 'd \<Rightarrow> 'd \<Rightarrow> 'd obj list \<Rightarrow> 'd obj list \<Rightarrow> nat option outcome" where
  "get_focus_rvgpu_layout ops x y surfaces layout = focus_loop ops x y surfaces (rev layout)"

definition check_in_rvgpu_draw :: "'d real_ops \<Rightarrow> 'd json \<Rightarrow> 'd \<Rightarrow> 'd \<Rightarrow> bool" where
  "check_in_rvgpu_draw ops j x y =
     (case (get_double_from_jsonobj ops j ''width'', get_double_from_jsonobj ops j ''height'') of
        (Some w, Some h) \<Rightarrow> check_in_square ops x y (rl_of_int ops 0, rl_of_int ops 0, w, h)
      | _ \<Rightarrow> False)"

definition get_focus_rvgpu :: "'d real_ops \<Rightarrow> 'd \<Rightarrow> 'd \<Rightarrow> 'd obj list \<Rightarrow> nat option" where
  "get_focus_rvgpu ops x y surfaces =
     map_option fst (find (\<lambda>(_, j). get_str_from_jsonobj j ''rvgpu_surface_id'' \<noteq> None \<and> check_in_rvgpu_draw ops j x y)
       (rev surfaces))"

definition check_in_rvgpu_layout_draw :: "'d real_ops \<Rightarrow> 'd json \<Rightarrow> 'd \<Rightarrow> 'd \<Rightarrow> bool outcome" where
  "check_in_rvgpu_layout_draw ops j x y =
     (case dst_square ops j of
        None \<Rightarrow> Crashed ''uninitialised dst''
      | Some sq \<Rightarrow> Returned (check_in_square ops x y sq))"

text \<open>\<open>get_rvgpu_client_fd\<close>: the connection of the first surface with the same id, or -1.\<close>

definition get_rvgpu_client_fd :: "'d real_ops \<Rightarrow> 'd json option \<Rightarrow> 'd obj list \<Rightarrow> i32" where
  "get_rvgpu_client_fd ops j surfaces =
     (case Option.bind j (\<lambda>j. get_str_from_jsonobj j ''rvgpu_surface_id'') of
        None \<Rightarrow> - 1
      | Some s \<Rightarrow>
          case find (\<lambda>(_, v). get_str_from_jsonobj v ''rvgpu_surface_id'' = Some s) surfaces of
            None \<Rightarrow> - 1
          | Some (_, v) \<Rightarrow> case get_int_from_jsonobj ops v ''client_rvgpu_fd'' of None \<Rightarrow> - 1 | Some fd \<Rightarrow> fd)"

section \<open>Where surfaces go\<close>

text \<open>Surfaces as the window manager should send them: their id is an integer of 32 bits.\<close>

definition layout_id :: "'d json \<Rightarrow> int" where
  "layout_id j = json_integer_value (json_object_get j ''id'')"

definition wf_id :: "'d json \<Rightarrow> bool" where
  "wf_id j = (json_object_get j ''id'' = Some (JInt (layout_id j)) \<and> sint (word_of_int (layout_id j) :: i32) = layout_id j)"

lemma get_id: "wf_id j \<Longrightarrow> get_int_from_jsonobj ops j ''id'' = Some (word_of_int (layout_id j))"
  by (simp add: wf_id_def get_int_from_jsonobj_def)

lemma get_id_iff: "wf_id j \<Longrightarrow> get_int_from_jsonobj ops j ''id'' = Some r \<longleftrightarrow> layout_id j = sint r"
  by (auto simp: get_id wf_id_def)

lemma word_id_iff: "wf_id j \<Longrightarrow> word_of_int (layout_id j) = (r :: i32) \<longleftrightarrow> layout_id j = sint r"
  by (auto simp: wf_id_def)

lemma remove_id: "remove_jsonobj_with_int_key ''id'' v ly = filter (\<lambda>(_, j). layout_id j \<noteq> sint v) ly"
  by (simp add: remove_int_key layout_id_def eq_commute)

lemma replace_loop_filters:
  "list_all wf_id vs \<Longrightarrow> replace_loop ops ref vs ly =
     (filter (\<lambda>v. layout_id v \<noteq> sint ref) vs,
      filter (\<lambda>(_, j). layout_id j \<notin> layout_id ` set (filter (\<lambda>v. layout_id v \<noteq> sint ref) vs)) ly)"
proof (induction vs arbitrary: ly)
  case (Cons v vs)
  then have v: "sint (word_of_int (layout_id v) :: i32) = layout_id v"
    by (simp add: wf_id_def)
  from Cons show ?case
    by (auto simp: get_id word_id_iff remove_id v case_prod_unfold intro!: filter_cong)
qed (simp add: case_prod_unfold)

lemma position_of_id:
  "list_all (\<lambda>(_, j). wf_id j) ly \<Longrightarrow> position_of ops ref i ly =
     (let n = length (takeWhile (\<lambda>(_, j). layout_id j \<noteq> sint ref) ly)
      in if n < length ly then Some (i + n) else None)"
  by (induction ops ref i ly rule: position_of.induct) (auto simp: get_id_iff Let_def)

text \<open>The specification: where new surfaces go in a list of surfaces.\<close>

definition place_in :: "string option \<Rightarrow> int \<Rightarrow> 'd json list \<Rightarrow> 'd json list \<Rightarrow> 'd json list" where
  "place_in order ref vs kept =
     (let front = takeWhile (\<lambda>j. layout_id j \<noteq> ref) kept;
          rest = dropWhile (\<lambda>j. layout_id j \<noteq> ref) kept
      in if order = Some ''prepend'' then rev vs @ kept
         else if order = Some ''before'' then front @ rev vs @ rest
         else if order = Some ''after'' then front @ take 1 rest @ rev vs @ drop 1 rest
         else kept @ rev vs)"

definition place :: "string option \<Rightarrow> int \<Rightarrow> 'd json list \<Rightarrow> 'd json list \<Rightarrow> 'd json list" where
  "place order ref vs js = place_in order ref vs (filter (\<lambda>j. layout_id j \<notin> layout_id ` set vs) js)"

lemma map_snd_copies [simp]: "map snd (copies n js) = js"
  by (simp add: copies_def)

lemma map_snd_filter: "map snd (filter (\<lambda>(_, j). P j) ly) = filter P (map snd ly)"
  by (simp add: filter_map comp_def case_prod_unfold)

lemma take_drop_takeWhile:
  "take (length (takeWhile P xs)) xs = takeWhile P xs" "drop (length (takeWhile P xs)) xs = dropWhile P xs"
  by (simp_all flip: takeWhile_eq_take dropWhile_eq_drop)

lemma while_all:
  "\<not> length (takeWhile P xs) < length xs \<Longrightarrow> dropWhile P xs = [] \<and> takeWhile P xs = xs"
  by (induction xs) (auto split: if_splits)

lemma map_snd_while:
  "map snd (takeWhile (\<lambda>(_, j). P j) ly) = takeWhile P (map snd ly)"
  "map snd (dropWhile (\<lambda>(_, j). P j) ly) = dropWhile P (map snd ly)"
  by (induction ly) auto

lemma insert_before:
  "insert_jsonarray_with_index src ly (length (takeWhile P ly)) = takeWhile P ly @ rev src @ dropWhile P ly"
  by (simp add: insert_jsonarray length_takeWhile_le take_drop_takeWhile)

lemma insert_after:
  assumes "length (takeWhile P ly) < length ly"
  shows "insert_jsonarray_with_index src ly (length (takeWhile P ly) + 1) =
    takeWhile P ly @ take 1 (dropWhile P ly) @ rev src @ drop 1 (dropWhile P ly)"
proof -
  let ?n = "length (takeWhile P ly)"
  have "take (?n + 1) ly = takeWhile P ly @ take 1 (dropWhile P ly)"
    by (simp only: take_add take_drop_takeWhile)
  moreover have "drop (?n + 1) ly = drop 1 (dropWhile P ly)"
    by (metis add.commute drop_drop take_drop_takeWhile(2))
  ultimately show ?thesis
    using assms by (simp add: insert_jsonarray)
qed

lemma insert_end: "insert_jsonarray_with_index src ly (length ly) = ly @ rev src"
  by (simp add: insert_jsonarray)

lemma insert_at_target:
  assumes "list_all (\<lambda>(_, j). wf_id j) ly"
  shows "map snd (insert_jsonarray_with_index new ly (add_target ops order ref ly)) =
    place_in order (sint ref) (map snd new) (map snd ly)"
proof -
  let ?P = "\<lambda>(_, j). layout_id j \<noteq> sint ref"
  define front where "front = takeWhile ?P ly"
  define rear where "rear = dropWhile ?P ly"
  have pos: "position_of ops ref 0 ly = (if length front < length ly then Some (length front) else None)"
    using position_of_id [OF assms, of ops ref 0] by (simp add: front_def Let_def)
  have ins: "insert_jsonarray_with_index new ly (length front) = front @ rev new @ rear"
    unfolding front_def rear_def by (rule insert_before)
  have ins1: "insert_jsonarray_with_index new ly (Suc (length front)) = front @ take 1 rear @ rev new @ drop 1 rear"
    if "length front < length ly"
    using insert_after [of ?P ly new] that by (simp add: front_def rear_def)
  have all: "rear = [] \<and> front = ly" if "\<not> length front < length ly"
    using that unfolding front_def rear_def by (rule while_all)
  have kept: "takeWhile (\<lambda>j. layout_id j \<noteq> sint ref) (map snd ly) = map snd front"
    "dropWhile (\<lambda>j. layout_id j \<noteq> sint ref) (map snd ly) = map snd rear"
    by (simp_all only: front_def rear_def map_snd_while)
  show ?thesis
  proof (cases "length front < length ly")
    case True
    then show ?thesis
      using ins1
      by (simp add: add_target_def pos ins insert_end insert_jsonarray [of 0] place_in_def Let_def kept rev_map
          take_map drop_map)
  next
    case False
    then show ?thesis
      using all by (simp add: add_target_def pos insert_end insert_jsonarray [of 0] place_in_def Let_def kept rev_map)
  qed
qed

text \<open>
  C34. Adding surfaces to the layout: surfaces whose id is in the message are removed from the list,
  and those of the message are put, in reverse order, in front of all, behind all, or before or
  after the surface with the reference id; a surface of the message with the reference id is left out.
\<close>

theorem add_layout_surfaces_places:
  assumes "list_all wf_id surfaces" and "list_all wf_id (map snd (ly_list st))"
  shows "map snd (ly_list (add_layout_surfaces ops msg surfaces st)) =
    place (get_str_from_jsonobj msg ''insert_order'') (sint (reference_id ops msg))
      (filter (\<lambda>v. layout_id v \<noteq> sint (reference_id ops msg)) surfaces) (map snd (ly_list st))"
proof -
  let ?ref = "reference_id ops msg" and ?vs = "filter (\<lambda>v. layout_id v \<noteq> sint (reference_id ops msg)) surfaces"
  have "list_all (\<lambda>(_, j). wf_id j) (filter (\<lambda>(_, j). layout_id j \<notin> layout_id ` set ?vs) (ly_list st))"
    using assms(2) by (auto simp: list_all_iff)
  then show ?thesis
    by (simp add: add_layout_surfaces_def Let_def replace_loop_filters [OF assms(1)] insert_at_target
        place_def map_snd_filter del: set_filter)
qed

definition demo_real :: "int real_ops" where
  "demo_real = \<lparr> rl_of_int = id, rl_to_i32 = word_of_int, rl_add = (+), rl_sub = (-), rl_le = (\<le>) \<rparr>"

definition demo_surface :: "int \<Rightarrow> string \<Rightarrow> int json" where
  "demo_surface i s =
     JObject [(''id'', JInt i), (''rvgpu_surface_id'', JString s), (''dst_x'', JInt 0), (''dst_y'', JInt 0),
              (''dst_w'', JInt 10), (''dst_h'', JInt 10)]"

lemma add_layout_surfaces_places_witness:
  "map layout_id (map snd (ly_list (add_layout_surfaces demo_real
       (JObject [(''insert_order'', JString ''after''), (''referenceID'', JInt 1)])
       [demo_surface 4 ''a'', demo_surface 2 ''b'', demo_surface 1 ''c'']
       \<lparr> ly_list = copies 0 [demo_surface 1 ''x'', demo_surface 2 ''y'', demo_surface 3 ''z''],
         ly_next = 3, ly_safety = [] \<rparr>))) = [1, 2, 4, 3]"
  by (subst add_layout_surfaces_places)
    (simp_all add: demo_surface_def wf_id_def layout_id_def place_def place_in_def get_str_from_jsonobj_def
      reference_id_def get_int_from_jsonobj_def)


section \<open>Ids stay unique\<close>

text \<open>
  The list: well-formed surfaces with different ids, at different addresses that are not free any
  more.
\<close>

definition list_ok :: "nat \<Rightarrow> 'd obj list \<Rightarrow> bool" where
  "list_ok n ly =
     (list_all (\<lambda>(a, j). wf_id j \<and> a < n) ly \<and> distinct (map (layout_id \<circ> snd) ly) \<and> distinct (map fst ly))"

abbreviation layout_ok :: "'d layout_state \<Rightarrow> bool" where
  "layout_ok st \<equiv> list_ok (ly_next st) (ly_list st)"

text \<open>What the window manager keeps to: the surfaces of a message have different, well-formed ids.\<close>

definition message_ok :: "'d json \<Rightarrow> bool" where
  "message_ok msg =
     (case json_elements (json_object_get msg ''surfaces'') of
        None \<Rightarrow> True | Some vs \<Rightarrow> list_all wf_id vs \<and> distinct (map layout_id vs))"

lemma list_ok_filter: "list_ok n ly \<Longrightarrow> list_ok n (filter P ly)"
  by (auto simp: list_ok_def list_all_iff distinct_map_filter)

lemma copies_fst: "map fst (copies n vs) = [n..<n + length vs]"
  by (simp add: copies_def)

lemma copies_ids: "map (layout_id \<circ> snd) (copies n vs) = map layout_id vs"
  by (simp flip: map_map)

lemma list_ok_copies:
  assumes "list_all wf_id vs" "distinct (map layout_id vs)"
  shows "list_ok (n + length vs) (copies n vs)"
proof -
  have "list_all (\<lambda>(a, j). wf_id j \<and> a < n + length vs) (copies n vs)"
    using assms(1) by (auto simp: list_all_iff copies_def dest: set_zip_leftD set_zip_rightD)
  then show ?thesis
    using assms(2) by (simp add: list_ok_def copies_fst copies_ids del: map_map)
qed

lemma list_ok_insert:
  assumes "list_ok n (us @ ws)" "list_all wf_id vs" "distinct (map layout_id vs)"
    and "\<forall>p \<in> set (us @ ws). layout_id (snd p) \<notin> layout_id ` set vs"
  shows "list_ok (n + length vs) (us @ rev (copies n vs) @ ws)"
proof -
  have 1: "list_ok (n + length vs) (copies n vs)"
    using assms(2,3) by (rule list_ok_copies)
  have "fst ` set (copies n vs) = {n..<n + length vs}"
    using arg_cong [OF copies_fst [of n vs], of set] by simp
  moreover have "\<forall>a \<in> fst ` set (us @ ws). a < n"
    using assms(1) by (auto simp: list_ok_def list_all_iff)
  ultimately have "fst ` set (us @ ws) \<inter> fst ` set (copies n vs) = {}"
    by (metis atLeastLessThan_iff disjoint_iff not_le)
  moreover have ids: "(layout_id \<circ> snd) ` set (copies n vs) = layout_id ` set vs"
    using arg_cong [OF copies_ids [of n vs], of set] by (simp only: set_map)
  have "(layout_id \<circ> snd) ` set (us @ ws) \<inter> (layout_id \<circ> snd) ` set (copies n vs) = {}"
    unfolding ids
  proof (rule Int_emptyI)
    fix i assume "i \<in> (layout_id \<circ> snd) ` set (us @ ws)" "i \<in> layout_id ` set vs"
    then obtain p where "p \<in> set (us @ ws)" "i = layout_id (snd p)"
      unfolding comp_def by blast
    with bspec [OF assms(4), of p] \<open>i \<in> layout_id ` set vs\<close> show False
      by simp
  qed
  moreover have "list_all (\<lambda>(a, j). wf_id j \<and> a < n + length vs) (us @ rev (copies n vs) @ ws)"
  proof -
    have "list_all (\<lambda>(a, j). wf_id j \<and> a < n + length vs) (us @ ws)"
      using assms(1) by (fastforce simp: list_ok_def intro: list.pred_mono_strong)
    then show ?thesis
      using 1 by (simp add: list_ok_def)
  qed
  ultimately show ?thesis
    using assms(1) 1 by (auto simp: list_ok_def rev_map [symmetric] Int_Un_distrib2)
qed

lemma set_properties_id: "json_object_get (set_properties v j) ''id'' = json_object_get j ''id''"
  by (simp add: set_properties_def layout_properties_def split: option.split)

lemma update_first_map:
  "(\<And>x. g (f x) = g x) \<Longrightarrow> map g (update_first p f xs) = map g xs"
  by (induction xs) auto

lemma list_ok_update:
  assumes "list_ok n ly"
  shows "list_ok n (update_first p (map_prod id (set_properties v)) ly)"
proof -
  let ?ly = "update_first p (map_prod id (set_properties v)) ly"
  have m: "map (\<lambda>(a, j). (a, json_object_get j ''id'')) ?ly = map (\<lambda>(a, j). (a, json_object_get j ''id'')) ly"
    by (rule update_first_map) (auto simp: set_properties_id)
  have 1: "map fst ?ly = map fst ly" "map (layout_id \<circ> snd) ?ly = map (layout_id \<circ> snd) ly"
    "map (\<lambda>(a, j). wf_id j \<and> a < n) ?ly = map (\<lambda>(a, j). wf_id j \<and> a < n) ly"
    by (rule update_first_map, auto simp: layout_id_def wf_id_def set_properties_id)+
  have "list_all P xs = list_all id (map P xs)" for P :: "'a obj \<Rightarrow> bool" and xs
    by (simp add: list_all_iff)
  then show ?thesis
    using assms 1 by (metis list_ok_def)
qed

lemma layout_ok_add:
  assumes "layout_ok st" "list_all wf_id vs" "distinct (map layout_id vs)"
  shows "layout_ok (add_layout_surfaces ops msg vs st)"
proof -
  let ?ref = "reference_id ops msg" and ?vs = "filter (\<lambda>v. layout_id v \<noteq> sint (reference_id ops msg)) vs"
  let ?ly = "filter (\<lambda>(_, j). layout_id j \<notin> layout_id ` set ?vs) (ly_list st)"
  let ?t = "add_target ops (get_str_from_jsonobj msg ''insert_order'') ?ref ?ly"
  have ly: "list_ok (ly_next st) ?ly"
    using assms(1) by (rule list_ok_filter)
  then have pos: "position_of ops ?ref 0 ?ly = Some i \<Longrightarrow> i < length ?ly" for i
    by (subst (asm) position_of_id) (auto simp: list_ok_def list_all_iff Let_def split: if_splits)
  have t: "?t \<le> length ?ly"
    using pos by (auto simp: add_target_def Suc_le_eq simp del: set_filter split: option.splits)
  have "list_ok (ly_next st + length ?vs) (take ?t ?ly @ rev (copies (ly_next st) ?vs) @ drop ?t ?ly)"
  proof (rule list_ok_insert)
    show "list_ok (ly_next st) (take ?t ?ly @ drop ?t ?ly)"
      using ly by simp
    show "list_all wf_id ?vs" "distinct (map layout_id ?vs)"
      using assms(2,3) by (auto simp: list_all_iff distinct_map_filter)
    show "\<forall>p \<in> set (take ?t ?ly @ drop ?t ?ly). layout_id (snd p) \<notin> layout_id ` set ?vs"
      unfolding append_take_drop_id by auto
  qed
  then show ?thesis
    by (simp add: add_layout_surfaces_def Let_def replace_loop_filters [OF assms(2)] insert_jsonarray [OF t]
        del: set_filter)
qed

lemma layout_ok_remove: "layout_ok st \<Longrightarrow> layout_ok (remove_layout_surfaces ops vs st)"
proof -
  have "list_ok n ly \<Longrightarrow> list_ok n (foldl (\<lambda>ly v. case get_int_from_jsonobj ops v ''id'' of
            None \<Rightarrow> ly | Some i \<Rightarrow> remove_jsonobj_with_int_key ''id'' i ly) ly vs)" for n ly
    by (induction vs arbitrary: ly) (auto simp: remove_id list_ok_filter split: option.split)
  then show "layout_ok st \<Longrightarrow> ?thesis"
    by (simp add: remove_layout_surfaces_def)
qed

lemma layout_ok_modify: "layout_ok st \<Longrightarrow> layout_ok (modify_layout_surfaces ops vs st)"
proof -
  have "list_ok n ly \<Longrightarrow> list_ok n (foldl (\<lambda>ly value. case layout_key ops value of
            None \<Rightarrow> ly
          | Some k \<Rightarrow> update_first (\<lambda>(_, j). layout_key ops j = Some k) (map_prod id (set_properties value)) ly)
        ly vs)" for n ly
    by (induction vs arbitrary: ly) (auto simp: list_ok_update split: option.split)
  then show "layout_ok st \<Longrightarrow> ?thesis"
    by (simp add: modify_layout_surfaces_def)
qed

lemma layout_ok_command:
  assumes "layout_ok st" "message_ok msg" "layout_command ops msg st = Some st'"
  shows "layout_ok st'"
  using assms
  by (auto simp: layout_command_def message_ok_def initial_layout_def list_ok_copies layout_ok_add
      layout_ok_remove layout_ok_modify split: option.splits json.splits if_splits)

definition layout_run :: "'d real_ops \<Rightarrow> 'd layout_env list \<Rightarrow> 'd layout_loop \<Rightarrow> 'd layout_loop" where
  "layout_run ops envs l = foldl (\<lambda>l env. layout_turn ops env l) l envs"

definition layout_start :: "'d layout_loop" where
  "layout_start = \<lparr> ll_state = \<lparr> ly_list = [], ly_next = 0, ly_safety = [] \<rparr>, ll_running = True, ll_fd = - 1,
     ll_polled = - 1, ll_open = [], ll_out = [] \<rparr>"

lemma layout_turn_ok:
  assumes "layout_ok (ll_state l)" "case le_recv env of None \<Rightarrow> True | Some msg \<Rightarrow> message_ok msg"
  shows "layout_ok (ll_state (layout_turn ops env l))"
  using assms layout_ok_command
  by (auto simp: layout_turn_def close_client_def Let_def split: option.split if_split)

lemma layout_run_ok:
  "layout_ok (ll_state l) \<Longrightarrow> list_all (\<lambda>env. case le_recv env of None \<Rightarrow> True | Some msg \<Rightarrow> message_ok msg) envs \<Longrightarrow>
   layout_ok (ll_state (layout_run ops envs l))"
  unfolding layout_run_def by (induction envs arbitrary: l) (auto simp: layout_turn_ok)

text \<open>
  C35. Whatever clients connect and disconnect and whatever commands they send, as long as the
  surfaces of one message have different ids of 32 bits, no two surfaces of the layout have the same id.
\<close>

theorem layout_ids_unique:
  assumes "list_all (\<lambda>env. case le_recv env of None \<Rightarrow> True | Some msg \<Rightarrow> message_ok msg) envs"
  shows "distinct (map (layout_id \<circ> snd) (ly_list (ll_state (layout_run ops envs layout_start))))"
proof -
  have "layout_ok (ll_state layout_start)"
    by (simp add: layout_start_def list_ok_def)
  from layout_run_ok [OF this assms] show ?thesis
    by (auto simp: list_ok_def)
qed

definition demo_message :: "string \<Rightarrow> string option \<Rightarrow> int json list \<Rightarrow> int json" where
  "demo_message c order vs =
     JObject ([(''command'', JString c), (''surfaces'', JArray vs), (''referenceID'', JInt 1)] @
       (case order of None \<Rightarrow> [] | Some s \<Rightarrow> [(''insert_order'', JString s)]))"

definition demo_env :: "int json option \<Rightarrow> int layout_env" where
  "demo_env r = \<lparr> le_poll_ok = True, le_term = False, le_accept = Some 7, le_data = True, le_recv = r \<rparr>"

definition demo_envs :: "int layout_env list" where
  "demo_envs =
     [(demo_env None)\<lparr>le_data := False\<rparr>,
      demo_env (Some (demo_message ''initial_layout'' None [demo_surface 1 ''a'', demo_surface 2 ''b''])),
      demo_env (Some (demo_message ''add_surface'' (Some ''before'') [demo_surface 2 ''c'', demo_surface 3 ''d'']))]"

lemma layout_ids_unique_witness:
  "distinct (map (layout_id \<circ> snd) (ly_list (ll_state (layout_run demo_real demo_envs layout_start)))) \<and>
   map (layout_id \<circ> snd) (ly_list (ll_state (layout_run demo_real demo_envs layout_start))) = [3, 2, 1]"
proof
  show "distinct (map (layout_id \<circ> snd) (ly_list (ll_state (layout_run demo_real demo_envs layout_start))))"
    by (rule layout_ids_unique)
      (simp add: demo_envs_def demo_env_def demo_message_def demo_surface_def message_ok_def wf_id_def layout_id_def)
  show "map (layout_id \<circ> snd) (ly_list (ll_state (layout_run demo_real demo_envs layout_start))) = [3, 2, 1]"
    by code_simp
qed

section \<open>The focus goes to the top\<close>

text \<open>A point hits a surface that is shown and whose destination contains it.\<close>

definition hit :: "'d real_ops \<Rightarrow> 'd \<Rightarrow> 'd \<Rightarrow> 'd obj list \<Rightarrow> 'd json \<Rightarrow> bool" where
  "hit ops x y surfaces j =
     (shown ops surfaces j \<and> (\<exists>sq. dst_square ops j = Some sq \<and> check_in_square ops x y sq))"

lemma find_rev_last:
  "find p (rev xs) = Some q \<Longrightarrow> \<exists>below above. xs = below @ q # above \<and> p q \<and> (\<forall>r \<in> set above. \<not> p r)"
proof (induction xs rule: rev_induct)
  case (snoc x xs)
  show ?case
  proof (cases "p x")
    case False
    with snoc obtain below above where "xs = below @ q # above" "p q" "\<forall>r \<in> set above. \<not> p r"
      by auto
    with False show ?thesis
      by (intro exI [of _ below] exI [of _ "above @ [x]"]) auto
  next
    case True
    with snoc.prems show ?thesis
      by (intro exI [of _ xs] exI [of _ "[]"]) simp
  qed
qed simp

lemma focus_loop_first:
  "list_all (\<lambda>(_, j). shown ops surfaces j \<longrightarrow> dst_square ops j \<noteq> None) ly \<Longrightarrow>
   focus_loop ops x y surfaces ly = Returned (map_option fst (find (\<lambda>(_, j). hit ops x y surfaces j) ly))"
  by (induction ops x y surfaces ly rule: focus_loop.induct) (auto simp: hit_def)



text \<open>
  A surface without a destination is drawn on the whole window, but looking for the focus reads
  uninitialised variables.
\<close>

lemma focus_uninitialised:
  "get_focus_rvgpu_layout demo_real 5 5 [(9, demo_surface 0 ''a'')]
     [(0, JObject [(''id'', JInt 1), (''rvgpu_surface_id'', JString ''a'')])] = Crashed ''uninitialised dst''"
  by code_simp

section \<open>The end of a connection\<close>

text \<open>
  When the client goes away, the loop forgets its descriptor without closing it and goes on polling
  it: every turn returns at once and does nothing.
\<close>

definition gone_env :: "'d layout_env" where
  "gone_env = \<lparr> le_poll_ok = True, le_term = False, le_accept = None, le_data = True, le_recv = None \<rparr>"

lemma layout_loop_spins:
  assumes "ll_running l" "ll_fd l = fd" "ll_polled l = fd" "0 \<le> fd" "fd \<in> set (ll_open l)"
  shows "layout_run ops (gone_env # replicate n gone_env) l = l\<lparr>ll_fd := - 1\<rparr>"
    and "ll_polled (l\<lparr>ll_fd := - 1\<rparr>) = fd" and "fd \<in> set (ll_open (l\<lparr>ll_fd := - 1\<rparr>))"
proof -
  have l: "layout_turn ops gone_env l = l\<lparr>ll_fd := - 1\<rparr>"
    using assms by (simp add: layout_turn_def gone_env_def)
  have "layout_turn ops gone_env (l\<lparr>ll_fd := - 1\<rparr>) = l\<lparr>ll_fd := - 1\<rparr>"
    using assms by (simp add: layout_turn_def gone_env_def)
  then have "layout_run ops (replicate n gone_env) (l\<lparr>ll_fd := - 1\<rparr>) = l\<lparr>ll_fd := - 1\<rparr>"
    by (induction n) (simp_all add: layout_run_def)
  then show "layout_run ops (gone_env # replicate n gone_env) l = l\<lparr>ll_fd := - 1\<rparr>"
    by (simp add: layout_run_def l)
qed (use assms in simp_all)

section \<open>Waiting for the layout\<close>

text \<open>
  With \<open>use_layout_sync\<close> the loop waits until the compositor has drawn: after the layout event is
  sent it sets the status to updating, without the lock, and waits until it is completed; the
  compositor sets it to completed after the next frame and signals the condition.  The steps of the
  two threads, with the status and whether the layout thread is asleep.
\<close>

datatype layout_status = LAYOUT_NOTHING | LAYOUT_UPDATING | LAYOUT_COMPLETED

datatype layout_pc = Send_event | Set_updating | Test_status | Asleep | Answered

record layout_sync =
  sy_pc :: layout_pc
  sy_events :: nat
  sy_status :: layout_status

inductive sync_step :: "layout_sync \<Rightarrow> layout_sync \<Rightarrow> bool" where
  send: "sy_pc s = Send_event \<Longrightarrow> sync_step s (s\<lparr>sy_pc := Set_updating, sy_events := sy_events s + 1\<rparr>)"
| update: "sy_pc s = Set_updating \<Longrightarrow> sync_step s (s\<lparr>sy_pc := Test_status, sy_status := LAYOUT_UPDATING\<rparr>)"
| sleep: "sy_pc s = Test_status \<Longrightarrow> sy_status s \<noteq> LAYOUT_COMPLETED \<Longrightarrow> sync_step s (s\<lparr>sy_pc := Asleep\<rparr>)"
| answer: "sy_pc s = Test_status \<Longrightarrow> sy_status s = LAYOUT_COMPLETED \<Longrightarrow> sync_step s (s\<lparr>sy_pc := Answered\<rparr>)"
| frame: "sy_events s \<noteq> 0 \<Longrightarrow>
    sync_step s (s\<lparr>sy_events := 0, sy_status := LAYOUT_COMPLETED,
                   sy_pc := if sy_pc s = Asleep then Test_status else sy_pc s\<rparr>)"

inductive_cases sync_stepE: "sync_step s t"

definition sync_start :: layout_sync where
  "sync_start = \<lparr> sy_pc = Send_event, sy_events = 0, sy_status = LAYOUT_NOTHING \<rparr>"

text \<open>
  The answer to a command can be lost: when the compositor draws the frame between the sending
  of the layout event and the store of the status, the store overwrites the completion, the layout
  thread sleeps, and no step is left: the window manager is never answered, and no command is read
  any more.
\<close>

theorem layout_sync_deadlock:
  "\<exists>s. sync_step\<^sup>*\<^sup>* sync_start s \<and> sy_pc s = Asleep \<and> (\<nexists>t. sync_step s t)"
proof -
  let ?s1 = "\<lparr> sy_pc = Set_updating, sy_events = 1, sy_status = LAYOUT_NOTHING \<rparr>"
  let ?s2 = "\<lparr> sy_pc = Set_updating, sy_events = 0, sy_status = LAYOUT_COMPLETED \<rparr>"
  let ?s3 = "\<lparr> sy_pc = Test_status, sy_events = 0, sy_status = LAYOUT_UPDATING \<rparr>"
  let ?s4 = "\<lparr> sy_pc = Asleep, sy_events = 0, sy_status = LAYOUT_UPDATING \<rparr>"
  have "sync_step sync_start ?s1"
    using sync_step.send [of sync_start] by (simp add: sync_start_def)
  moreover have "sync_step ?s1 ?s2" using sync_step.frame [of ?s1] by simp
  moreover have "sync_step ?s2 ?s3" using sync_step.update [of ?s2] by simp
  moreover have "sync_step ?s3 ?s4" using sync_step.sleep [of ?s3] by simp
  ultimately have "sync_step\<^sup>*\<^sup>* sync_start ?s4"
    by (meson converse_rtranclp_into_rtranclp rtranclp.rtrancl_refl)
  moreover have "\<nexists>t. sync_step ?s4 t"
    by (auto elim: sync_stepE)
  ultimately show ?thesis
    by (intro exI [of _ ?s4]) simp
qed

end
