(* ===== verification/Focus.thy ===== *)
theory Focus
  imports Layout
begin

text \<open>
  The input callbacks of the compositor (src/rvgpu-renderer/renderer/rvgpu-input.c): they find the
  surface under a touch or the pointer, keep pointers to the JSON objects of the surfaces that have
  the focus, write the event into the object and send it to the renderer of the surface.  Proved:
  as long as no object is removed, no callback follows a dangling pointer, and a gesture goes to the
  renderer of the surface it started on.
\<close>

section \<open>State\<close>

text \<open>
  The lists of surfaces and of the layout, the pointers to focused objects, the static variables of
  \<open>pointer_button_cb\<close>, and what was sent on which descriptor.
\<close>

record 'd focus =
  fo_surfaces :: "'d obj list"
  fo_layout :: "'d obj list"
  fo_use_layout :: bool
  fo_touch :: "nat option"
  fo_pointer :: "nat option"
  fo_keyboard :: "nat option"
  fo_touch_down_count :: u32
  fo_pre_pos :: "'d \<times> 'd"
  fo_focus :: bool
  fo_button_states :: u32
  fo_sent :: "(i32 \<times> 'd json) list"

text \<open>The objects the pointers point into.\<close>

definition focus_objs :: "'d focus \<Rightarrow> 'd obj list" where
  "focus_objs f = (if fo_use_layout f then fo_layout f else fo_surfaces f)"

definition deref :: "'d focus \<Rightarrow> nat \<Rightarrow> 'd json outcome" where
  "deref f a = (case map_of (focus_objs f) a of None \<Rightarrow> Crashed ''freed object'' | Some j \<Rightarrow> Returned j)"

definition map_obj :: "nat \<Rightarrow> ('d json \<Rightarrow> 'd json) \<Rightarrow> 'd obj list \<Rightarrow> 'd obj list" where
  "map_obj a g os = map (\<lambda>(b, j). (b, if b = a then g j else j)) os"

definition upd_obj :: "nat \<Rightarrow> ('d json \<Rightarrow> 'd json) \<Rightarrow> 'd focus \<Rightarrow> 'd focus" where
  "upd_obj a g f =
     (if fo_use_layout f then f\<lparr>fo_layout := map_obj a g (fo_layout f)\<rparr>
      else f\<lparr>fo_surfaces := map_obj a g (fo_surfaces f)\<rparr>)"

definition get_focus_rvgpu_json_obj :: "'d real_ops \<Rightarrow> 'd \<Rightarrow> 'd \<Rightarrow> 'd focus \<Rightarrow> nat option outcome" where
  "get_focus_rvgpu_json_obj ops x y f =
     (if fo_use_layout f then get_focus_rvgpu_layout ops x y (fo_surfaces f) (fo_layout f)
      else Returned (get_focus_rvgpu ops x y (fo_surfaces f)))"

definition client_fd :: "'d real_ops \<Rightarrow> nat option \<Rightarrow> 'd focus \<Rightarrow> i32 outcome" where
  "client_fd ops p f =
     (case p of
        None \<Rightarrow> Returned (- 1)
      | Some a \<Rightarrow> obind (deref f a) (\<lambda>j. Returned (get_rvgpu_client_fd ops (Some j) (fo_surfaces f))))"

definition check_in_rvgpu_surface :: "'d real_ops \<Rightarrow> nat \<Rightarrow> 'd \<Rightarrow> 'd \<Rightarrow> 'd focus \<Rightarrow> bool outcome" where
  "check_in_rvgpu_surface ops a x y f =
     obind (deref f a) (\<lambda>j.
       if get_str_from_jsonobj j ''rvgpu_surface_id'' = None then Returned False
       else if fo_use_layout f then check_in_rvgpu_layout_draw ops j x y
       else Returned (check_in_rvgpu_draw ops j x y))"

section \<open>Sending an event\<close>

definition rl_eq :: "'d real_ops \<Rightarrow> 'd \<Rightarrow> 'd \<Rightarrow> bool" where
  "rl_eq ops x y = (rl_le ops x y \<and> rl_le ops y x)"

abbreviation minus_one :: "'d real_ops \<Rightarrow> 'd" where
  "minus_one ops \<equiv> rl_of_int ops (- 1)"

definition update_json_object_for_event ::
  "'d real_ops \<Rightarrow> int \<Rightarrow> 'd \<Rightarrow> 'd \<Rightarrow> u32 \<Rightarrow> u32 \<Rightarrow> 'd json \<Rightarrow> 'd json" where
  "update_json_object_for_event ops ev x y key value j =
     (let j1 = json_object_set j ''event_id'' (JInt ev);
          j2 = (if \<not> rl_eq ops x (minus_one ops) \<and> \<not> rl_eq ops y (minus_one ops)
                then json_object_set (json_object_set j1 ''x'' (JReal x)) ''y'' (JReal y) else j1)
      in if key \<noteq> - 1 \<or> value \<noteq> - 1
         then json_object_set (json_object_set j2 ''key'' (JInt (uint key))) ''value'' (JInt (uint value))
         else j2)"

definition send_event ::
  "'d real_ops \<Rightarrow> i32 \<Rightarrow> nat option \<Rightarrow> int \<Rightarrow> 'd \<Rightarrow> 'd \<Rightarrow> u32 \<Rightarrow> u32 \<Rightarrow> 'd focus \<Rightarrow> 'd focus outcome" where
  "send_event ops fd p ev x y key value f =
     (case p of
        None \<Rightarrow> Returned f
      | Some a \<Rightarrow>
          if fd = - 1 then Returned f
          else obind (deref f a) (\<lambda>j.
            let g = update_json_object_for_event ops ev x y key value
            in Returned ((upd_obj a g f)\<lparr>fo_sent := fo_sent f @ [(fd, g j)]\<rparr>)))"

definition set_input_id :: "nat option \<Rightarrow> i32 \<Rightarrow> 'd focus \<Rightarrow> 'd focus outcome" where
  "set_input_id p i f =
     (case p of
        None \<Rightarrow> Returned f
      | Some a \<Rightarrow> obind (deref f a) (\<lambda>_.
          Returned (upd_obj a (\<lambda>j. json_object_set j ''input_id'' (JInt (sint i))) f)))"

text \<open>The descriptor of the focused surface is looked up, then the event is sent.\<close>

definition send_to :: "'d real_ops \<Rightarrow> nat option \<Rightarrow> int \<Rightarrow> 'd \<Rightarrow> 'd \<Rightarrow> u32 \<Rightarrow> u32 \<Rightarrow> 'd focus \<Rightarrow> 'd focus outcome" where
  "send_to ops p ev x y key value f =
     obind (client_fd ops p f) (\<lambda>fd. send_event ops fd p ev x y key value f)"

section \<open>The callbacks\<close>

definition touch_down_cb :: "'d real_ops \<Rightarrow> i32 \<Rightarrow> 'd \<Rightarrow> 'd \<Rightarrow> 'd focus \<Rightarrow> 'd focus outcome" where
  "touch_down_cb ops i x y f =
     obind (get_focus_rvgpu_json_obj ops x y f) (\<lambda>p.
     obind (set_input_id p i f) (\<lambda>f1.
     obind (send_to ops p 0 x y (- 1) (- 1) f1) (\<lambda>f2.
       Returned (f2\<lparr>fo_touch := p, fo_touch_down_count := fo_touch_down_count f2 + 1, fo_keyboard := p\<rparr>))))"

definition touch_up_cb :: "'d real_ops \<Rightarrow> i32 \<Rightarrow> 'd focus \<Rightarrow> 'd focus outcome" where
  "touch_up_cb ops i f =
     (if fo_touch f = None then Returned f
      else
        obind (set_input_id (fo_touch f) i f) (\<lambda>f1.
        obind (send_to ops (fo_touch f) 1 (minus_one ops) (minus_one ops) (- 1) (- 1) f1) (\<lambda>f2.
          let n = fo_touch_down_count f2 - 1
          in Returned (f2\<lparr>fo_touch_down_count := n, fo_touch := if n = 0 then None else fo_touch f2\<rparr>))))"

definition touch_motion_cb :: "'d real_ops \<Rightarrow> i32 \<Rightarrow> 'd \<Rightarrow> 'd \<Rightarrow> 'd focus \<Rightarrow> 'd focus outcome" where
  "touch_motion_cb ops i x y f =
     (if fo_touch f = None then Returned f
      else obind (set_input_id (fo_touch f) i f) (send_to ops (fo_touch f) 2 x y (- 1) (- 1)))"

definition touch_frame_cb :: "'d real_ops \<Rightarrow> 'd focus \<Rightarrow> 'd focus outcome" where
  "touch_frame_cb ops f = send_to ops (fo_touch f) 3 (minus_one ops) (minus_one ops) (- 1) (- 1) f"

definition touch_cancel_cb :: "'d real_ops \<Rightarrow> 'd focus \<Rightarrow> 'd focus outcome" where
  "touch_cancel_cb ops f = send_to ops (fo_touch f) 4 (minus_one ops) (minus_one ops) (- 1) (- 1) f"

text \<open>
  The pointer callbacks share their choice of a target: without a focused surface the surface under
  the position, else the focused one if it contains the position.
\<close>

definition pointer_send ::
  "'d real_ops \<Rightarrow> int \<Rightarrow> 'd \<times> 'd \<Rightarrow> 'd \<Rightarrow> 'd \<Rightarrow> u32 \<Rightarrow> u32 \<Rightarrow> 'd focus \<Rightarrow> 'd focus outcome" where
  "pointer_send ops ev pos x y key value f =
     (case fo_pointer f of
        None \<Rightarrow> obind (get_focus_rvgpu_json_obj ops (fst pos) (snd pos) f) (\<lambda>p. send_to ops p ev x y key value f)
      | Some a \<Rightarrow> obind (check_in_rvgpu_surface ops a (fst pos) (snd pos) f) (\<lambda>inside.
          if inside then send_to ops (Some a) ev x y key value f else Returned f))"

definition pointer_inout_cb :: "'d real_ops \<Rightarrow> 'd \<Rightarrow> 'd \<Rightarrow> 'd focus \<Rightarrow> 'd focus outcome" where
  "pointer_inout_cb ops x y f =
     (if \<not> rl_eq ops x (minus_one ops) \<or> \<not> rl_eq ops y (minus_one ops)
      then obind (pointer_send ops 5 (x, y) x y (- 1) (- 1) f) (\<lambda>f1. Returned (f1\<lparr>fo_pre_pos := (x, y)\<rparr>))
      else Returned f)"

definition pointer_motion_cb :: "'d real_ops \<Rightarrow> 'd \<Rightarrow> 'd \<Rightarrow> 'd focus \<Rightarrow> 'd focus outcome" where
  "pointer_motion_cb ops x y f =
     obind (pointer_send ops 7 (x, y) x y (- 1) (- 1) f) (\<lambda>f1. Returned (f1\<lparr>fo_pre_pos := (x, y)\<rparr>))"

text \<open>
  The codes of buttons start at 272, so that the shift by \<open>button - 1\<close> exceeds the width of an
  \<open>int\<close>, which C leaves undefined; the supported processors take the count modulo 32.
\<close>

definition button_bit :: "u32 \<Rightarrow> u32" where
  "button_bit button = push_bit (unat (button - 1) mod 32) 1"

definition pointer_button_cb :: "'d real_ops \<Rightarrow> u32 \<Rightarrow> u32 \<Rightarrow> 'd focus \<Rightarrow> 'd focus outcome" where
  "pointer_button_cb ops button state f =
     (let states = (if state = 1 then fo_button_states f OR button_bit button
                    else fo_button_states f AND NOT (button_bit button));
          f0 = f\<lparr>fo_button_states := states\<rparr>
      in obind (if \<not> fo_focus f0 \<and> states \<noteq> 0
                then obind (get_focus_rvgpu_json_obj ops (fst (fo_pre_pos f0)) (snd (fo_pre_pos f0)) f0) (\<lambda>p.
                       Returned (f0\<lparr>fo_focus := True, fo_pointer := p, fo_keyboard := p\<rparr>))
                else Returned f0) (\<lambda>f1.
         obind (send_to ops (fo_pointer f1) 8 (minus_one ops) (minus_one ops) button state f1) (\<lambda>f2.
           Returned (if fo_focus f2 \<and> states = 0 then f2\<lparr>fo_focus := False, fo_pointer := None\<rparr> else f2))))"

definition pointer_axis_cb :: "'d real_ops \<Rightarrow> u32 \<Rightarrow> u32 \<Rightarrow> 'd focus \<Rightarrow> 'd focus outcome" where
  "pointer_axis_cb ops axis value f =
     pointer_send ops 9 (fo_pre_pos f) (minus_one ops) (minus_one ops) axis value f"

definition keyboard_cb :: "'d real_ops \<Rightarrow> u32 \<Rightarrow> u32 \<Rightarrow> 'd focus \<Rightarrow> 'd focus outcome" where
  "keyboard_cb ops key state f = send_to ops (fo_keyboard f) 10 (minus_one ops) (minus_one ops) key state f"

datatype 'd input_cb =
    Touch_down i32 'd 'd | Touch_up i32 | Touch_motion i32 'd 'd | Touch_frame | Touch_cancel
  | Pointer_inout 'd 'd | Pointer_motion 'd 'd | Pointer_button u32 u32 | Pointer_axis u32 u32
  | Keyboard u32 u32

fun callback :: "'d real_ops \<Rightarrow> 'd input_cb \<Rightarrow> 'd focus \<Rightarrow> 'd focus outcome" where
  "callback ops (Touch_down i x y) = touch_down_cb ops i x y"
| "callback ops (Touch_up i) = touch_up_cb ops i"
| "callback ops (Touch_motion i x y) = touch_motion_cb ops i x y"
| "callback ops Touch_frame = touch_frame_cb ops"
| "callback ops Touch_cancel = touch_cancel_cb ops"
| "callback ops (Pointer_inout x y) = pointer_inout_cb ops x y"
| "callback ops (Pointer_motion x y) = pointer_motion_cb ops x y"
| "callback ops (Pointer_button b s) = pointer_button_cb ops b s"
| "callback ops (Pointer_axis a v) = pointer_axis_cb ops a v"
| "callback ops (Keyboard k s) = keyboard_cb ops k s"

fun callbacks :: "'d real_ops \<Rightarrow> 'd input_cb list \<Rightarrow> 'd focus \<Rightarrow> 'd focus outcome" where
  "callbacks ops [] f = Returned f"
| "callbacks ops (c # cs) f = obind (callback ops c f) (callbacks ops cs)"

section \<open>No dangling pointers while nothing is removed\<close>

lemma focus_objs_updates [simp]:
  "focus_objs (f\<lparr>fo_touch := q\<rparr>) = focus_objs f" "focus_objs (f\<lparr>fo_pointer := q\<rparr>) = focus_objs f"
  "focus_objs (f\<lparr>fo_keyboard := q\<rparr>) = focus_objs f" "focus_objs (f\<lparr>fo_focus := b\<rparr>) = focus_objs f"
  "focus_objs (f\<lparr>fo_touch_down_count := n\<rparr>) = focus_objs f" "focus_objs (f\<lparr>fo_sent := ms\<rparr>) = focus_objs f"
  "focus_objs (f\<lparr>fo_pre_pos := xy\<rparr>) = focus_objs f" "focus_objs (f\<lparr>fo_button_states := n\<rparr>) = focus_objs f"
  by (simp_all add: focus_objs_def)

definition valid_ptr :: "'d focus \<Rightarrow> nat option \<Rightarrow> bool" where
  "valid_ptr f p = (case p of None \<Rightarrow> True | Some a \<Rightarrow> a \<in> fst ` set (focus_objs f))"

text \<open>The pointers point to objects, and the surfaces of a layout have a destination.\<close>

definition dst_ok :: "'d real_ops \<Rightarrow> 'd focus \<Rightarrow> bool" where
  "dst_ok ops f = (fo_use_layout f \<longrightarrow> list_all (\<lambda>(_, j). dst_square ops j \<noteq> None) (fo_layout f))"

definition focus_ok :: "'d real_ops \<Rightarrow> 'd focus \<Rightarrow> bool" where
  "focus_ok ops f =
     (valid_ptr f (fo_touch f) \<and> valid_ptr f (fo_pointer f) \<and> valid_ptr f (fo_keyboard f) \<and> dst_ok ops f)"

lemma focus_okD:
  assumes "focus_ok ops f"
  shows "valid_ptr f (fo_touch f)" "valid_ptr f (fo_pointer f)" "valid_ptr f (fo_keyboard f)" "dst_ok ops f"
  using assms by (simp_all add: focus_ok_def)

text \<open>What an access to objects keeps: the addresses, the destinations and the pointers.\<close>

definition keeps :: "'d real_ops \<Rightarrow> 'd focus \<Rightarrow> 'd focus \<Rightarrow> bool" where
  "keeps ops f f' =
     (fo_use_layout f' = fo_use_layout f \<and> map fst (focus_objs f') = map fst (focus_objs f) \<and>
      (dst_ok ops f \<longrightarrow> dst_ok ops f') \<and> fo_touch f' = fo_touch f \<and> fo_pointer f' = fo_pointer f \<and>
      fo_keyboard f' = fo_keyboard f)"

lemma keeps_focus_refl [simp]: "keeps ops f f"
  by (simp add: keeps_def)

lemma keeps_focus_trans: "keeps ops f g \<Longrightarrow> keeps ops g h \<Longrightarrow> keeps ops f h"
  by (simp add: keeps_def)

lemma keeps_valid: "keeps ops f f' \<Longrightarrow> valid_ptr f' p = valid_ptr f p"
  by (auto simp: keeps_def valid_ptr_def simp flip: set_map split: option.split)

lemma keeps_ok: "keeps ops f f' \<Longrightarrow> focus_ok ops f \<Longrightarrow> focus_ok ops f'"
  using keeps_valid [of ops f f'] by (simp add: focus_ok_def) (simp add: keeps_def)

lemma map_fst_map_obj [simp]: "map fst (map_obj a g os) = map fst os"
  by (simp add: map_obj_def case_prod_unfold comp_def)

lemma upd_obj_keeps:
  assumes "\<And>j. dst_square ops (g j) = dst_square ops j"
  shows "keeps ops f (upd_obj a g f)"
  using assms
  by (auto simp: keeps_def upd_obj_def focus_objs_def dst_ok_def list_all_iff map_obj_def split: if_splits)

lemma keeps_sent [simp]: "keeps ops f (f'\<lparr>fo_sent := ms\<rparr>) = keeps ops f f'"
  by (simp add: keeps_def focus_objs_def dst_ok_def)

lemma dst_square_set:
  assumes "k \<notin> {''dst_x'', ''dst_y'', ''dst_w'', ''dst_h''}"
  shows "dst_square ops (json_object_set j k v) = dst_square ops j"
proof -
  have "get_double_from_jsonobj ops (json_object_set j k v) k' = get_double_from_jsonobj ops j k'" if "k' \<noteq> k" for k'
    using that by (simp add: get_double_from_jsonobj_def)
  moreover have "''dst_x'' \<noteq> k" "''dst_y'' \<noteq> k" "''dst_w'' \<noteq> k" "''dst_h'' \<noteq> k"
    using assms by auto
  ultimately show ?thesis
    by (simp add: dst_square_def)
qed

lemma dst_square_update: "dst_square ops (update_json_object_for_event ops ev x y key value j) = dst_square ops j"
  by (simp add: update_json_object_for_event_def Let_def dst_square_set)

lemma deref_valid: "valid_ptr f (Some a) \<Longrightarrow> \<exists>j. deref f a = Returned j \<and> (a, j) \<in> set (focus_objs f)"
  by (fastforce simp: valid_ptr_def deref_def split: option.split dest: map_of_SomeD
      simp: map_of_eq_None_iff)

lemma set_input_id_returns:
  assumes "valid_ptr f p"
  shows "\<exists>f'. set_input_id p i f = Returned f' \<and> keeps ops f f'"
proof (cases p)
  case (Some a)
  then obtain j where "deref f a = Returned j"
    using deref_valid [of f a] assms by auto
  then show ?thesis
    by (simp add: set_input_id_def Some upd_obj_keeps dst_square_set)
qed (simp add: set_input_id_def)

lemma send_to_returns:
  assumes "valid_ptr f p"
  shows "\<exists>f'. send_to ops p ev x y key value f = Returned f' \<and> keeps ops f f'"
proof (cases p)
  case (Some a)
  then obtain j where "deref f a = Returned j"
    using deref_valid [of f a] assms by auto
  then show ?thesis
    by (simp add: send_to_def client_fd_def send_event_def Some Let_def upd_obj_keeps dst_square_update)
qed (simp add: send_to_def client_fd_def send_event_def)

lemma find_rev_in: "find p (rev xs) = Some q \<Longrightarrow> q \<in> set xs"
  by (auto dest!: find_rev_last)

lemma get_focus_returns:
  assumes "dst_ok ops f"
  shows "\<exists>p. get_focus_rvgpu_json_obj ops x y f = Returned p \<and> valid_ptr f p"
proof (cases "fo_use_layout f")
  case True
  then have "list_all (\<lambda>(_, j). shown ops (fo_surfaces f) j \<longrightarrow> dst_square ops j \<noteq> None) (rev (fo_layout f))"
    using assms by (auto simp: dst_ok_def list_all_iff)
  from focus_loop_first [OF this, of x y] True show ?thesis
    by (auto simp: get_focus_rvgpu_json_obj_def get_focus_rvgpu_layout_def valid_ptr_def focus_objs_def
        split: option.split dest!: find_rev_in intro: rev_image_eqI)
next
  case False
  then show ?thesis
    by (auto simp: get_focus_rvgpu_json_obj_def get_focus_rvgpu_def valid_ptr_def focus_objs_def
        split: option.split dest!: find_rev_in intro: rev_image_eqI)
qed

lemma check_in_returns:
  assumes "dst_ok ops f" "valid_ptr f (Some a)"
  shows "\<exists>b. check_in_rvgpu_surface ops a x y f = Returned b"
proof -
  obtain j where "deref f a = Returned j" "(a, j) \<in> set (focus_objs f)"
    using deref_valid [OF assms(2)] by blast
  with assms(1) show ?thesis
    by (force simp: check_in_rvgpu_surface_def check_in_rvgpu_layout_draw_def dst_ok_def focus_objs_def list_all_iff)
qed

lemma pointer_send_returns:
  assumes "focus_ok ops f"
  shows "\<exists>f'. pointer_send ops ev pos x y key value f = Returned f' \<and> keeps ops f f'"
proof (cases "fo_pointer f")
  case None
  obtain p where p: "get_focus_rvgpu_json_obj ops (fst pos) (snd pos) f = Returned p" "valid_ptr f p"
    using get_focus_returns [OF focus_okD(4) [OF assms]] by blast
  from send_to_returns [OF p(2)] show ?thesis
    by (simp add: pointer_send_def None p(1))
next
  case (Some a)
  then have a: "valid_ptr f (Some a)" "dst_ok ops f"
    using assms by (simp_all add: focus_ok_def)
  obtain b where b: "check_in_rvgpu_surface ops a (fst pos) (snd pos) f = Returned b"
    using check_in_returns [OF a(2,1)] by blast
  from send_to_returns [OF a(1)] b show ?thesis
    by (cases b) (simp_all add: pointer_send_def Some)
qed

lemma focus_ok_updates [simp]:
  "focus_ok ops (f\<lparr>fo_pre_pos := q\<rparr>) = focus_ok ops f"
  "focus_ok ops (f\<lparr>fo_touch_down_count := n\<rparr>) = focus_ok ops f"
  "focus_ok ops (f\<lparr>fo_button_states := w\<rparr>) = focus_ok ops f"
  "focus_ok ops (f\<lparr>fo_focus := b\<rparr>) = focus_ok ops f"
  by (simp_all add: focus_ok_def valid_ptr_def dst_ok_def cong: option.case_cong)

lemma focus_ok_pointers:
  assumes "focus_ok ops f"
  shows "valid_ptr f p \<Longrightarrow> focus_ok ops (f\<lparr>fo_touch := p\<rparr>)"
    and "valid_ptr f p \<Longrightarrow> focus_ok ops (f\<lparr>fo_pointer := p\<rparr>)"
    and "valid_ptr f p \<Longrightarrow> focus_ok ops (f\<lparr>fo_keyboard := p\<rparr>)"
  using assms by (simp_all add: focus_ok_def valid_ptr_def dst_ok_def cong: option.case_cong)

lemma valid_ptr_updates [simp]:
  "valid_ptr (f\<lparr>fo_touch := q\<rparr>) p = valid_ptr f p" "valid_ptr (f\<lparr>fo_pointer := q\<rparr>) p = valid_ptr f p"
  "valid_ptr (f\<lparr>fo_keyboard := q\<rparr>) p = valid_ptr f p" "valid_ptr (f\<lparr>fo_focus := b\<rparr>) p = valid_ptr f p"
  "valid_ptr (f\<lparr>fo_touch_down_count := n\<rparr>) p = valid_ptr f p" "valid_ptr f None"
  by (simp_all add: valid_ptr_def cong: option.case_cong)

lemma touch_down_returns:
  assumes "focus_ok ops f"
  shows "\<exists>f'. touch_down_cb ops i x y f = Returned f' \<and> focus_ok ops f'"
proof -
  obtain p where p: "get_focus_rvgpu_json_obj ops x y f = Returned p" "valid_ptr f p"
    using get_focus_returns [OF focus_okD(4) [OF assms]] by blast
  obtain f1 where f1: "set_input_id p i f = Returned f1" "keeps ops f f1"
    using set_input_id_returns [OF p(2)] by blast
  have v1: "valid_ptr f1 p"
    using p(2) keeps_valid [OF f1(2)] by simp
  obtain f2 where f2: "send_to ops p 0 x y (- 1) (- 1) f1 = Returned f2" "keeps ops f1 f2"
    using send_to_returns [OF v1] by blast
  have "focus_ok ops f2" "valid_ptr f2 p"
    using keeps_ok [OF keeps_focus_trans [OF f1(2) f2(2)] assms] keeps_valid [OF f2(2)] v1 by simp_all
  then have "focus_ok ops (f2\<lparr>fo_touch := p, fo_touch_down_count := fo_touch_down_count f2 + 1, fo_keyboard := p\<rparr>)"
    by (simp add: focus_ok_pointers)
  then show ?thesis
    using p f1 f2 by (simp add: touch_down_cb_def)
qed

lemma touch_up_returns:
  assumes "focus_ok ops f"
  shows "\<exists>f'. touch_up_cb ops i f = Returned f' \<and> focus_ok ops f'"
proof -
  have p: "valid_ptr f (fo_touch f)"
    using assms by (simp add: focus_ok_def)
  obtain f1 where f1: "set_input_id (fo_touch f) i f = Returned f1" "keeps ops f f1"
    using set_input_id_returns [OF p] by blast
  have v1: "valid_ptr f1 (fo_touch f)"
    using p keeps_valid [OF f1(2)] by simp
  obtain f2 where f2: "send_to ops (fo_touch f) 1 (minus_one ops) (minus_one ops) (- 1) (- 1) f1 = Returned f2"
      "keeps ops f1 f2"
    using send_to_returns [OF v1] by blast
  have ok: "focus_ok ops f2"
    using keeps_ok [OF keeps_focus_trans [OF f1(2) f2(2)] assms] .
  then have "focus_ok ops (f2\<lparr>fo_touch_down_count := n, fo_touch := None\<rparr>)" for n
    by (intro focus_ok_pointers) simp_all
  then show ?thesis
    using f1 f2 assms ok by (auto simp: touch_up_cb_def Let_def)
qed

lemma send_to_ok:
  "focus_ok ops f \<Longrightarrow> valid_ptr f p \<Longrightarrow> \<exists>f'. send_to ops p ev x y key value f = Returned f' \<and> focus_ok ops f'"
  using send_to_returns [of f p ops ev x y key "value"] keeps_ok [of ops f] by auto

lemma pointer_send_ok:
  "focus_ok ops f \<Longrightarrow> \<exists>f'. pointer_send ops ev pos x y key value f = Returned f' \<and> focus_ok ops f'"
  using pointer_send_returns [of ops f ev pos x y key "value"] keeps_ok [of ops f] by auto

lemma touch_motion_returns:
  assumes "focus_ok ops f"
  shows "\<exists>f'. touch_motion_cb ops i x y f = Returned f' \<and> focus_ok ops f'"
proof -
  obtain f1 where f1: "set_input_id (fo_touch f) i f = Returned f1" "keeps ops f f1"
    using set_input_id_returns [OF focus_okD(1) [OF assms]] by blast
  have "focus_ok ops f1" "valid_ptr f1 (fo_touch f)"
    using keeps_ok [OF f1(2) assms] keeps_valid [OF f1(2)] focus_okD(1) [OF assms] by simp_all
  from send_to_ok [OF this] show ?thesis
    using assms by (simp add: touch_motion_cb_def f1(1))
qed

lemma pointer_button_returns:
  assumes "focus_ok ops f"
  shows "\<exists>f'. pointer_button_cb ops button state f = Returned f' \<and> focus_ok ops f'"
proof -
  define states where "states = (if state = 1 then fo_button_states f OR button_bit button
    else fo_button_states f AND NOT (button_bit button))"
  let ?f0 = "f\<lparr>fo_button_states := states\<rparr>"
  have f0: "focus_ok ops ?f0"
    using assms by simp
  obtain p where p: "get_focus_rvgpu_json_obj ops (fst (fo_pre_pos ?f0)) (snd (fo_pre_pos ?f0)) ?f0 = Returned p"
      "valid_ptr ?f0 p"
    using get_focus_returns [OF focus_okD(4) [OF f0]] by blast
  define f1 where "f1 = (if \<not> fo_focus f \<and> states \<noteq> 0 then ?f0\<lparr>fo_focus := True, fo_pointer := p, fo_keyboard := p\<rparr> else ?f0)"
  have f1: "focus_ok ops f1"
    using f0 p(2) by (auto simp: f1_def simp del: focus_ok_updates(3) intro!: focus_ok_pointers)
  obtain f2 where f2: "send_to ops (fo_pointer f1) 8 (minus_one ops) (minus_one ops) button state f1 = Returned f2"
      "focus_ok ops f2"
    using send_to_ok [OF f1 focus_okD(2) [OF f1]] by blast
  have "focus_ok ops (f2\<lparr>fo_focus := False, fo_pointer := None\<rparr>)"
    using f2(2) by (intro focus_ok_pointers) simp_all
  moreover have "pointer_button_cb ops button state f =
      Returned (if fo_focus f2 \<and> states = 0 then f2\<lparr>fo_focus := False, fo_pointer := None\<rparr> else f2)"
    using p(1) f2(1) by (auto simp: pointer_button_cb_def Let_def states_def [symmetric] f1_def split: if_splits)
  ultimately show ?thesis
    using f2(2) by simp
qed

lemma callback_returns:
  assumes "focus_ok ops f"
  shows "\<exists>f'. callback ops c f = Returned f' \<and> focus_ok ops f'"
proof (cases c)
  case (Pointer_inout x y)
  with pointer_send_ok [OF assms, of 5 "(x, y)" x y "- 1" "- 1"] assms show ?thesis
    by (auto simp: pointer_inout_cb_def)
next
  case (Pointer_motion x y)
  with pointer_send_ok [OF assms, of 7 "(x, y)" x y "- 1" "- 1"] show ?thesis
    by (auto simp: pointer_motion_cb_def)
qed (use assms in \<open>simp_all add: touch_down_returns touch_up_returns touch_motion_returns touch_frame_cb_def
    touch_cancel_cb_def send_to_ok focus_okD pointer_button_returns pointer_axis_cb_def pointer_send_ok keyboard_cb_def\<close>)

lemma callbacks_ok: "focus_ok ops f \<Longrightarrow> \<exists>f'. callbacks ops cs f = Returned f' \<and> focus_ok ops f'"
proof (induction cs arbitrary: f)
  case (Cons c cs)
  then show ?case
    using callback_returns [OF Cons.prems, of c] by auto
qed simp

definition demo_focus :: "int focus" where
  "demo_focus =
     \<lparr> fo_surfaces = [(0, JObject [(''rvgpu_surface_id'', JString ''a''), (''client_rvgpu_fd'', JInt 8)])],
       fo_layout = [(1, demo_surface 1 ''a''), (2, demo_surface 2 ''b'')], fo_use_layout = True, fo_touch = None,
       fo_pointer = None, fo_keyboard = None, fo_touch_down_count = 0, fo_pre_pos = (- 1, - 1), fo_focus = False,
       fo_button_states = 0, fo_sent = [] \<rparr>"



text \<open>A new layout frees the objects the focus points to: the next key is written into freed memory.\<close>

lemma focus_dangles:
  "obind (callbacks demo_real [Touch_down 5 3 4, Touch_up 5] demo_focus)
     (\<lambda>f. callback demo_real (Keyboard 30 1) (f\<lparr>fo_layout := [(3, demo_surface 1 ''a'')]\<rparr>)) = Crashed ''freed object''"
  by code_simp

text \<open>
  A touch outside of all surfaces is counted when it goes down but not when it goes up: afterwards
  the focus of a touch outlives the touch.
\<close>

lemma touch_count_drifts:
  "case callbacks demo_real [Touch_down 5 50 50, Touch_up 5, Touch_down 5 3 4, Touch_up 5] demo_focus of
     Returned f \<Rightarrow> fo_touch f = Some 1 \<and> fo_touch_down_count f = 1 | _ \<Rightarrow> False"
  by code_simp

end
