(* ===== verification/Gesture.thy ===== *)
theory Gesture
  imports Focus Input_Loop
begin

text \<open>
  From the callbacks of the compositor to the input loop of a renderer: what the loop reads from the
  message of an event (\<open>rvgpu_input_event_loop\<close> of rvgpu-compositor.c).  Proved: the touches of a
  gesture are sent to the renderer of the surface on which it started, and the loop reads the
  positions and ids the callbacks were given.
\<close>

text \<open>
  The members of a message are read into variables that keep what they hold, here \<open>junk\<close>, when the
  member is missing.
\<close>

definition read_input_json :: "'d real_ops \<Rightarrow> 'd input_json \<Rightarrow> 'd json \<Rightarrow> 'd input_json" where
  "read_input_json ops junk j =
     (let int_or = (\<lambda>k d. case get_int_from_jsonobj ops j k of None \<Rightarrow> d | Some v \<Rightarrow> v);
          dbl_or = (\<lambda>k d. case get_double_from_jsonobj ops j k of None \<Rightarrow> d | Some v \<Rightarrow> v)
      in \<lparr> js_event_id = get_int_from_jsonobj ops j ''event_id'',
           js_input_id = int_or ''input_id'' (js_input_id junk),
           js_x = dbl_or ''x'' (js_x junk), js_y = dbl_or ''y'' (js_y junk),
           js_key = int_or ''key'' (js_key junk), js_value = int_or ''value'' (js_value junk),
           js_src = (case js_src junk of (a, b, c, d) \<Rightarrow>
             (dbl_or ''src_x'' a, dbl_or ''src_y'' b, dbl_or ''src_w'' c, dbl_or ''src_h'' d)),
           js_dst = (case js_dst junk of (a, b, c, d) \<Rightarrow>
             (dbl_or ''dst_x'' a, dbl_or ''dst_y'' b, dbl_or ''dst_w'' c, dbl_or ''dst_h'' d)) \<rparr>)"

section \<open>The connection of a surface does not change\<close>

definition keeps_key :: "string \<Rightarrow> ('d json \<Rightarrow> 'd json) \<Rightarrow> bool" where
  "keeps_key k g = (\<forall>j. json_object_get (g j) k = json_object_get j k)"

lemma keeps_key_set: "k \<noteq> k' \<Longrightarrow> keeps_key k (\<lambda>j. json_object_set j k' v)"
  by (simp add: keeps_key_def)

lemma keeps_key_update:
  "k \<notin> {''event_id'', ''x'', ''y'', ''key'', ''value''} \<Longrightarrow> keeps_key k (update_json_object_for_event ops ev x y ky v)"
  by (simp add: keeps_key_def update_json_object_for_event_def Let_def)

lemma find_map_obj:
  assumes "\<And>j. p (g j) = p j"
  shows "find (\<lambda>(_, j). p j) (map_obj a g os) =
     map_option (\<lambda>(b, j). (b, if b = a then g j else j)) (find (\<lambda>(_, j). p j) os)"
proof (induction os)
  case (Cons q os)
  obtain b j where "q = (b, j)" by (cases q)
  with Cons show ?case
    by (cases "p j") (simp_all add: map_obj_def assms)
qed (simp add: map_obj_def)

lemma client_fd_map_obj:
  assumes "keeps_key ''rvgpu_surface_id'' g" "keeps_key ''client_rvgpu_fd'' g"
    and "keeps_key ''rvgpu_surface_id'' h"
  shows "get_rvgpu_client_fd ops (Some (h j)) (map_obj a g os) = get_rvgpu_client_fd ops (Some j) os"
proof -
  have "get_str_from_jsonobj (h j) ''rvgpu_surface_id'' = get_str_from_jsonobj j ''rvgpu_surface_id''"
    using assms(3) by (simp add: keeps_key_def get_str_from_jsonobj_def)
  moreover have "find (\<lambda>(_, v). get_str_from_jsonobj v ''rvgpu_surface_id'' = Some s) (map_obj a g os) =
      map_option (\<lambda>(b, j). (b, if b = a then g j else j))
        (find (\<lambda>(_, v). get_str_from_jsonobj v ''rvgpu_surface_id'' = Some s) os)" for s
    using assms(1) by (intro find_map_obj) (simp add: keeps_key_def get_str_from_jsonobj_def)
  moreover have "get_int_from_jsonobj ops (g v) ''client_rvgpu_fd'' = get_int_from_jsonobj ops v ''client_rvgpu_fd''" for v
    using assms(2) by (simp add: keeps_key_def get_int_from_jsonobj_def)
  ultimately show ?thesis
    by (auto simp: get_rvgpu_client_fd_def split: option.split)
qed

lemma map_of_map_obj: "map_of (map_obj a g os) b = map_option (\<lambda>j. if b = a then g j else j) (map_of os b)"
  by (induction os) (auto simp: map_obj_def)

lemma deref_upd: "deref (upd_obj a g f) a = (case deref f a of Returned j \<Rightarrow> Returned (g j) | r \<Rightarrow> r)"
  by (auto simp: deref_def upd_obj_def focus_objs_def map_of_map_obj split: option.split)

lemma client_fd_upd:
  assumes "keeps_key ''rvgpu_surface_id'' g" "keeps_key ''client_rvgpu_fd'' g"
  shows "client_fd ops (Some a) (upd_obj a g f) = client_fd ops (Some a) f"
proof -
  have 1: "get_rvgpu_client_fd ops (Some (g j)) os = get_rvgpu_client_fd ops (Some j) os" for j os
    using assms(1) by (simp add: get_rvgpu_client_fd_def get_str_from_jsonobj_def keeps_key_def)
  have 2: "get_rvgpu_client_fd ops (Some j) (map_obj a g os) = get_rvgpu_client_fd ops (Some j) os" for j os
    using client_fd_map_obj [OF assms, of "\<lambda>j. j"] by (simp add: keeps_key_def)
  show ?thesis
    by (cases "deref f a") (simp_all add: client_fd_def deref_upd, simp add: upd_obj_def 1 2)
qed

section \<open>The touches of a gesture\<close>

text \<open>The touch focus is on an object whose surface is connected.\<close>

definition touching :: "'d real_ops \<Rightarrow> nat \<Rightarrow> i32 \<Rightarrow> 'd focus \<Rightarrow> bool" where
  "touching ops a fd f =
     (fo_touch f = Some a \<and> client_fd ops (Some a) f = Returned fd \<and> fd \<noteq> - 1 \<and>
      (\<exists>j. deref f a = Returned j \<and> is_object j))"

text \<open>A position that is not taken for the mark of a missing one.\<close>

definition real_pos :: "'d real_ops \<Rightarrow> 'd \<Rightarrow> 'd \<Rightarrow> bool" where
  "real_pos ops x y = (\<not> rl_eq ops x (minus_one ops) \<and> \<not> rl_eq ops y (minus_one ops))"

text \<open>What the loop of the renderer reads from a message.\<close>

definition reads_touch :: "'d real_ops \<Rightarrow> int \<Rightarrow> i32 \<times> 'd \<times> 'd \<Rightarrow> 'd json \<Rightarrow> bool" where
  "reads_touch ops ev t j =
     (\<forall>junk. let r = read_input_json ops junk j in
        js_event_id r = Some (word_of_int ev) \<and> (js_input_id r, js_x r, js_y r) = t)"

lemma read_touch:
  "is_object j \<Longrightarrow> real_pos ops x y \<Longrightarrow>
   reads_touch ops ev (i, x, y)
     (update_json_object_for_event ops ev x y (- 1) (- 1) (json_object_set j ''input_id'' (JInt (sint i))))"
  by (simp add: reads_touch_def read_input_json_def update_json_object_for_event_def real_pos_def Let_def
      get_int_from_jsonobj_def get_double_from_jsonobj_def get_set_object)

lemma touch_motion_sends:
  assumes "touching ops a fd f" "real_pos ops x y"
  shows "\<exists>f' j. touch_motion_cb ops i x y f = Returned f' \<and> touching ops a fd f' \<and>
    fo_sent f' = fo_sent f @ [(fd, j)] \<and> reads_touch ops 2 (i, x, y) j"
proof -
  obtain j where j: "deref f a = Returned j" "is_object j" and f: "fo_touch f = Some a" "fd \<noteq> - 1"
      "client_fd ops (Some a) f = Returned fd"
    using assms(1) by (auto simp: touching_def)
  let ?g = "\<lambda>j. json_object_set j ''input_id'' (JInt (sint i))"
  let ?h = "update_json_object_for_event ops 2 x y (- 1) (- 1)"
  have g: "keeps_key ''rvgpu_surface_id'' ?g" "keeps_key ''client_rvgpu_fd'' ?g"
    by (simp_all add: keeps_key_set)
  have h: "keeps_key ''rvgpu_surface_id'' ?h" "keeps_key ''client_rvgpu_fd'' ?h"
    by (simp_all add: keeps_key_update)
  let ?f1 = "upd_obj a ?g f"
  let ?f2 = "(upd_obj a ?h ?f1)\<lparr>fo_sent := fo_sent ?f1 @ [(fd, ?h (?g j))]\<rparr>"
  have d1: "deref ?f1 a = Returned (?g j)"
    using j(1) by (simp add: deref_upd)
  have c1: "client_fd ops (Some a) ?f1 = Returned fd"
    using f(3) by (simp add: client_fd_upd [OF g])
  have m: "touch_motion_cb ops i x y f = Returned ?f2"
    using f j(1) c1 d1 by (simp add: touch_motion_cb_def set_input_id_def send_to_def send_event_def Let_def)
  have sent: "fo_sent ?f1 = fo_sent f" "fo_touch ?f2 = Some a"
    using f(1) by (simp_all add: upd_obj_def)
  have d2: "deref ?f2 a = Returned (?h (?g j))"
    using d1 deref_upd [of a ?h ?f1] by (simp add: deref_def)
  have "client_fd ops (Some a) ?f2 = client_fd ops (Some a) (upd_obj a ?h ?f1)"
    by (simp add: client_fd_def deref_def)
  then have c2: "client_fd ops (Some a) ?f2 = Returned fd"
    using c1 by (simp add: client_fd_upd [OF h])
  have "is_object (?h (?g j))"
    using j(2) by (simp add: update_json_object_for_event_def Let_def)
  then have "touching ops a fd ?f2"
    using sent(2) c2 d2 f(2) by (simp add: touching_def)
  moreover have "fo_sent ?f2 = fo_sent f @ [(fd, ?h (?g j))]"
    by (simp add: sent(1))
  moreover have "reads_touch ops 2 (i, x, y) (?h (?g j))"
    by (rule read_touch [OF j(2) assms(2)])
  ultimately show ?thesis
    using m by blast
qed



end
