(* ===== verification/Render2d.thy ===== *)
theory Render2d
  imports Prelude Complex_Main
begin

text \<open>
  The matrices of the 2D renderer (src/rvgpu-renderer/renderer/rvgpu-render2d.c): 4 by 4 matrices as
  arrays of 16 numbers, column by column.  The operations are translated for any type with the
  arithmetic operations, without laws, so that they describe the single precision code; what is
  proved holds for exact arithmetic, in any field.  Proved: each operation multiplies by its
  matrix, the special cases of the rotation agree with the general one, the product may overwrite
  either factor, and a texture is drawn exactly on its destination rectangle.
\<close>

section \<open>Operations\<close>

definition matrix_identity :: "'a :: {zero, one} list" where
  "matrix_identity = [1, 0, 0, 0, 0, 1, 0, 0, 0, 0, 1, 0, 0, 0, 0, 1]"

definition matrix_translate :: "'a :: {plus, times} list \<Rightarrow> 'a \<Rightarrow> 'a \<Rightarrow> 'a \<Rightarrow> 'a list" where
  "matrix_translate m x y z =
     m[12 := m ! 12 + m ! 8 * z + m ! 4 * y + m ! 0 * x,
       13 := m ! 13 + m ! 9 * z + m ! 5 * y + m ! 1 * x,
       14 := m ! 14 + m ! 10 * z + m ! 6 * y + m ! 2 * x,
       15 := m ! 15 + m ! 11 * z + m ! 7 * y + m ! 3 * x]"

definition turn_x :: "'a :: {plus, minus, times} list \<Rightarrow> 'a \<Rightarrow> 'a \<Rightarrow> 'a list" where
  "turn_x m cosA sinA =
     m[4 := sinA * m ! 8 + cosA * m ! 4, 8 := cosA * m ! 8 - sinA * m ! 4,
       5 := sinA * m ! 9 + cosA * m ! 5, 9 := cosA * m ! 9 - sinA * m ! 5,
       6 := sinA * m ! 10 + cosA * m ! 6, 10 := cosA * m ! 10 - sinA * m ! 6,
       7 := sinA * m ! 11 + cosA * m ! 7, 11 := cosA * m ! 11 - sinA * m ! 7]"

definition turn_y :: "'a :: {plus, uminus, times} list \<Rightarrow> 'a \<Rightarrow> 'a \<Rightarrow> 'a list" where
  "turn_y m cosA sinA =
     m[0 := - sinA * m ! 8 + cosA * m ! 0, 8 := cosA * m ! 8 + sinA * m ! 0,
       1 := - sinA * m ! 9 + cosA * m ! 1, 9 := cosA * m ! 9 + sinA * m ! 1,
       2 := - sinA * m ! 10 + cosA * m ! 2, 10 := cosA * m ! 10 + sinA * m ! 2,
       3 := - sinA * m ! 11 + cosA * m ! 3, 11 := cosA * m ! 11 + sinA * m ! 3]"

definition turn_z :: "'a :: {plus, minus, times} list \<Rightarrow> 'a \<Rightarrow> 'a \<Rightarrow> 'a list" where
  "turn_z m cosA sinA =
     m[0 := sinA * m ! 4 + cosA * m ! 0, 4 := cosA * m ! 4 - sinA * m ! 0,
       1 := sinA * m ! 5 + cosA * m ! 1, 5 := cosA * m ! 5 - sinA * m ! 1,
       2 := sinA * m ! 6 + cosA * m ! 2, 6 := cosA * m ! 6 - sinA * m ! 2,
       3 := sinA * m ! 7 + cosA * m ! 3, 7 := cosA * m ! 7 - sinA * m ! 3]"

text \<open>\<open>vec3_normalize\<close>; the square root is a parameter, like sine and cosine below.\<close>

definition vec3_normalize ::
  "('a \<Rightarrow> 'a) \<Rightarrow> 'a \<times> 'a \<times> 'a \<Rightarrow> 'a \<times> 'a \<times> ('a :: {zero, one, plus, times, inverse})" where
  "vec3_normalize sqrt_op v =
     (case v of (x, y, z) \<Rightarrow>
        let len = sqrt_op (x * x + y * y + z * z)
        in if len = 0 then v else let invLen = 1 / len in (x * invLen, y * invLen, z * invLen))"

text \<open>The rotation about any axis: a row of the matrix times the 3 by 3 rotation, for the four rows.\<close>

definition rotate_rows ::
  "'a :: {plus, times} list \<Rightarrow> ('a \<times> 'a \<times> 'a) \<times> ('a \<times> 'a \<times> 'a) \<times> ('a \<times> 'a \<times> 'a) \<Rightarrow> 'a list" where
  "rotate_rows m r =
     (case r of ((r00, r01, r02), (r10, r11, r12), (r20, r21, r22)) \<Rightarrow>
        foldl (\<lambda>m i.
          let fm0 = m ! i; fm1 = m ! (i + 4); fm2 = m ! (i + 8)
          in m[i := fm0 * r00 + fm1 * r10 + fm2 * r20, i + 4 := fm0 * r01 + fm1 * r11 + fm2 * r21,
               i + 8 := fm0 * r02 + fm1 * r12 + fm2 * r22]) m [0, 1, 2, 3])"

definition rotate_general ::
  "('a \<Rightarrow> 'a) \<Rightarrow> 'a list \<Rightarrow> 'a \<Rightarrow> 'a \<Rightarrow> 'a \<times> 'a \<times> 'a \<Rightarrow> ('a :: {zero, one, plus, minus, times, inverse}) list" where
  "rotate_general sqrt_op m cosA sinA v =
     (case vec3_normalize sqrt_op v of (x, y, z) \<Rightarrow>
        let cosA2 = 1 - cosA; xsinA = x * sinA; ysinA = y * sinA; zsinA = z * sinA;
            xcosA2 = x * cosA2; ycosA2 = y * cosA2; zcosA2 = z * cosA2
        in rotate_rows m
             ((x * xcosA2 + cosA, x * ycosA2 - zsinA, x * zcosA2 + ysinA),
              (y * xcosA2 + zsinA, y * ycosA2 + cosA, y * zcosA2 - xsinA),
              (z * xcosA2 - ysinA, z * ycosA2 + xsinA, z * zcosA2 + cosA)))"

text \<open>\<open>matrix_rotate\<close>, with the cosine and the sine of the angle.\<close>

definition matrix_rotate ::
  "('a \<Rightarrow> 'a) \<Rightarrow> 'a list \<Rightarrow> 'a \<Rightarrow> 'a \<Rightarrow> 'a \<times> 'a \<times> 'a \<Rightarrow>
     ('a :: {zero, one, plus, minus, uminus, times, inverse, ord}) list" where
  "matrix_rotate sqrt_op m cosA sinA v =
     (case v of (x, y, z) \<Rightarrow>
        if x = 0 \<and> y = 0 \<and> z \<noteq> 0 then turn_z m cosA (if z < 0 then - sinA else sinA)
        else if x = 0 \<and> y \<noteq> 0 \<and> z = 0 then turn_y m cosA (if y < 0 then - sinA else sinA)
        else if x \<noteq> 0 \<and> y = 0 \<and> z = 0 then turn_x m cosA (if x < 0 then - sinA else sinA)
        else rotate_general sqrt_op m cosA sinA v)"

definition matrix_scale :: "'a :: times list \<Rightarrow> 'a \<Rightarrow> 'a \<Rightarrow> 'a \<Rightarrow> 'a list" where
  "matrix_scale m x y z =
     m[0 := m ! 0 * x, 4 := m ! 4 * y, 8 := m ! 8 * z,
       1 := m ! 1 * x, 5 := m ! 5 * y, 9 := m ! 9 * z,
       2 := m ! 2 * x, 6 := m ! 6 * y, 10 := m ! 10 * z,
       3 := m ! 3 * x, 7 := m ! 7 * y, 11 := m ! 11 * z]"

text \<open>
  \<open>matrix_mult\<close> on a memory of arrays, since the result may be one of the factors: the second factor is
  loaded at once, and of the first the next row is loaded before the current row is stored.
\<close>

type_synonym 'a arrays = "nat \<Rightarrow> 'a list"

definition load_row :: "'a list \<Rightarrow> nat \<Rightarrow> 'a \<times> 'a \<times> 'a \<times> 'a" where
  "load_row m i = (m ! i, m ! (i + 4), m ! (i + 8), m ! (i + 12))"

definition row_product ::
  "'a \<times> 'a \<times> 'a \<times> 'a \<Rightarrow> 'a list \<Rightarrow> 'a \<times> 'a \<times> 'a \<times> ('a :: {plus, times})" where
  "row_product row p =
     (case row of (fm0, fm1, fm2, fm3) \<Rightarrow>
        let col = (\<lambda>c. fm0 * p ! (4 * c) + fm1 * p ! (4 * c + 1) + fm2 * p ! (4 * c + 2) + fm3 * p ! (4 * c + 3))
        in (col 0, col 1, col 2, col 3))"

definition store_row :: "nat \<Rightarrow> 'a \<times> 'a \<times> 'a \<times> 'a \<Rightarrow> 'a list \<Rightarrow> 'a list" where
  "store_row i row m = (case row of (x, y, z, w) \<Rightarrow> m[i := x, i + 4 := y, i + 8 := z, i + 12 := w])"

definition matrix_mult :: "nat \<Rightarrow> nat \<Rightarrow> nat \<Rightarrow> ('a :: {plus, times}) arrays \<Rightarrow> 'a arrays" where
  "matrix_mult m m1 m2 st =
     (let fpm = st m2;
          fm = load_row (st m1) 0;
          res = row_product fm fpm; fm' = load_row (st m1) 1;
          st1 = st(m := store_row 0 res (st m));
          res1 = row_product fm' fpm; fm'' = load_row (st1 m1) 2;
          st2 = st1(m := store_row 1 res1 (st1 m));
          res2 = row_product fm'' fpm; fm''' = load_row (st2 m1) 3;
          st3 = st2(m := store_row 2 res2 (st2 m));
          res3 = row_product fm''' fpm
      in st3(m := store_row 3 res3 (st3 m)))"

section \<open>Drawing\<close>

definition set_2d_projection_matrix :: "'a \<Rightarrow> 'a \<Rightarrow> ('a :: {zero, one, plus, uminus, inverse}) list" where
  "set_2d_projection_matrix w h =
     [(1 + 1) / w, 0, 0, 0, 0, - (1 + 1) / h, 0, 0, 0, 0, 0, 0, - 1, 1, 0, 1]"

text \<open>
  The matrix that \<open>draw_2d_texture_in\<close> hands to the shader, from the destination, the rotation and
  its pivot; array 0 is its local matrix, array 1 the projection.  The drawing functions below leave
  the rotation at 0.
\<close>

definition draw_matrix ::
  "('a \<Rightarrow> 'a) \<Rightarrow> ('a \<Rightarrow> 'a \<times> 'a) \<Rightarrow> 'a list \<Rightarrow> 'a \<times> 'a \<times> 'a \<Rightarrow> 'a \<times> 'a \<times> 'a \<times> 'a \<Rightarrow>
     ('a :: {zero, one, plus, minus, uminus, times, inverse, ord}) list" where
  "draw_matrix sqrt_op cos_sin prj rotation dst =
     (case (rotation, dst) of ((rot, px, py), (x, y, w, h)) \<Rightarrow>
        let m = matrix_translate matrix_identity x y 0;
            m = (if rot \<noteq> 0
                 then case cos_sin rot of (cosA, sinA) \<Rightarrow>
                        matrix_translate
                          (matrix_rotate sqrt_op (matrix_translate m px py 0) cosA sinA (0, 0, 1)) (- px) (- py) 0
                 else m);
            m = matrix_scale m w h 1
        in matrix_mult 0 1 0 (\<lambda>i. if i = 0 then m else prj) 0)"

text \<open>
  The texture coordinates of the four corners: those of \<open>draw_2d_texture_layout\<close>, which replace the
  flipped ones of \<open>flip_texcoord\<close>.
\<close>

definition layout_texcoord ::
  "'a \<Rightarrow> 'a \<Rightarrow> 'a \<times> 'a \<times> 'a \<times> 'a \<Rightarrow> ('a :: {plus, inverse}) list" where
  "layout_texcoord width height src =
     (case src of (x, y, w, h) \<Rightarrow>
        [x / width, y / height, x / width, (y + h) / height, (x + w) / width, y / height,
         (x + w) / width, (y + h) / height])"

definition flip_texcoord :: "bool \<Rightarrow> bool \<Rightarrow> ('a :: {one, minus}) list \<Rightarrow> 'a list" where
  "flip_texcoord flip_v flip_h uv =
     (let v = (if flip_v then uv[1 := 1 - uv ! 1, 3 := 1 - uv ! 3, 5 := 1 - uv ! 5, 7 := 1 - uv ! 7] else uv)
      in if flip_h then v[0 := 1 - v ! 0, 2 := 1 - v ! 2, 4 := 1 - v ! 4, 6 := 1 - v ! 6] else v)"

definition varray :: "('a :: {zero, one}) list" where
  "varray = [0, 0, 0, 1, 1, 0, 1, 1]"

section \<open>Products of matrices\<close>

definition mat_mul :: "'a :: comm_ring_1 list \<Rightarrow> 'a list \<Rightarrow> 'a list" where
  "mat_mul a b = map (\<lambda>i. \<Sum>k<4. a ! (4 * k + i mod 4) * b ! (4 * (i div 4) + k)) [0..<16]"

definition mat_vec :: "'a :: comm_ring_1 list \<Rightarrow> 'a list \<Rightarrow> 'a list" where
  "mat_vec a v = map (\<lambda>i. \<Sum>k<4. a ! (4 * k + i) * v ! k) [0..<4]"

definition translation :: "'a :: comm_ring_1 \<Rightarrow> 'a \<Rightarrow> 'a \<Rightarrow> 'a list" where
  "translation x y z = [1, 0, 0, 0, 0, 1, 0, 0, 0, 0, 1, 0, x, y, z, 1]"

definition scaling :: "'a :: comm_ring_1 \<Rightarrow> 'a \<Rightarrow> 'a \<Rightarrow> 'a list" where
  "scaling x y z = [x, 0, 0, 0, 0, y, 0, 0, 0, 0, z, 0, 0, 0, 0, 1]"

definition rotation :: "('a \<times> 'a \<times> 'a) \<times> ('a \<times> 'a \<times> 'a) \<times> ('a \<times> 'a \<times> 'a) \<Rightarrow> 'a :: comm_ring_1 list" where
  "rotation r = (case r of ((r00, r01, r02), (r10, r11, r12), (r20, r21, r22)) \<Rightarrow>
     [r00, r10, r20, 0, r01, r11, r21, 0, r02, r12, r22, 0, 0, 0, 0, 1])"

lemma list16:
  assumes "length (m :: 'a list) = 16"
  obtains a b c d e f g h i j k l n p q r where "m = [a, b, c, d, e, f, g, h, i, j, k, l, n, p, q, r]"
  using assms by (auto simp: numeral_eq_Suc length_Suc_conv)

lemma upt16: "[0..<16] = [0, 1, 2, 3, 4, 5, 6, 7, 8, 9, 10, 11, 12, 13, 14, 15]"
  by code_simp

lemma sum4: "(\<Sum>k<4. f k) = f 0 + f 1 + f 2 + (f (3 :: nat) :: 'a :: comm_ring_1)"
  by (simp add: numeral_eq_Suc)

lemmas mat_eval = mat_mul_def mat_vec_def upt16 sum4 algebra_simps

lemma matrix_translate_mul:
  "length m = 16 \<Longrightarrow> matrix_translate m x y z = mat_mul m (translation x y z)"
  by (elim list16) (simp add: matrix_translate_def translation_def mat_eval)

lemma matrix_scale_mul:
  "length m = 16 \<Longrightarrow> matrix_scale m x y z = mat_mul m (scaling x y z)"
  by (elim list16) (simp add: matrix_scale_def scaling_def mat_eval)

lemma turn_x_mul:
  "length m = 16 \<Longrightarrow> turn_x m c s = mat_mul m (rotation ((1, 0, 0), (0, c, - s), (0, s, c)))"
  by (elim list16) (simp add: turn_x_def rotation_def mat_eval)

lemma turn_y_mul:
  "length m = 16 \<Longrightarrow> turn_y m c s = mat_mul m (rotation ((c, 0, s), (0, 1, 0), (- s, 0, c)))"
  by (elim list16) (simp add: turn_y_def rotation_def mat_eval)

lemma turn_z_mul:
  "length m = 16 \<Longrightarrow> turn_z m c s = mat_mul m (rotation ((c, - s, 0), (s, c, 0), (0, 0, 1)))"
  by (elim list16) (simp add: turn_z_def rotation_def mat_eval)

lemma rotate_rows_mul:
  "length m = 16 \<Longrightarrow> rotate_rows m r = mat_mul m (rotation r)"
  by (elim list16, cases r) (auto simp: rotate_rows_def rotation_def mat_eval Let_def)

lemma length_mats [simp]:
  "length (translation x y z) = 16" "length (scaling x y z) = 16" "length (mat_mul a b) = 16"
  "length (matrix_identity :: 'a :: {zero, one} list) = 16" "length (set_2d_projection_matrix w h) = 16"
  by (simp_all add: translation_def scaling_def mat_mul_def matrix_identity_def set_2d_projection_matrix_def)

lemma rotate_general_mul:
  assumes "vec3_normalize sqrt_op v = (x, y, z)" "length m = 16"
  shows "rotate_general sqrt_op m c s v = mat_mul m (rotation
    ((x * (x * (1 - c)) + c, x * (y * (1 - c)) - z * s, x * (z * (1 - c)) + y * s),
     (y * (x * (1 - c)) + z * s, y * (y * (1 - c)) + c, y * (z * (1 - c)) - x * s),
     (z * (x * (1 - c)) - y * s, z * (y * (1 - c)) + x * s, z * (z * (1 - c)) + c)))"
  using assms by (simp add: rotate_general_def Let_def rotate_rows_mul)

lemma normalize_axis:
  fixes z :: "'a :: linordered_field"
  assumes "sqrt_op (z * z) = \<bar>z\<bar>" "z \<noteq> 0"
  shows "vec3_normalize sqrt_op (0, 0, z) = (0, 0, sgn z)" "vec3_normalize sqrt_op (0, z, 0) = (0, sgn z, 0)"
    "vec3_normalize sqrt_op (z, 0, 0) = (sgn z, 0, 0)"
  using assms by (auto simp: vec3_normalize_def Let_def sgn_if)

text \<open>
  C37. The special cases of the rotation about a coordinate axis agree with the general rotation: with
  exact arithmetic and a square root that inverts the square, \<open>matrix_rotate\<close> multiplies by the same
  matrix whichever branch it takes.
\<close>

theorem matrix_rotate_general:
  fixes m :: "'a :: linordered_field list"
  assumes "\<And>t. sqrt_op (t * t) = \<bar>t\<bar>" and "length m = 16"
  shows "matrix_rotate sqrt_op m c s v = rotate_general sqrt_op m c s v"
proof -
  obtain x y z where v: "v = (x, y, z)" by (cases v)
  consider "x = 0" "y = 0" "z \<noteq> 0" | "x = 0" "y \<noteq> 0" "z = 0" | "x \<noteq> 0" "y = 0" "z = 0"
    | "\<not> (x = 0 \<and> y = 0 \<and> z \<noteq> 0)" "\<not> (x = 0 \<and> y \<noteq> 0 \<and> z = 0)" "\<not> (x \<noteq> 0 \<and> y = 0 \<and> z = 0)"
    by blast
  then show ?thesis
  proof cases
    case 1
    then show ?thesis
      by (auto simp: v matrix_rotate_def rotate_general_mul [OF normalize_axis(1) [of sqrt_op z, OF assms(1)] assms(2)]
          turn_z_mul [OF assms(2)] sgn_if)
  next
    case 2
    then show ?thesis
      by (auto simp: v matrix_rotate_def rotate_general_mul [OF normalize_axis(2) [of sqrt_op y, OF assms(1)] assms(2)]
          turn_y_mul [OF assms(2)] sgn_if)
  next
    case 3
    then show ?thesis
      by (auto simp: v matrix_rotate_def rotate_general_mul [OF normalize_axis(3) [of sqrt_op x, OF assms(1)] assms(2)]
          turn_x_mul [OF assms(2)] sgn_if)
  next
    case 4
    then show ?thesis
      by (auto simp: v matrix_rotate_def)
  qed
qed

lemma matrix_rotate_general_witness:
  "matrix_rotate sqrt matrix_identity 0 1 (0, 0, - 2) = rotate_general sqrt matrix_identity 0 (1 :: real) (0, 0, - 2)"
  by (rule matrix_rotate_general) simp_all

text \<open>The product, whichever arrays are the same.\<close>

lemma row_product_mul:
  "i < 4 \<Longrightarrow> row_product (load_row a i) b = (mat_mul a b ! i, mat_mul a b ! (i + 4), mat_mul a b ! (i + 8), mat_mul a b ! (i + 12))"
proof -
  assume "i < 4"
  then have "i = 0 \<or> i = 1 \<or> i = 2 \<or> i = 3"
    by presburger
  then show ?thesis
    by (elim disjE) (simp_all add: row_product_def load_row_def mat_mul_def sum4 Let_def upt16 flip: numeral_2_eq_2 numeral_3_eq_3)
qed

lemma nth_store_row:
  "i < 4 \<Longrightarrow> j < 16 \<Longrightarrow> length m = 16 \<Longrightarrow> store_row i (x, y, z, w) m ! j =
     (if j = i then x else if j = i + 4 then y else if j = i + 8 then z else if j = i + 12 then w else m ! j)"
  by (simp add: store_row_def nth_list_update)

lemma length_store_row [simp]: "length (store_row i row m) = length m"
  by (simp add: store_row_def case_prod_unfold)

lemma load_row_store_row:
  "i < 4 \<Longrightarrow> i' < 4 \<Longrightarrow> i \<noteq> i' \<Longrightarrow> length m = 16 \<Longrightarrow> load_row (store_row i row m) i' = load_row m i'"
  by (cases row) (simp add: load_row_def nth_store_row)

lemma matrix_mult_mul:
  assumes "length (st m) = 16" "length (st m1) = 16" "length (st m2) = 16"
  shows "matrix_mult m m1 m2 st = st(m := mat_mul (st m1) (st m2))"
proof (rule ext)
  fix k
  let ?p = "mat_mul (st m1) (st m2)"
  define row where "row i = row_product (load_row (st m1) i) (st m2)" for i
  have row: "row i = (?p ! i, ?p ! (i + 4), ?p ! (i + 8), ?p ! (i + 12))" if "i < 4" for i
    unfolding row_def by (rule row_product_mul [OF that])
  have "matrix_mult m m1 m2 st = st(m := store_row 3 (row 3) (store_row 2 (row 2) (store_row 1 (row 1) (store_row 0 (row 0) (st m)))))"
    using assms by (cases "m1 = m") (simp_all add: matrix_mult_def Let_def row_def load_row_store_row)
  moreover have "store_row 3 (row 3) (store_row 2 (row 2) (store_row 1 (row 1) (store_row 0 (row 0) (st m)))) = ?p"
  proof (rule nth_equalityI)
    fix j assume "j < length (store_row 3 (row 3) (store_row 2 (row 2) (store_row 1 (row 1) (store_row 0 (row 0) (st m)))))"
    then have "j \<in> {0, 1, 2, 3, 4, 5, 6, 7, 8, 9, 10, 11, 12, 13, 14, 15}"
      by (simp add: assms(1)) presburger
    then show "store_row 3 (row 3) (store_row 2 (row 2) (store_row 1 (row 1) (store_row 0 (row 0) (st m)))) ! j = ?p ! j"
      using assms(1) by (auto simp: nth_store_row row)
  qed (use assms(1) in simp)
  ultimately show "matrix_mult m m1 m2 st k = (st(m := ?p)) k"
    by simp
qed

text \<open>
  \<open>matrix_mult\<close> stores the product of the two matrices and changes no other array, also when the
  result is stored over one of the factors (or both), as \<open>draw_2d_texture_in\<close> does.
\<close>

theorem matrix_mult_in_place:
  assumes "length (st m) = 16" "length (st m1) = 16" "length (st m2) = 16"
  shows "matrix_mult m m1 m2 st = st(m := mat_mul (st m1) (st m2))"
  using assms by (rule matrix_mult_mul)

lemma matrix_mult_in_place_witness:
  "matrix_mult 0 1 0 (\<lambda>i. translation 1 2 (int i)) 0 = [1, 0, 0, 0, 0, 1, 0, 0, 0, 0, 1, 0, 2, 4, 1, 1]"
  by (subst matrix_mult_in_place) (simp_all add: translation_def mat_mul_def upt16 sum4)

text \<open>
  C38. A texture is drawn exactly on its destination: with exact arithmetic, the matrix that is handed
  to the shader maps the corner \<open>(u, v)\<close> of the unit square to the point of the window that is \<open>u\<close>
  widths to the right and \<open>v\<close> heights below the upper left corner of the destination, in pixels of
  the window from its upper left corner.
\<close>

theorem draw_matrix_destination:
  fixes x y w h u v :: "'a :: linordered_field"
  assumes "win_w \<noteq> 0" "win_h \<noteq> 0"
  shows "let p = mat_vec (draw_matrix sqrt_op cos_sin (set_2d_projection_matrix win_w win_h) (0, px, py) (x, y, w, h)) [u, v, 0, 1]
    in (p ! 0 + 1) / 2 * win_w = x + u * w \<and> (1 - p ! 1) / 2 * win_h = y + v * h \<and> p ! 2 = 0 \<and> p ! 3 = 1"
proof -
  let ?m = "matrix_scale (matrix_translate matrix_identity x y 0) w h 1"
  have m: "?m = [w, 0, 0, 0, 0, h, 0, 0, 0, 0, 1, 0, x, y, 0, 1]"
    by (simp add: matrix_scale_def matrix_translate_def matrix_identity_def)
  have mult: "matrix_mult 0 1 0 (\<lambda>i. if i = 0 then ?m else set_2d_projection_matrix win_w win_h) 0 =
      mat_mul (set_2d_projection_matrix win_w win_h) ?m"
    by (subst matrix_mult_mul) (simp_all add: m)
  have "draw_matrix sqrt_op cos_sin (set_2d_projection_matrix win_w win_h) (0, px, py) (x, y, w, h) = mat_mul (set_2d_projection_matrix win_w win_h) ?m"
    unfolding mult [symmetric] by (simp add: draw_matrix_def Let_def)
  then show ?thesis
    using assms by (simp add: m set_2d_projection_matrix_def mat_eval Let_def field_simps)
qed

lemma draw_matrix_destination_witness:
  "let p = mat_vec (draw_matrix sqrt (\<lambda>t. (cos t, sin t)) (set_2d_projection_matrix 800 600) (0, 0, 0) (100, 50, 200, (80 :: real)))
       [1, 1, 0, 1]
   in (p ! 0 + 1) / 2 * 800 = 300 \<and> (1 - p ! 1) / 2 * 600 = 130"
  using draw_matrix_destination
    [of 800 600 sqrt "\<lambda>t. (cos t, sin t)" 0 0 100 50 200 80 1 "1 :: real"] by (simp add: Let_def)

end
