(* ===== verification/Compositor.thy ===== *)
theory Compositor
  imports Layout
begin

text \<open>
  The main loop of the compositor (\<open>compositor_render\<close> in
  src/rvgpu-renderer/compositor/rvgpu-compositor.c).  It collects requests of the surfaces until none
  is left, draws the surfaces into a frame, and returns to every surface the numbers of the buffers
  that were drawn.  The messages and the commands for OpenGL are recorded in the order they are
  given.
\<close>

section \<open>State\<close>

datatype 'd gl_op =
    Gl_wait int | Gl_delete int | Gl_stencil i32 i32 i32 i32
  | Gl_draw u32 i32 i32 "'d \<times> 'd \<times> 'd \<times> 'd" "'d \<times> 'd \<times> 'd \<times> 'd" | Gl_swap

text \<open>
  The lists shared with the other threads, the address of the next object, what was given to OpenGL
  and to the sync connections, the number of frames, whether the layout thread was told that its
  layout is shown, and the number of writes to the event descriptor.
\<close>

record 'd compositor =
  co_running :: bool
  co_surfaces :: "'d obj list"
  co_next :: nat
  co_layout :: "'d layout_state"
  co_gl :: "'d gl_op list"
  co_sync :: "(i32 \<times> 'd json) list"
  co_frame :: u32
  co_layout_completed :: bool
  co_stop_events :: nat

record co_params =
  cp_layout_draw :: bool
  cp_layout_sync :: bool
  cp_width :: u32
  cp_height :: u32

definition surface_key :: "'d real_ops \<Rightarrow> 'd json \<Rightarrow> (string \<times> i32) option" where
  "surface_key ops j =
     (case (get_str_from_jsonobj j ''rvgpu_surface_id'', get_int_from_jsonobj ops j ''scanout_id'') of
        (Some s, Some i) \<Rightarrow> Some (s, i) | _ \<Rightarrow> None)"

text \<open>The fence of an object, 0 when it has none, and its deletion.\<close>

definition upload_fence :: "'d json \<Rightarrow> int" where
  "upload_fence j = json_integer_value (json_object_get j ''upload_fence'')"

definition delete_fence :: "int \<Rightarrow> 'd gl_op list" where
  "delete_fence f = (if f \<noteq> 0 then [Gl_delete f] else [])"

definition wait_fence :: "int \<Rightarrow> 'd gl_op list" where
  "wait_fence f = (if f \<noteq> 0 then [Gl_wait f, Gl_delete f] else [])"

section \<open>Requests\<close>

abbreviation RVGPU_DRAW_EVENT_ID :: i32 where "RVGPU_DRAW_EVENT_ID \<equiv> - 1"
abbreviation RVGPU_REMOVE_EVENT_ID :: i32 where "RVGPU_REMOVE_EVENT_ID \<equiv> - 2"
abbreviation RVGPU_LAYOUT_EVENT_ID :: i32 where "RVGPU_LAYOUT_EVENT_ID \<equiv> - 3"
abbreviation RVGPU_ADD_EVENT_ID :: i32 where "RVGPU_ADD_EVENT_ID \<equiv> - 4"
abbreviation RVGPU_STOP_EVENT_ID :: i32 where "RVGPU_STOP_EVENT_ID \<equiv> - 5"

definition request_add :: "'d json \<Rightarrow> 'd compositor \<Rightarrow> 'd compositor" where
  "request_add j st =
     st\<lparr>co_surfaces := co_surfaces st @
          [(co_next st, json_object_set (json_object_del j ''event_id'') ''updated_indexes'' (JArray []))],
        co_next := co_next st + 1\<rparr>"

text \<open>The members of a draw request, \<open>None\<close> when one of them is missing.\<close>

record draw_request =
  dr_key :: "string \<times> i32"
  dr_width :: i32
  dr_height :: i32
  dr_initial_color :: i32
  dr_index :: i32
  dr_texture :: i32
  dr_fence :: int

definition read_draw_request :: "'d real_ops \<Rightarrow> 'd json \<Rightarrow> draw_request option" where
  "read_draw_request ops j =
     (case (get_str_from_jsonobj j ''rvgpu_surface_id'',
            map (get_int_from_jsonobj ops j)
              [''width'', ''height'', ''initial_color'', ''scanout_id'', ''shared_buffer_fd_index'',
               ''composit_tex_id'']) of
        (Some s, [Some w, Some h, Some c, Some i, Some b, Some t]) \<Rightarrow>
          Some \<lparr> dr_key = (s, i), dr_width = w, dr_height = h, dr_initial_color = c, dr_index = b,
                 dr_texture = t, dr_fence = upload_fence j \<rparr>
      | _ \<Rightarrow> None)"

definition draw_update :: "draw_request \<Rightarrow> 'd json \<Rightarrow> 'd json" where
  "draw_update r j =
     (let j1 = json_object_set j ''composit_tex_id'' (JInt (sint (dr_texture r)));
          j2 = json_object_set j1 ''width'' (JInt (sint (dr_width r)));
          j3 = json_object_set j2 ''height'' (JInt (sint (dr_height r)));
          j4 = json_object_set j3 ''initial_color'' (JInt (sint (dr_initial_color r)));
          j5 = (case json_elements (json_object_get j4 ''updated_indexes'') of
                  None \<Rightarrow> j4
                | Some xs \<Rightarrow> json_object_set j4 ''updated_indexes'' (JArray (xs @ [JInt (sint (dr_index r))])))
      in json_object_set j5 ''upload_fence'' (JInt (dr_fence r)))"

definition request_draw :: "'d real_ops \<Rightarrow> 'd json \<Rightarrow> 'd compositor \<Rightarrow> 'd compositor" where
  "request_draw ops j st =
     (case read_draw_request ops j of
        None \<Rightarrow> st
      | Some r \<Rightarrow>
          (case find (\<lambda>(_, s). surface_key ops s = Some (dr_key r)) (co_surfaces st) of
             None \<Rightarrow> st
           | Some (_, s) \<Rightarrow>
               st\<lparr>co_surfaces := update_first (\<lambda>(_, s). surface_key ops s = Some (dr_key r))
                     (map_prod id (draw_update r)) (co_surfaces st),
                  co_gl := co_gl st @ delete_fence (upload_fence s)\<rparr>))"

definition request_remove :: "'d json \<Rightarrow> 'd compositor \<Rightarrow> 'd compositor" where
  "request_remove j st =
     (case get_str_from_jsonobj j ''rvgpu_surface_id'' of
        None \<Rightarrow> st
      | Some sid \<Rightarrow>
          st\<lparr>co_gl := co_gl st @
               (case find (\<lambda>(_, s). get_str_from_jsonobj s ''rvgpu_surface_id'' = Some sid) (co_surfaces st) of
                  None \<Rightarrow> [] | Some (_, s) \<Rightarrow> delete_fence (upload_fence s)),
             co_surfaces := remove_jsonobj_with_str_key ''rvgpu_surface_id'' sid (co_surfaces st)\<rparr>)"

definition request :: "'d real_ops \<Rightarrow> i32 \<Rightarrow> 'd json \<Rightarrow> 'd compositor \<Rightarrow> 'd compositor" where
  "request ops event_id j st =
     (if event_id = RVGPU_ADD_EVENT_ID then request_add j st
      else if event_id = RVGPU_DRAW_EVENT_ID then request_draw ops j st
      else if event_id = RVGPU_REMOVE_EVENT_ID then request_remove j st
      else st)"

text \<open>
  What a turn of the inner loop finds: \<open>poll\<close> fails; no request is waiting; a request, \<open>None\<close> when
  it cannot be read; or the layout thread changes its lists in the meantime.  The inner loop ends
  when the requests are used up, after a stop, or never (then it waits: \<open>Waiting\<close>).
\<close>

datatype 'd turn = Poll_failed | Idle | Request "'d json option" | Layout_thread "'d layout_state"

datatype 'd collected = Waiting "'d compositor" | Collected "'d compositor" bool "'d turn list"

abbreviation co_active :: "'d compositor \<Rightarrow> bool" where
  "co_active st \<equiv> co_running st \<or> co_surfaces st \<noteq> []"

fun event_loop :: "'d real_ops \<Rightarrow> 'd turn list \<Rightarrow> 'd compositor \<Rightarrow> nat \<Rightarrow> bool \<Rightarrow> 'd collected" where
  "event_loop ops script st event_num layout_event =
     (if \<not> co_active st then Collected st layout_event script
      else case script of
        [] \<Rightarrow> Waiting st
      | Poll_failed # rest \<Rightarrow> event_loop ops rest st event_num layout_event
      | Idle # rest \<Rightarrow>
          if event_num > 0 then Collected st layout_event rest else event_loop ops rest st event_num layout_event
      | Layout_thread ly # rest \<Rightarrow> event_loop ops rest (st\<lparr>co_layout := ly\<rparr>) event_num layout_event
      | Request None # rest \<Rightarrow> event_loop ops rest st event_num layout_event
      | Request (Some j) # rest \<Rightarrow>
          (case get_int_from_jsonobj ops j ''event_id'' of
             None \<Rightarrow> event_loop ops rest st event_num layout_event
           | Some e \<Rightarrow>
               if e = RVGPU_STOP_EVENT_ID
               then Collected (st\<lparr>co_running := False, co_stop_events := co_stop_events st + 1\<rparr>) layout_event rest
               else event_loop ops rest (request ops e j st) (event_num + 1)
                      (layout_event \<or> e = RVGPU_LAYOUT_EVENT_ID)))"

declare event_loop.simps [simp del]

section \<open>A frame\<close>

text \<open>Buffers that were drawn over by a later one are returned at once.\<close>

definition sync_fd :: "'d real_ops \<Rightarrow> 'd json \<Rightarrow> i32 option" where
  "sync_fd ops j = get_int_from_jsonobj ops j ''client_rvgpu_sync_fd''"

definition updated_indexes :: "'d json \<Rightarrow> 'd json list option" where
  "updated_indexes j = json_elements (json_object_get j ''updated_indexes'')"

definition skip_message :: "'d real_ops \<Rightarrow> 'd json \<Rightarrow> (i32 \<times> 'd json) option" where
  "skip_message ops j =
     (case (sync_fd ops j, updated_indexes j) of
        (Some fd, Some xs) \<Rightarrow>
          if length xs > 1
          then Some (fd, json_object_set j ''updated_indexes'' (JArray (take (length xs - 1) xs)))
          else None
      | _ \<Rightarrow> None)"

definition skip_surface :: "'d real_ops \<Rightarrow> 'd json \<Rightarrow> 'd json" where
  "skip_surface ops j =
     (case (sync_fd ops j, updated_indexes j) of
        (Some fd, Some xs) \<Rightarrow>
          if length xs > 1 then json_object_set j ''updated_indexes'' (JArray (drop (length xs - 1) xs)) else j
      | _ \<Rightarrow> j)"

definition skip_indexes :: "'d real_ops \<Rightarrow> 'd compositor \<Rightarrow> 'd compositor" where
  "skip_indexes ops st =
     st\<lparr>co_surfaces := map (map_prod id (skip_surface ops)) (co_surfaces st),
        co_sync := co_sync st @ List.map_filter (skip_message ops \<circ> snd) (co_surfaces st)\<rparr>"

text \<open>The safety areas: invalid ones are removed in a loop that skips the element behind a removed one.\<close>

definition safety_area_valid :: "co_params \<Rightarrow> 'd json \<Rightarrow> bool" where
  "safety_area_valid cp j =
     (let get = json_object_get j; int = (\<lambda>k. word_of_int (json_integer_value (get k)) :: i32)
      in json_is_integer (get ''x'') \<and> json_is_integer (get ''y'') \<and> json_is_integer (get ''width'') \<and>
         json_is_integer (get ''height'') \<and>
         \<not> (sint (int ''width'') \<le> 0 \<or> sint (int ''height'') \<le> 0 \<or> sint (int ''x'') < 0 \<or> sint (int ''y'') < 0 \<or>
            int ''x'' + int ''width'' > cp_width cp \<or> int ''y'' + int ''height'' > cp_height cp))"

definition stencil_op :: "'d json \<Rightarrow> 'd gl_op" where
  "stencil_op j =
     (let int = (\<lambda>k. word_of_int (json_integer_value (json_object_get j k)) :: i32)
      in Gl_stencil (int ''x'') (int ''y'') (int ''width'') (int ''height''))"

definition safety_areas :: "co_params \<Rightarrow> 'd compositor \<Rightarrow> 'd compositor" where
  "safety_areas cp st =
     (let areas = remove_loop False (\<lambda>j. \<not> safety_area_valid cp j) 0 (ly_safety (co_layout st))
      in st\<lparr>co_layout := (co_layout st)\<lparr>ly_safety := areas\<rparr>, co_gl := co_gl st @ map stencil_op areas\<rparr>)"

text \<open>
  The part of the picture to draw and its destination; \<open>None\<close> when nothing would be seen.
\<close>

definition clip_axis :: "'d real_ops \<Rightarrow> i32 \<Rightarrow> 'd \<times> 'd \<Rightarrow> 'd \<times> 'd" where
  "clip_axis ops img s =
     (case s of (pos, len) \<Rightarrow>
        let zero = rl_of_int ops 0; limit = rl_of_int ops (sint img);
            (pos, len) = (if rl_less ops pos zero then (zero, rl_add ops len pos) else (pos, len))
        in if rl_less ops limit (rl_add ops pos len) then (pos, rl_sub ops limit pos) else (pos, len))"

definition outside :: "'d real_ops \<Rightarrow> 'd \<Rightarrow> 'd \<times> 'd \<Rightarrow> bool" where
  "outside ops limit s =
     (case s of (pos, len) \<Rightarrow> rl_less ops limit pos \<or> rl_less ops (rl_add ops pos len) (rl_of_int ops 0))"

definition clip ::
  "'d real_ops \<Rightarrow> co_params \<Rightarrow> i32 \<Rightarrow> i32 \<Rightarrow> i32 \<Rightarrow> 'd \<times> 'd \<times> 'd \<times> 'd \<Rightarrow> 'd \<times> 'd \<times> 'd \<times> 'd \<Rightarrow>
     (('d \<times> 'd \<times> 'd \<times> 'd) \<times> ('d \<times> 'd \<times> 'd \<times> 'd)) option" where
  "clip ops cp img_w img_h initial_color src dst =
     (case (src, dst) of ((sx, sy, sw, sh), (dx, dy, dw, dh)) \<Rightarrow>
        if initial_color \<noteq> 0
        then Some ((rl_of_int ops 0, rl_of_int ops 0, rl_of_int ops (sint img_w), rl_of_int ops (sint img_h)), dst)
        else if outside ops (rl_of_int ops (sint img_w)) (sx, sw) \<or>
                outside ops (rl_of_int ops (sint img_h)) (sy, sh) \<or>
                outside ops (rl_of_int ops (uint (cp_width cp))) (dx, dw) \<or>
                outside ops (rl_of_int ops (uint (cp_height cp))) (dy, dh)
        then None
        else case (clip_axis ops img_w (sx, sw), clip_axis ops img_h (sy, sh)) of
               ((sx', sw'), (sy', sh')) \<Rightarrow> Some ((sx', sy', sw', sh'), dst))"

text \<open>What of a surface is drawn: texture, width, height, and whether it has its initial colour only.\<close>

definition draw_source :: "'d real_ops \<Rightarrow> 'd json \<Rightarrow> (i32 \<times> i32 \<times> i32 \<times> i32) option" where
  "draw_source ops j =
     (case map (get_int_from_jsonobj ops j) [''composit_tex_id'', ''width'', ''height'', ''initial_color''] of
        [Some t, Some w, Some h, Some c] \<Rightarrow> Some (t, w, h, c) | _ \<Rightarrow> None)"

definition get_double_default :: "'d real_ops \<Rightarrow> 'd json \<Rightarrow> string \<Rightarrow> 'd \<Rightarrow> 'd" where
  "get_double_default ops j k d = (case get_double_from_jsonobj ops j k of None \<Rightarrow> d | Some x \<Rightarrow> x)"

definition clear_fence :: "'d json \<Rightarrow> 'd json" where
  "clear_fence j = json_object_set j ''upload_fence'' (JInt 0)"

text \<open>The surface of an item of the layout; without a scanout the item is for scanout 0.\<close>

definition draw_target :: "'d real_ops \<Rightarrow> 'd json \<Rightarrow> string \<Rightarrow> 'd obj \<Rightarrow> bool" where
  "draw_target ops item sid x =
     (let sc = (case get_int_from_jsonobj ops item ''scanout_id'' of None \<Rightarrow> 0 | Some i \<Rightarrow> i)
      in surface_key ops (snd x) = Some (sid, sc) \<and> draw_source ops (snd x) \<noteq> None)"

definition item_ops :: "'d real_ops \<Rightarrow> co_params \<Rightarrow> 'd json \<Rightarrow> i32 \<times> i32 \<times> i32 \<times> i32 \<Rightarrow> 'd gl_op list" where
  "item_ops ops cp item source =
     (case source of (t, w, h, c) \<Rightarrow>
        let get = get_double_default ops item; zero = rl_of_int ops 0
        in case clip ops cp w h c
                  (get ''src_x'' zero, get ''src_y'' zero, get ''src_w'' (rl_of_int ops (sint w)),
                   get ''src_h'' (rl_of_int ops (sint h)))
                  (get ''dst_x'' zero, get ''dst_y'' zero, get ''dst_w'' (rl_of_int ops (uint (cp_width cp))),
                   get ''dst_h'' (rl_of_int ops (uint (cp_height cp)))) of
             None \<Rightarrow> []
           | Some (src, dst) \<Rightarrow> [Gl_draw t w h src dst])"

definition layout_draw_item :: "'d real_ops \<Rightarrow> co_params \<Rightarrow> 'd json \<Rightarrow> 'd compositor \<Rightarrow> 'd compositor" where
  "layout_draw_item ops cp item st =
     (case layout_key ops item of
        None \<Rightarrow> st
      | Some (_, sid) \<Rightarrow>
          if \<not> is_layout_surface_visible ops item then st
          else
            case find (draw_target ops item sid) (co_surfaces st) of
              None \<Rightarrow> st
            | Some (_, j) \<Rightarrow>
                (case draw_source ops j of
                   None \<Rightarrow> st
                 | Some source \<Rightarrow>
                     st\<lparr>co_surfaces := update_first (draw_target ops item sid) (map_prod id clear_fence) (co_surfaces st),
                        co_gl := co_gl st @ wait_fence (upload_fence j) @ item_ops ops cp item source\<rparr>))"

definition layout_draw :: "'d real_ops \<Rightarrow> co_params \<Rightarrow> 'd compositor \<Rightarrow> 'd compositor" where
  "layout_draw ops cp st =
     fold (\<lambda>(_, item). layout_draw_item ops cp item) (ly_list (co_layout st)) (safety_areas cp st)"

text \<open>Without a layout every surface is drawn in its size at the upper left corner.\<close>

definition plain_source :: "'d real_ops \<Rightarrow> 'd json \<Rightarrow> (i32 \<times> i32 \<times> i32) option" where
  "plain_source ops j =
     (case map (get_int_from_jsonobj ops j) [''composit_tex_id'', ''width'', ''height''] of
        [Some t, Some w, Some h] \<Rightarrow> Some (t, w, h) | _ \<Rightarrow> None)"

definition plain_ops :: "'d real_ops \<Rightarrow> 'd json \<Rightarrow> 'd gl_op list" where
  "plain_ops ops j =
     (case plain_source ops j of
        None \<Rightarrow> []
      | Some (t, w, h) \<Rightarrow>
          let box = (rl_of_int ops 0, rl_of_int ops 0, rl_of_int ops (sint w), rl_of_int ops (sint h))
          in wait_fence (upload_fence j) @ [Gl_draw t w h box box])"

definition plain_draw :: "'d real_ops \<Rightarrow> 'd compositor \<Rightarrow> 'd compositor" where
  "plain_draw ops st =
     st\<lparr>co_gl := co_gl st @ concat (map (plain_ops ops \<circ> snd) (co_surfaces st)),
        co_surfaces := map (map_prod id (\<lambda>j. if plain_source ops j = None then j else clear_fence j)) (co_surfaces st)\<rparr>"

definition swap :: "co_params \<Rightarrow> bool \<Rightarrow> 'd compositor \<Rightarrow> 'd compositor" where
  "swap cp layout_event st =
     st\<lparr>co_gl := co_gl st @ [Gl_swap], co_frame := co_frame st + 1,
        co_layout_completed := (co_layout_completed st \<or> cp_layout_sync cp \<and> layout_event)\<rparr>"

text \<open>The buffer that is shown now is returned.\<close>

definition sync_pending :: "'d real_ops \<Rightarrow> 'd json \<Rightarrow> bool" where
  "sync_pending ops j =
     (sync_fd ops j \<noteq> None \<and> (case updated_indexes j of None \<Rightarrow> False | Some xs \<Rightarrow> length xs > 0))"

definition sync_message :: "'d real_ops \<Rightarrow> 'd json \<Rightarrow> (i32 \<times> 'd json) option" where
  "sync_message ops j = (if sync_pending ops j then Some (the (sync_fd ops j), j) else None)"

definition sync_surface :: "'d real_ops \<Rightarrow> 'd json \<Rightarrow> 'd json" where
  "sync_surface ops j = (if sync_pending ops j then json_object_set j ''updated_indexes'' (JArray []) else j)"

definition sync_indexes :: "'d real_ops \<Rightarrow> 'd compositor \<Rightarrow> 'd compositor" where
  "sync_indexes ops st =
     st\<lparr>co_surfaces := map (map_prod id (sync_surface ops)) (co_surfaces st),
        co_sync := co_sync st @ List.map_filter (sync_message ops \<circ> snd) (co_surfaces st)\<rparr>"

definition compose_frame :: "'d real_ops \<Rightarrow> co_params \<Rightarrow> bool \<Rightarrow> 'd compositor \<Rightarrow> 'd compositor" where
  "compose_frame ops cp layout_event st =
     (let st1 = skip_indexes ops st;
          st2 = (if cp_layout_draw cp then layout_draw ops cp st1 else plain_draw ops st1)
      in sync_indexes ops (swap cp layout_event st2))"

section \<open>The main loop\<close>

lemma event_loop_rest:
  "event_loop ops script st n le = Collected st' le' rest \<Longrightarrow>
     length rest \<le> length script \<and> (co_active st \<longrightarrow> length rest < length script)"
proof (induction script arbitrary: st n le)
  case Nil
  then show ?case
    by (auto simp: event_loop.simps [of ops "[]"] split: if_splits)
next
  case (Cons t script)
  have "length rest \<le> length script" if "co_active st"
    using Cons that
    by (auto simp: event_loop.simps [of ops "t # script"] split: if_splits turn.splits option.splits dest: Cons.IH)
  then show ?case
    using Cons.prems by (cases "co_active st") (auto simp: event_loop.simps [of ops "t # script"])
qed

text \<open>
  The loop over the frames.  The state is the one the loop ends in, or the one in which it waits for
  the next request when the script is used up.
\<close>

function compositor_render :: "'d real_ops \<Rightarrow> co_params \<Rightarrow> 'd turn list \<Rightarrow> 'd compositor \<Rightarrow> 'd compositor" where
  "compositor_render ops cp script st =
     (if \<not> co_active st then st
      else case event_loop ops script st 0 False of
             Waiting st' \<Rightarrow> st'
           | Collected st' layout_event rest \<Rightarrow>
               compositor_render ops cp rest (compose_frame ops cp layout_event st'))"
  by pat_completeness auto

termination
  by (relation "measure (\<lambda>(ops, cp, script, st). length script)") (auto dest: event_loop_rest)

declare compositor_render.simps [simp del]

section \<open>Invariants of a run\<close>

text \<open>
  What holds along a run: a property of the requests still to come and the state that every request,
  every other turn of the inner loop and every frame keep.
\<close>

locale run_invariant =
  fixes ops :: "'d real_ops" and cp :: co_params and P :: "'d turn list \<Rightarrow> 'd compositor \<Rightarrow> bool"
  assumes request_step:
      "\<lbrakk> P (Request (Some j) # rest) st; get_int_from_jsonobj ops j ''event_id'' = Some e; e \<noteq> RVGPU_STOP_EVENT_ID \<rbrakk>
       \<Longrightarrow> P rest (request ops e j st)"
    and stop_step:
      "\<lbrakk> P (Request (Some j) # rest) st; get_int_from_jsonobj ops j ''event_id'' = Some RVGPU_STOP_EVENT_ID \<rbrakk>
       \<Longrightarrow> P rest (st\<lparr>co_running := False, co_stop_events := n\<rparr>)"
    and layout_step: "P (Layout_thread ly # rest) st \<Longrightarrow> P rest (st\<lparr>co_layout := ly\<rparr>)"
    and other_step:
      "\<lbrakk> P (t # rest) st; \<nexists>j. t = Request (Some j) \<and> get_int_from_jsonobj ops j ''event_id'' \<noteq> None \<rbrakk> \<Longrightarrow> P rest st"
    and frame_step: "P rest st \<Longrightarrow> P rest (compose_frame ops cp le st)"
begin

lemma collects:
  "P script st \<Longrightarrow> case event_loop ops script st n le of Waiting st' \<Rightarrow> P [] st' | Collected st' le' rest \<Rightarrow> P rest st'"
proof (induction script arbitrary: st n le)
  case Nil
  then show ?case
    by (simp add: event_loop.simps [of ops "[]"])
next
  case (Cons t script)
  show ?case
  proof (cases "co_active st")
    case False
    then show ?thesis
      using Cons.prems by (simp add: event_loop.simps [of ops "t # script"])
  next
    case True
    note step = event_loop.simps [of ops "t # script" st n le]
    consider j e where "t = Request (Some j)" "get_int_from_jsonobj ops j ''event_id'' = Some e"
      | ly where "t = Layout_thread ly"
      | "\<nexists>j. t = Request (Some j) \<and> get_int_from_jsonobj ops j ''event_id'' \<noteq> None" "\<nexists>ly. t = Layout_thread ly"
      by blast
    then show ?thesis
    proof cases
      case (1 j e)
      show ?thesis
      proof (cases "e = RVGPU_STOP_EVENT_ID")
        case True
        then have "event_loop ops (t # script) st n le =
            Collected (st\<lparr>co_running := False, co_stop_events := co_stop_events st + 1\<rparr>) le script"
          using 1 \<open>co_active st\<close> by (subst event_loop.simps) simp
        then show ?thesis
          using 1 True Cons.prems stop_step by simp
      next
        case False
        have "event_loop ops (t # script) st n le =
            event_loop ops script (request ops e j st) (n + 1) (le \<or> e = RVGPU_LAYOUT_EVENT_ID)"
          using 1 False \<open>co_active st\<close> by (subst event_loop.simps) simp
        moreover have "P script (request ops e j st)"
          using Cons.prems request_step 1 False by blast
        ultimately show ?thesis
          using Cons.IH [of "request ops e j st"] by simp
      qed
    next
      case (2 ly)
      have "event_loop ops (t # script) st n le = event_loop ops script (st\<lparr>co_layout := ly\<rparr>) n le"
        using 2 True by (subst event_loop.simps) simp
      then show ?thesis
        using Cons.IH [OF layout_step [of ly script st]] Cons.prems 2 by simp
    next
      case 3
      then have "event_loop ops (t # script) st n le = event_loop ops script st n le \<or>
          event_loop ops (t # script) st n le = Collected st le script"
        using True step by (cases t) (auto split: option.splits if_splits)
      then show ?thesis
        using Cons.IH [of st n le] other_step [OF Cons.prems 3(1)] by auto
    qed
  qed
qed

lemma runs:
  "P script st \<Longrightarrow> \<exists>rest. P rest (compositor_render ops cp script st) \<and>
     (co_active (compositor_render ops cp script st) \<longrightarrow> rest = [])"
proof (induction "length script" arbitrary: script st rule: less_induct)
  case less
  note step = compositor_render.simps [of ops cp script st]
  show ?case
  proof (cases "co_active st")
    case True
    show ?thesis
    proof (cases "event_loop ops script st 0 False")
      case (Waiting st')
      then show ?thesis
        using collects [OF less(2), of 0 False] True by (auto simp: step)
    next
      case (Collected st' le rest)
      then have "P rest (compose_frame ops cp le st')" "length rest < length script"
        using collects [OF less(2), of 0 False] frame_step event_loop_rest [OF Collected] True by auto
      then show ?thesis
        using less(1) Collected True by (simp add: step)
    qed
  qed (use less(2) in \<open>auto simp: step\<close>)
qed

end

section \<open>Examples\<close>

definition co_start :: "'d compositor" where
  "co_start = \<lparr> co_running = True, co_surfaces = [], co_next = 0,
     co_layout = \<lparr> ly_list = [], ly_next = 0, ly_safety = [] \<rparr>, co_gl = [], co_sync = [], co_frame = 0,
     co_layout_completed = False, co_stop_events = 0 \<rparr>"

definition demo_add :: "string \<Rightarrow> int \<Rightarrow> int \<Rightarrow> int json" where
  "demo_add s scanout fd =
     JObject [(''event_id'', JInt (- 4)), (''rvgpu_surface_id'', JString s), (''scanout_id'', JInt scanout),
              (''client_rvgpu_sync_fd'', JInt fd)]"

definition demo_draw :: "string \<Rightarrow> int \<Rightarrow> int \<Rightarrow> int \<Rightarrow> int json" where
  "demo_draw s scanout i fence =
     JObject [(''event_id'', JInt (- 1)), (''rvgpu_surface_id'', JString s), (''scanout_id'', JInt scanout),
              (''width'', JInt 4), (''height'', JInt 2), (''initial_color'', JInt 0),
              (''shared_buffer_fd_index'', JInt i), (''composit_tex_id'', JInt 1), (''upload_fence'', JInt fence)]"

definition demo_remove :: "string \<Rightarrow> int json" where
  "demo_remove s = JObject [(''event_id'', JInt (- 2)), (''rvgpu_surface_id'', JString s)]"

abbreviation demo_request :: "int json \<Rightarrow> int turn" where
  "demo_request j \<equiv> Request (Some j)"

definition demo_params :: "bool \<Rightarrow> co_params" where
  "demo_params b = \<lparr> cp_layout_draw = b, cp_layout_sync = False, cp_width = 8, cp_height = 6 \<rparr>"

end
