(* ===== verification/Buffers_Returned.thy ===== *)
theory Buffers_Returned
  imports Compositor
begin

text \<open>
  The buffers of the renderers in the compositor: each draw request names a buffer of its surface, and
  the frames return the buffers over the sync connection of the surface.  Proved: a frame returns all
  that were drawn, and over any run the buffers are returned once and in order.
\<close>

section \<open>The buffers of a surface\<close>

definition indexes :: "'d json \<Rightarrow> 'd json list" where
  "indexes j = (case updated_indexes j of None \<Rightarrow> [] | Some xs \<Rightarrow> xs)"

text \<open>
  The buffers of a surface that are still to be returned, and those that were returned on a
  connection.
\<close>

definition pending :: "'d real_ops \<Rightarrow> string \<times> i32 \<Rightarrow> 'd compositor \<Rightarrow> 'd json list" where
  "pending ops k st =
     concat (map indexes (filter (\<lambda>j. surface_key ops j = Some k) (map snd (co_surfaces st))))"

definition returned :: "'d real_ops \<Rightarrow> string \<times> i32 \<Rightarrow> i32 \<Rightarrow> (i32 \<times> 'd json) list \<Rightarrow> 'd json list" where
  "returned ops k fd msgs =
     concat (map (indexes \<circ> snd) (filter (\<lambda>(f, j). f = fd \<and> surface_key ops j = Some k) msgs))"

definition account :: "'d real_ops \<Rightarrow> string \<times> i32 \<Rightarrow> i32 \<Rightarrow> 'd compositor \<Rightarrow> 'd json list" where
  "account ops k fd st = returned ops k fd (co_sync st) @ pending ops k st"

text \<open>The compositor has one surface with the key, which is synchronised over the connection.\<close>

definition good :: "'d real_ops \<Rightarrow> i32 \<Rightarrow> 'd json \<Rightarrow> bool" where
  "good ops fd j = (is_object j \<and> sync_fd ops j = Some fd \<and> updated_indexes j \<noteq> None)"

definition owns :: "'d real_ops \<Rightarrow> string \<times> i32 \<Rightarrow> i32 \<Rightarrow> 'd compositor \<Rightarrow> bool" where
  "owns ops k fd st =
     (let js = filter (\<lambda>j. surface_key ops j = Some k) (map snd (co_surfaces st))
      in length js = 1 \<and> list_all (good ops fd) js)"

text \<open>The buffers that the draw requests of a script name, and the requests that leave a surface in the list.\<close>

definition drawn_by :: "'d real_ops \<Rightarrow> string \<times> i32 \<Rightarrow> 'd turn \<Rightarrow> 'd json list" where
  "drawn_by ops k t =
     (case t of
        Request (Some j) \<Rightarrow>
          if get_int_from_jsonobj ops j ''event_id'' = Some RVGPU_DRAW_EVENT_ID
          then case read_draw_request ops j of
                 None \<Rightarrow> [] | Some r \<Rightarrow> if dr_key r = k then [JInt (sint (dr_index r))] else []
          else []
      | _ \<Rightarrow> [])"

definition drawn :: "'d real_ops \<Rightarrow> string \<times> i32 \<Rightarrow> 'd turn list \<Rightarrow> 'd json list" where
  "drawn ops k script = concat (map (drawn_by ops k) script)"

definition keeps_surface :: "'d real_ops \<Rightarrow> string \<times> i32 \<Rightarrow> 'd turn \<Rightarrow> bool" where
  "keeps_surface ops k t =
     (case t of
        Request (Some j) \<Rightarrow>
          (case get_int_from_jsonobj ops j ''event_id'' of
             None \<Rightarrow> True
           | Some e \<Rightarrow> (e = RVGPU_REMOVE_EVENT_ID \<longrightarrow> get_str_from_jsonobj j ''rvgpu_surface_id'' \<noteq> Some (fst k)) \<and>
                       (e = RVGPU_ADD_EVENT_ID \<longrightarrow> surface_key ops j \<noteq> Some k))
      | _ \<Rightarrow> True)"

lemma get_del_other [simp]: "k' \<noteq> k \<Longrightarrow> json_object_get (json_object_del j k) k' = json_object_get j k'"
  by (cases j) (simp_all add: delete_conv')

lemma is_object_del [simp]: "is_object (json_object_del j k) = is_object j"
  by (cases j) simp_all

lemma surface_key_set [simp]:
  "k \<noteq> ''rvgpu_surface_id'' \<Longrightarrow> k \<noteq> ''scanout_id'' \<Longrightarrow> surface_key ops (json_object_set j k v) = surface_key ops j"
  "k \<noteq> ''rvgpu_surface_id'' \<Longrightarrow> k \<noteq> ''scanout_id'' \<Longrightarrow> surface_key ops (json_object_del j k) = surface_key ops j"
  by (simp_all add: surface_key_def get_str_from_jsonobj_def get_int_from_jsonobj_def)

lemma sync_fd_set [simp]:
  "k \<noteq> ''client_rvgpu_sync_fd'' \<Longrightarrow> sync_fd ops (json_object_set j k v) = sync_fd ops j"
  by (simp add: sync_fd_def get_int_from_jsonobj_def)

lemma updated_indexes_set [simp]:
  "k \<noteq> ''updated_indexes'' \<Longrightarrow> updated_indexes (json_object_set j k v) = updated_indexes j"
  "is_object j \<Longrightarrow> updated_indexes (json_object_set j ''updated_indexes'' (JArray xs)) = Some xs"
  by (simp_all add: updated_indexes_def get_set_object)

lemma draw_update_simps [simp]:
  "surface_key ops (draw_update r j) = surface_key ops j" "sync_fd ops (draw_update r j) = sync_fd ops j"
  "is_object (draw_update r j) = is_object j"
  "is_object j \<Longrightarrow> updated_indexes (draw_update r j) =
     map_option (\<lambda>xs. xs @ [JInt (sint (dr_index r))]) (updated_indexes j)"
  by (auto simp: draw_update_def Let_def updated_indexes_def [symmetric] split: option.splits)

lemma surface_simps [simp]:
  "surface_key ops (skip_surface ops j) = surface_key ops j" "sync_fd ops (skip_surface ops j) = sync_fd ops j"
  "is_object (skip_surface ops j) = is_object j"
  "surface_key ops (sync_surface ops j) = surface_key ops j" "sync_fd ops (sync_surface ops j) = sync_fd ops j"
  "is_object (sync_surface ops j) = is_object j"
  "surface_key ops (clear_fence j) = surface_key ops j" "sync_fd ops (clear_fence j) = sync_fd ops j"
  "is_object (clear_fence j) = is_object j" "updated_indexes (clear_fence j) = updated_indexes j"
  by (auto simp: skip_surface_def sync_surface_def clear_fence_def split: option.splits)

text \<open>Changes of the list that keep the keys.\<close>

abbreviation keyed :: "'d real_ops \<Rightarrow> string \<times> i32 \<Rightarrow> 'd obj list \<Rightarrow> 'd json list" where
  "keyed ops k xs \<equiv> filter (\<lambda>j. surface_key ops j = Some k) (map snd xs)"

lemma keyed_map:
  "(\<And>j. surface_key ops (f j) = surface_key ops j) \<Longrightarrow> keyed ops k (map (map_prod id f) xs) = map f (keyed ops k xs)"
  by (induction xs) auto

lemma map_update_first: "(\<And>x. p x \<Longrightarrow> g (f x) = g x) \<Longrightarrow> map g (update_first p f xs) = map g xs"
  by (induction xs) auto

lemma keyed_update_first_other:
  "(\<And>j. surface_key ops (f j) = surface_key ops j) \<Longrightarrow> k' \<noteq> k \<Longrightarrow>
   keyed ops k (update_first (\<lambda>(_, j). surface_key ops j = Some k') (map_prod id f) xs) = keyed ops k xs"
  by (induction xs) auto

lemma keyed_update_first_same:
  "(\<And>j. surface_key ops (f j) = surface_key ops j) \<Longrightarrow>
   keyed ops k (update_first (\<lambda>(_, j). surface_key ops j = Some k) (map_prod id f) xs) =
   (case keyed ops k xs of [] \<Rightarrow> [] | j # js \<Rightarrow> f j # js)"
  by (induction xs) auto

lemma keyed_Nil_find: "keyed ops k xs \<noteq> [] \<Longrightarrow> find (\<lambda>(_, j). surface_key ops j = Some k) xs \<noteq> None"
  by (induction xs) auto

lemma owns_cases:
  assumes "owns ops k fd st"
  obtains j where "keyed ops k (co_surfaces st) = [j]" "good ops fd j" "surface_key ops j = Some k"
proof -
  from assms obtain j where f: "keyed ops k (co_surfaces st) = [j]" "good ops fd j"
    by (auto simp: owns_def Let_def length_Suc_conv)
  have "list_all (\<lambda>j. surface_key ops j = Some k) [j]"
    unfolding f(1) [symmetric] by (simp add: list_all_iff)
  then show ?thesis
    using f that by simp
qed

lemma owns_intro: "keyed ops k (co_surfaces st) = [j] \<Longrightarrow> good ops fd j \<Longrightarrow> owns ops k fd st"
  by (simp add: owns_def)

lemma owns_active: "owns ops k fd st \<Longrightarrow> co_active st"
  by (auto simp: owns_def)

lemma owns_cong:
  "keyed ops k (co_surfaces st') = keyed ops k (co_surfaces st) \<Longrightarrow>
     owns ops k fd st' = owns ops k fd st \<and> pending ops k st' = pending ops k st"
  by (simp add: owns_def pending_def)

text \<open>Every request keeps the account of a surface, but for the buffers drawn to it.\<close>

lemma account_add:
  assumes "surface_key ops j \<noteq> Some k"
  shows "owns ops k fd (request_add j st) = owns ops k fd st" "account ops k fd (request_add j st) = account ops k fd st"
  using assms owns_cong [of ops k "request_add j st" st] by (simp_all add: request_add_def account_def)

lemma account_draw:
  assumes "owns ops k fd st"
  shows "owns ops k fd (request_draw ops j st) \<and> account ops k fd (request_draw ops j st) = account ops k fd st @
    (case read_draw_request ops j of None \<Rightarrow> [] | Some r \<Rightarrow> if dr_key r = k then [JInt (sint (dr_index r))] else [])"
proof -
  obtain s where s: "keyed ops k (co_surfaces st) = [s]" "good ops fd s" "surface_key ops s = Some k"
    using assms by (rule owns_cases)
  show ?thesis
  proof (cases "read_draw_request ops j")
    case None
    then show ?thesis
      using assms by (simp add: request_draw_def)
  next
    case (Some r)
    let ?st' = "request_draw ops j st"
    show ?thesis
    proof (cases "dr_key r = k")
      case True
      have "find (\<lambda>(_, j). surface_key ops j = Some k) (co_surfaces st) \<noteq> None"
        using s(1) by (intro keyed_Nil_find) simp
      then have "keyed ops k (co_surfaces ?st') = [draw_update r s] \<and> co_sync ?st' = co_sync st"
        using Some True s(1) by (auto simp: request_draw_def keyed_update_first_same)
      moreover have "good ops fd (draw_update r s)" "indexes (draw_update r s) = indexes s @ [JInt (sint (dr_index r))]"
        using s(2) by (auto simp: good_def indexes_def)
      ultimately show ?thesis
        using Some True s(1) by (auto intro!: owns_intro simp: account_def pending_def)
    next
      case False
      then have "keyed ops k (co_surfaces ?st') = keyed ops k (co_surfaces st)" "co_sync ?st' = co_sync st"
        using Some by (auto simp: request_draw_def keyed_update_first_other split: option.splits)
      then show ?thesis
        using Some False assms owns_cong [of ops k ?st' st] by (simp add: account_def)
    qed
  qed
qed

lemma keyed_remove:
  "sid \<noteq> fst k \<Longrightarrow> keyed ops k (remove_jsonobj_with_str_key ''rvgpu_surface_id'' sid xs) = keyed ops k xs"
proof -
  assume "sid \<noteq> fst k"
  then have "get_str_from_jsonobj j ''rvgpu_surface_id'' \<noteq> Some sid" if "surface_key ops j = Some k" for j
    using that by (auto simp: surface_key_def split: option.splits)
  then show ?thesis
    by (induction xs) (auto simp: remove_str_key)
qed

lemma account_remove:
  assumes "get_str_from_jsonobj j ''rvgpu_surface_id'' \<noteq> Some (fst k)"
  shows "owns ops k fd (request_remove j st) = owns ops k fd st"
    "account ops k fd (request_remove j st) = account ops k fd st"
  using assms owns_cong [of ops k "request_remove j st" st]
  by (auto simp: request_remove_def account_def keyed_remove split: option.splits)

lemma account_request:
  assumes "owns ops k fd st" "get_int_from_jsonobj ops j ''event_id'' = Some e"
    "keeps_surface ops k (Request (Some j))"
  shows "owns ops k fd (request ops e j st) \<and>
    account ops k fd (request ops e j st) = account ops k fd st @ drawn_by ops k (Request (Some j))"
  using assms account_draw [OF assms(1), of j]
  by (auto simp: request_def keeps_surface_def drawn_by_def account_add account_remove split: option.splits)

text \<open>
  The three parts of a frame.  Messages are those of the surfaces of the list; a message carries the
  key of its surface.
\<close>

lemma returned_append [simp]: "returned ops k fd (ms @ ms') = returned ops k fd ms @ returned ops k fd ms'"
  by (simp add: returned_def)

lemma returned_messages:
  assumes "\<And>j f m. msg j = Some (f, m) \<Longrightarrow> surface_key ops m = surface_key ops j"
  shows "returned ops k fd (List.map_filter (msg \<circ> snd) xs) =
    concat (map (\<lambda>j. case msg j of None \<Rightarrow> [] | Some (f, m) \<Rightarrow> if f = fd then indexes m else []) (keyed ops k xs))"
proof (induction xs)
  case (Cons x xs)
  show ?case
  proof (cases "msg (snd x)")
    case (Some fm)
    obtain f m where fm: "fm = (f, m)" by (cases fm)
    show ?thesis
      using Cons assms [of "snd x" f m] Some by (simp add: fm List.map_filter_def returned_def)
  qed (use Cons in \<open>simp add: List.map_filter_def returned_def\<close>)
qed (simp add: List.map_filter_def returned_def)

lemma skip_message_key: "skip_message ops j = Some (f, m) \<Longrightarrow> surface_key ops m = surface_key ops j"
  by (auto simp: skip_message_def split: option.splits if_splits)

lemma sync_message_key: "sync_message ops j = Some (f, m) \<Longrightarrow> surface_key ops m = surface_key ops j"
  by (auto simp: sync_message_def split: if_splits)

lemma skip_indexes_account:
  assumes "owns ops k fd st"
  shows "owns ops k fd (skip_indexes ops st)" "account ops k fd (skip_indexes ops st) = account ops k fd st"
proof -
  obtain j where j: "keyed ops k (co_surfaces st) = [j]" "good ops fd j"
    using assms by (rule owns_cases)
  then obtain xs where xs: "updated_indexes j = Some xs" "sync_fd ops j = Some fd" "is_object j"
    by (auto simp: good_def)
  have k: "keyed ops k (co_surfaces (skip_indexes ops st)) = [skip_surface ops j]"
    using j(1) keyed_map [of ops "skip_surface ops" k "co_surfaces st"] by (simp add: skip_indexes_def)
  show "owns ops k fd (skip_indexes ops st)"
    using k xs by (intro owns_intro) (auto simp: good_def skip_surface_def)
  have "(case skip_message ops j of None \<Rightarrow> [] | Some (f, m) \<Rightarrow> if f = fd then indexes m else []) @
      indexes (skip_surface ops j) = indexes j"
    using xs by (simp add: skip_message_def skip_surface_def indexes_def)
  then show "account ops k fd (skip_indexes ops st) = account ops k fd st"
    using j(1) k
    by (simp add: account_def pending_def)
      (simp add: skip_indexes_def returned_messages [where msg = "skip_message ops", OF skip_message_key])
qed

lemma sync_indexes_account:
  assumes "owns ops k fd st"
  shows "owns ops k fd (sync_indexes ops st)" "account ops k fd (sync_indexes ops st) = account ops k fd st"
    "pending ops k (sync_indexes ops st) = []"
proof -
  obtain j where j: "keyed ops k (co_surfaces st) = [j]" "good ops fd j"
    using assms by (rule owns_cases)
  then obtain xs where xs: "updated_indexes j = Some xs" "sync_fd ops j = Some fd" "is_object j"
    by (auto simp: good_def)
  have k: "keyed ops k (co_surfaces (sync_indexes ops st)) = [sync_surface ops j]"
    using j(1) keyed_map [of ops "sync_surface ops" k "co_surfaces st"] by (simp add: sync_indexes_def)
  show "owns ops k fd (sync_indexes ops st)"
    using k xs by (intro owns_intro) (auto simp: good_def sync_surface_def)
  show p: "pending ops k (sync_indexes ops st) = []"
    using k xs by (simp add: pending_def indexes_def sync_surface_def sync_pending_def)
  have "(case sync_message ops j of None \<Rightarrow> [] | Some (f, m) \<Rightarrow> if f = fd then indexes m else []) = indexes j"
    using xs by (auto simp: sync_message_def sync_pending_def indexes_def)
  then show "account ops k fd (sync_indexes ops st) = account ops k fd st"
    using j(1)
    by (simp add: account_def p)
      (simp add: sync_indexes_def pending_def returned_messages [where msg = "sync_message ops", OF sync_message_key])
qed

text \<open>Drawing only clears fences.\<close>

definition view :: "'d real_ops \<Rightarrow> 'd json \<Rightarrow> (string \<times> i32) option \<times> i32 option \<times> bool \<times> 'd json list option" where
  "view ops j = (surface_key ops j, sync_fd ops j, is_object j, updated_indexes j)"

definition same_view :: "'d real_ops \<Rightarrow> 'd compositor \<Rightarrow> 'd compositor \<Rightarrow> bool" where
  "same_view ops st st' =
     (map (view ops \<circ> snd) (co_surfaces st') = map (view ops \<circ> snd) (co_surfaces st) \<and> co_sync st' = co_sync st)"

lemma same_view_refl [simp]: "same_view ops st st"
  by (simp add: same_view_def)

lemma same_view_trans: "same_view ops st st' \<Longrightarrow> same_view ops st' st'' \<Longrightarrow> same_view ops st st''"
  by (simp add: same_view_def)

lemma view_clear [simp]: "view ops (clear_fence j) = view ops j"
  by (simp add: view_def)

lemma same_view_account:
  assumes "same_view ops st st'"
  shows "owns ops k fd st' = owns ops k fd st" "account ops k fd st' = account ops k fd st"
proof -
  have *: "map (view ops) (keyed ops k xs) = filter (\<lambda>v. fst v = Some k) (map (view ops \<circ> snd) xs)" for xs
    by (induction xs) (auto simp: view_def)
  have o: "owns ops k fd s = (let vs = map (view ops) (keyed ops k (co_surfaces s))
      in length vs = 1 \<and> list_all (\<lambda>(_, f, b, u). b \<and> f = Some fd \<and> u \<noteq> None) vs)" for s
    by (simp add: owns_def Let_def list_all_iff good_def view_def)
  have p: "pending ops k s = concat (map (\<lambda>(_, _, _, u). case u of None \<Rightarrow> [] | Some xs \<Rightarrow> xs)
      (map (view ops) (keyed ops k (co_surfaces s))))" for s
    by (simp add: pending_def indexes_def [abs_def] view_def comp_def)
  show "owns ops k fd st' = owns ops k fd st"
    using assms by (simp only: o * same_view_def)
  show "account ops k fd st' = account ops k fd st"
    using assms by (simp only: account_def p * same_view_def)
qed

lemma layout_draw_item_view: "same_view ops st (layout_draw_item ops cp item st)"
  by (auto simp: layout_draw_item_def same_view_def Let_def map_update_first split: option.splits prod.splits)

lemma layout_draw_view: "same_view ops st (layout_draw ops cp st)"
proof -
  have "same_view ops s (fold (\<lambda>(_, item). layout_draw_item ops cp item) xs s)" for s and xs :: "'a obj list"
    by (induction xs arbitrary: s) (auto intro: same_view_trans [OF layout_draw_item_view])
  moreover have "same_view ops st (safety_areas cp st)"
    by (simp add: safety_areas_def same_view_def Let_def)
  ultimately show ?thesis
    unfolding layout_draw_def by (blast intro: same_view_trans)
qed

lemma plain_draw_view: "same_view ops st (plain_draw ops st)"
  by (simp add: plain_draw_def same_view_def)

lemma swap_view: "same_view ops st (swap cp le st)"
  by (simp add: swap_def same_view_def)

lemma compose_frame_account:
  assumes "owns ops k fd st"
  shows "owns ops k fd (compose_frame ops cp le st)" "account ops k fd (compose_frame ops cp le st) = account ops k fd st"
    "pending ops k (compose_frame ops cp le st) = []"
proof -
  define st2 where "st2 = swap cp le (if cp_layout_draw cp then layout_draw ops cp (skip_indexes ops st)
    else plain_draw ops (skip_indexes ops st))"
  have "same_view ops (skip_indexes ops st) st2"
    using same_view_trans [OF layout_draw_view swap_view] same_view_trans [OF plain_draw_view swap_view]
    by (auto simp: st2_def)
  note same = same_view_account [OF this] skip_indexes_account [OF assms]
  have f: "compose_frame ops cp le st = sync_indexes ops st2"
    by (simp add: compose_frame_def st2_def)
  show "owns ops k fd (compose_frame ops cp le st)" "account ops k fd (compose_frame ops cp le st) = account ops k fd st"
    "pending ops k (compose_frame ops cp le st) = []"
    unfolding f using same sync_indexes_account [of ops k fd st2] by simp_all
qed

text \<open>
  A frame returns to a surface all buffers that were drawn to it, and none is left: what the
  compositor sends on the connection of the surface while it draws a frame are exactly the buffers
  that were pending, in order.
\<close>

theorem frame_returns_buffers:
  assumes "owns ops k fd st"
  shows "returned ops k fd (co_sync (compose_frame ops cp le st)) = returned ops k fd (co_sync st) @ pending ops k st \<and>
    pending ops k (compose_frame ops cp le st) = []"
  using compose_frame_account [OF assms, of cp le] by (simp add: account_def)

lemma frame_returns_buffers_witness:
  "let st = request_draw demo_real (demo_draw ''a'' 0 1 0) (request_draw demo_real (demo_draw ''a'' 0 0 0)
         (request_add (demo_add ''a'' 0 7) co_start))
   in returned demo_real (''a'', 0) 7 (co_sync (compose_frame demo_real (demo_params False) False st)) = [JInt 0, JInt 1]"
  using frame_returns_buffers [of demo_real "(''a'', 0)" 7 "request_draw demo_real (demo_draw ''a'' 0 1 0)
      (request_draw demo_real (demo_draw ''a'' 0 0 0) (request_add (demo_add ''a'' 0 7) co_start))" "demo_params False" False]
  unfolding Let_def by code_simp

text \<open>
  Along a run the account of a surface, with the buffers that the requests to come will draw, stays
  the same.
\<close>

definition balanced ::
  "'d real_ops \<Rightarrow> string \<times> i32 \<Rightarrow> i32 \<Rightarrow> 'd json list \<Rightarrow> 'd turn list \<Rightarrow> 'd compositor \<Rightarrow> bool" where
  "balanced ops k fd bufs rest st =
     (owns ops k fd st \<and> (\<forall>t \<in> set rest. keeps_surface ops k t) \<and> account ops k fd st @ drawn ops k rest = bufs)"

lemma account_updates [simp]:
  "owns ops k fd (st\<lparr>co_layout := ly\<rparr>) = owns ops k fd st"
  "account ops k fd (st\<lparr>co_layout := ly\<rparr>) = account ops k fd st"
  "owns ops k fd (st\<lparr>co_running := b, co_stop_events := m\<rparr>) = owns ops k fd st"
  "account ops k fd (st\<lparr>co_running := b, co_stop_events := m\<rparr>) = account ops k fd st"
  by (simp_all add: owns_def account_def pending_def)

lemma drawn_simps [simp]:
  "drawn ops k [] = []" "drawn ops k (t # rest) = drawn_by ops k t @ drawn ops k rest"
  by (simp_all add: drawn_def)

lemma drawn_by_other:
  "\<nexists>j. t = Request (Some j) \<and> get_int_from_jsonobj ops j ''event_id'' \<noteq> None \<Longrightarrow> drawn_by ops k t = []"
  "drawn_by ops k (Layout_thread ly) = []"
  "get_int_from_jsonobj ops j ''event_id'' = Some RVGPU_STOP_EVENT_ID \<Longrightarrow> drawn_by ops k (Request (Some j)) = []"
  by (auto simp: drawn_by_def split: turn.splits option.splits)

interpretation buffers: run_invariant ops cp "balanced ops k fd bufs" for ops cp k fd bufs
proof
  fix j rest st e
  assume "balanced ops k fd bufs (Request (Some j) # rest) st" "get_int_from_jsonobj ops j ''event_id'' = Some e"
  then show "balanced ops k fd bufs rest (request ops e j st)"
    using account_request [of ops k fd st j e] by (auto simp: balanced_def)
qed (auto simp: balanced_def drawn_by_other compose_frame_account)

text \<open>
  C25. No buffer is lost and none is returned twice: whatever the other surfaces and the layout do, as
  long as a surface is neither removed nor added again, the buffers that were returned on its
  connection, followed by those still pending, are exactly those that its draw requests named, in
  their order.
\<close>

theorem buffers_returned_in_order:
  assumes "owns ops k fd st" "\<forall>t \<in> set script. keeps_surface ops k t"
  shows "let st' = compositor_render ops cp script st
    in owns ops k fd st' \<and>
       returned ops k fd (co_sync st') @ pending ops k st' =
       returned ops k fd (co_sync st) @ pending ops k st @ drawn ops k script"
proof -
  have "balanced ops k fd (account ops k fd st @ drawn ops k script) script st"
    using assms by (simp add: balanced_def)
  from buffers.runs [OF this, of cp] obtain rest where
    "balanced ops k fd (account ops k fd st @ drawn ops k script) rest (compositor_render ops cp script st)"
    "co_active (compositor_render ops cp script st) \<longrightarrow> rest = []"
    by blast
  then show ?thesis
    using owns_active [of ops k fd "compositor_render ops cp script st"]
    by (auto simp: balanced_def account_def Let_def)
qed

definition demo_script :: "int turn list" where
  "demo_script =
     [demo_request (demo_draw ''a'' 0 0 5), demo_request (demo_add ''b'' 0 8), demo_request (demo_draw ''a'' 0 1 6), Idle,
      demo_request (demo_draw ''b'' 0 1 7), demo_request (demo_draw ''a'' 0 0 9), Idle, demo_request (demo_remove ''b'')]"

lemma buffers_returned_in_order_witness:
  "let st' = compositor_render demo_real (demo_params False) demo_script (request_add (demo_add ''a'' 0 7) co_start)
   in returned demo_real (''a'', 0) 7 (co_sync st') @ pending demo_real (''a'', 0) st' = [JInt 0, JInt 1, JInt 0]"
proof -
  let ?st = "request_add (demo_add ''a'' 0 7) co_start"
  have "owns demo_real (''a'', 0) 7 ?st" "\<forall>t \<in> set demo_script. keeps_surface demo_real (''a'', 0) t"
    by code_simp+
  moreover have "returned demo_real (''a'', 0) 7 (co_sync ?st) = []" "pending demo_real (''a'', 0) ?st = []"
      "drawn demo_real (''a'', 0) demo_script = [JInt 0, JInt 1, JInt 0]"
    by code_simp+
  ultimately show ?thesis
    using buffers_returned_in_order [of demo_real "(''a'', 0)" 7 ?st demo_script "demo_params False"]
    by (simp add: Let_def)
qed

end
