(* ===== verification/Compositor_Fences.thy ===== *)
theory Compositor_Fences
  imports Buffers_Returned "HOL-Library.Multiset"
begin

text \<open>
  The fences and the list of the compositor.  A draw request may carry a fence that says when the
  picture is uploaded; the compositor waits for it before it draws the picture for the first time,
  and deletes it.  Proved: no fence is waited for or deleted after it was deleted; the list of
  surfaces stays well formed; a surface is drawn from inside its picture.
\<close>

section \<open>Fences\<close>

text \<open>No command names a fence of \<open>D\<close> or one that was deleted before.\<close>

fun fences_ok :: "int set \<Rightarrow> 'd gl_op list \<Rightarrow> bool" where
  "fences_ok D [] = True"
| "fences_ok D (Gl_wait f # gl) = (f \<notin> D \<and> fences_ok D gl)"
| "fences_ok D (Gl_delete f # gl) = (f \<notin> D \<and> fences_ok (insert f D) gl)"
| "fences_ok D (_ # gl) = fences_ok D gl"

fun deleted :: "'d gl_op list \<Rightarrow> int list" where
  "deleted [] = []"
| "deleted (Gl_delete f # gl) = f # deleted gl"
| "deleted (_ # gl) = deleted gl"

definition nonzero :: "int list \<Rightarrow> int multiset" where
  "nonzero fs = mset (filter (\<lambda>f. f \<noteq> 0) fs)"

abbreviation fences_of :: "'d obj list \<Rightarrow> int multiset" where
  "fences_of xs \<equiv> nonzero (map (upload_fence \<circ> snd) xs)"

text \<open>The fences a request delivers.\<close>

definition delivered_by :: "'d real_ops \<Rightarrow> 'd turn \<Rightarrow> int list" where
  "delivered_by ops t =
     (case t of
        Request (Some j) \<Rightarrow>
          if get_int_from_jsonobj ops j ''event_id'' \<in> {Some RVGPU_ADD_EVENT_ID, Some RVGPU_DRAW_EVENT_ID} \<and>
             upload_fence j \<noteq> 0
          then [upload_fence j] else []
      | _ \<Rightarrow> [])"

definition delivered :: "'d real_ops \<Rightarrow> 'd turn list \<Rightarrow> int list" where
  "delivered ops script = concat (map (delivered_by ops) script)"

text \<open>Every fence was delivered, is in the list or deleted, and not both.\<close>

definition fence_inv :: "int multiset \<Rightarrow> 'd compositor \<Rightarrow> bool" where
  "fence_inv M st = (fences_ok {} (co_gl st) \<and> fences_of (co_surfaces st) + mset (deleted (co_gl st)) \<subseteq># M)"

lemma fences_ok_append [simp]: "fences_ok D (a @ b) = (fences_ok D a \<and> fences_ok (D \<union> set (deleted a)) b)"
  by (induction D a rule: fences_ok.induct) auto

lemma deleted_append [simp]: "deleted (a @ b) = deleted a @ deleted b"
  by (induction a rule: deleted.induct) auto

lemma deleted_fence_ops [simp]:
  "deleted (delete_fence f) = (if f = 0 then [] else [f])" "deleted (wait_fence f) = (if f = 0 then [] else [f])"
  "fences_ok D (delete_fence f) = (f \<noteq> 0 \<longrightarrow> f \<notin> D)" "fences_ok D (wait_fence f) = (f \<noteq> 0 \<longrightarrow> f \<notin> D)"
  by (simp_all add: delete_fence_def wait_fence_def)

lemma nonzero_simps [simp]:
  "nonzero [] = {#}" "nonzero (f # fs) = (if f = 0 then {#} else {#f#}) + nonzero fs"
  "nonzero (fs @ gs) = nonzero fs + nonzero gs"
  by (simp_all add: nonzero_def)

lemma count_le_distinct:
  assumes "S + D \<subseteq># M" "\<And>f. count M f \<le> (1 :: nat)" "f \<in># S"
  shows "f \<notin># D"
proof
  assume "f \<in># D"
  then have "1 \<le> count S f" "1 \<le> count D f"
    using assms(3) by simp_all
  then show False
    using mset_subset_eq_count [OF assms(1), of f] assms(2) [of f] unfolding plus_multiset.rep_eq by linarith
qed

lemma update_first_split:
  "find p xs = Some x \<Longrightarrow> \<exists>as bs. xs = as @ x # bs \<and> p x \<and> update_first p f xs = as @ f x # bs"
proof (induction xs)
  case (Cons y xs)
  show ?case
  proof (cases "p y")
    case True
    then show ?thesis
      using Cons.prems by (intro exI [of _ "[]"] exI [of _ xs]) simp
  next
    case False
    then obtain as bs where "xs = as @ x # bs \<and> p x \<and> update_first p f xs = as @ f x # bs"
      using Cons by auto
    then show ?thesis
      using False by (intro exI [of _ "y # as"] exI [of _ bs]) (elim conjE, simp)
  qed
qed simp

lemma key_object: "surface_key ops j = Some k \<Longrightarrow> is_object j"
  by (cases j) (auto simp: surface_key_def get_str_from_jsonobj_def)

lemma upload_fence_set [simp]:
  "k \<noteq> ''upload_fence'' \<Longrightarrow> upload_fence (json_object_set j k v) = upload_fence j"
  "k \<noteq> ''upload_fence'' \<Longrightarrow> upload_fence (json_object_del j k) = upload_fence j"
  "is_object j \<Longrightarrow> upload_fence (json_object_set j ''upload_fence'' (JInt f)) = f"
  by (simp_all add: upload_fence_def get_set_object)

lemma upload_fence_simps [simp]:
  "is_object j \<Longrightarrow> upload_fence (draw_update r j) = dr_fence r" "upload_fence (skip_surface ops j) = upload_fence j"
  "upload_fence (sync_surface ops j) = upload_fence j" "is_object j \<Longrightarrow> upload_fence (clear_fence j) = 0"
  by (auto simp: draw_update_def Let_def skip_surface_def sync_surface_def clear_fence_def split: option.splits)

lemma fence_invI:
  assumes "fence_inv M st" "\<And>f. count M f \<le> 1"
    and "co_gl st' = co_gl st @ gl"
    and "fences_ok (set (deleted (co_gl st))) gl"
    and "fences_of (co_surfaces st') + mset (deleted gl) \<subseteq># fences_of (co_surfaces st) + N"
  shows "fence_inv (M + N) st'"
proof -
  have "(fences_of (co_surfaces st') + mset (deleted gl)) + mset (deleted (co_gl st)) \<subseteq>#
      (fences_of (co_surfaces st) + N) + mset (deleted (co_gl st))"
    using assms(5) by (rule subset_mset.add_right_mono)
  also have "\<dots> = (fences_of (co_surfaces st) + mset (deleted (co_gl st))) + N"
    by (simp add: ac_simps)
  also have "\<dots> \<subseteq># M + N"
    using assms(1) by (intro subset_mset.add_right_mono) (simp add: fence_inv_def)
  finally show ?thesis
    using assms(1,3,4) by (simp add: fence_inv_def ac_simps)
qed

lemma fence_inv_not_deleted:
  "fence_inv M st \<Longrightarrow> (\<And>f. count M f \<le> 1) \<Longrightarrow> f \<in># fences_of (co_surfaces st) \<Longrightarrow> f \<notin> set (deleted (co_gl st))"
  using count_le_distinct [of "fences_of (co_surfaces st)" "mset (deleted (co_gl st))" M f] by (simp add: fence_inv_def)

lemma fence_add:
  assumes "fence_inv M st" "\<And>f. count M f \<le> 1"
  shows "fence_inv (M + nonzero [upload_fence j]) (request_add j st)"
  by (rule fence_invI [OF assms, where gl = "[]"]) (simp_all add: request_add_def)

lemma fence_draw:
  assumes "fence_inv M st" "\<And>f. count M f \<le> 1"
  shows "fence_inv (M + nonzero [upload_fence j]) (request_draw ops j st)"
proof (cases "read_draw_request ops j")
  case None
  then show ?thesis
    by (intro fence_invI [OF assms, where gl = "[]"]) (simp_all add: request_draw_def)
next
  case (Some r)
  have r: "dr_fence r = upload_fence j"
    using Some by (auto simp: read_draw_request_def split: option.splits list.splits)
  let ?p = "\<lambda>(_ :: nat, s). surface_key ops s = Some (dr_key r)"
  show ?thesis
  proof (cases "find ?p (co_surfaces st)")
    case None
    then show ?thesis
      using Some by (intro fence_invI [OF assms, where gl = "[]"]) (simp_all add: request_draw_def)
  next
    case found: (Some x)
    obtain a s where x: "x = (a, s)" by (cases x)
    obtain as bs where u: "co_surfaces st = as @ (a, s) # bs" "surface_key ops s = Some (dr_key r)"
      "update_first ?p (map_prod id (draw_update r)) (co_surfaces st) = as @ (a, draw_update r s) # bs"
      using update_first_split [OF found, of "map_prod id (draw_update r)"] x by auto
    have "upload_fence s \<noteq> 0 \<Longrightarrow> upload_fence s \<notin> set (deleted (co_gl st))"
      by (rule fence_inv_not_deleted [OF assms]) (simp add: u(1))
    then show ?thesis
      using Some found x u r key_object [OF u(2)]
      by (intro fence_invI [OF assms, where gl = "delete_fence (upload_fence s)"])
        (simp_all add: request_draw_def)
  qed
qed

lemma fence_remove:
  assumes "fence_inv M st" "\<And>f. count M f \<le> 1"
  shows "fence_inv M (request_remove j st)"
proof (cases "get_str_from_jsonobj j ''rvgpu_surface_id''")
  case None
  then show ?thesis
    using assms(1) by (simp add: request_remove_def)
next
  case (Some sid)
  let ?p = "\<lambda>(_ :: nat, s). get_str_from_jsonobj s ''rvgpu_surface_id'' = Some sid"
  let ?rest = "remove_jsonobj_with_str_key ''rvgpu_surface_id'' sid (co_surfaces st)"
  have rest: "?rest = filter (\<lambda>x. \<not> ?p x) (co_surfaces st)"
    by (simp add: remove_str_key case_prod_unfold)
  have le: "fences_of (filter q xs) \<subseteq># fences_of xs" for q and xs :: "'a obj list"
    by (induction xs) (auto intro: subset_mset.add_left_mono subset_mset.order_trans)
  have "fence_inv (M + {#}) (request_remove j st)"
  proof (cases "find ?p (co_surfaces st)")
    case None
    then show ?thesis
      using Some le [of "\<lambda>x. \<not> ?p x" "co_surfaces st"]
      by (intro fence_invI [OF assms, where gl = "[]"]) (simp_all add: request_remove_def rest)
  next
    case found: (Some x)
    obtain a s where x: "x = (a, s)" by (cases x)
    obtain as bs where u: "co_surfaces st = as @ (a, s) # bs" "?p (a, s)"
      using update_first_split [OF found, of id] x by auto
    have "upload_fence s \<noteq> 0 \<Longrightarrow> upload_fence s \<notin> set (deleted (co_gl st))"
      by (rule fence_inv_not_deleted [OF assms]) (simp add: u(1))
    moreover have "fences_of (filter (\<lambda>x. \<not> ?p x) as) + fences_of (filter (\<lambda>x. \<not> ?p x) bs) \<subseteq># fences_of as + fences_of bs"
      by (intro subset_mset.add_mono le)
    then have "fences_of ?rest \<subseteq># fences_of as + fences_of bs"
      unfolding rest unfolding u(1) using u(2) by simp
    ultimately show ?thesis
      using Some found x u
      by (intro fence_invI [OF assms, where gl = "delete_fence (upload_fence s)"])
        (simp_all add: request_remove_def rest)
  qed
  then show ?thesis
    by simp
qed

lemma fence_inv_mono: "fence_inv M st \<Longrightarrow> M \<subseteq># M' \<Longrightarrow> fence_inv M' st"
  by (auto simp: fence_inv_def intro: subset_mset.order_trans)

lemma fence_request:
  assumes "fence_inv M st" "\<And>f. count M f \<le> 1" "get_int_from_jsonobj ops j ''event_id'' = Some e"
  shows "fence_inv (M + mset (delivered_by ops (Request (Some j)))) (request ops e j st)"
  using fence_add [OF assms(1,2), of j] fence_draw [OF assms(1,2), of j ops] fence_remove [OF assms(1,2), of j] assms(1,3)
  by (auto simp: request_def delivered_by_def intro: fence_inv_mono split: if_splits)

text \<open>A frame.\<close>

lemma fence_inv_frame:
  "fence_inv M st \<Longrightarrow> co_gl st' = co_gl st \<Longrightarrow> fences_of (co_surfaces st') = fences_of (co_surfaces st) \<Longrightarrow> fence_inv M st'"
  by (simp add: fence_inv_def)

lemma fences_of_map: "(\<And>j. upload_fence (f j) = upload_fence j) \<Longrightarrow> fences_of (map (map_prod id f) xs) = fences_of xs"
  by (simp add: comp_def)

lemma fence_wait:
  assumes "fence_inv M st" "\<And>f. count M f \<le> 1" "find p (co_surfaces st) = Some (a, j)" "is_object j"
  shows "fence_inv M (st\<lparr>co_surfaces := update_first p (map_prod id clear_fence) (co_surfaces st),
    co_gl := co_gl st @ wait_fence (upload_fence j)\<rparr>)"
proof -
  obtain as bs where u: "co_surfaces st = as @ (a, j) # bs"
    "update_first p (map_prod id clear_fence) (co_surfaces st) = as @ (a, clear_fence j) # bs"
    using update_first_split [OF assms(3), of "map_prod id clear_fence"] by auto
  have "upload_fence j \<noteq> 0 \<Longrightarrow> upload_fence j \<notin> set (deleted (co_gl st))"
    by (rule fence_inv_not_deleted [OF assms(1,2)]) (simp add: u(1))
  then have "fence_inv (M + {#}) (st\<lparr>co_surfaces := update_first p (map_prod id clear_fence) (co_surfaces st),
      co_gl := co_gl st @ wait_fence (upload_fence j)\<rparr>)"
    using u assms(4) by (intro fence_invI [OF assms(1,2), where gl = "wait_fence (upload_fence j)"]) simp_all
  then show ?thesis
    by simp
qed

lemma item_ops_cases: "item_ops ops cp item source = [] \<or> (\<exists>t w h s d. item_ops ops cp item source = [Gl_draw t w h s d])"
  by (auto simp: item_ops_def Let_def split: prod.splits option.splits)

lemma fence_layout_item:
  assumes "fence_inv M st" "\<And>f. count M f \<le> 1"
  shows "fence_inv M (layout_draw_item ops cp item st)"
proof (cases "layout_draw_item ops cp item st = st")
  case False
  then obtain i sid a j source where k: "layout_key ops item = Some (i, sid)" "is_layout_surface_visible ops item"
      "find (draw_target ops item sid) (co_surfaces st) = Some (a, j)" "draw_source ops j = Some source"
    by (auto simp: layout_draw_item_def split: option.splits if_splits)
  then have "draw_target ops item sid (a, j)"
    by (auto simp: find_Some_iff)
  then have "is_object j"
    by (auto simp: draw_target_def Let_def dest: key_object)
  then show ?thesis
    using fence_wait [OF assms k(3)] item_ops_cases [of ops cp item source] k
    by (auto simp: layout_draw_item_def fence_inv_def)
qed (use assms in simp)

lemma fence_layout_draw:
  assumes "fence_inv M st" "\<And>f. count M f \<le> 1"
  shows "fence_inv M (layout_draw ops cp st)"
proof -
  have "fence_inv M (fold (\<lambda>(_, item). layout_draw_item ops cp item) xs s)" if "fence_inv M s"
    for s and xs :: "'a obj list"
    using that by (induction xs arbitrary: s) (auto intro: fence_layout_item [OF _ assms(2)])
  moreover have "fences_ok D (map stencil_op as) \<and> deleted (map stencil_op as) = []" for D and as :: "'a json list"
    by (induction as) (simp_all add: stencil_op_def Let_def)
  then have "fence_inv M (safety_areas cp st)"
    using assms(1) by (simp add: fence_inv_def safety_areas_def Let_def)
  ultimately show ?thesis
    by (simp add: layout_draw_def)
qed

lemma fence_plain_list:
  "mset (deleted (concat (map (plain_ops ops \<circ> snd) xs))) +
     fences_of (map (map_prod id (\<lambda>j. if plain_source ops j = None then j else clear_fence j)) xs) = fences_of xs"
proof (induction xs)
  case (Cons x xs)
  obtain a j where x: "x = (a, j)" by (cases x)
  show ?case
  proof (cases "plain_source ops j")
    case (Some s)
    then have "is_object j"
      by (cases j) (auto simp: plain_source_def get_int_from_jsonobj_def)
    then show ?thesis
      using Cons Some x by (cases s) (auto simp: plain_ops_def Let_def)
  qed (use Cons x in \<open>auto simp: plain_ops_def\<close>)
qed simp

lemma fences_ok_plain:
  "(\<And>f. count (fences_of xs) f \<le> 1) \<Longrightarrow> set_mset (fences_of xs) \<inter> D = {} \<Longrightarrow>
     fences_ok D (concat (map (plain_ops ops \<circ> snd) xs))"
proof (induction xs arbitrary: D)
  case (Cons x xs)
  obtain a j where x: "x = (a, j)" by (cases x)
  have c: "count (fences_of xs) f \<le> 1" "upload_fence j \<noteq> 0 \<Longrightarrow> upload_fence j \<notin># fences_of xs" for f
    using Cons.prems(1) [of f] Cons.prems(1) [of "upload_fence j"] x
    by (auto simp: not_in_iff comp_def split: if_splits)
  have disjoint: "set_mset (fences_of xs) \<inter> D = {}" "upload_fence j \<noteq> 0 \<Longrightarrow> upload_fence j \<notin> D"
    using Cons.prems(2) x by (auto simp: comp_def)
  then have ih: "fences_ok D (concat (map (plain_ops ops \<circ> snd) xs))"
    "upload_fence j \<noteq> 0 \<Longrightarrow> fences_ok (insert (upload_fence j) D) (concat (map (plain_ops ops \<circ> snd) xs))"
    using Cons.IH [OF c(1), of D] Cons.IH [OF c(1), of "insert (upload_fence j) D"] c(2)
    by (auto simp: comp_def)
  have "plain_ops ops j = [] \<or> (\<exists>t w h s d. plain_ops ops j = wait_fence (upload_fence j) @ [Gl_draw t w h s d])"
    by (auto simp: plain_ops_def Let_def split: option.splits)
  then show ?case
    using ih disjoint(2) x by (auto simp: comp_def)
qed simp

lemma fence_plain_draw:
  assumes "fence_inv M st" "\<And>f. count M f \<le> 1"
  shows "fence_inv M (plain_draw ops st)"
proof -
  have "count (fences_of (co_surfaces st)) f \<le> 1" for f
    using assms(2) [of f] mset_subset_eq_count [of "fences_of (co_surfaces st) + mset (deleted (co_gl st))" M f] assms(1)
    by (simp add: fence_inv_def)
  moreover have "set_mset (fences_of (co_surfaces st)) \<inter> set (deleted (co_gl st)) = {}"
    using fence_inv_not_deleted [OF assms] by blast
  ultimately have "fences_ok (set (deleted (co_gl st))) (concat (map (plain_ops ops \<circ> snd) (co_surfaces st)))"
    by (rule fences_ok_plain)
  then have "fence_inv (M + {#}) (plain_draw ops st)"
    using fence_plain_list [of ops "co_surfaces st"]
    by (intro fence_invI [OF assms, where gl = "concat (map (plain_ops ops \<circ> snd) (co_surfaces st))"])
      (simp_all add: plain_draw_def ac_simps)
  then show ?thesis
    by simp
qed

lemma fence_frame:
  assumes "fence_inv M st" "\<And>f. count M f \<le> 1"
  shows "fence_inv M (compose_frame ops cp le st)"
proof -
  have skip: "fence_inv M (skip_indexes ops st)"
    using assms(1) by (rule fence_inv_frame) (simp_all add: skip_indexes_def comp_def)
  have swap: "fence_inv M (sync_indexes ops (swap cp le s))" if "fence_inv M s" for s
    using that by (simp add: fence_inv_def sync_indexes_def swap_def comp_def)
  show ?thesis
    using fence_layout_draw [OF skip assms(2)] fence_plain_draw [OF skip assms(2)]
    by (auto simp: compose_frame_def Let_def intro!: swap)
qed

text \<open>Along a run, with the fences still to be delivered.\<close>

definition fence_budget :: "'d real_ops \<Rightarrow> 'd turn list \<Rightarrow> 'd compositor \<Rightarrow> bool" where
  "fence_budget ops rest st =
     (\<exists>M. fence_inv M st \<and> (\<forall>f. count (M + mset (delivered ops rest)) f \<le> 1))"

lemma delivered_simps [simp]:
  "delivered ops [] = []" "delivered ops (t # rest) = delivered_by ops t @ delivered ops rest"
  by (simp_all add: delivered_def)

lemma fence_budget_step:
  assumes "fence_budget ops (t # rest) st"
    and "\<And>M. fence_inv M st \<Longrightarrow> (\<And>f. count M f \<le> 1) \<Longrightarrow> fence_inv (M + mset (delivered_by ops t)) st'"
  shows "fence_budget ops rest st'"
proof -
  obtain M where M: "fence_inv M st" "\<forall>f. count (M + mset (delivered ops (t # rest))) f \<le> 1"
    using assms(1) by (auto simp: fence_budget_def)
  have "count M f \<le> 1" for f
    using M(2) [rule_format, of f] by simp
  then have "fence_inv (M + mset (delivered_by ops t)) st'"
    using assms(2) M(1) by blast
  moreover have "\<forall>f. count (M + mset (delivered_by ops t) + mset (delivered ops rest)) f \<le> 1"
    using M(2) by (simp add: add.assoc)
  ultimately show ?thesis
    unfolding fence_budget_def by blast
qed

lemma delivered_by_other: "\<nexists>j. t = Request (Some j) \<and> get_int_from_jsonobj ops j ''event_id'' \<noteq> None \<Longrightarrow> delivered_by ops t = []"
  by (auto simp: delivered_by_def split: turn.splits option.splits)

interpretation fence: run_invariant ops cp "fence_budget ops" for ops cp
proof
  fix j rest st e
  assume "fence_budget ops (Request (Some j) # rest) st" "get_int_from_jsonobj ops j ''event_id'' = Some e"
  then show "fence_budget ops rest (request ops e j st)"
    using fence_request by (elim fence_budget_step) blast
next
  fix rest st le
  assume "fence_budget ops rest st"
  then obtain M where M: "fence_inv M st" "\<forall>f. count (M + mset (delivered ops rest)) f \<le> 1"
    by (auto simp: fence_budget_def)
  have "count M f \<le> 1" for f
    using M(2) [rule_format, of f] by simp
  then show "fence_budget ops rest (compose_frame ops cp le st)"
    using M fence_frame unfolding fence_budget_def by blast
qed (erule fence_budget_step, fastforce simp: fence_inv_def delivered_by_def dest: delivered_by_other split: turn.splits option.splits)+

text \<open>
  C29. No fence is used after its end: if no two requests deliver the same fence, then on every run
  from the start, with or without a layout, the compositor neither waits for a fence that it has
  deleted nor deletes one twice.
\<close>

theorem fences_not_reused:
  assumes "distinct (delivered ops script)" "co_surfaces st = []" "co_gl st = []"
  shows "fences_ok {} (co_gl (compositor_render ops cp script st))"
proof -
  have "fence_budget ops script st"
    using assms by (auto simp: fence_budget_def fence_inv_def distinct_count_atmost_1 intro!: exI [of _ "{#}"])
  from fence.runs [OF this, of cp] show ?thesis
    by (auto simp: fence_budget_def fence_inv_def)
qed

lemma fences_not_reused_witness:
  "fences_ok {} (co_gl (compositor_render demo_real (demo_params False)
     (demo_request (demo_add ''a'' 0 7) # demo_script) co_start))"
  by (rule fences_not_reused) code_simp+

text \<open>
  A surface that is removed gives back one of its fences only: those of its other scanouts stay
  alive, as does the fence of a draw request for a surface that is not in the list.
\<close>

lemma remove_leaks_fence:
  "let st = compositor_render demo_real (demo_params False)
      [demo_request (demo_add ''a'' 0 7), demo_request (demo_add ''a'' 1 7), demo_request (demo_draw ''a'' 0 0 5),
       demo_request (demo_draw ''a'' 1 0 6), demo_request (demo_remove ''a''), demo_request (demo_draw ''a'' 0 0 9)] co_start
   in co_surfaces st = [] \<and> deleted (co_gl st) = [5]"
  by code_simp

section \<open>The list of surfaces\<close>

definition surface_ok :: "'d json \<Rightarrow> bool" where
  "surface_ok j = (is_object j \<and> updated_indexes j \<noteq> None)"

definition surfaces_wf :: "'d compositor \<Rightarrow> bool" where
  "surfaces_wf st =
     (list_all (\<lambda>(a, j). a < co_next st \<and> surface_ok j) (co_surfaces st) \<and> distinct (map fst (co_surfaces st)))"

lemma surfaces_wf_map:
  assumes "surfaces_wf st" "\<And>j. surface_ok j \<Longrightarrow> surface_ok (f j)"
    "co_surfaces st' = map (map_prod id f) (co_surfaces st)" "co_next st' = co_next st"
  shows "surfaces_wf st'"
  using assms by (auto simp: surfaces_wf_def list_all_iff comp_def)

lemma surfaces_wf_update_first:
  assumes "surfaces_wf st" "\<And>j. surface_ok j \<Longrightarrow> surface_ok (f j)"
  shows "surfaces_wf (st\<lparr>co_surfaces := update_first p (map_prod id f) (co_surfaces st), co_gl := gl\<rparr>)"
proof -
  have "map fst (update_first p (map_prod id f) (co_surfaces st)) = map fst (co_surfaces st)"
    by (rule map_update_first) auto
  moreover have "list_all (\<lambda>(a, j). a < n \<and> surface_ok j) xs \<Longrightarrow>
      list_all (\<lambda>(a, j). a < n \<and> surface_ok j) (update_first p (map_prod id f) xs)" for n xs
    using assms(2) by (induction xs) auto
  ultimately show ?thesis
    using assms(1) by (simp add: surfaces_wf_def)
qed

lemma surface_ok_changes:
  "surface_ok j \<Longrightarrow> surface_ok (draw_update r j)" "surface_ok j \<Longrightarrow> surface_ok (skip_surface ops j)"
  "surface_ok j \<Longrightarrow> surface_ok (sync_surface ops j)" "surface_ok j \<Longrightarrow> surface_ok (clear_fence j)"
  by (auto simp: surface_ok_def skip_surface_def sync_surface_def split: option.splits)

lemma surfaces_wf_cong:
  "surfaces_wf st \<Longrightarrow> co_surfaces st' = co_surfaces st \<Longrightarrow> co_next st' = co_next st \<Longrightarrow> surfaces_wf st'"
  by (simp add: surfaces_wf_def)

lemma surfaces_wf_request:
  assumes "surfaces_wf st" "get_int_from_jsonobj ops j ''event_id'' = Some e"
  shows "surfaces_wf (request ops e j st)"
proof -
  have "is_object j"
    using assms(2) by (cases j) (auto simp: get_int_from_jsonobj_def)
  then have "surfaces_wf (request_add j st)"
    using assms(1) by (auto simp: surfaces_wf_def request_add_def surface_ok_def list_all_iff)
  moreover have "surfaces_wf (request_draw ops j st)"
    using assms(1) surface_ok_changes(1)
    by (auto simp: request_draw_def split: option.splits
        intro!: surfaces_wf_update_first)
  moreover have "surfaces_wf (request_remove j st)"
    using assms(1)
    by (auto simp: request_remove_def surfaces_wf_def remove_str_key list_all_iff distinct_map_filter split: option.splits)
  ultimately show ?thesis
    using assms(1) by (simp add: request_def)
qed

lemma surfaces_wf_frame:
  assumes "surfaces_wf st"
  shows "surfaces_wf (compose_frame ops cp le st)"
proof -
  have item: "surfaces_wf (layout_draw_item ops cp i s)" if "surfaces_wf s" for i s
    using that surface_ok_changes(4)
    by (auto simp: layout_draw_item_def split: option.splits
        intro!: surfaces_wf_update_first)
  have "surfaces_wf (fold (\<lambda>(_, i). layout_draw_item ops cp i) xs s)" if "surfaces_wf s" for s and xs :: "'a obj list"
    using that by (induction xs arbitrary: s) (auto intro: item)
  then have layout: "surfaces_wf (layout_draw ops cp s)" if "surfaces_wf s" for s
    unfolding layout_draw_def using that
    by (intro \<open>\<And>s xs. surfaces_wf s \<Longrightarrow> surfaces_wf (fold _ xs s)\<close>)
      (auto simp: safety_areas_def Let_def intro: surfaces_wf_cong)
  have plain: "surfaces_wf (plain_draw ops s)" if "surfaces_wf s" for s
    by (rule surfaces_wf_map [OF that, where f = "\<lambda>j. if plain_source ops j = None then j else clear_fence j"])
      (auto simp: plain_draw_def surface_ok_changes)
  have skip: "surfaces_wf (skip_indexes ops st)"
    by (rule surfaces_wf_map [OF assms, where f = "skip_surface ops"]) (auto simp: skip_indexes_def surface_ok_changes)
  have sync: "surfaces_wf (sync_indexes ops (swap cp le s))" if "surfaces_wf s" for s
    by (rule surfaces_wf_map [OF that, where f = "sync_surface ops"]) (auto simp: sync_indexes_def swap_def surface_ok_changes)
  show ?thesis
    by (auto simp: compose_frame_def Let_def intro!: sync layout plain skip)
qed

interpretation wf: run_invariant ops cp "\<lambda>_. surfaces_wf" for ops cp
  by unfold_locales (auto intro: surfaces_wf_request surfaces_wf_frame surfaces_wf_cong)

text \<open>
  C30. The list of surfaces stays well formed, whatever the requests contain: every element is an
  object of its own with an array of buffers, so that a pointer into the list names one surface.
\<close>

theorem compositor_surfaces_wf:
  assumes "surfaces_wf st"
  shows "surfaces_wf (compositor_render ops cp script st)"
  using wf.runs [OF assms, of ops cp script] by auto

lemma compositor_surfaces_wf_witness:
  "surfaces_wf (compositor_render demo_real (demo_params True) (demo_request (demo_add ''a'' 0 7) # demo_script) co_start)"
  by (rule compositor_surfaces_wf) code_simp

section \<open>What is drawn\<close>

text \<open>Arithmetic without rounding.\<close>

definition exact :: "('d :: linordered_idom) real_ops \<Rightarrow> bool" where
  "exact ops = (rl_of_int ops = of_int \<and> rl_add ops = (+) \<and> rl_sub ops = (-) \<and> rl_le ops = (\<le>))"

lemma clip_axis_bounds:
  assumes "exact ops" "0 \<le> sint img" "0 \<le> len" "\<not> outside ops (rl_of_int ops (sint img)) (pos, len)"
    "clip_axis ops img (pos, len) = (pos', len')"
  shows "0 \<le> pos'" "0 \<le> len'" "pos' = max 0 pos" "pos' + len' = min (of_int (sint img)) (pos + len)"
proof -
  have "0 \<le> (of_int (sint img) :: 'a)"
    using assms(2) by (simp only: of_int_0_le_iff)
  then show "0 \<le> pos'" "0 \<le> len'" "pos' = max 0 pos" "pos' + len' = min (of_int (sint img)) (pos + len)"
    using assms(1,3-5)
    by (auto simp: clip_axis_def outside_def exact_def rl_less_def Let_def min_def max_def split: if_splits)
qed

text \<open>
  A surface is drawn from inside its picture: if a part is drawn at all, the part of the picture
  that is used is where the part the layout asks for meets the picture, so that no texture
  coordinate lies outside; the destination is the one of the layout.
\<close>

theorem clip_inside_picture:
  assumes "exact ops" "0 \<le> sint img_w" "0 \<le> sint img_h" "0 \<le> sw" "0 \<le> sh"
    and "clip ops cp img_w img_h 0 (sx, sy, sw, sh) dst = Some ((x, y, w, h), dst')"
  shows "dst' = dst \<and> 0 \<le> w \<and> 0 \<le> h \<and>
    x = max 0 sx \<and> x + w = min (of_int (sint img_w)) (sx + sw) \<and>
    y = max 0 sy \<and> y + h = min (of_int (sint img_h)) (sy + sh)"
proof -
  obtain dx dy dw dh where d: "dst = (dx, dy, dw, dh)" by (cases dst)
  have o: "\<not> outside ops (rl_of_int ops (sint img_w)) (sx, sw)" "\<not> outside ops (rl_of_int ops (sint img_h)) (sy, sh)"
    "clip_axis ops img_w (sx, sw) = (x, w)" "clip_axis ops img_h (sy, sh) = (y, h)" "dst' = dst"
    using assms(6) by (auto simp: clip_def d split: if_splits prod.splits)
  show ?thesis
    using clip_axis_bounds [OF assms(1,2,4) o(1,3)] clip_axis_bounds [OF assms(1,3,5) o(2,4)] o(5) by simp
qed

lemma clip_inside_picture_witness:
  "\<exists>x y w h. clip demo_real (demo_params True) 10 4 0 (- 2, 1, 5, 9) (0, 0, 8, 6) = Some ((x, y, w, h), (0, 0, 8, 6)) \<and>
     x = 0 \<and> x + w = 3 \<and> y = 1 \<and> y + h = 4"
proof -
  have c: "clip demo_real (demo_params True) 10 4 0 (- 2, 1, 5, 9) (0, 0, 8, 6) = Some ((0, 1, 3, 3), (0, 0, 8, 6))"
    by code_simp
  have "exact demo_real"
    by (auto simp: exact_def demo_real_def)
  from clip_inside_picture [OF this _ _ _ _ c] show ?thesis
    using c by simp
qed

text \<open>
  Of two invalid safety areas that follow each other the second one is kept, and masks a part of the
  window.
\<close>

definition demo_area :: "int \<Rightarrow> int json" where
  "demo_area x = JObject [(''x'', JInt x), (''y'', JInt 0), (''width'', JInt 2), (''height'', JInt 2)]"

lemma invalid_safety_area_kept:
  "let st = safety_areas (demo_params True)
      (co_start\<lparr>co_layout := \<lparr> ly_list = [], ly_next = 0, ly_safety = [demo_area 99, demo_area 98, demo_area 1] \<rparr>\<rparr>)
   in co_gl st = [Gl_stencil 98 0 2 2, Gl_stencil 1 0 2 2]"
  by code_simp

end
