(* ===== verification/Request_Loop.thy ===== *)
theory Request_Loop
  imports Compositor_Fences
begin

text \<open>
  The thread of the compositor that serves one renderer (\<open>request_event_loop\<close> in
  src/rvgpu-renderer/compositor/rvgpu-compositor.c).  For every scanout of the renderer it keeps the
  textures and the shared buffers; it creates the buffers the renderer asks for, hands them over, and
  passes the draw requests on to the main loop.  Proved: every buffer is destroyed exactly once, by
  the function for its kind; and a draw request that is passed on is one the main loop understands,
  with the same buffer, size and scanout.
\<close>

section \<open>State\<close>

abbreviation (input) RVGPU_SOFTWARE_BUFFER :: int where "RVGPU_SOFTWARE_BUFFER \<equiv> 0"
abbreviation (input) RVGPU_HARDWARE_BUFFER :: int where "RVGPU_HARDWARE_BUFFER \<equiv> 1"
abbreviation RVGPU_CREATE_BUFFER_EVENT_ID :: i32 where "RVGPU_CREATE_BUFFER_EVENT_ID \<equiv> - 7"

text \<open>
  The JSON object of a scanout: its arrays hold numbers and, where they were padded, null.  Buffers
  are given by kind and handle.
\<close>

record composit =
  cm_scanout :: int
  cm_textures :: "int option list"
  cm_fbos :: "int option list"
  cm_handles :: "int option list"
  cm_types :: "int option list"
  cm_egl_textures :: "int option list"
  cm_egl_fbos :: "int option list"
  cm_egl_images :: "int option list"

datatype buffer_op =
    Create_buffer int int | Destroy_buffer int int | Create_image int int | Destroy_image int
  | Copy_texture int int int | Upload_texture int int | Delete_texture int | Delete_fbo int
  | Reply_buffer int int

text \<open>
  The parameters of the thread, its list of scanouts with the last frame it copied for, what it did
  with buffers, what it sent to the main loop, and whether it has ended.
\<close>

record request_params =
  rp_surface_id :: string
  rp_client_fd :: i32
  rp_sync_fd :: i32
  rp_hardware :: bool

record 'd request_loop =
  rq_table :: "composit list"
  rq_last_frame :: u32
  rq_ops :: "buffer_op list"
  rq_sent :: "'d json list"
  rq_done :: bool

text \<open>
  What the system does during a request: the handles of a new hardware and a new shared memory
  buffer, the new EGL image, textures and framebuffers, whether \<open>mmap\<close> succeeds, the fence of the
  upload, 0 for failures, and the number of frames the main loop has drawn.
\<close>

record request_env =
  re_hardware :: int
  re_software :: int
  re_image :: int
  re_textures :: "int list"
  re_fbos :: "int list"
  re_mmap :: bool
  re_fence :: int
  re_frame :: u32

section \<open>Arrays\<close>

text \<open>
  An index is an \<open>int\<close> that becomes a \<open>size_t\<close>; \<open>json_array_get\<close> gives \<open>NULL\<close> behind the end, and
  \<open>json_integer_value\<close> 0 for what is no number.
\<close>

definition array_index :: "i32 \<Rightarrow> nat" where
  "array_index i = unat (scast i :: u64)"

definition array_get :: "int option list \<Rightarrow> nat \<Rightarrow> int option option" where
  "array_get xs i = (if i < length xs then Some (xs ! i) else None)"

definition array_int :: "int option list \<Rightarrow> nat \<Rightarrow> int" where
  "array_int xs i = (case array_get xs i of Some (Some v) \<Rightarrow> v | _ \<Rightarrow> 0)"

definition array_int_default :: "int option list \<Rightarrow> nat \<Rightarrow> int \<Rightarrow> int" where
  "array_int_default xs i d = (if array_get xs i = None then d else array_int xs i)"

abbreviation array_put :: "int option list \<Rightarrow> nat \<Rightarrow> int \<Rightarrow> int option list" where
  "array_put \<equiv> insert_integar_json_array_with_index"

text \<open>The name of a texture or framebuffer, cut to a \<open>GLuint\<close>.\<close>

definition gl_name :: "int \<Rightarrow> int" where
  "gl_name v = uint (word_of_int v :: u32)"

definition destroy_buffer :: "int \<Rightarrow> int \<Rightarrow> buffer_op list" where
  "destroy_buffer t h =
     (if t = RVGPU_HARDWARE_BUFFER \<or> t = RVGPU_SOFTWARE_BUFFER then [Destroy_buffer t h] else [])"

section \<open>Requests\<close>

definition new_composit :: "i32 \<Rightarrow> request_env \<Rightarrow> composit" where
  "new_composit scanout env =
     \<lparr> cm_scanout = sint scanout, cm_textures = map Some (take 2 (re_textures env)),
       cm_fbos = map Some (take 2 (re_fbos env)), cm_handles = [], cm_types = [], cm_egl_textures = [],
       cm_egl_fbos = [], cm_egl_images = [] \<rparr>"

text \<open>The EGL image of a hardware buffer, and the texture and framebuffer it is bound to.\<close>

definition bind_image :: "request_env \<Rightarrow> nat \<Rightarrow> int \<Rightarrow> composit \<Rightarrow> composit \<times> buffer_op list" where
  "bind_image env i h c =
     (let old = array_int (cm_egl_images c) i;
          c1 = c\<lparr>cm_egl_images := array_put (array_put (cm_egl_images c) i 0) i (re_image env)\<rparr>;
          c2 = (if array_get (cm_egl_textures c) i = None \<and> array_get (cm_egl_fbos c) i = None
                then c1\<lparr>cm_egl_textures := array_put (cm_egl_textures c) i (hd (re_textures env)),
                        cm_egl_fbos := array_put (cm_egl_fbos c) i (hd (re_fbos env))\<rparr>
                else c1)
      in (c2, (if old \<noteq> 0 then [Destroy_image old] else []) @ [Create_image (re_image env) h]))"

text \<open>A hardware buffer if there are any, else one of shared memory.\<close>

definition choose_buffer :: "bool \<Rightarrow> request_env \<Rightarrow> int \<times> int" where
  "choose_buffer hardware env =
     (if hardware \<and> re_hardware env \<noteq> 0 then (RVGPU_HARDWARE_BUFFER, re_hardware env)
      else (RVGPU_SOFTWARE_BUFFER, re_software env))"

definition create_buffer :: "bool \<Rightarrow> request_env \<Rightarrow> nat \<Rightarrow> composit \<Rightarrow> composit \<times> buffer_op list" where
  "create_buffer hardware env i c =
     (case choose_buffer hardware env of (t, h) \<Rightarrow>
        let pre_handle = array_int (cm_handles c) i;
            pre_type = array_int_default (cm_types c) i RVGPU_HARDWARE_BUFFER;
            c1 = (if pre_handle \<noteq> 0
                  then c\<lparr>cm_handles := array_put (cm_handles c) i 0, cm_types := array_put (cm_types c) i 0\<rparr>
                  else c);
            destroyed = (if pre_handle \<noteq> 0 then destroy_buffer pre_type pre_handle else []);
            (c2, bound) = (if t = RVGPU_HARDWARE_BUFFER then bind_image env i h c1 else (c1, []));
            c3 = c2\<lparr>cm_handles := array_put (cm_handles c2) i h, cm_types := array_put (cm_types c2) i t\<rparr>
        in (c3, (if h \<noteq> 0 then [Create_buffer t h] else []) @ destroyed @ bound @ [Reply_buffer t h]))"

text \<open>
  The texture to draw for a buffer, with the fence of its upload; \<open>Returned None\<close> when the request is
  dropped.  A single hardware buffer is copied, once a frame; of several one is used in place.
\<close>

definition draw_texture ::
  "request_env \<Rightarrow> u32 \<Rightarrow> nat \<Rightarrow> composit \<Rightarrow> ((int \<times> int option) option \<times> u32 \<times> buffer_op list) outcome" where
  "draw_texture env last_frame i c =
     (let t = array_int_default (cm_types c) i RVGPU_HARDWARE_BUFFER;
          tex = gl_name (array_int (cm_textures c) i)
      in if t = RVGPU_HARDWARE_BUFFER then
           let egl_tex = gl_name (array_int (cm_egl_textures c) i); image = array_int (cm_egl_images c) i
           in if length (cm_egl_images c) = 1 then
                if last_frame = 0 \<or> last_frame \<noteq> re_frame env
                then Returned (Some (tex, None), re_frame env, [Copy_texture image egl_tex tex])
                else Returned (None, last_frame, [])
              else if length (cm_egl_images c) > 1 then Returned (Some (egl_tex, None), last_frame, [])
              else Returned (Some (tex, None), last_frame, [])
         else if t = RVGPU_SOFTWARE_BUFFER then
           if array_get (cm_handles c) i = None then Returned (Some (tex, None), last_frame, [])
           else if \<not> re_mmap env then Crashed ''glTexImage2D from MAP_FAILED''
           else if re_fence env = 0 then Returned (None, last_frame, [Upload_texture tex 0])
           else Returned (Some (tex, Some (re_fence env)), last_frame, [Upload_texture tex (re_fence env)])
         else Returned (Some (tex, None), last_frame, []))"

text \<open>What is done at the end of the connection with the objects of a scanout.\<close>

fun release_buffers :: "nat \<Rightarrow> nat \<Rightarrow> composit \<Rightarrow> composit \<times> buffer_op list" where
  "release_buffers i 0 c = (c, [])"
| "release_buffers i (Suc n) c =
     (let h = array_int (cm_handles c) i; t = array_int (cm_types c) i; image = array_int (cm_egl_images c) i;
          cleared = c\<lparr>cm_handles := array_put (cm_handles c) i 0, cm_types := array_put (cm_types c) i 0\<rparr>;
          (c1, ops) =
            (if h = 0 then (c, [])
             else if t = RVGPU_HARDWARE_BUFFER
             then (cleared\<lparr>cm_egl_images := array_put (cm_egl_images c) i 0\<rparr>,
                   (if image \<noteq> 0 then [Destroy_image image] else []) @ [Destroy_buffer t h])
             else if t = RVGPU_SOFTWARE_BUFFER then (cleared, [Destroy_buffer t h])
             else (c, []))
      in case release_buffers (i + 1) n c1 of (c2, rest) \<Rightarrow> (c2, ops @ rest))"

definition array_names :: "int option list \<Rightarrow> int list" where
  "array_names xs = map (gl_name \<circ> case_option 0 id) xs"

definition release_composit :: "composit \<Rightarrow> composit \<times> buffer_op list" where
  "release_composit c =
     (case release_buffers 0 (length (cm_handles c)) c of (c1, ops) \<Rightarrow>
        (c1, map Delete_texture (array_names (cm_textures c)) @ map Delete_fbo (array_names (cm_fbos c)) @
             map Delete_texture (array_names (cm_egl_textures c)) @ map Delete_fbo (array_names (cm_egl_fbos c)) @ ops))"

text \<open>A request for the main loop: the members, then the event and the surface.\<close>

definition command :: "request_params \<Rightarrow> i32 \<Rightarrow> (string \<times> int) list \<Rightarrow> 'd json" where
  "command rp e members =
     JObject (map (map_prod id JInt) members @
       [(''event_id'', JInt (sint e)), (''rvgpu_surface_id'', JString (rp_surface_id rp))])"

definition send_command :: "'d json \<Rightarrow> 'd request_loop \<Rightarrow> 'd request_loop" where
  "send_command j st = st\<lparr>rq_sent := rq_sent st @ [j]\<rparr>"

definition handle_add :: "request_params \<Rightarrow> request_env \<Rightarrow> i32 \<Rightarrow> 'd request_loop \<Rightarrow> 'd request_loop" where
  "handle_add rp env scanout st =
     send_command
       (command rp RVGPU_ADD_EVENT_ID
          [(''client_rvgpu_fd'', sint (rp_client_fd rp)), (''client_rvgpu_sync_fd'', sint (rp_sync_fd rp)),
           (''scanout_id'', sint scanout)])
       (st\<lparr>rq_table := rq_table st @ [new_composit scanout env]\<rparr>)"

definition handle_create :: "request_params \<Rightarrow> request_env \<Rightarrow> i32 \<Rightarrow> i32 \<Rightarrow> 'd request_loop \<Rightarrow> 'd request_loop" where
  "handle_create rp env scanout index st =
     (case find (\<lambda>c. cm_scanout c = sint scanout) (rq_table st) of
        None \<Rightarrow> st
      | Some c \<Rightarrow>
          let make = create_buffer (rp_hardware rp) env (array_index index)
          in st\<lparr>rq_table := update_first (\<lambda>c. cm_scanout c = sint scanout) (fst \<circ> make) (rq_table st),
                rq_ops := rq_ops st @ snd (make c)\<rparr>)"

definition draw_command ::
  "request_params \<Rightarrow> i32 \<times> i32 \<times> i32 \<times> i32 \<times> i32 \<Rightarrow> int \<times> int option \<Rightarrow> 'd json" where
  "draw_command rp args texture =
     (case args of (w, h, initial_color, scanout, index) \<Rightarrow>
        command rp RVGPU_DRAW_EVENT_ID
          ((case snd texture of None \<Rightarrow> [] | Some f \<Rightarrow> [(''upload_fence'', f)]) @
           [(''width'', sint w), (''height'', sint h), (''initial_color'', sint initial_color),
            (''scanout_id'', sint scanout), (''shared_buffer_fd_index'', sint index),
            (''composit_tex_id'', fst texture)]))"

definition handle_draw ::
  "request_params \<Rightarrow> request_env \<Rightarrow> i32 \<times> i32 \<times> i32 \<times> i32 \<times> i32 \<Rightarrow> 'd request_loop \<Rightarrow> 'd request_loop outcome" where
  "handle_draw rp env args st =
     (case args of (w, h, initial_color, scanout, index) \<Rightarrow>
        case find (\<lambda>c. cm_scanout c = sint scanout) (rq_table st) of
          None \<Rightarrow> Returned st
        | Some c \<Rightarrow>
            obind (draw_texture env (rq_last_frame st) (array_index index) c) (\<lambda>(texture, last_frame, ops).
              let st1 = st\<lparr>rq_last_frame := last_frame, rq_ops := rq_ops st @ ops\<rparr>
              in Returned (case texture of
                   None \<Rightarrow> st1 | Some t \<Rightarrow> send_command (draw_command rp args t) st1)))"

definition handle_hangup :: "request_params \<Rightarrow> 'd request_loop \<Rightarrow> 'd request_loop" where
  "handle_hangup rp st =
     send_command (command rp RVGPU_REMOVE_EVENT_ID [])
       (st\<lparr>rq_table := map (fst \<circ> release_composit) (rq_table st),
           rq_ops := rq_ops st @ concat (map (snd \<circ> release_composit) (rq_table st)), rq_done := True\<rparr>)"

text \<open>
  A turn of the loop with what \<open>recv_json\<close> gives; other events are passed on without members.  A
  failing \<open>poll\<close>, which ends the thread without releasing anything, is left out.
\<close>

definition request_event ::
  "'d real_ops \<Rightarrow> request_params \<Rightarrow> request_env \<Rightarrow> 'd json option \<Rightarrow> 'd request_loop \<Rightarrow> 'd request_loop outcome" where
  "request_event ops rp env msg st =
     (if rq_done st then Returned st
      else case msg of
        None \<Rightarrow> Returned (handle_hangup rp st)
      | Some j \<Rightarrow>
          let get = get_int_from_jsonobj ops j in
          (case get ''event_id'' of
             None \<Rightarrow> Returned st
           | Some e \<Rightarrow>
               if e = RVGPU_ADD_EVENT_ID
               then (case get ''scanout_id'' of
                       None \<Rightarrow> Returned st | Some scanout \<Rightarrow> Returned (handle_add rp env scanout st))
               else if e = RVGPU_CREATE_BUFFER_EVENT_ID
               then (case map get [''width'', ''height'', ''scanout_id'', ''shared_buffer_fd_index''] of
                       [Some w, Some h, Some scanout, Some index] \<Rightarrow>
                         Returned (handle_create rp env scanout index st)
                     | _ \<Rightarrow> Returned st)
               else if e = RVGPU_DRAW_EVENT_ID
               then (case map get [''width'', ''height'', ''shared_buffer_fd_index'', ''initial_color'', ''scanout_id''] of
                       [Some w, Some h, Some index, Some initial_color, Some scanout] \<Rightarrow>
                         handle_draw rp env (w, h, initial_color, scanout, index) st
                     | _ \<Rightarrow> Returned st)
               else Returned ((send_command (command rp e []) st)\<lparr>rq_done := (e = RVGPU_REMOVE_EVENT_ID)\<rparr>)))"

fun request_events ::
  "'d real_ops \<Rightarrow> request_params \<Rightarrow> (request_env \<times> 'd json option) list \<Rightarrow> 'd request_loop \<Rightarrow> 'd request_loop outcome" where
  "request_events ops rp [] st = Returned st"
| "request_events ops rp ((env, msg) # rest) st =
     obind (request_event ops rp env msg st) (request_events ops rp rest)"

section \<open>Buffers\<close>

fun created :: "buffer_op list \<Rightarrow> (int \<times> int) list" where
  "created [] = []"
| "created (Create_buffer t h # ops) = (t, h) # created ops"
| "created (_ # ops) = created ops"

fun destroyed :: "buffer_op list \<Rightarrow> (int \<times> int) list" where
  "destroyed [] = []"
| "destroyed (Destroy_buffer t h # ops) = (t, h) # destroyed ops"
| "destroyed (_ # ops) = destroyed ops"

lemma created_append [simp]: "created (a @ b) = created a @ created b"
  by (induction a rule: created.induct) auto

lemma destroyed_append [simp]: "destroyed (a @ b) = destroyed a @ destroyed b"
  by (induction a rule: destroyed.induct) auto

text \<open>The buffers of a scanout, by kind and handle.\<close>

definition vals :: "int option list \<Rightarrow> int list" where
  "vals xs = map (case_option 0 id) xs"

definition live :: "(int \<times> int) list \<Rightarrow> (int \<times> int) multiset" where
  "live ps = mset (filter (\<lambda>(t, h). h \<noteq> 0) ps)"

definition pairs :: "composit \<Rightarrow> (int \<times> int) list" where
  "pairs c = zip (vals (cm_types c)) (vals (cm_handles c))"

definition composit_ok :: "composit \<Rightarrow> bool" where
  "composit_ok c =
     (length (cm_types c) = length (cm_handles c) \<and>
      list_all (\<lambda>(t, h). t = RVGPU_HARDWARE_BUFFER \<or> t = RVGPU_SOFTWARE_BUFFER) (pairs c))"

definition all_live :: "composit list \<Rightarrow> (int \<times> int) multiset" where
  "all_live cs = sum_list (map (live \<circ> pairs) cs)"

lemma length_vals [simp]: "length (vals xs) = length xs"
  by (simp add: vals_def)

lemma vals_put: "vals (array_put xs i v) = (vals xs @ replicate (i + 1 - length xs) 0)[i := v]"
  by (simp add: vals_def insert_integar_json_array_with_index_def map_update)

lemma array_int_vals: "array_int xs i = (vals xs @ replicate (i + 1 - length xs) 0) ! i"
  by (simp add: array_int_def array_get_def vals_def nth_append split: option.splits)

lemma put_put [simp]: "array_put (array_put xs i v) i w = array_put xs i w"
  by (simp add: insert_integar_json_array_with_index_def)

lemma zip_put:
  assumes "length ts = length hs"
  shows "zip (vals (array_put ts i t)) (vals (array_put hs i h)) =
    (zip (vals ts) (vals hs) @ replicate (i + 1 - length hs) (0, 0))[i := (t, h)]"
proof -
  have "zip (vals ts @ replicate n 0) (vals hs @ replicate n 0) = zip (vals ts) (vals hs) @ replicate n (0, 0)" for n
    using assms by (simp add: zip_replicate)
  then show ?thesis
    by (simp only: vals_put assms update_zip fst_conv snd_conv flip: \<open>\<And>n. zip (vals ts @ replicate n 0) _ = _\<close>)
qed

lemma live_simps [simp]:
  "live [] = {#}" "live (p # ps) = (if snd p = 0 then {#} else {#p#}) + live ps" "live (ps @ qs) = live ps + live qs"
  "live (replicate n (0, 0)) = {#}"
  by (auto simp: live_def case_prod_unfold)

lemma live_update:
  assumes "i < length ps"
  shows "live (ps[i := p]) + live [ps ! i] = live ps + live [p]"
proof -
  have "ps = take i ps @ ps ! i # drop (i + 1) ps"
    using assms by (simp add: id_take_nth_drop)
  then have "live ps = live (take i ps) + (live [ps ! i] + live (drop (i + 1) ps))"
    by (metis live_simps(1-3) add.right_neutral)
  moreover have "live (ps[i := p]) = live (take i ps) + (live [p] + live (drop (i + 1) ps))"
    using assms by (simp add: upd_conv_take_nth_drop)
  ultimately show ?thesis
    by (simp add: ac_simps)
qed

text \<open>Storing a buffer in place of another, or of none.\<close>

lemma pairs_put:
  assumes "composit_ok c" "cm_handles c' = array_put (cm_handles c) i h" "cm_types c' = array_put (cm_types c) i t"
  shows "live (pairs c') + live [(array_int (cm_types c) i, array_int (cm_handles c) i)] = live (pairs c) + live [(t, h)]"
    and "t = RVGPU_HARDWARE_BUFFER \<or> t = RVGPU_SOFTWARE_BUFFER \<Longrightarrow> composit_ok c'"
proof -
  let ?n = "i + 1 - length (cm_handles c)"
  let ?ps = "pairs c @ replicate ?n (0, 0)"
  have l: "length (cm_types c) = length (cm_handles c)"
    using assms(1) by (simp add: composit_ok_def)
  have p: "pairs c' = ?ps[i := (t, h)]"
    using assms(2,3) zip_put [OF l] by (simp add: pairs_def)
  have i: "i < length ?ps"
    using l by (simp add: pairs_def)
  have "?ps ! i = (array_int (cm_types c) i, array_int (cm_handles c) i)"
    using l by (auto simp: array_int_vals pairs_def nth_append)
  then show "live (pairs c') + live [(array_int (cm_types c) i, array_int (cm_handles c) i)] = live (pairs c) + live [(t, h)]"
    using live_update [OF i, of "(t, h)"] by (simp add: p del: live_simps(2))
  show "composit_ok c'" if "t = RVGPU_HARDWARE_BUFFER \<or> t = RVGPU_SOFTWARE_BUFFER"
  proof -
    have "set (pairs c') \<subseteq> insert (t, h) (set ?ps)"
      unfolding p by (rule set_update_subset_insert)
    then show ?thesis
      using assms that l unfolding composit_ok_def list_all_iff by fastforce
  qed
qed

lemma bind_image_buffers:
  "bind_image env i h c = (c', ops) \<Longrightarrow>
     cm_handles c' = cm_handles c \<and> cm_types c' = cm_types c \<and> cm_scanout c' = cm_scanout c \<and>
     created ops = [] \<and> destroyed ops = []"
  by (auto simp: bind_image_def Let_def split: if_splits)

lemma destroy_buffer_simps [simp]:
  "created (destroy_buffer t h) = []"
  "t = RVGPU_HARDWARE_BUFFER \<or> t = RVGPU_SOFTWARE_BUFFER \<Longrightarrow> destroyed (destroy_buffer t h) = [(t, h)]"
  by (auto simp: destroy_buffer_def)

lemma composit_ok_type:
  assumes "composit_ok c"
  shows "array_int (cm_types c) i = RVGPU_HARDWARE_BUFFER \<or> array_int (cm_types c) i = RVGPU_SOFTWARE_BUFFER"
proof (cases "i < length (cm_types c)")
  case True
  then have "pairs c ! i = (array_int (cm_types c) i, vals (cm_handles c) ! i)" "i < length (pairs c)"
    using assms by (auto simp: pairs_def composit_ok_def array_int_vals nth_append)
  then show ?thesis
    using assms by (auto simp: composit_ok_def list_all_length)
qed (simp add: array_int_def array_get_def)

lemma create_buffer_live:
  assumes "composit_ok c" "create_buffer hardware env i c = (c', ops)"
  shows "composit_ok c' \<and> cm_scanout c' = cm_scanout c \<and>
    live (pairs c') + mset (destroyed ops) = live (pairs c) + mset (created ops)"
proof -
  obtain t h where th: "choose_buffer hardware env = (t, h)"
    by (cases "choose_buffer hardware env")
  then have t: "t = RVGPU_HARDWARE_BUFFER \<or> t = RVGPU_SOFTWARE_BUFFER"
    by (auto simp: choose_buffer_def split: if_splits)
  let ?pre = "array_int (cm_handles c) i" and ?type = "array_int (cm_types c) i"
  define c1 where "c1 = (if ?pre \<noteq> 0
    then c\<lparr>cm_handles := array_put (cm_handles c) i 0, cm_types := array_put (cm_types c) i 0\<rparr> else c)"
  define d where "d = (if ?pre \<noteq> 0 then destroy_buffer (array_int_default (cm_types c) i RVGPU_HARDWARE_BUFFER) ?pre else [])"
  obtain c2 bound where b: "(if t = RVGPU_HARDWARE_BUFFER then bind_image env i h c1 else (c1, [])) = (c2, bound)"
    by (cases "if t = RVGPU_HARDWARE_BUFFER then bind_image env i h c1 else (c1, [])")
  have c2: "cm_handles c2 = cm_handles c1" "cm_types c2 = cm_types c1" "cm_scanout c2 = cm_scanout c1"
      "created bound = []" "destroyed bound = []"
    using b bind_image_buffers [of env i h c1 c2 bound] by (auto split: if_splits)
  have r: "c' = c2\<lparr>cm_handles := array_put (cm_handles c2) i h, cm_types := array_put (cm_types c2) i t\<rparr>"
      "ops = (if h \<noteq> 0 then [Create_buffer t h] else []) @ d @ bound @ [Reply_buffer t h]"
    using assms(2) th b by (auto simp: create_buffer_def Let_def c1_def d_def split: if_splits prod.splits)
  have "array_get (cm_types c) i \<noteq> None" if "?pre \<noteq> 0"
    using assms(1) that by (auto simp: array_int_def array_get_def composit_ok_def split: if_splits)
  then have d: "created d = []" "mset (destroyed d) = live [(?type, ?pre)]"
    using composit_ok_type [OF assms(1), of i] by (auto simp: d_def array_int_default_def)
  have p: "cm_handles c' = array_put (cm_handles c) i h" "cm_types c' = array_put (cm_types c) i t" "cm_scanout c' = cm_scanout c"
    by (auto simp: r(1) c2 c1_def)
  have "live (pairs c') + mset (destroyed d) = live (pairs c) + live [(t, h)]"
    using pairs_put(1) [OF assms(1) p(1,2)] d(2) by simp
  moreover have "mset (created ops) = live [(t, h)]" "mset (destroyed ops) = mset (destroyed d)"
    by (simp_all add: r(2) d(1) c2(4,5))
  ultimately show ?thesis
    using pairs_put(2) [OF assms(1) p(1,2) t] p(3) by simp
qed

text \<open>Releasing the buffers from index \<open>i\<close> on.\<close>

lemma array_int_put: "array_int (array_put xs i v) k = (if k = i then v else array_int xs k)"
  by (auto simp: array_int_def array_get_def nth_insert_integar not_less split: option.splits)

lemma release_buffers_live:
  assumes "composit_ok c" "i + n = length (cm_handles c)" "release_buffers i n c = (c', ops)"
  shows "composit_ok c' \<and> length (cm_handles c') = length (cm_handles c) \<and> cm_scanout c' = cm_scanout c \<and>
    created ops = [] \<and> live (pairs c') + mset (destroyed ops) = live (pairs c) \<and>
    (\<forall>k. array_int (cm_handles c') k = (if i \<le> k \<and> k < i + n then 0 else array_int (cm_handles c) k))"
  using assms
proof (induction i n c arbitrary: ops rule: release_buffers.induct)
  case (2 i n c)
  let ?h = "array_int (cm_handles c) i" and ?t = "array_int (cm_types c) i" and ?im = "array_int (cm_egl_images c) i"
  obtain c1 o1 where s: "(if ?h = 0 then (c, [])
      else if ?t = RVGPU_HARDWARE_BUFFER
      then (c\<lparr>cm_handles := array_put (cm_handles c) i 0, cm_types := array_put (cm_types c) i 0,
              cm_egl_images := array_put (cm_egl_images c) i 0\<rparr>,
            (if ?im \<noteq> 0 then [Destroy_image ?im] else []) @ [Destroy_buffer ?t ?h])
      else if ?t = RVGPU_SOFTWARE_BUFFER
      then (c\<lparr>cm_handles := array_put (cm_handles c) i 0, cm_types := array_put (cm_types c) i 0\<rparr>, [Destroy_buffer ?t ?h])
      else (c, [])) = (c1, o1)"
    by (rule prod.exhaust)
  obtain o2 where r: "release_buffers (i + 1) n c1 = (c', o2)" "ops = o1 @ o2"
    using 2(4) s by (auto simp: Let_def split: prod.splits)
  have c1: "composit_ok c1 \<and> length (cm_handles c1) = length (cm_handles c) \<and> cm_scanout c1 = cm_scanout c \<and>
      created o1 = [] \<and> live (pairs c1) + mset (destroyed o1) = live (pairs c) \<and>
      (\<forall>k. array_int (cm_handles c1) k = (if k = i then 0 else array_int (cm_handles c) k))"
  proof (cases "?h = 0")
    case False
    have c1: "cm_handles c1 = array_put (cm_handles c) i 0" "cm_types c1 = array_put (cm_types c) i 0" "cm_scanout c1 = cm_scanout c"
      and o1: "created o1 = []" "destroyed o1 = [(?t, ?h)]"
      using s False composit_ok_type [OF 2(2), of i] by (auto split: if_splits)
    show ?thesis
      using pairs_put [OF 2(2) c1(1,2)] c1 o1 False 2(3) by (auto simp: array_int_put)
  qed (use s 2(2) in auto)
  have ih: "composit_ok c' \<and> length (cm_handles c') = length (cm_handles c1) \<and> cm_scanout c' = cm_scanout c1 \<and>
      created o2 = [] \<and> live (pairs c') + mset (destroyed o2) = live (pairs c1) \<and>
      (\<forall>k. array_int (cm_handles c') k = (if i + 1 \<le> k \<and> k < i + 1 + n then 0 else array_int (cm_handles c1) k))"
    using 2(1) [OF refl refl refl refl s [symmetric] refl _ _ r(1)] c1 2(3) by simp
  then have "live (pairs c') + mset (destroyed o2) + mset (destroyed o1) = live (pairs c)"
    using c1 by simp
  then have "live (pairs c') + mset (destroyed ops) = live (pairs c)"
    by (simp add: r(2) ac_simps)
  then show ?case
    using ih c1 r(2) by auto
qed simp

lemma deletions [simp]:
  "created (map Delete_texture xs) = []" "destroyed (map Delete_texture xs) = []"
  "created (map Delete_fbo xs) = []" "destroyed (map Delete_fbo xs) = []"
  by (induction xs) simp_all

lemma live_zero: "\<forall>k. array_int (cm_handles c) k = 0 \<Longrightarrow> live (pairs c) = {#}"
proof -
  assume a: "\<forall>k. array_int (cm_handles c) k = 0"
  have "h = 0" if p: "(t, h) \<in> set (pairs c)" for t h
  proof -
    obtain k where "k < length (cm_handles c)" "vals (cm_handles c) ! k = h"
      using p by (auto simp: pairs_def in_set_zip)
    then show ?thesis
      using a [rule_format, of k] by (simp add: array_int_vals nth_append)
  qed
  then show ?thesis
    by (auto simp: live_def filter_empty_conv)
qed

lemma release_composit_live:
  assumes "composit_ok c" "release_composit c = (c', ops)"
  shows "composit_ok c' \<and> live (pairs c') = {#} \<and> created ops = [] \<and> mset (destroyed ops) = live (pairs c)"
proof -
  obtain c1 o1 where r: "release_buffers 0 (length (cm_handles c)) c = (c1, o1)"
    by (rule prod.exhaust)
  note l = release_buffers_live [OF assms(1) _ r]
  have "array_int (cm_handles c1) k = 0" for k
    using l by (cases "k < length (cm_handles c)") (auto, auto simp: array_int_def array_get_def)
  then have "live (pairs c1) = {#}"
    by (simp add: live_zero)
  then show ?thesis
    using l assms(2) r by (auto simp: release_composit_def)
qed

lemma all_live_simps [simp]:
  "all_live [] = {#}" "all_live (c # cs) = live (pairs c) + all_live cs" "all_live (cs @ ds) = all_live cs + all_live ds"
  by (simp_all add: all_live_def)

definition buffers_ok :: "'d request_loop \<Rightarrow> bool" where
  "buffers_ok st =
     (list_all composit_ok (rq_table st) \<and> (rq_done st \<longrightarrow> all_live (rq_table st) = {#}) \<and>
      mset (created (rq_ops st)) = mset (destroyed (rq_ops st)) + all_live (rq_table st))"

lemma buffers_ok_add: "buffers_ok st \<Longrightarrow> buffers_ok (handle_add rp env scanout st)"
  by (simp add: buffers_ok_def handle_add_def send_command_def new_composit_def composit_ok_def pairs_def vals_def)

lemma buffers_ok_create:
  assumes "buffers_ok st" "\<not> rq_done st"
  shows "buffers_ok (handle_create rp env scanout index st)"
proof (cases "find (\<lambda>c. cm_scanout c = sint scanout) (rq_table st)")
  case (Some c)
  let ?make = "create_buffer (rp_hardware rp) env (array_index index)"
  obtain c' ops where m: "?make c = (c', ops)" by (rule prod.exhaust)
  obtain as bs where u: "rq_table st = as @ c # bs"
    "update_first (\<lambda>c. cm_scanout c = sint scanout) (fst \<circ> ?make) (rq_table st) = as @ c' # bs"
    using update_first_split [OF Some, of "fst \<circ> ?make"] m by auto
  have l: "composit_ok c'" "live (pairs c') + mset (destroyed ops) = live (pairs c) + mset (created ops)"
    using create_buffer_live [OF _ m] assms(1) u(1) by (simp_all add: buffers_ok_def)
  have "mset (created (rq_ops st)) + mset (created ops) =
      mset (destroyed (rq_ops st)) + all_live (as @ bs) + (live (pairs c) + mset (created ops))"
    using assms(1) u(1) by (simp add: buffers_ok_def ac_simps)
  also have "\<dots> = mset (destroyed (rq_ops st)) + mset (destroyed ops) + all_live (as @ c' # bs)"
    unfolding l(2) [symmetric] by (simp add: ac_simps)
  finally show ?thesis
    using assms u l(1) Some m by (simp add: buffers_ok_def handle_create_def)
qed (use assms(1) in \<open>simp add: handle_create_def\<close>)

lemma draw_texture_ops:
  "draw_texture env last_frame i c = Returned (t, l, ops) \<Longrightarrow> created ops = [] \<and> destroyed ops = []"
  by (auto simp: draw_texture_def Let_def split: if_splits)

lemma buffers_ok_draw:
  assumes "buffers_ok st" "handle_draw rp env args st = Returned st'"
  shows "buffers_ok st'"
proof -
  obtain w h ic sc i where a: "args = (w, h, ic, sc, i)" by (cases args)
  show ?thesis
  proof (cases "find (\<lambda>c. cm_scanout c = sint sc) (rq_table st)")
    case (Some c)
    show ?thesis
    proof (cases "draw_texture env (rq_last_frame st) (array_index i) c")
      case (Returned r)
      obtain t l ops where r: "r = (t, l, ops)" by (cases r)
      show ?thesis
        using assms Some Returned draw_texture_ops [OF Returned [unfolded r]]
        by (auto simp: handle_draw_def a r Let_def buffers_ok_def send_command_def split: option.splits)
    qed (use assms Some in \<open>simp_all add: handle_draw_def a\<close>)
  qed (use assms in \<open>simp add: handle_draw_def a\<close>)
qed

lemma release_all:
  "list_all composit_ok cs \<Longrightarrow>
     list_all composit_ok (map (fst \<circ> release_composit) cs) \<and> all_live (map (fst \<circ> release_composit) cs) = {#} \<and>
     created (concat (map (snd \<circ> release_composit) cs)) = [] \<and>
     mset (destroyed (concat (map (snd \<circ> release_composit) cs))) = all_live cs"
proof (induction cs)
  case (Cons c cs)
  then show ?case
    using release_composit_live [of c "fst (release_composit c)" "snd (release_composit c)"] by simp
qed simp

lemma buffers_ok_hangup: "buffers_ok st \<Longrightarrow> buffers_ok (handle_hangup rp st)"
  using release_all [of "rq_table st"] by (simp add: buffers_ok_def handle_hangup_def send_command_def)

text \<open>A renderer does not send remove events; they come from the end of its connection.\<close>

definition no_remove :: "'d real_ops \<Rightarrow> 'd json option \<Rightarrow> bool" where
  "no_remove ops msg =
     (case msg of None \<Rightarrow> True | Some j \<Rightarrow> get_int_from_jsonobj ops j ''event_id'' \<noteq> Some RVGPU_REMOVE_EVENT_ID)"

lemma buffers_ok_event:
  assumes "buffers_ok st" "no_remove ops msg" "request_event ops rp env msg st = Returned st'"
  shows "buffers_ok st'"
  using assms
  by (auto simp: request_event_def Let_def no_remove_def buffers_ok_add buffers_ok_create buffers_ok_hangup
      buffers_ok_draw send_command_def
      split: if_splits option.splits list.splits)
    (auto simp: buffers_ok_def)

lemma request_events_append:
  "request_events ops rp (xs @ ys) st = obind (request_events ops rp xs st) (request_events ops rp ys)"
  by (induction xs arbitrary: st) (auto simp: obind_assoc intro!: arg_cong [where f = "obind _"] ext)

definition request_start :: "'d request_loop" where
  "request_start = \<lparr> rq_table = [], rq_last_frame = 0, rq_ops = [], rq_sent = [], rq_done = False \<rparr>"

lemma buffers_ok_events:
  "buffers_ok st \<Longrightarrow> \<forall>(env, msg) \<in> set script. no_remove ops msg \<Longrightarrow> request_events ops rp script st = Returned st' \<Longrightarrow> buffers_ok st'"
proof (induction script arbitrary: st)
  case (Cons x script)
  obtain env msg where x: "x = (env, msg)" by (cases x)
  then obtain st1 where "request_event ops rp env msg st = Returned st1" "request_events ops rp script st1 = Returned st'"
    using Cons.prems(3) by (cases "request_event ops rp env msg st") auto
  then show ?case
    using Cons x buffers_ok_event [of st ops msg rp env st1] by auto
qed simp

lemma hangup_done: "request_event ops rp env None st = Returned st' \<Longrightarrow> rq_done st'"
  by (cases "rq_done st") (auto simp: request_event_def handle_hangup_def send_command_def)


definition demo_renv :: "int \<Rightarrow> int \<Rightarrow> request_env" where
  "demo_renv hw frame =
     \<lparr> re_hardware = hw, re_software = 77, re_image = 5, re_textures = [1, 2], re_fbos = [3, 4], re_mmap = True,
       re_fence = 9, re_frame = word_of_int frame \<rparr>"

definition demo_rp :: request_params where
  "demo_rp = \<lparr> rp_surface_id = ''a'', rp_client_fd = 6, rp_sync_fd = 7, rp_hardware = True \<rparr>"

definition demo_members :: "int \<Rightarrow> int \<Rightarrow> int \<Rightarrow> int json" where
  "demo_members e scanout i =
     JObject [(''event_id'', JInt e), (''width'', JInt 4), (''height'', JInt 2), (''initial_color'', JInt 0),
              (''scanout_id'', JInt scanout), (''shared_buffer_fd_index'', JInt i)]"


end
