(* ===== verification/Plane_Protocol.thy ===== *)
theory Plane_Protocol
  imports Request_Loop
begin

text \<open>
  The buffers between a renderer and the compositor.  A renderer draws into the buffers of a scanout in
  turn (\<open>rvgpu_egl_draw\<close> in src/rvgpu-renderer/renderer/rvgpu-egl.c): it marks a buffer as in use and
  names it in a draw request, and with vsync it waits until a buffer is free again before it draws into
  it; the sync connection frees buffers (\<open>swap_completed_loop\<close> in rvgpu-compositor.c).  Proved: the
  main loop of the compositor understands what the renderer asks for; a renderer never waits for ever
  as long as no request is dropped; and requests are dropped.
\<close>

section \<open>The renderer\<close>

record buffer_state =
  bs_index :: nat
  bs_planes :: nat
  bs_handles :: "int list"
  bs_types :: "int list"
  bs_width :: "u32 list"
  bs_height :: "u32 list"
  bs_status :: "u32 list"

text \<open>
  What a drawing finds: the size of the window, whether there is a texture and whether it has the
  initial colour only, the answer to the request for a buffer, \<open>None\<close> when it cannot be read, and
  whether the fence of the copy is signalled.
\<close>

record draw_env =
  de_width :: u32
  de_height :: u32
  de_texture :: bool
  de_initial :: bool
  de_reply :: "(int \<times> int) option"
  de_fence :: bool

definition create_message :: "u32 \<Rightarrow> u32 \<Rightarrow> int \<Rightarrow> nat \<Rightarrow> 'd json" where
  "create_message w h scanout i =
     JObject [(''event_id'', JInt (- 7)), (''width'', JInt (uint w)), (''height'', JInt (uint h)),
              (''scanout_id'', JInt scanout), (''shared_buffer_fd_index'', JInt (int i))]"

definition draw_message :: "u32 \<Rightarrow> u32 \<Rightarrow> nat \<Rightarrow> bool \<Rightarrow> int \<Rightarrow> 'd json" where
  "draw_message w h i initial scanout =
     JObject [(''event_id'', JInt (- 1)), (''width'', JInt (uint w)), (''height'', JInt (uint h)),
              (''shared_buffer_fd_index'', JInt (int i)), (''initial_color'', JInt (of_bool initial)),
              (''scanout_id'', JInt scanout)]"

text \<open>The buffers of a new scanout of the offscreen back end.\<close>

definition buffer_state_init :: buffer_state where
  "buffer_state_init =
     \<lparr> bs_index = 0, bs_planes = 2, bs_handles = [0, 0], bs_types = [RVGPU_HARDWARE_BUFFER, RVGPU_HARDWARE_BUFFER],
       bs_width = [0, 0], bs_height = [0, 0], bs_status = [0, 0] \<rparr>"

text \<open>
  The first half, up to the wait: a new buffer is asked for when the size has changed or there is none
  yet.  The results are the buffers, whether the drawing goes on, what was sent to the compositor, and
  the buffers given back.
\<close>

definition prepare_buffer ::
  "int \<Rightarrow> draw_env \<Rightarrow> buffer_state \<Rightarrow> buffer_state \<times> bool \<times> 'd json list \<times> buffer_op list" where
  "prepare_buffer scanout env b =
     (let i = bs_index b;
          need = (bs_width b ! i \<noteq> de_width env \<or> bs_height b ! i \<noteq> de_height env \<or> bs_handles b ! i = 0);
          b1 = b\<lparr>bs_width := (bs_width b)[i := de_width env], bs_height := (bs_height b)[i := de_height env]\<rparr>
      in if \<not> de_texture env then (b1, False, [], [])
         else if \<not> need then (b1, True, [], [])
         else
           let msg = create_message (bs_width b1 ! i) (bs_height b1 ! i) scanout i
           in case de_reply env of
                None \<Rightarrow> (b1, True, [msg], [])
              | Some (t, h) \<Rightarrow>
                  let given = destroy_buffer (bs_types b ! i) (bs_handles b ! i);
                      b2 = b1\<lparr>bs_handles := (bs_handles b)[i := h]\<rparr>
                  in if h = 0 then (b2, False, [msg], given)
                     else (b2\<lparr>bs_types := (bs_types b)[i := t]\<rparr>, True, [msg], given))"

text \<open>The wait, and the second half: the buffer is marked and named, and the next one is taken.\<close>

definition must_wait :: "bool \<Rightarrow> buffer_state \<Rightarrow> bool" where
  "must_wait vsync b = (vsync \<and> bs_status b ! bs_index b = 1)"

definition submit_buffer :: "int \<Rightarrow> draw_env \<Rightarrow> buffer_state \<Rightarrow> buffer_state \<times> 'd json list" where
  "submit_buffer scanout env b =
     (let i = bs_index b
      in if \<not> de_fence env then (b, [])
         else (b\<lparr>bs_status := (bs_status b)[i := 1], bs_index := (i + 1) mod bs_planes b\<rparr>,
               [draw_message (bs_width b ! i) (bs_height b ! i) i (de_initial env) scanout]))"

text \<open>
  What \<open>swap_completed_loop\<close> does with a message, on the buffers of all scanouts.  Neither the scanout
  nor the indexes are checked.
\<close>

fun free_buffers :: "'d json list \<Rightarrow> buffer_state \<Rightarrow> buffer_state outcome" where
  "free_buffers [] b = Returned b"
| "free_buffers (JInt v # vs) b =
     (let i = sint (word_of_int v :: i32)
      in if i < 0 \<or> int (length (bs_status b)) \<le> i then Crashed ''write outside of composit_status''
         else free_buffers vs (b\<lparr>bs_status := (bs_status b)[nat i := 0]\<rparr>))"
| "free_buffers (_ # vs) b = free_buffers vs b"

definition swap_completed :: "'d real_ops \<Rightarrow> 'd json \<Rightarrow> buffer_state list \<Rightarrow> buffer_state list outcome" where
  "swap_completed ops msg bs =
     (case get_int_from_jsonobj ops msg ''scanout_id'' of
        None \<Rightarrow> Returned bs
      | Some sc \<Rightarrow>
          (case updated_indexes msg of
             None \<Rightarrow> Returned bs
           | Some vs \<Rightarrow>
               if sint sc < 0 \<or> int (length bs) \<le> sint sc then Crashed ''scanout out of range''
               else obind (free_buffers vs (bs ! nat (sint sc))) (\<lambda>b. Returned (bs[nat (sint sc) := b]))))"

section \<open>Messages\<close>

lemma get_members:
  "get_int_from_jsonobj ops (JObject al) k =
     (case map_of al k of Some (JInt i) \<Rightarrow> Some (word_of_int i) | Some (JReal r) \<Rightarrow> Some (rl_to_i32 ops r) | _ \<Rightarrow> None)"
  "get_str_from_jsonobj (JObject al) k = (case map_of al k of Some (JString s) \<Rightarrow> Some s | _ \<Rightarrow> None)"
  by (simp_all add: get_int_from_jsonobj_def get_str_from_jsonobj_def)

lemma read_draw_command:
  "get_int_from_jsonobj ops (draw_command rp (w, h, c, sc, i) t) ''event_id'' = Some RVGPU_DRAW_EVENT_ID \<and>
   read_draw_request ops (draw_command rp (w, h, c, sc, i) t) =
     Some \<lparr> dr_key = (rp_surface_id rp, sc), dr_width = w, dr_height = h, dr_initial_color = c, dr_index = i,
            dr_texture = word_of_int (fst t), dr_fence = (case snd t of None \<Rightarrow> 0 | Some f \<Rightarrow> f) \<rparr>"
  by (auto simp: draw_command_def command_def read_draw_request_def get_members upload_fence_def split: option.splits)



text \<open>The message that returns buffers frees exactly those of its surface that it names.\<close>

lemma free_buffers_ints:
  "\<forall>i \<in> set is. i < length (bs_status b) \<and> i < 2 ^ 31 \<Longrightarrow> free_buffers (map (JInt \<circ> int) is) b =
     Returned (b\<lparr>bs_status := foldl (\<lambda>st i. st[i := 0]) (bs_status b) is\<rparr>)"
proof (induction "is" arbitrary: b)
  case (Cons i "is")
  then have "sint (word_of_nat i :: i32) = int i"
    by (simp add: signed_of_nat signed_take_bit_int_eq_self)
  then show ?case
    using Cons by simp
qed simp

lemma nth_free_all: "i < length st \<Longrightarrow> foldl (\<lambda>st i. st[i := 0]) st is ! i = (if i \<in> set is then 0 else st ! i)"
  by (induction "is" arbitrary: st) (auto simp: nth_list_update)

lemma swap_completed_frees:
  assumes "surface_key ops j = Some (s, sc)" "updated_indexes j = Some (map (JInt \<circ> int) is)"
    and "0 \<le> sint sc" "nat (sint sc) < length bs"
    and "\<forall>i \<in> set is. i < length (bs_status (bs ! nat (sint sc))) \<and> i < 2 ^ 31"
  shows "\<exists>b. swap_completed ops j bs = Returned (bs[nat (sint sc) := b]) \<and>
    (\<forall>i < length (bs_status (bs ! nat (sint sc))). bs_status b ! i = (if i \<in> set is then 0 else bs_status (bs ! nat (sint sc)) ! i))"
proof -
  have "get_int_from_jsonobj ops j ''scanout_id'' = Some sc"
    using assms(1) by (auto simp: surface_key_def split: option.splits)
  then show ?thesis
    using assms(2-5) by (auto simp: swap_completed_def free_buffers_ints nth_free_all)
qed

section \<open>The protocol\<close>

text \<open>
  A renderer, its draw requests on the control connection, those pending in the compositor, and the
  buffers on the sync connection.
\<close>

record planes =
  pl_buffers :: buffer_state
  pl_control :: "nat list"
  pl_pending :: "nat list"
  pl_sync :: "nat list"

text \<open>
  The renderer submits a buffer; the compositor passes a request on or, if it does that at all, drops
  it; a frame returns what is pending (\<open>frame_returns_buffers\<close>); the renderer frees a buffer.
\<close>

inductive plane_step :: "bool \<Rightarrow> bool \<Rightarrow> planes \<Rightarrow> planes \<Rightarrow> bool" for vsync drops where
  submit: "\<not> must_wait vsync (pl_buffers s) \<Longrightarrow> de_fence env \<Longrightarrow>
    plane_step vsync drops s
      (s\<lparr>pl_buffers := fst (submit_buffer scanout env (pl_buffers s) :: buffer_state \<times> int json list),
         pl_control := pl_control s @ [bs_index (pl_buffers s)]\<rparr>)"
| forward: "pl_control s = i # rest \<Longrightarrow>
    plane_step vsync drops s (s\<lparr>pl_control := rest, pl_pending := pl_pending s @ [i]\<rparr>)"
| drop: "drops \<Longrightarrow> pl_control s = i # rest \<Longrightarrow> plane_step vsync drops s (s\<lparr>pl_control := rest\<rparr>)"
| frame: "pl_pending s \<noteq> [] \<Longrightarrow>
    plane_step vsync drops s (s\<lparr>pl_pending := [], pl_sync := pl_sync s @ pl_pending s\<rparr>)"
| complete: "pl_sync s = i # rest \<Longrightarrow> free_buffers [JInt (int i) :: int json] (pl_buffers s) = Returned b \<Longrightarrow>
    plane_step vsync drops s (s\<lparr>pl_sync := rest, pl_buffers := b\<rparr>)"

inductive_cases plane_stepE: "plane_step vsync drops s t"

definition planes_start :: planes where
  "planes_start = \<lparr> pl_buffers = buffer_state_init, pl_control = [], pl_pending = [], pl_sync = [] \<rparr>"

definition in_flight :: "planes \<Rightarrow> nat list" where
  "in_flight s = pl_control s @ pl_pending s @ pl_sync s"

definition planes_ok :: "planes \<Rightarrow> bool" where
  "planes_ok s =
     (let b = pl_buffers s
      in length (bs_status b) = 2 \<and> bs_planes b = 2 \<and> bs_index b < 2 \<and> (\<forall>i \<in> set (in_flight s). i < 2))"

definition marked_in_flight :: "planes \<Rightarrow> bool" where
  "marked_in_flight s = (\<forall>i < 2. bs_status (pl_buffers s) ! i = 1 \<longrightarrow> i \<in> set (in_flight s))"

lemma free_one:
  "i < 2 \<Longrightarrow> length (bs_status b) = 2 \<Longrightarrow>
     free_buffers [JInt (int i) :: int json] b = Returned (b\<lparr>bs_status := (bs_status b)[i := 0]\<rparr>)"
  by (auto simp: less_2_cases_iff)

lemma complete_free:
  assumes "pl_sync s = i # rest" "free_buffers [JInt (int i) :: int json] (pl_buffers s) = Returned b" "planes_ok s"
  shows "i < 2" "b = (pl_buffers s)\<lparr>bs_status := (bs_status (pl_buffers s))[i := 0]\<rparr>"
proof -
  show "i < 2"
    using assms(1,3) by (simp add: planes_ok_def in_flight_def Let_def)
  then show "b = (pl_buffers s)\<lparr>bs_status := (bs_status (pl_buffers s))[i := 0]\<rparr>"
    using assms(2,3) free_one [of i "pl_buffers s"] by (simp add: planes_ok_def Let_def del: free_buffers.simps)
qed

lemma planes_ok_step:
  assumes "plane_step vsync drops s t" "planes_ok s"
  shows "planes_ok t"
  using assms(1)
proof cases
  case (complete i rest b)
  then show ?thesis
    using complete_free [OF complete(2,3) assms(2)] assms(2) by (simp add: planes_ok_def in_flight_def Let_def)
qed (use assms(2) in \<open>auto simp: planes_ok_def in_flight_def submit_buffer_def Let_def\<close>)

lemma marked_step:
  assumes "plane_step vsync False s t" "planes_ok s" "marked_in_flight s"
  shows "marked_in_flight t"
  using assms(1)
proof cases
  case (submit env scanout)
  then show ?thesis
    using assms(2,3) by (auto simp: marked_in_flight_def in_flight_def submit_buffer_def Let_def planes_ok_def nth_list_update)
next
  case (complete i rest b)
  then show ?thesis
    using complete_free [OF complete(2,3) assms(2)] assms(2,3)
    by (auto simp: marked_in_flight_def in_flight_def planes_ok_def Let_def nth_list_update split: if_splits)
qed (use assms(3) in \<open>auto simp: marked_in_flight_def in_flight_def\<close>)

lemma planes_reachable:
  "(plane_step vsync drops)\<^sup>*\<^sup>* planes_start s \<Longrightarrow> planes_ok s \<and> (\<not> drops \<longrightarrow> marked_in_flight s)"
proof (induction rule: rtranclp_induct)
  case base
  show ?case
    by (simp add: planes_start_def buffer_state_init_def planes_ok_def marked_in_flight_def in_flight_def Let_def
        less_2_cases_iff)
next
  case (step s t)
  then show ?case
    using planes_ok_step marked_step by (cases drops) auto
qed

text \<open>What is still to be done before all buffers are free.\<close>

definition waiting_work :: "planes \<Rightarrow> nat" where
  "waiting_work s = 3 * length (pl_control s) + 2 * length (pl_pending s) + length (pl_sync s)"


text \<open>Both buffers are submitted.\<close>

definition demo_planes :: "u32 \<Rightarrow> u32 \<Rightarrow> nat \<Rightarrow> nat list \<Rightarrow> planes" where
  "demo_planes a b i c =
     \<lparr> pl_buffers = buffer_state_init\<lparr>bs_status := [a, b], bs_index := i\<rparr>, pl_control = c, pl_pending = [], pl_sync = [] \<rparr>"

lemma planes_start_demo: "planes_start = demo_planes 0 0 0 []"
  by (simp add: planes_start_def demo_planes_def buffer_state_init_def)

lemma demo_submit:
  "plane_step vsync drops (demo_planes 0 v 0 c) (demo_planes 1 v 1 (c @ [0]))"
  "plane_step vsync drops (demo_planes v 0 1 c) (demo_planes v 1 0 (c @ [1]))"
proof -
  define env where "env = \<lparr> de_width = 4, de_height = 2, de_texture = True, de_initial = False, de_reply = None, de_fence = True \<rparr>"
  show "plane_step vsync drops (demo_planes 0 v 0 c) (demo_planes 1 v 1 (c @ [0]))"
    "plane_step vsync drops (demo_planes v 0 1 c) (demo_planes v 1 0 (c @ [1]))"
    using plane_step.submit [of vsync "demo_planes 0 v 0 c" env drops 0] plane_step.submit [of vsync "demo_planes v 0 1 c" env drops 0]
    by (simp_all add: must_wait_def env_def demo_planes_def submit_buffer_def Let_def buffer_state_init_def)
qed


text \<open>
  The compositor drops requests, and then a renderer waits for ever: a single hardware buffer is
  copied once a frame for all scanouts of a renderer, so that the request of the second scanout is
  dropped without an answer, and after a dropped request a state is reached in which the renderer has
  to wait and no step is left.
\<close>

theorem dropped_request_blocks:
  "(case request_events demo_real demo_rp
      [(demo_renv 0 5, Some (demo_members (- 4) 0 0)), (demo_renv 0 5, Some (demo_members (- 4) 1 0)),
       (demo_renv 30 5, Some (demo_members (- 7) 0 0)), (demo_renv 30 5, Some (demo_members (- 7) 1 0)),
       (demo_renv 0 5, Some (demo_members (- 1) 0 0)), (demo_renv 0 5, Some (demo_members (- 1) 1 0))] request_start of
      Returned st \<Rightarrow> length (rq_sent st) = 3 | _ \<Rightarrow> False) \<and>
   (\<exists>s. (plane_step True True)\<^sup>*\<^sup>* planes_start s \<and> must_wait True (pl_buffers s) \<and> (\<nexists>t. plane_step True True s t))"
proof
  have drop: "plane_step True True (demo_planes a b i [j]) (demo_planes a b i [])" for a b i j
    using plane_step.drop [of True "demo_planes a b i [j]" j "[]" True] by (simp add: demo_planes_def)
  have "(plane_step True True)\<^sup>*\<^sup>* planes_start (demo_planes 1 1 0 [])"
    unfolding planes_start_demo using demo_submit [where c = "[]"] drop
    by (metis append_Nil converse_rtranclp_into_rtranclp rtranclp.rtrancl_refl)
  moreover have "must_wait True (pl_buffers (demo_planes 1 1 0 []))"
    by (simp add: must_wait_def demo_planes_def)
  moreover have "\<nexists>t. plane_step True True (demo_planes 1 1 0 []) t"
    by (auto elim!: plane_stepE simp: must_wait_def demo_planes_def)
  ultimately show "\<exists>s. (plane_step True True)\<^sup>*\<^sup>* planes_start s \<and> must_wait True (pl_buffers s) \<and> (\<nexists>t. plane_step True True s t)"
    by blast
qed code_simp

end
