(* ===== verification/Spec2Isabelle.thy ===== *)
theory Spec2Isabelle
  imports Gpu_Spec Proxy_Main Capset_Exchange Read_Back Touch_Merge Tcp_Forward Glsync Gesture Render2d Plane_Protocol
begin

text \<open>
  A verification development of remote-virtio-gpu, which gives a Linux guest a virtio GPU whose
  commands are executed by renderers on other hosts.

  \<^bold>\<open>The program.\<close>  The \<^emph>\<open>proxy\<close> (src/rvgpu-proxy, src/librvgpu, src/rvgpu-sanity) runs beside the guest.
  The kernel's virtio-lo module gives it the two virtqueues of the GPU.  It takes requests off them,
  checks each command, keeps a table of resources with the guest pages that back them, and sends
  commands and resource data over pipes; a thread moves the bytes between the pipes and the TCP
  connections of up to several hosts.  What comes back are fences, resources read back, and input
  events.  A \<^emph>\<open>renderer\<close> (src/rvgpu-renderer) reads the stream of commands, keeps a copy of every
  backing, and hands the commands to virglrenderer.  The renderers of a host share a \<^emph>\<open>compositor\<close>,
  which draws their pictures into a window, gives their buffers back, and sends them the input of
  the window system; a window manager sends it layouts.

  \<^bold>\<open>Theories and code.\<close>
  \<^item> Prelude: machine integers, bytes, results of fallible code, lists, pages, and the interface
    \<open>byte_sink\<close> of everything that takes bytes.
  \<^item> Virgl_Format: the pixel formats of include/librvgpu/rvgpu-virgl-format.h.
  \<^item> Sanity: src/rvgpu-sanity/rvgpu-sanity.c, number parsing and the checks of the commands.
  \<^item> Iov, Vqueue: the copies and mappings of guest memory (rvgpu-iov.c, rvgpu-map-guest.c) and the
    device side of a virtqueue (rvgpu-vqueue.c).
  \<^item> Rvgpu_Ctx, Rvgpu_Res: src/librvgpu/rvgpu.c, the pipes to the hosts, and res/rvgpu-res.c, the
    table of resources (interface \<open>res_table\<close>) and the stream of patches of a transfer.
  \<^item> Gpu_Device: the operations and handlers of rvgpu-gpu-device.c.  Gpu_Frames says what each leaves
    alone, Gpu_Memory counts the memory of the backings (interface \<open>table_invariant\<close>), Gpu_Requests
    follows the life of a request, Gpu_Liveness shows that the handlers return, Gpu_Properties states
    the results for whole handlers, and Gpu_Spec refines the device to a map of resources.
    Gpu_Shutdown is the end of the device, which answers all that waits (\<open>gpu_device_flush_pending\<close>), and Gpu_Start its start (\<open>gpu_device_init\<close>).
  \<^item> Proxy_Options, Proxy_Main: \<open>main\<close> of src/rvgpu-proxy/rvgpu-proxy.c, its options, its event loop, and
    the end, in which it signals the processes that use the virtual card and removes the device;
    \<open>proxy_run\<close> composes the whole life of the device.
  \<^item> Resource_Thread: the thread of the proxy that stores what is read back.  Read_Back and
    Capset_Exchange compose it, and the capability sets, with the renderer.
  \<^item> Utils: the helpers on descriptors of rvgpu-utils.c.  Virgl_Renderer: the command loop of a
    renderer (virgl/rvgpu-virgl.c).  Virgl_Stream and Virgl_Safety show what it makes of the stream of
    the proxy and that it stays within its buffers on any stream.
  \<^item> Tcp_Connect, Tcp_Forward: librvgpu/tcp/rvgpu-tcp.c.
  \<^item> Touch_Protocol, Renderer_Input, Touch_Slots, Input_Loop: the input state of a renderer
    (renderer/rvgpu-input.c) and its loop (\<open>rvgpu_input_event_loop\<close>); every reader of its messages
    (interface \<open>touch_reader\<close>) is shown the touch slots.  Input_Device: the devices of the guest
    (rvgpu-input-device.c).  Touch_Path and Touch_Merge compose both sides.
  \<^item> Glsync: the fences of the GL contexts (renderer/rvgpu-egl.c).  Render2d: the matrices of
    renderer/rvgpu-render2d.c.
  \<^item> Json, Layout, Focus, Gesture: the JSON helpers of the compositor, its layout list, the focus of
    the input, and the way of a gesture to its renderer (compositor/rvgpu-compositor.c).
  \<^item> Compositor: the main loop \<open>compositor_render\<close>, which collects the requests of the surfaces, draws a
    frame and returns the buffers; a run is a list of turns, each with the requests and layout commands
    that came in.  The interface \<open>run_invariant\<close> turns what one request and one frame keep into what a
    run keeps.  Buffers_Returned interprets it for the buffers (each is returned once and in order),
    Compositor_Fences for the fences of the uploads and for the form of the list of surfaces.
  \<^item> Request_Loop: the thread of the compositor that serves one renderer (\<open>request_event_loop\<close>), with the
    life of the shared buffers and the draw requests it passes on.  Plane_Protocol: the buffers between a
    renderer (\<open>rvgpu_egl_draw\<close> of renderer/rvgpu-egl.c), the compositor, and the sync connection
    (\<open>swap_completed_loop\<close>), as a step relation of the three.

  A struct is a record with its members' names, shortened and with a prefix where they would clash;
  a function of the code is a definition of the same name, its loops and larger branches definitions
  of their own.  Results are values of \<open>outcome\<close> (returned, the process exits, undefined behaviour,
  runs for ever) or options; the state is passed on.  Integers are words of their width.

  \<^bold>\<open>Parameters.\<close>  What is not code of the repository is an argument: the operations of virglrenderer,
  the layout and the decoding of the kernel's virtio-gpu structs, \<open>mmap\<close>, the success of \<open>realloc\<close>,
  the results of \<open>read\<close>, \<open>write\<close>, \<open>poll\<close>, \<open>splice\<close> and \<open>connect\<close> as scripts of what the kernel does, the
  arithmetic of floating point, and JSON values in place of their texts.  Hypotheses on them state
  what is documented (a read returns at most what was asked for, and so on).

  \<^bold>\<open>Bounds and fuel.\<close>  Loops are structural or have a termination proof.  \<open>vqueue_get_request\<close> may run
  for ever and is a partial function to options.  The dispatch loop of the renderer has as fuel the
  length of the stream plus one, enough since every turn takes at least the 16 bytes of a header;
  \<open>rvgpu_pr_dispatch_ends\<close> shows that it never runs out.  The loop over a virtqueue has as fuel the
  number of waiting requests.  The rounds at the end of the device have as fuel four for each sleep in
  which the guest does something, and four more: \<open>settle_returns\<close> shows that it is enough.  The waits
  for the users of the card have the time allowed, in milliseconds, as fuel, enough since a turn takes
  ten.  Touch messages leave room for the 13 events that can be inserted for one.

  \<^bold>\<open>Not modelled.\<close>  The back ends (GBM, Wayland, offscreen) but for the first buffers of a scanout, and
  the parts of the renderer and compositor that only call EGL, OpenGL or the window system; the set-up
  of the threads and connections of the compositor and its reaction to a failing \<open>poll\<close>; the options of
  the renderer; the loading of the plugin, the vsync timer and the release of the rings of the device,
  which only call the system; the uinput devices; the generated Wayland protocol code; and the test
  programs.  Threads are modelled one at
  a time, with the other's effects as steps or scripts, but for the layout handshake, the touch path
  and the protocol of the buffers, where both sides are steps of one relation.
\<close>

end
